(* ===== verification/Prelude.thy ===== *)
theory Prelude
  imports Complex_Main "HOL-Library.Char_ord" "HOL-Library.List_Lexorder" "HOL-Library.Product_Lexorder"
    "HOL-Library.Multiset"
begin

text \<open>
  Shared ground of the development: results as sums with their bind, traversal and fold,
  Python's ordered dictionaries as association lists, rendering of integers in messages,
  and the interfaces several components share: a machine whose steps keep an invariant
  (\<open>guarded_machine\<close>) and one whose states only grow (\<open>ordered_machine\<close>).
\<close>

section \<open>Results\<close>

named_theorems res_simps \<open>equations and inversions for results\<close>

text \<open>
  The exceptions of Python that the calculators raise: \<open>ValueError\<close> with its message, the two
  signals of \<open>decimal\<close> that the default context traps, overflows of dates, failing lookups and
  assertions.
\<close>

datatype py_error =
    ValueError string
  | InvalidOperation
  | DivisionByZero
  | OverflowError
  | KeyError string
  | AssertionError string

type_synonym 'a res = "py_error + 'a"

definition ebind :: "'e + 'a \<Rightarrow> ('a \<Rightarrow> 'e + 'b) \<Rightarrow> 'e + 'b" where
  "ebind m f = (case m of Inl e \<Rightarrow> Inl e | Inr x \<Rightarrow> f x)"

text \<open>For evaluation: binds are unfolded to case distinctions, whose branches are evaluated only
  when they are selected.\<close>

declare ebind_def [code_unfold]

definition ensure :: "bool \<Rightarrow> 'e \<Rightarrow> 'e + unit" where
  "ensure b e = (if b then Inr () else Inl e)"

fun emap :: "('a \<Rightarrow> 'e + 'b) \<Rightarrow> 'a list \<Rightarrow> 'e + 'b list" where
  "emap f [] = Inr []"
| "emap f (x # xs) = ebind (f x) (\<lambda>y. ebind (emap f xs) (\<lambda>ys. Inr (y # ys)))"

fun efold :: "('a \<Rightarrow> 's \<Rightarrow> 'e + 's) \<Rightarrow> 'a list \<Rightarrow> 's \<Rightarrow> 'e + 's" where
  "efold f [] s = Inr s"
| "efold f (x # xs) s = ebind (f x s) (efold f xs)"

definition is_ok :: "'e + 'a \<Rightarrow> bool" where
  "is_ok m = (case m of Inl _ \<Rightarrow> False | Inr _ \<Rightarrow> True)"

lemma ebind_Inl [simp, res_simps]: "ebind (Inl e) f = Inl e"
  by (simp add: ebind_def)

lemma ebind_Inr [simp, res_simps]: "ebind (Inr x) f = f x"
  by (simp add: ebind_def)

lemma ebind_eq_Inr [res_simps]: "ebind m f = Inr y \<longleftrightarrow> (\<exists>x. m = Inr x \<and> f x = Inr y)"
  by (cases m) (auto simp: ebind_def)

lemma ebind_eq_InrE:
  assumes "ebind m f = Inr y"
  obtains x where "m = Inr x" and "f x = Inr y"
  using assms by (auto simp: ebind_eq_Inr)

lemma ensure_eq_Inr [simp, res_simps]: "ensure b e = Inr u \<longleftrightarrow> b"
  by (simp add: ensure_def)

lemma ensure_eq_Inl [simp, res_simps]: "ensure b e = Inl e' \<longleftrightarrow> \<not> b \<and> e' = e"
  by (auto simp: ensure_def)

lemma ensure_True [simp]: "ensure True e = Inr ()"
  by (simp add: ensure_def)

lemma ensure_False [simp]: "ensure False e = Inl e"
  by (simp add: ensure_def)

lemma ebind_cong [fundef_cong]:
  assumes "m = m'" and "\<And>x. m' = Inr x \<Longrightarrow> f x = f' x"
  shows "ebind m f = ebind m' f'"
  using assms by (cases m') (auto simp: ebind_def)

lemma is_ok_simps [simp]: "is_ok (Inr x)" "\<not> is_ok (Inl e)"
  by (simp_all add: is_ok_def)

lemma emap_length: "emap f xs = Inr ys \<Longrightarrow> length ys = length xs"
  by (induction xs arbitrary: ys) (auto simp: ebind_eq_Inr)

lemma emap_nth: "emap f xs = Inr ys \<Longrightarrow> i < length xs \<Longrightarrow> f (xs ! i) = Inr (ys ! i)"
  by (induction xs arbitrary: ys i) (auto simp: ebind_eq_Inr nth_Cons split: nat.splits)

lemma emap_list_all2: "emap f xs = Inr ys \<Longrightarrow> list_all2 (\<lambda>x y. f x = Inr y) xs ys"
  by (induction xs arbitrary: ys) (auto simp: ebind_eq_Inr)

lemma emap_set: "emap f xs = Inr ys \<Longrightarrow> y \<in> set ys \<Longrightarrow> \<exists>x \<in> set xs. f x = Inr y"
  by (induction xs arbitrary: ys) (auto simp: ebind_eq_Inr)

lemma emap_sorted_wrt:
  assumes "emap f xs = Inr ys" and "sorted_wrt P xs"
    and "\<And>x x' y y'. x \<in> set xs \<Longrightarrow> x' \<in> set xs \<Longrightarrow> P x x' \<Longrightarrow> f x = Inr y \<Longrightarrow> f x' = Inr y' \<Longrightarrow> Q y y'"
  shows "sorted_wrt Q ys"
  unfolding sorted_wrt_iff_nth_less
proof (intro allI impI)
  fix i j assume ij: "i < j" "j < length ys"
  then have "j < length xs" "i < length xs" using emap_length [OF assms(1)] by auto
  then show "Q (ys ! i) (ys ! j)"
    using assms(2) ij(1) emap_nth [OF assms(1)] nth_mem
    by (intro assms(3) [of "xs ! i" "xs ! j"]) (auto simp: sorted_wrt_iff_nth_less)
qed

lemma emap_keys:
  assumes "emap f xs = Inr ys" and "\<And>x y. f x = Inr y \<Longrightarrow> h y = k x"
  shows "map h ys = map k xs"
  using emap_length [OF assms(1)] emap_nth [OF assms(1)] assms(2) by (auto simp: list_eq_iff_nth_eq)

lemma efold_append:
  "efold f (xs @ ys) s = ebind (efold f xs s) (efold f ys)"
  by (induction xs arbitrary: s) (auto simp: ebind_def split: sum.splits)

text \<open>An invariant of the step is an invariant of the loop.\<close>

lemma efold_invariant:
  assumes "efold f xs s = Inr t" and "I s"
    and "\<And>x s t. x \<in> set xs \<Longrightarrow> I s \<Longrightarrow> f x s = Inr t \<Longrightarrow> I t"
  shows "I t"
  using assms
proof (induction xs arbitrary: s)
  case Nil
  then show ?case by simp
next
  case (Cons x xs)
  from Cons.prems(1) obtain u where u: "f x s = Inr u" "efold f xs u = Inr t"
    by (auto simp: ebind_eq_Inr)
  have "I u" using Cons.prems(2,3) u(1) by auto
  then show ?case using Cons.IH u(2) Cons.prems(3) by auto
qed

section \<open>Ordered dictionaries\<close>

text \<open>
  A Python \<open>dict\<close> keeps insertion order; where the order of iteration reaches a result it is
  an association list with distinct keys. \<open>upd k d f\<close> is \<open>d[k] = f(d[k])\<close> of a
  \<open>defaultdict\<close> with default \<open>d\<close>.
\<close>

fun upd :: "'k \<Rightarrow> 'v \<Rightarrow> ('v \<Rightarrow> 'v) \<Rightarrow> ('k \<times> 'v) list \<Rightarrow> ('k \<times> 'v) list" where
  "upd k d f [] = [(k, f d)]"
| "upd k d f ((k', v) # m) = (if k' = k then (k', f v) # m else (k', v) # upd k d f m)"

definition lookup_or :: "'v \<Rightarrow> ('k \<times> 'v) list \<Rightarrow> 'k \<Rightarrow> 'v" where
  "lookup_or d m k = (case map_of m k of None \<Rightarrow> d | Some v \<Rightarrow> v)"

lemma map_of_upd:
  "map_of (upd k d f m) k' = (if k' = k then Some (f (lookup_or d m k)) else map_of m k')"
  by (induction m) (auto simp: lookup_or_def)

lemma lookup_or_upd:
  "lookup_or d (upd k d f m) k' = (if k' = k then f (lookup_or d m k) else lookup_or d m k')"
  by (simp add: lookup_or_def map_of_upd)

lemma keys_upd: "fst ` set (upd k d f m) = insert k (fst ` set m)"
proof (induction m)
  case Nil
  show ?case by simp
next
  case (Cons p m)
  then show ?case by (cases p) (simp add: insert_commute)
qed

lemma distinct_upd: "distinct (map fst m) \<Longrightarrow> distinct (map fst (upd k d f m))"
  by (induction m) (auto simp: keys_upd)

lemma sum_upd:
  fixes g :: "'v \<Rightarrow> 'a :: ab_group_add"
  shows "g d = 0 \<Longrightarrow> sum_list (map (g \<circ> snd) (upd k d f m))
    = sum_list (map (g \<circ> snd) m) + (g (f (lookup_or d m k)) - g (lookup_or d m k))"
  by (induction m) (auto simp: lookup_or_def)

text \<open>\<open>min(xs, key = f)\<close>: the first element with the least key.\<close>

fun min_key :: "('a \<Rightarrow> 'k :: linorder) \<Rightarrow> 'a list \<Rightarrow> 'a option" where
  "min_key f [] = None"
| "min_key f (x # xs) = Some (foldl (\<lambda>b y. if f y < f b then y else b) x xs)"

lemma min_key_eq:
  assumes "min_key f xs = Some y"
  shows "y \<in> set xs" and "\<forall>x \<in> set xs. f y \<le> f x"
proof -
  have fold: "foldl (\<lambda>b y. if f y < f b then y else b) a zs \<in> insert a (set zs)
      \<and> (\<forall>x \<in> insert a (set zs). f (foldl (\<lambda>b y. if f y < f b then y else b) a zs) \<le> f x)" for a zs
  proof (induction zs arbitrary: a)
    case Nil
    show ?case by simp
  next
    case (Cons z zs)
    show ?case using Cons [of "if f z < f a then z else a"] by (auto split: if_splits)
  qed
  obtain a zs where "xs = a # zs" "y = foldl (\<lambda>b y. if f y < f b then y else b) a zs"
    using assms by (cases xs) auto
  with fold [of a zs] show "y \<in> set xs" "\<forall>x \<in> set xs. f y \<le> f x" by auto
qed

text \<open>\<open>tuple(dict.fromkeys(xs))\<close>: without repetitions, first occurrences kept.\<close>

definition unique :: "'a list \<Rightarrow> 'a list" where
  "unique xs = rev (remdups (rev xs))"

lemma set_unique [simp]: "set (unique xs) = set xs" "distinct (unique xs)"
  by (simp_all add: unique_def)

section \<open>Text\<close>

text \<open>\<open>str(n)\<close> of an integer.\<close>

fun digits_of :: "nat \<Rightarrow> string" where
  "digits_of n = (if n < 10 then [char_of (48 + n)]
     else digits_of (n div 10) @ [char_of (48 + n mod 10)])"

declare digits_of.simps [simp del]

definition show_int :: "int \<Rightarrow> string" where
  "show_int i = (if i < 0 then ''-'' @ digits_of (nat (- i)) else digits_of (nat i))"

text \<open>\<open>str.strip()\<close> on ASCII text.\<close>

definition is_space :: "char \<Rightarrow> bool" where
  "is_space c = (let n = (of_char c :: nat) in (9 \<le> n \<and> n \<le> 13) \<or> (28 \<le> n \<and> n \<le> 32))"

definition strip :: "string \<Rightarrow> string" where
  "strip s = rev (dropWhile is_space (rev (dropWhile is_space s)))"

definition is_digit :: "char \<Rightarrow> bool" where
  "is_digit c = (let n = (of_char c :: nat) in 48 \<le> n \<and> n \<le> 57)"

definition digit_val :: "char \<Rightarrow> int" where
  "digit_val c = int (of_char c) - 48"

definition digits_val :: "string \<Rightarrow> int" where
  "digits_val s = foldl (\<lambda>n c. 10 * n + digit_val c) 0 s"

section \<open>Interfaces\<close>

text \<open>
  A machine: a state, operations, and an invariant that each operation keeps. The clients of
  the interface are the theorems about whole runs.
\<close>

locale guarded_machine =
  fixes step :: "'e \<Rightarrow> 's \<Rightarrow> 's"
    and inv :: "'s \<Rightarrow> bool"
  assumes step_inv: "inv s \<Longrightarrow> inv (step e s)"
begin

lemma run_inv: "inv s \<Longrightarrow> inv (fold step es s)"
  by (induction es arbitrary: s) (auto intro: step_inv)

end

text \<open>A machine whose states only move upwards in a preorder (revisions, ledgers, epochs).\<close>

locale ordered_machine = guarded_machine step inv
  for step :: "'e \<Rightarrow> 's \<Rightarrow> 's" and inv :: "'s \<Rightarrow> bool" +
  fixes below :: "'s \<Rightarrow> 's \<Rightarrow> bool"
  assumes below_refl: "below s s"
    and below_trans: "below s t \<Longrightarrow> below t u \<Longrightarrow> below s u"
    and step_below: "inv s \<Longrightarrow> below s (step e s)"
begin

lemma run_below: "inv s \<Longrightarrow> below s (fold step es s)"
proof (induction es arbitrary: s)
  case Nil
  show ?case by (simp add: below_refl)
next
  case (Cons e es)
  from Cons.prems have "below s (step e s)" by (rule step_below)
  moreover have "below (step e s) (fold step es (step e s))"
    using Cons.IH Cons.prems step_inv by blast
  ultimately show ?case by (auto intro: below_trans)
qed

end

end
