(* ===== verification/PyDecimal.thy ===== *)
theory PyDecimal
  imports Prelude
begin

text \<open>
  What the calculators use of Python's \<open>decimal\<close> module, on the numeric value of a finite
  decimal. Arithmetic rounds to the 28 significant digits of the default context (half to
  even); \<open>quantize\<close> and \<open>to_integral_value\<close> round to a number of places with an explicit
  mode, and \<open>quantize\<close> raises \<open>InvalidOperation\<close> when the result needs more digits than the
  context has. The exponent range of the context (\<open>Emax = 999999\<close>) is not modelled.
\<close>

type_synonym dec = rat

section \<open>Rounding to an integer\<close>

datatype rounding = HalfEven | HalfUp | Ceiling | Floor

definition round_half_even :: "rat \<Rightarrow> int" where
  "round_half_even r = (let f = \<lfloor>r\<rfloor>; d = r - of_int f in
     if d < 1/2 then f else if d > 1/2 then f + 1 else if even f then f else f + 1)"

definition round_half_up :: "rat \<Rightarrow> int" where
  "round_half_up r = (if 0 \<le> r then \<lfloor>r + 1/2\<rfloor> else - \<lfloor>- r + 1/2\<rfloor>)"

fun round_int :: "rounding \<Rightarrow> rat \<Rightarrow> int" where
  "round_int HalfEven r = round_half_even r"
| "round_int HalfUp r = round_half_up r"
| "round_int Ceiling r = \<lceil>r\<rceil>"
| "round_int Floor r = \<lfloor>r\<rfloor>"

text \<open>The interface the clients of rounding rely on.\<close>

locale rounding_mode =
  fixes rnd :: "rat \<Rightarrow> int"
  assumes rnd_of_int [simp]: "rnd (of_int k) = k"
    and rnd_mono: "x \<le> y \<Longrightarrow> rnd x \<le> rnd y"
    and rnd_near: "\<bar>of_int (rnd x) - x\<bar> < 1"
begin

lemma rnd_nonneg: "0 \<le> x \<Longrightarrow> 0 \<le> rnd x"
  using rnd_mono [of 0 x] rnd_of_int [of 0] by simp

lemma rnd_nonpos: "x \<le> 0 \<Longrightarrow> rnd x \<le> 0"
  using rnd_mono [of x 0] rnd_of_int [of 0] by simp

lemma rnd_le_int: "x \<le> of_int k \<Longrightarrow> rnd x \<le> k"
  using rnd_mono [of x "of_int k"] by simp

lemma rnd_ge_int: "of_int k \<le> x \<Longrightarrow> k \<le> rnd x"
  using rnd_mono [of "of_int k" x] by simp

lemma rnd_abs_le: "\<bar>x\<bar> \<le> of_int k \<Longrightarrow> \<bar>rnd x\<bar> \<le> k"
  using rnd_le_int [of x k] rnd_ge_int [of "- k" x] by (simp add: abs_le_iff)

end

locale nearest_rounding = rounding_mode +
  assumes rnd_half: "\<bar>of_int (rnd x) - x\<bar> \<le> 1/2"

text \<open>Rounding, given the integer part of the argument.\<close>

lemma floor_parts:
  fixes r :: rat
  shows "of_int \<lfloor>r\<rfloor> \<le> r" and "r < of_int \<lfloor>r\<rfloor> + 1"
  using floor_correct [of r] by simp_all

lemma round_half_even_half: "\<bar>of_int (round_half_even r) - r\<bar> \<le> 1/2"
proof -
  define f where "f = \<lfloor>r\<rfloor>"
  have "of_int f \<le> r" "r < of_int f + 1" using floor_parts [of r] by (simp_all add: f_def)
  then show ?thesis
    by (simp add: round_half_even_def Let_def f_def [symmetric] abs_le_iff)
qed

lemma round_half_even_mono:
  assumes "x \<le> y"
  shows "round_half_even x \<le> round_half_even y"
proof -
  define f g where "f = \<lfloor>x\<rfloor>" and "g = \<lfloor>y\<rfloor>"
  have x: "of_int f \<le> x" "x < of_int f + 1" using floor_parts [of x] by (simp_all add: f_def)
  have y: "of_int g \<le> y" "y < of_int g + 1" using floor_parts [of y] by (simp_all add: g_def)
  have "f \<le> g" using assms by (simp add: f_def g_def floor_mono)
  then consider "f = g" | "f + 1 \<le> g" by linarith
  then show ?thesis
  proof cases
    case 1
    then show ?thesis using x y assms
      by (simp add: round_half_even_def Let_def f_def [symmetric] g_def [symmetric])
  next
    case 2
    have "round_half_even x \<le> f + 1" "g \<le> round_half_even y"
      by (simp_all add: round_half_even_def Let_def f_def [symmetric] g_def [symmetric])
    then show ?thesis using 2 by linarith
  qed
qed

lemma round_half_up_half: "\<bar>of_int (round_half_up r) - r\<bar> \<le> 1/2"
proof (cases "0 \<le> r")
  case True
  then show ?thesis using floor_parts [of "r + 1/2"]
    unfolding round_half_up_def if_P [OF True] abs_le_iff by linarith
next
  case False
  then show ?thesis using floor_parts [of "- r + 1/2"]
    unfolding round_half_up_def if_not_P [OF False] abs_le_iff of_int_minus by linarith
qed

lemma round_half_up_mono:
  assumes "x \<le> y"
  shows "round_half_up x \<le> round_half_up y"
proof -
  consider "0 \<le> x" "0 \<le> y" | "\<not> 0 \<le> x" "0 \<le> y" | "\<not> 0 \<le> x" "\<not> 0 \<le> y"
    using assms by linarith
  then show ?thesis
  proof cases
    case 1
    then show ?thesis using floor_mono [of "x + 1/2" "y + 1/2"] assms
      unfolding round_half_up_def by (simp only: if_True)
  next
    case 2
    have "0 \<le> \<lfloor>- x + 1/2\<rfloor>" "0 \<le> \<lfloor>y + 1/2\<rfloor>" using 2 by (simp_all add: le_floor_iff)
    then show ?thesis using 2 unfolding round_half_up_def by (simp only: if_True if_False)
  next
    case 3
    then show ?thesis using floor_mono [of "- y + 1/2" "- x + 1/2"] assms
      unfolding round_half_up_def by (simp only: if_False) simp
  qed
qed

interpretation half_even: nearest_rounding round_half_even
proof
  fix x y :: rat and k :: int
  show "round_half_even (of_int k) = k" by (simp add: round_half_even_def)
  show "x \<le> y \<Longrightarrow> round_half_even x \<le> round_half_even y" by (rule round_half_even_mono)
  show "\<bar>of_int (round_half_even x) - x\<bar> \<le> 1/2" by (rule round_half_even_half)
  then show "\<bar>of_int (round_half_even x) - x\<bar> < 1" by linarith
qed

interpretation half_up: nearest_rounding round_half_up
proof
  fix x y :: rat and k :: int
  show "\<bar>of_int (round_half_up x) - x\<bar> \<le> 1/2" by (rule round_half_up_half)
  then show "\<bar>of_int (round_half_up x) - x\<bar> < 1" by (rule order.strict_trans1) simp
  show "x \<le> y \<Longrightarrow> round_half_up x \<le> round_half_up y" by (rule round_half_up_mono)
  have "\<bar>of_int (round_half_up (of_int k) - k) :: rat\<bar> \<le> 1/2"
    using round_half_up_half [of "of_int k"] by simp
  then have "\<bar>of_int (round_half_up (of_int k) - k) :: rat\<bar> < 1" by linarith
  then have "of_int \<bar>round_half_up (of_int k) - k\<bar> < (of_int 1 :: rat)" by simp
  then show "round_half_up (of_int k) = k" by (simp only: of_int_less_iff)
qed

interpretation ceiling: rounding_mode "ceiling :: rat \<Rightarrow> int"
  by unfold_locales (auto simp: ceiling_mono, linarith)

interpretation floor: rounding_mode "floor :: rat \<Rightarrow> int"
  by unfold_locales (auto simp: floor_mono, linarith)

lemma round_int_mode: "rounding_mode (round_int m)"
proof (cases m)
  case HalfEven
  then have "round_int m = round_half_even" by (simp add: fun_eq_iff)
  then show ?thesis using half_even.rounding_mode_axioms by simp
next
  case HalfUp
  then have "round_int m = round_half_up" by (simp add: fun_eq_iff)
  then show ?thesis using half_up.rounding_mode_axioms by simp
next
  case Ceiling
  then have "round_int m = ceiling" by (simp add: fun_eq_iff)
  then show ?thesis using ceiling.rounding_mode_axioms by simp
next
  case Floor
  then have "round_int m = floor" by (simp add: fun_eq_iff)
  then show ?thesis using floor.rounding_mode_axioms by simp
qed

interpretation mode: rounding_mode "round_int m" for m
  by (rule round_int_mode)

lemma round_half_even_minus: "round_half_even (- r) = - round_half_even r"
proof (cases "r \<in> \<int>")
  case True
  then show ?thesis
    by (elim Ints_cases) (simp add: half_even.rnd_of_int flip: of_int_minus)
next
  case False
  define f where "f = \<lfloor>r\<rfloor>"
  have r: "of_int f \<le> r" "r < of_int f + 1" using floor_parts [of r] by (simp_all add: f_def)
  have "r \<noteq> of_int f" using False by (metis Ints_of_int)
  then have "\<lfloor>- r\<rfloor> = - f - 1" using r by (intro floor_unique) auto
  then show ?thesis using r
    by (simp add: round_half_even_def Let_def f_def [symmetric])
qed

section \<open>Quantising to decimal places\<close>

definition prec_limit :: int where
  "prec_limit = 10 ^ 28"

definition quant :: "rounding \<Rightarrow> nat \<Rightarrow> dec \<Rightarrow> dec" where
  "quant m k x = of_int (round_int m (x * 10 ^ k)) / 10 ^ k"

definition quantize :: "rounding \<Rightarrow> nat \<Rightarrow> dec \<Rightarrow> dec res" where
  "quantize m k x =
     (if \<bar>round_int m (x * 10 ^ k)\<bar> < prec_limit then Inr (quant m k x) else Inl InvalidOperation)"

definition has_places :: "nat \<Rightarrow> dec \<Rightarrow> bool" where
  "has_places k x = (x * 10 ^ k \<in> \<int>)"

lemma has_places_iff: "has_places k x \<longleftrightarrow> (\<exists>n. x = of_int n / 10 ^ k)"
  by (auto simp: has_places_def elim!: Ints_cases simp: field_simps)

lemma has_places_quant [simp]: "has_places k (quant m k x)"
  by (auto simp: has_places_iff quant_def)

lemma quant_id: "has_places k x \<Longrightarrow> quant m k x = x"
  by (auto simp: has_places_iff quant_def)

lemma has_places_add: "has_places k x \<Longrightarrow> has_places k y \<Longrightarrow> has_places k (x + y)"
  by (auto simp: has_places_def ring_distribs)

lemma has_places_minus: "has_places k x \<Longrightarrow> has_places k (- x)"
  by (auto simp: has_places_def)

lemma has_places_diff: "has_places k x \<Longrightarrow> has_places k y \<Longrightarrow> has_places k (x - y)"
  by (auto simp: has_places_def ring_distribs left_diff_distrib)

lemma has_places_of_int [simp]: "has_places k (of_int n)"
  by (auto simp: has_places_def)

lemma has_places_of_nat [simp]: "has_places k (of_nat n)"
  by (auto simp: has_places_def)

lemma has_places_0 [simp]: "has_places k 0"
  by (simp add: has_places_def)

lemma has_places_sum_list: "(\<And>x. x \<in> set xs \<Longrightarrow> has_places k x) \<Longrightarrow> has_places k (sum_list xs)"
  by (induction xs) (auto intro: has_places_add)

lemma quant_mono: "x \<le> y \<Longrightarrow> quant m k x \<le> quant m k y"
  unfolding quant_def by (intro divide_right_mono) (simp_all add: mode.rnd_mono)

lemma quant_0 [simp]: "quant m k 0 = 0"
  by (rule quant_id) simp

lemma quant_nonneg: "0 \<le> x \<Longrightarrow> 0 \<le> quant m k x"
  using quant_mono [of 0 x] by simp

lemma quant_error: "\<bar>quant m k x - x\<bar> < 1 / 10 ^ k"
proof -
  have "\<bar>of_int (round_int m (x * 10 ^ k)) - x * 10 ^ k\<bar> < 1" by (rule mode.rnd_near)
  then have "\<bar>(of_int (round_int m (x * 10 ^ k)) - x * 10 ^ k) / 10 ^ k\<bar> < 1 / 10 ^ k"
    by (simp add: abs_divide divide_strict_right_mono)
  then show ?thesis by (simp add: quant_def diff_divide_distrib)
qed

lemma quant_error_half:
  assumes "m = HalfEven \<or> m = HalfUp"
  shows "\<bar>quant m k x - x\<bar> \<le> 1 / (2 * 10 ^ k)"
proof -
  have "\<bar>of_int (round_int m (x * 10 ^ k)) - x * 10 ^ k\<bar> \<le> 1/2"
    using assms half_even.rnd_half [of "x * 10 ^ k"] half_up.rnd_half [of "x * 10 ^ k"] by (elim disjE) simp_all
  then have "\<bar>(of_int (round_int m (x * 10 ^ k)) - x * 10 ^ k) / 10 ^ k\<bar> \<le> (1/2) / 10 ^ k"
    by (simp only: abs_divide) (simp add: divide_right_mono field_simps)
  then show ?thesis by (simp add: quant_def diff_divide_distrib)
qed

lemma quantize_eq_Inr: "quantize m k x = Inr y \<longleftrightarrow>
    y = quant m k x \<and> \<bar>round_int m (x * 10 ^ k)\<bar> < prec_limit"
  by (auto simp: quantize_def)

lemma quantize_InrD [dest]: "quantize m k x = Inr y \<Longrightarrow> y = quant m k x"
  by (simp add: quantize_eq_Inr)

lemma quantize_bound:
  assumes "quantize m k x = Inr y"
  shows "\<bar>y\<bar> * 10 ^ k < of_int prec_limit"
proof -
  have "\<bar>round_int m (x * 10 ^ k)\<bar> < prec_limit" and y: "y = quant m k x"
    using assms by (auto simp: quantize_eq_Inr)
  then have "of_int \<bar>round_int m (x * 10 ^ k)\<bar> < (of_int prec_limit :: rat)" by (simp only: of_int_less_iff)
  then show ?thesis by (simp add: y quant_def abs_divide)
qed

lemma quantize_has_places: "quantize m k x = Inr y \<Longrightarrow> has_places k y"
  by auto

lemma quantize_exact:
  assumes "has_places k x" and "\<bar>x\<bar> * 10 ^ k < of_int prec_limit"
  shows "quantize m k x = Inr x"
proof -
  from assms(1) obtain n where n: "x = of_int n / 10 ^ k" by (auto simp: has_places_iff)
  have "of_int \<bar>n\<bar> < (of_int prec_limit :: rat)" using assms(2) by (simp add: n abs_divide)
  then have "\<bar>n\<bar> < prec_limit" by (simp only: of_int_less_iff)
  moreover have "x * 10 ^ k = of_int n" by (simp add: n)
  ultimately show ?thesis using assms(1) by (simp add: quantize_def quant_id)
qed

text \<open>\<open>to_integral_value\<close> never signals.\<close>

definition to_integral :: "rounding \<Rightarrow> dec \<Rightarrow> int" where
  "to_integral m x = round_int m x"

section \<open>Rounding to the context's precision\<close>

text \<open>
  \<open>adjusted x\<close> is the exponent of the most significant digit of a nonzero \<open>x\<close>
  (\<open>Decimal.adjusted()\<close>), found from the digit counts of numerator and denominator.
\<close>

fun count_digits :: "int \<Rightarrow> nat" where
  "count_digits n = (if n < 10 then 1 else Suc (count_digits (n div 10)))"

declare count_digits.simps [simp del]

definition adjusted :: "dec \<Rightarrow> int" where
  "adjusted x = (case quotient_of \<bar>x\<bar> of (n, d) \<Rightarrow>
     let a = int (count_digits n) - int (count_digits d)
     in if \<bar>x\<bar> < 10 powi a then a - 1 else a)"

definition fix_prec :: "dec \<Rightarrow> dec" where
  "fix_prec x = (if x = 0 then 0
     else let e = adjusted x - 27 in of_int (round_half_even (x / 10 powi e)) * 10 powi e)"

lemma count_digits_pos: "0 < count_digits n"
  by (subst count_digits.simps) simp

lemma count_digits_bounds:
  "1 \<le> n \<Longrightarrow> 10 ^ (count_digits n - 1) \<le> n \<and> n < 10 ^ count_digits n"
proof (induction n rule: count_digits.induct)
  case (1 n)
  show ?case
  proof (cases "n < 10")
    case True
    then show ?thesis using 1(2) by (simp add: count_digits.simps [of n])
  next
    case False
    then have ih: "10 ^ (count_digits (n div 10) - 1) \<le> n div 10"
      "n div 10 < 10 ^ count_digits (n div 10)"
      using 1 by auto
    have c: "count_digits n = Suc (count_digits (n div 10))"
      using False by (simp add: count_digits.simps [of n])
    obtain k where k: "count_digits (n div 10) = Suc k"
      using count_digits_pos gr0_implies_Suc by blast
    from ih(1) k have "10 ^ k * 10 \<le> n" by simp
    moreover from ih(2) have "n < 10 ^ count_digits (n div 10) * 10" by linarith
    ultimately show ?thesis by (simp add: c k mult.commute)
  qed
qed

lemma powi_ten_pos [simp]: "0 < (10 :: rat) powi e"
  by simp

lemma powi_ten_add: "(10 :: rat) powi (a + b) = 10 powi a * 10 powi b"
  by (simp add: power_int_add)

lemma powi_ten_less_iff: "(10 :: rat) powi a < 10 powi b \<longleftrightarrow> a < b"
proof
  assume l: "(10 :: rat) powi a < 10 powi b"
  show "a < b"
  proof (rule ccontr)
    assume "\<not> a < b"
    then have "(10 :: rat) powi b \<le> 10 powi a" by (intro power_int_increasing) simp_all
    then show False using l by simp
  qed
qed (rule power_int_strict_increasing, simp_all)

lemma adjusted_bounds:
  assumes "x \<noteq> 0"
  shows "10 powi adjusted x \<le> \<bar>x\<bar>" and "\<bar>x\<bar> < 10 powi (adjusted x + 1)"
proof -
  obtain n d where q: "quotient_of \<bar>x\<bar> = (n, d)" by (cases "quotient_of \<bar>x\<bar>")
  then have x: "\<bar>x\<bar> = of_int n / of_int d" and d: "0 < d"
    by (auto dest: quotient_of_div quotient_of_denom_pos)
  have "0 < \<bar>x\<bar>" using assms by simp
  then have n: "0 < n" using d by (simp add: x zero_less_divide_iff)
  define i j where "i = count_digits n" and "j = count_digits d"
  have i: "10 ^ (i - 1) \<le> n" "n < 10 ^ i" and j: "10 ^ (j - 1) \<le> d" "d < 10 ^ j"
    using count_digits_bounds n d by (auto simp: i_def j_def)
  have ij: "0 < i" "0 < j" by (simp_all add: i_def j_def count_digits_pos)
  have rn: "10 ^ (i - 1) \<le> (of_int n :: rat)" "(of_int n :: rat) < 10 ^ i"
    and rd: "10 ^ (j - 1) \<le> (of_int d :: rat)" "(of_int d :: rat) < 10 ^ j"
    using i j by (metis of_int_le_iff of_int_less_iff of_int_numeral of_int_power)+
  define a where "a = int i - int j"
  have p: "(10 :: rat) powi (a + 1) = 10 ^ i / 10 ^ (j - 1)"
    "(10 :: rat) powi (a - 1) = 10 ^ (i - 1) / 10 ^ j"
  proof -
    have e: "a + 1 = int i - int (j - 1)" "a - 1 = int (i - 1) - int j"
      using ij by (simp_all add: a_def of_nat_diff)
    show "(10 :: rat) powi (a + 1) = 10 ^ i / 10 ^ (j - 1)"
      "(10 :: rat) powi (a - 1) = 10 ^ (i - 1) / 10 ^ j"
      unfolding e by (simp_all add: power_int_diff del: of_nat_diff of_nat_Suc One_nat_def)
  qed
  have hi: "\<bar>x\<bar> < 10 powi (a + 1)"
    unfolding x p using rn(2) rd(1) d n by (intro frac_less) auto
  have lo: "10 powi (a - 1) \<le> \<bar>x\<bar>"
    unfolding x p using rn(1) rd(2) d n by (intro frac_le) auto
  have adj: "adjusted x = (if \<bar>x\<bar> < 10 powi a then a - 1 else a)"
    by (simp add: adjusted_def q i_def j_def a_def Let_def)
  show "10 powi adjusted x \<le> \<bar>x\<bar>" "\<bar>x\<bar> < 10 powi (adjusted x + 1)"
    using hi lo by (auto simp: adj)
qed

lemma fix_prec_0 [simp]: "fix_prec 0 = 0"
  by (simp add: fix_prec_def)

lemma adjusted_minus: "adjusted (- x) = adjusted x"
  by (simp add: adjusted_def)

lemma fix_prec_minus: "fix_prec (- x) = - fix_prec x"
  by (simp add: fix_prec_def adjusted_minus Let_def round_half_even_minus)

text \<open>Numbers of at most 28 significant digits are represented exactly.\<close>

lemma fix_prec_scaled:
  assumes "\<bar>n\<bar> < prec_limit"
  shows "fix_prec (of_int n * 10 powi e) = of_int n * 10 powi e"
proof (cases "n = 0")
  case False
  define x :: rat where "x = of_int n * 10 powi e"
  have x0: "x \<noteq> 0" using False by (simp add: x_def)
  define e' where "e' = adjusted x - 27"
  have "(of_int \<bar>n\<bar> :: rat) < 10 powi 28"
    using assms by (simp add: prec_limit_def flip: of_int_less_iff [where 'a = rat])
  then have "\<bar>x\<bar> < 10 powi 28 * 10 powi e"
    unfolding x_def abs_mult by (simp add: mult_strict_right_mono)
  with adjusted_bounds(1) [OF x0] have "(10 :: rat) powi adjusted x < 10 powi (28 + e)"
    by (simp add: powi_ten_add)
  then have "adjusted x < 28 + e"
    by (simp only: powi_ten_less_iff)
  then have "e' \<le> e" by (simp add: e'_def)
  then have "x / 10 powi e' = of_int (n * 10 ^ nat (e - e'))"
    by (simp add: x_def power_int_diff [symmetric] power_int_def [of _ "e - e'"] flip: times_divide_eq_right)
  then have "of_int (round_half_even (x / 10 powi e')) * 10 powi e' = x"
    by (metis half_even.rnd_of_int nonzero_eq_divide_eq powi_ten_pos less_irrefl)
  then show ?thesis
    using x0 by (simp add: fix_prec_def e'_def [symmetric] flip: x_def)
qed simp

lemma fix_prec_idem [simp]: "fix_prec (fix_prec x) = fix_prec x"
proof (cases "x = 0")
  case False
  define e where "e = adjusted x - 27"
  define n where "n = round_half_even (x / 10 powi e)"
  have f: "fix_prec x = of_int n * 10 powi e"
    using False by (simp add: fix_prec_def e_def n_def Let_def)
  have "\<bar>x\<bar> < 10 powi (28 + e)"
    using adjusted_bounds(2) [OF False] by (simp add: e_def add.commute)
  then have "\<bar>x / 10 powi e\<bar> \<le> of_int (10 ^ 28)"
    by (simp add: powi_ten_add abs_divide divide_le_eq)
  then have "\<bar>n\<bar> \<le> 10 ^ 28" unfolding n_def by (rule half_even.rnd_abs_le)
  then consider "\<bar>n\<bar> < prec_limit" | "n = 10 ^ 28" | "n = - (10 ^ 28)"
    unfolding prec_limit_def by linarith
  then show ?thesis
  proof cases
    case 1
    then show ?thesis unfolding f by (rule fix_prec_scaled)
  next
    case 2
    then have "fix_prec x = of_int 1 * 10 powi (28 + e)" by (simp add: f powi_ten_add)
    then show ?thesis using fix_prec_scaled [of 1 "28 + e"] by (simp add: prec_limit_def)
  next
    case 3
    then have "fix_prec x = of_int (- 1) * 10 powi (28 + e)" by (simp add: f powi_ten_add)
    then show ?thesis using fix_prec_scaled [of "- 1" "28 + e"] by (simp add: prec_limit_def)
  qed
qed simp

lemma fix_prec_places:
  assumes "has_places k x" and "\<bar>x\<bar> * 10 ^ k < of_int prec_limit"
  shows "fix_prec x = x"
proof -
  from assms(1) obtain n where n: "x = of_int n / 10 ^ k" by (auto simp: has_places_iff)
  have "of_int \<bar>n\<bar> < (of_int prec_limit :: rat)" using assms(2) by (simp add: n abs_divide)
  then have "\<bar>n\<bar> < prec_limit" by (simp only: of_int_less_iff)
  from fix_prec_scaled [OF this, of "- int k"] show ?thesis
    by (simp add: n power_int_minus field_simps)
qed

text \<open>Evaluation: short decimals, which need no rounding, are recognised by their denominator.\<close>

lemma fix_prec_short:
  assumes "quotient_of x = (n, d)" and "10 ^ 6 mod d = 0" and "\<bar>n\<bar> * (10 ^ 6 div d) < prec_limit"
  shows "fix_prec x = x"
proof (rule fix_prec_places [of 6])
  have d: "0 < d" using assms(1) by (rule quotient_of_denom_pos)
  have x: "x = of_int n / of_int d" using assms(1) by (rule quotient_of_div)
  define q where "q = 10 ^ 6 div d"
  have q: "d * q = 10 ^ 6" using assms(2) by (simp add: q_def mod_eq_0_iff_dvd)
  then have "(of_int d * of_int q :: rat) = 10 ^ 6" by (metis of_int_mult of_int_numeral of_int_power)
  then have e: "x * 10 ^ 6 = of_int (n * q)" using d by (simp add: x field_simps)
  then show "has_places 6 x" unfolding has_places_def by simp
  have "0 < q" using q d by (metis zero_less_mult_pos zero_less_numeral zero_less_power)
  then have "\<bar>x\<bar> * 10 ^ 6 = of_int (\<bar>n\<bar> * q)"
    using arg_cong [OF e, of abs] by (simp add: abs_mult)
  then show "\<bar>x\<bar> * 10 ^ 6 < of_int prec_limit"
    using assms(3) by (simp only: q_def of_int_less_iff)
qed

lemma fix_prec_code [code]:
  "fix_prec x = (case quotient_of x of (n, d) \<Rightarrow>
     if 10 ^ 6 mod d = 0 \<and> \<bar>n\<bar> * (10 ^ 6 div d) < prec_limit
     then (if d = 1 then of_int n else of_int n / of_int d)
     else if x = 0 then 0
     else let e = adjusted x - 27 in of_int (round_half_even (x / 10 powi e)) * 10 powi e)"
proof (cases "quotient_of x")
  case (Pair n d)
  have x: "(if d = 1 then of_int n else of_int n / of_int d) = x"
    using quotient_of_div [OF Pair] by simp
  show ?thesis
  proof (cases "10 ^ 6 mod d = 0 \<and> \<bar>n\<bar> * (10 ^ 6 div d) < prec_limit")
    case True
    then show ?thesis using fix_prec_short [OF Pair] x by (simp only: Pair prod.case if_True simp_thms)
  next
    case False
    then show ?thesis unfolding Pair prod.case if_not_P [OF False] by (simp add: fix_prec_def)
  qed
qed

lemma has_places_code [code]: "has_places k x \<longleftrightarrow> of_int \<lfloor>x * 10 ^ k\<rfloor> = x * 10 ^ k"
  unfolding has_places_def by (metis Ints_cases Ints_of_int floor_of_int)

lemma fix_prec_of_int: "\<bar>n\<bar> < prec_limit \<Longrightarrow> fix_prec (of_int n) = of_int n"
  using fix_prec_scaled [of n 0] by simp

lemma fix_prec_pos_bounds:
  assumes "0 < x"
  shows "10 powi adjusted x \<le> fix_prec x" and "fix_prec x \<le> 10 powi (adjusted x + 1)"
proof -
  define e where "e = adjusted x - 27"
  have b: "10 powi (e + 27) \<le> x" "x < 10 powi (e + 28)"
    using adjusted_bounds [of x] assms by (simp_all add: e_def add.commute)
  have "of_int (10 ^ 27) \<le> x / 10 powi e" "x / 10 powi e \<le> of_int (10 ^ 28)"
    using b by (simp_all add: powi_ten_add field_simps)
  then have r: "10 ^ 27 \<le> round_half_even (x / 10 powi e)" "round_half_even (x / 10 powi e) \<le> 10 ^ 28"
    using half_even.rnd_ge_int half_even.rnd_le_int by blast+
  have f: "fix_prec x = of_int (round_half_even (x / 10 powi e)) * 10 powi e"
    using assms by (simp add: fix_prec_def e_def Let_def)
  from r have "of_int (10 ^ 27) \<le> (of_int (round_half_even (x / 10 powi e)) :: rat)"
    "(of_int (round_half_even (x / 10 powi e)) :: rat) \<le> of_int (10 ^ 28)"
    by (simp_all only: of_int_le_iff)
  then have "of_int (10 ^ 27) * 10 powi e \<le> fix_prec x" "fix_prec x \<le> of_int (10 ^ 28) * 10 powi e"
    unfolding f by (simp_all only: mult_right_mono powi_ten_pos less_imp_le)
  moreover have "(10 :: rat) powi adjusted x = of_int (10 ^ 27) * 10 powi e"
    "(10 :: rat) powi (adjusted x + 1) = of_int (10 ^ 28) * 10 powi e"
    by (simp_all add: e_def power_int_diff power_int_add)
  ultimately show "10 powi adjusted x \<le> fix_prec x" "fix_prec x \<le> 10 powi (adjusted x + 1)"
    by simp_all
qed

lemma fix_prec_mono_pos:
  assumes "0 < x" and "x \<le> y"
  shows "fix_prec x \<le> fix_prec y"
proof -
  have "(10 :: rat) powi adjusted x \<le> x" "y < (10 :: rat) powi (adjusted y + 1)"
    using adjusted_bounds [of x] adjusted_bounds [of y] assms by simp_all
  then have "(10 :: rat) powi adjusted x < 10 powi (adjusted y + 1)" using assms(2) by linarith
  then have "adjusted x < adjusted y + 1" by (simp only: powi_ten_less_iff)
  then consider "adjusted x = adjusted y" | "adjusted x + 1 \<le> adjusted y" by linarith
  then show ?thesis
  proof cases
    case 1
    have "round_half_even (x / 10 powi (adjusted y - 27)) \<le> round_half_even (y / 10 powi (adjusted y - 27))"
      using assms by (intro half_even.rnd_mono divide_right_mono) simp_all
    then show ?thesis using assms 1 by (simp add: fix_prec_def Let_def mult_right_mono)
  next
    case 2
    have "fix_prec x \<le> 10 powi (adjusted x + 1)" using fix_prec_pos_bounds(2) assms by blast
    also have "\<dots> \<le> 10 powi adjusted y" using 2 by (simp add: power_int_increasing)
    also have "\<dots> \<le> fix_prec y" using fix_prec_pos_bounds(1) assms by simp
    finally show ?thesis .
  qed
qed

lemma fix_prec_nonneg: "0 \<le> x \<Longrightarrow> 0 \<le> fix_prec x"
  using fix_prec_pos_bounds(1) [of x] powi_ten_pos [of "adjusted x"]
  by (cases "x = 0") (simp, linarith)

lemma fix_prec_pos: "0 < x \<Longrightarrow> 0 < fix_prec x"
  using fix_prec_pos_bounds(1) [of x] powi_ten_pos [of "adjusted x"] by (rule less_le_trans [rotated])

lemma fix_prec_nonpos: "x \<le> 0 \<Longrightarrow> fix_prec x \<le> 0"
  using fix_prec_nonneg [of "- x"] by (simp add: fix_prec_minus)

lemma fix_prec_mono: "x \<le> y \<Longrightarrow> fix_prec x \<le> fix_prec y"
proof -
  assume le: "x \<le> y"
  consider "0 < x" | "x \<le> 0" "0 \<le> y" | "y < 0" by linarith
  then show ?thesis
  proof cases
    case 1
    then show ?thesis using le by (rule fix_prec_mono_pos)
  next
    case 2
    then show ?thesis using fix_prec_nonneg fix_prec_nonpos order.trans by blast
  next
    case 3
    then have "fix_prec (- y) \<le> fix_prec (- x)" using le by (intro fix_prec_mono_pos) auto
    then show ?thesis by (simp add: fix_prec_minus)
  qed
qed

text \<open>The operations, as the default context performs them.\<close>

definition dadd :: "dec \<Rightarrow> dec \<Rightarrow> dec" where
  "dadd x y = fix_prec (x + y)"

definition dsub :: "dec \<Rightarrow> dec \<Rightarrow> dec" where
  "dsub x y = fix_prec (x - y)"

definition dmul :: "dec \<Rightarrow> dec \<Rightarrow> dec" where
  "dmul x y = fix_prec (x * y)"

definition dneg :: "dec \<Rightarrow> dec" where
  "dneg x = fix_prec (- x)"

definition dabs :: "dec \<Rightarrow> dec" where
  "dabs x = fix_prec \<bar>x\<bar>"

text \<open>Division by zero raises: \<open>DivisionByZero\<close>, or \<open>InvalidOperation\<close> for \<open>0 / 0\<close>.\<close>

definition ddiv :: "dec \<Rightarrow> dec \<Rightarrow> dec res" where
  "ddiv x y = (if y = 0 then Inl (if x = 0 then InvalidOperation else DivisionByZero)
     else Inr (fix_prec (x / y)))"

text \<open>\<open>sum(values, Decimal(0))\<close>: from the left, rounding after each addition.\<close>

definition dsum :: "dec list \<Rightarrow> dec" where
  "dsum xs = foldl dadd 0 xs"

lemma dadd_mono: "x \<le> x' \<Longrightarrow> y \<le> y' \<Longrightarrow> dadd x y \<le> dadd x' y'"
  by (simp add: dadd_def fix_prec_mono)

lemma dmul_mono: "0 \<le> x \<Longrightarrow> y \<le> y' \<Longrightarrow> dmul x y \<le> dmul x y'"
  by (simp add: dmul_def fix_prec_mono mult_left_mono)

lemma dmul_nonneg: "0 \<le> x \<Longrightarrow> 0 \<le> y \<Longrightarrow> 0 \<le> dmul x y"
  by (simp add: dmul_def fix_prec_nonneg)

lemma ddiv_nonneg: "ddiv x y = Inr q \<Longrightarrow> 0 \<le> x \<Longrightarrow> 0 \<le> y \<Longrightarrow> 0 \<le> q"
  by (auto simp: ddiv_def split: if_splits intro!: fix_prec_nonneg divide_nonneg_nonneg)

lemma dadd_nonneg: "0 \<le> x \<Longrightarrow> 0 \<le> y \<Longrightarrow> 0 \<le> dadd x y"
  by (simp add: dadd_def fix_prec_nonneg)

lemma abs_add_less: "\<bar>x\<bar> < a \<Longrightarrow> \<bar>y\<bar> < b \<Longrightarrow> \<bar>x + y\<bar> < a + (b :: rat)"
  by simp

lemma abs_diff_less: "\<bar>x\<bar> < a \<Longrightarrow> \<bar>y\<bar> < b \<Longrightarrow> \<bar>x - y\<bar> < a + (b :: rat)"
  by simp

lemma sum_abs_bound:
  "(\<And>x. x \<in> set xs \<Longrightarrow> \<bar>x\<bar> \<le> B) \<Longrightarrow> sum_list (map abs xs) \<le> of_nat (length xs) * (B :: rat)"
  by (induction xs) (auto simp: distrib_right intro: add_mono)

lemma foldl_dadd_nonneg: "0 \<le> a \<Longrightarrow> (\<And>x. x \<in> set xs \<Longrightarrow> 0 \<le> x) \<Longrightarrow> 0 \<le> foldl dadd a xs"
  by (induction xs arbitrary: a) (auto intro: dadd_nonneg)

lemma dsum_nonneg: "(\<And>x. x \<in> set xs \<Longrightarrow> 0 \<le> x) \<Longrightarrow> 0 \<le> dsum xs"
  by (simp add: dsum_def foldl_dadd_nonneg)

text \<open>Sums of amounts with \<open>k\<close> places are exact while they stay within the precision.\<close>

lemma dadd_exact:
  assumes "has_places k x" and "has_places k y" and "\<bar>x + y\<bar> * 10 ^ k < of_int prec_limit"
  shows "dadd x y = x + y"
  unfolding dadd_def using assms by (intro fix_prec_places has_places_add)

lemma dsub_exact:
  assumes "has_places k x" and "has_places k y" and "\<bar>x - y\<bar> * 10 ^ k < of_int prec_limit"
  shows "dsub x y = x - y"
  unfolding dsub_def using assms by (intro fix_prec_places has_places_diff)

lemma foldl_dadd_exact:
  assumes "has_places k a" and "\<And>x. x \<in> set xs \<Longrightarrow> has_places k x"
    and "(\<bar>a\<bar> + sum_list (map abs xs)) * 10 ^ k < of_int prec_limit"
  shows "foldl dadd a xs = a + sum_list xs"
  using assms
proof (induction xs arbitrary: a)
  case Nil
  then show ?case by simp
next
  case (Cons x xs)
  have nn: "0 \<le> sum_list (map abs xs)" by (rule sum_list_nonneg) auto
  have "\<bar>a + x\<bar> \<le> \<bar>a\<bar> + \<bar>x\<bar>" by (rule abs_triangle_ineq)
  then have le: "\<bar>a + x\<bar> + sum_list (map abs xs) \<le> \<bar>a\<bar> + sum_list (map abs (x # xs))" by simp
  have bound: "(\<bar>a + x\<bar> + sum_list (map abs xs)) * 10 ^ k < of_int prec_limit"
    using Cons.prems(3) le by (meson le_less_trans mult_right_mono zero_le_numeral zero_le_power)
  have "\<bar>a + x\<bar> * 10 ^ k \<le> (\<bar>a + x\<bar> + sum_list (map abs xs)) * 10 ^ k"
    using nn by (intro mult_right_mono) auto
  then have "\<bar>a + x\<bar> * 10 ^ k < of_int prec_limit" using bound by (rule le_less_trans)
  then have "dadd a x = a + x"
    using Cons.prems(1,2) by (intro dadd_exact [of k]) auto
  moreover have "has_places k (a + x)" using Cons.prems(1,2) by (auto intro: has_places_add)
  ultimately show ?case
    using Cons.IH [of "a + x"] Cons.prems(2) bound by (simp add: add.assoc)
qed

lemma dsum_exact:
  assumes "\<And>x. x \<in> set xs \<Longrightarrow> has_places k x"
    and "sum_list (map abs xs) * 10 ^ k < of_int prec_limit"
  shows "dsum xs = sum_list xs"
  using foldl_dadd_exact [of k 0 xs] assms by (simp add: dsum_def)

end
