(* ===== verification/PyDate.thy ===== *)
theory PyDate
  imports Prelude
begin

text \<open>
  What the program uses of Python's \<open>datetime.date\<close>. A date is its proleptic Gregorian
  ordinal (\<open>date.toordinal()\<close>, day 1 is 0001-01-01), so that comparison and the difference
  in days are those of integers; the calendar fields are computed from it.
\<close>

type_synonym date = int

definition max_ordinal :: int where
  "max_ordinal = 3652059"

definition is_leap :: "int \<Rightarrow> bool" where
  "is_leap y \<longleftrightarrow> 4 dvd y \<and> (\<not> 100 dvd y \<or> 400 dvd y)"

definition days_in_month :: "int \<Rightarrow> int \<Rightarrow> int" where
  "days_in_month y m =
     (if m = 2 then (if is_leap y then 29 else 28)
      else if m \<in> {4, 6, 9, 11} then 30 else 31)"

definition days_before_year :: "int \<Rightarrow> int" where
  "days_before_year y = (let p = y - 1 in 365 * p + p div 4 - p div 100 + p div 400)"

definition days_before_month :: "int \<Rightarrow> int \<Rightarrow> int" where
  "days_before_month y m =
     (\<Sum>k \<leftarrow> upto 1 (m - 1). days_in_month y k)"

definition to_ordinal :: "int \<Rightarrow> int \<Rightarrow> int \<Rightarrow> date" where
  "to_ordinal y m d = days_before_year y + days_before_month y m + d"

definition valid_ymd :: "int \<Rightarrow> int \<Rightarrow> int \<Rightarrow> bool" where
  "valid_ymd y m d \<longleftrightarrow> 1 \<le> y \<and> y \<le> 9999 \<and> 1 \<le> m \<and> m \<le> 12 \<and> 1 \<le> d \<and> d \<le> days_in_month y m"

text \<open>The constructor \<open>date(y, m, d)\<close>.\<close>

definition mk_date :: "int \<Rightarrow> int \<Rightarrow> int \<Rightarrow> date res" where
  "mk_date y m d = (if valid_ymd y m d then Inr (to_ordinal y m d) else Inl (ValueError ''date''))"

text \<open>
  The calendar fields of an ordinal: the year from 400-, 100-, 4- and 1-year cycles, the
  month by counting off months.
\<close>

definition ord_year :: "date \<Rightarrow> int" where
  "ord_year n =
     (let n0 = n - 1;
          n400 = n0 div 146097; r400 = n0 mod 146097;
          n100 = r400 div 36524; r100 = r400 mod 36524;
          n4 = r100 div 1461; r4 = r100 mod 1461;
          n1 = r4 div 365
      in if n1 = 4 \<or> n100 = 4 then n400 * 400 + n100 * 100 + n4 * 4 + n1
         else n400 * 400 + n100 * 100 + n4 * 4 + n1 + 1)"

fun month_from :: "int \<Rightarrow> int list \<Rightarrow> int \<Rightarrow> int \<times> int" where
  "month_from y [] r = (12, r)"
| "month_from y (m # ms) r =
     (if r \<le> days_in_month y m then (m, r) else month_from y ms (r - days_in_month y m))"

definition ord_month_day :: "date \<Rightarrow> int \<times> int" where
  "ord_month_day n = (let y = ord_year n in month_from y (upto 1 12) (n - days_before_year y))"

definition ord_month :: "date \<Rightarrow> int" where
  "ord_month n = fst (ord_month_day n)"

definition ord_day :: "date \<Rightarrow> int" where
  "ord_day n = snd (ord_month_day n)"

text \<open>\<open>date + timedelta(days = k)\<close> raises \<open>OverflowError\<close> outside years 1 to 9999.\<close>

definition add_days :: "date \<Rightarrow> int \<Rightarrow> date res" where
  "add_days n k = (if 1 \<le> n + k \<and> n + k \<le> max_ordinal then Inr (n + k) else Inl OverflowError)"

definition pad :: "nat \<Rightarrow> int \<Rightarrow> string" where
  "pad k n = (let s = show_int n in replicate (k - length s) (CHR ''0'') @ s)"

definition isoformat :: "date \<Rightarrow> string" where
  "isoformat n = pad 4 (ord_year n) @ ''-'' @ pad 2 (ord_month n) @ ''-'' @ pad 2 (ord_day n)"

text \<open>
  \<open>date.fromisoformat\<close> of Python 3.12: \<open>YYYY-MM-DD\<close>, \<open>YYYYMMDD\<close>, and the week forms
  \<open>YYYY-Www\<close>, \<open>YYYYWww\<close>, \<open>YYYY-Www-D\<close>, \<open>YYYYWwwD\<close>.
\<close>

definition weekday :: "date \<Rightarrow> int" where
  "weekday n = (n + 6) mod 7"

definition iso_week1_monday :: "int \<Rightarrow> date" where
  "iso_week1_monday y =
     (let first = to_ordinal y 1 1; wd = weekday first; monday = first - wd
      in if wd > 3 then monday + 7 else monday)"

definition from_iso_week :: "int \<Rightarrow> int \<Rightarrow> int \<Rightarrow> date option" where
  "from_iso_week y w d =
     (let wd1 = weekday (to_ordinal y 1 1);
          long = wd1 = 3 \<or> (wd1 = 2 \<and> is_leap y);
          n = iso_week1_monday y + (w - 1) * 7 + (d - 1)
      in if 1 \<le> y \<and> y \<le> 9999 \<and> 1 \<le> w \<and> (w \<le> 52 \<or> (w = 53 \<and> long)) \<and> 1 \<le> d \<and> d \<le> 7
            \<and> 1 \<le> n \<and> n \<le> max_ordinal
         then Some n else None)"

definition from_ymd :: "int \<Rightarrow> int \<Rightarrow> int \<Rightarrow> date option" where
  "from_ymd y m d = (if valid_ymd y m d then Some (to_ordinal y m d) else None)"

definition parse_iso :: "string \<Rightarrow> date option" where
  "parse_iso s =
     (let num = (\<lambda>i k. let t = take k (drop i s) in
                   if length t = k \<and> list_all is_digit t then Some (digits_val t) else None);
          is_at = (\<lambda>i c. i < length s \<and> s ! i = c);
          ymd = (\<lambda>i j k. case (num i 4, num j 2, num k 2) of
                   (Some y, Some m, Some d) \<Rightarrow> from_ymd y m d | _ \<Rightarrow> None);
          week = (\<lambda>j. case (num 0 4, num j 2) of
                   (Some y, Some w) \<Rightarrow> from_iso_week y w 1 | _ \<Rightarrow> None);
          weekd = (\<lambda>j k. case (num 0 4, num j 2, num k 1) of
                   (Some y, Some w, Some d) \<Rightarrow> from_iso_week y w d | _ \<Rightarrow> None)
      in if length s = 10 \<and> is_at 4 (CHR ''-'') \<and> is_at 5 (CHR ''W'') \<and> is_at 8 (CHR ''-'') then weekd 6 9
         else if length s = 10 \<and> is_at 4 (CHR ''-'') \<and> is_at 7 (CHR ''-'') then ymd 0 5 8
         else if length s = 8 \<and> is_at 4 (CHR ''-'') \<and> is_at 5 (CHR ''W'') then week 6
         else if length s = 8 \<and> is_at 4 (CHR ''W'') then weekd 5 7
         else if length s = 8 then ymd 0 4 6
         else if length s = 7 \<and> is_at 4 (CHR ''W'') then week 5
         else None)"

lemma days_in_month_pos: "28 \<le> days_in_month y m"
  by (simp add: days_in_month_def)

end
