(* ===== verification/PyValue.thy ===== *)
theory PyValue
  imports PyDecimal PyDate
begin

text \<open>
  The values of the rows the calculators receive (\<open>Mapping[str, object]\<close>) and the field
  readers every calculator has: text, dates and numbers, each raising \<open>ValueError\<close> with the
  field's name. A row is a partial map from column names; \<open>row.get(k)\<close> of a missing column
  is \<open>None\<close>. Text is ASCII (UTF-8 bytes keep the order of code points).
\<close>

text \<open>\<open>PNan\<close> and \<open>PInf\<close> are the non-finite decimals; \<open>POther\<close> is any other object (a list, a
  mapping), whose rendering is no decimal literal.\<close>

datatype pyval =
    PNone
  | PBool bool
  | PInt int
  | PDec dec
  | PNan
  | PInf bool
  | PStr string
  | POther

type_synonym row = "string \<Rightarrow> pyval option"

definition row_get :: "row \<Rightarrow> string \<Rightarrow> pyval" where
  "row_get r k = (case r k of None \<Rightarrow> PNone | Some v \<Rightarrow> v)"

definition row_get_or :: "pyval \<Rightarrow> row \<Rightarrow> string \<Rightarrow> pyval" where
  "row_get_or d r k = (case r k of None \<Rightarrow> d | Some v \<Rightarrow> v)"

text \<open>\<open>field not in row or row[field] is None\<close>\<close>

definition row_missing :: "row \<Rightarrow> string \<Rightarrow> bool" where
  "row_missing r k = (r k = None \<or> r k = Some PNone)"

section \<open>Decimal literals\<close>

text \<open>
  \<open>Decimal(s)\<close> of a string: surrounding white space and underscores are dropped; then an
  optional sign, digits with at most one point, an optional exponent; or a spelling of
  infinity or not-a-number. The result is exact. \<open>None\<close> is \<open>InvalidOperation\<close>.
\<close>

datatype literal = Finite dec | NonFinite

definition lower_char :: "char \<Rightarrow> char" where
  "lower_char c = (let n = (of_char c :: nat) in if 65 \<le> n \<and> n \<le> 90 then char_of (n + 32) else c)"

definition parse_exponent :: "string \<Rightarrow> int option" where
  "parse_exponent s =
     (case s of [] \<Rightarrow> Some 0
      | c # t \<Rightarrow> if c = CHR ''e'' then
          (let (sg, ds) = (case t of [] \<Rightarrow> (1, []) | h # u \<Rightarrow>
                 if h = CHR ''-'' then (- 1, u) else if h = CHR ''+'' then (1, u) else (1, t))
           in if ds \<noteq> [] \<and> list_all is_digit ds then Some (sg * digits_val ds) else None)
          else None)"

definition parse_unsigned :: "string \<Rightarrow> literal option" where
  "parse_unsigned s =
     (let ip = takeWhile is_digit s; r = dropWhile is_digit s;
          (fp, e) = (case r of c # t \<Rightarrow> if c = CHR ''.'' then (takeWhile is_digit t, dropWhile is_digit t)
                                       else ([], r) | [] \<Rightarrow> ([], []))
      in if ip @ fp \<noteq> [] then
           (case parse_exponent e of None \<Rightarrow> None
            | Some x \<Rightarrow> Some (Finite (of_int (digits_val (ip @ fp)) * 10 powi (x - int (length fp)))))
         else if s \<in> {''inf'', ''infinity''} then Some NonFinite
         else if take 3 s = ''nan'' \<and> list_all is_digit (drop 3 s) then Some NonFinite
         else if take 4 s = ''snan'' \<and> list_all is_digit (drop 4 s) then Some NonFinite
         else None)"

definition parse_decimal :: "string \<Rightarrow> literal option" where
  "parse_decimal s =
     (case map lower_char (filter (\<lambda>c. c \<noteq> CHR ''_'') (strip s)) of
        [] \<Rightarrow> None
      | c # t \<Rightarrow>
          if c = CHR ''-'' then map_option (\<lambda>l. case l of Finite x \<Rightarrow> Finite (- x) | NonFinite \<Rightarrow> NonFinite)
                                  (parse_unsigned t)
          else if c = CHR ''+'' then parse_unsigned t
          else parse_unsigned (c # t))"

section \<open>Field readers\<close>

text \<open>\<open>decimal_value\<close>, \<open>nonnegative_decimal\<close> and \<open>integer_value\<close> of \<open>src/analysis/evidence.py\<close>.\<close>

definition decimal_value :: "pyval \<Rightarrow> string \<Rightarrow> dec res" where
  "decimal_value v field =
     (case v of
        PNone \<Rightarrow> Inl (ValueError (field @ ''_invalid''))
      | PBool _ \<Rightarrow> Inl (ValueError (field @ ''_invalid''))
      | PInt n \<Rightarrow> Inr (of_int n)
      | PDec x \<Rightarrow> Inr x
      | PNan \<Rightarrow> Inl (ValueError (field @ ''_invalid''))
      | PInf _ \<Rightarrow> Inl (ValueError (field @ ''_invalid''))
      | PStr s \<Rightarrow> (case parse_decimal s of
            Some (Finite x) \<Rightarrow> Inr x
          | _ \<Rightarrow> Inl (ValueError (field @ ''_invalid'')))
      | POther \<Rightarrow> Inl (ValueError (field @ ''_invalid'')))"

definition nonnegative_decimal :: "pyval \<Rightarrow> string \<Rightarrow> dec res" where
  "nonnegative_decimal v field =
     ebind (decimal_value v field) (\<lambda>r.
       if r < 0 then Inl (ValueError (field @ ''_negative'')) else Inr r)"

definition integer_value :: "pyval \<Rightarrow> string \<Rightarrow> int res" where
  "integer_value v field =
     ebind (decimal_value v field) (\<lambda>r.
       let i = to_integral HalfEven r
       in if r \<noteq> of_int i then Inl (ValueError (field @ ''_not_integer'')) else Inr i)"

text \<open>\<open>_whole\<close>, \<open>_text\<close> and \<open>_date_value\<close>, which every calculator declares for itself.\<close>

definition whole :: "dec \<Rightarrow> string \<Rightarrow> int res" where
  "whole x field =
     (let i = to_integral HalfEven x
      in if x \<noteq> of_int i then Inl (ValueError (field @ ''_not_integer'')) else Inr i)"

definition text_value :: "pyval \<Rightarrow> string \<Rightarrow> string res" where
  "text_value v field =
     (case v of
        PStr s \<Rightarrow> if strip s = [] then Inl (ValueError (field @ ''_invalid'')) else Inr (strip s)
      | _ \<Rightarrow> Inl (ValueError (field @ ''_invalid'')))"

definition date_value :: "pyval \<Rightarrow> string \<Rightarrow> date res" where
  "date_value v field =
     (case v of
        PStr s \<Rightarrow> (case parse_iso s of Some d \<Rightarrow> Inr d | None \<Rightarrow> Inl (ValueError (field @ ''_invalid'')))
      | _ \<Rightarrow> Inl (ValueError (field @ ''_invalid'')))"

definition whole_units :: "pyval \<Rightarrow> string \<Rightarrow> int res" where
  "whole_units v field = ebind (nonnegative_decimal v field) (\<lambda>x. whole x field)"

lemma nonnegative_decimal_nonneg: "nonnegative_decimal v f = Inr x \<Longrightarrow> 0 \<le> x"
  by (auto simp: nonnegative_decimal_def ebind_eq_Inr split: if_splits)

lemma whole_eq: "whole x f = Inr i \<Longrightarrow> x = of_int i"
  by (auto simp: whole_def Let_def split: if_splits)

lemma whole_units_nonneg: "whole_units v f = Inr i \<Longrightarrow> 0 \<le> i"
  by (auto simp: whole_units_def ebind_eq_Inr dest!: nonnegative_decimal_nonneg whole_eq)

lemma whole_of_int [simp]: "whole (of_int i) f = Inr i"
  by (simp add: whole_def to_integral_def half_even.rnd_of_int)

lemma integer_value_PInt [simp]: "integer_value (PInt n) f = Inr n"
  by (simp add: integer_value_def decimal_value_def to_integral_def half_even.rnd_of_int)

lemma whole_units_PInt: "0 \<le> n \<Longrightarrow> whole_units (PInt n) f = Inr n"
  by (simp add: whole_units_def nonnegative_decimal_def decimal_value_def)

end
