(* ===== verification/Evidence.thy ===== *)
theory Evidence
  imports PyValue
begin

text \<open>
  \<open>src/analysis/evidence.py\<close>: the metric and evidence records every calculator returns, and
  the two quantisers \<open>money\<close> and \<open>ratio\<close>. The readers of that file are in \<open>PyValue\<close>.
  \<open>stable_hash\<close> (SHA-256 of canonical JSON) is not modelled: results leave out the
  \<open>snapshot_hash\<close> field.
\<close>

datatype evidence_state = Measured | Derived | Assumed | Unknown

record metric =
  value_of :: "dec option"
  state_of :: evidence_state
  refs_of :: "string list"
  known_subtotal :: "dec option"

definition mk_metric :: "dec option \<Rightarrow> evidence_state \<Rightarrow> string list \<Rightarrow> dec option \<Rightarrow> metric" where
  "mk_metric v s r k = \<lparr>value_of = v, state_of = s, refs_of = r, known_subtotal = k\<rparr>"

record evidence =
  ev_alias :: string
  ev_state :: evidence_state
  ev_formula :: string
  ev_roles :: "string list"

definition mk_evidence :: "string \<Rightarrow> evidence_state \<Rightarrow> string \<Rightarrow> string list \<Rightarrow> evidence" where
  "mk_evidence a s f r = \<lparr>ev_alias = a, ev_state = s, ev_formula = f, ev_roles = r\<rparr>"

definition money :: "dec \<Rightarrow> dec res" where
  "money x = quantize HalfEven 2 x"

definition ratio :: "dec \<Rightarrow> dec res" where
  "ratio x = quantize HalfEven 6 x"

text \<open>A metric is honest: it has a value exactly when its state is not \<open>Unknown\<close>.\<close>

definition honest :: "metric \<Rightarrow> bool" where
  "honest m \<longleftrightarrow> (value_of m = None \<longleftrightarrow> state_of m = Unknown)"

lemma mk_metric_simps [simp]:
  "value_of (mk_metric v s r k) = v" "state_of (mk_metric v s r k) = s"
  "refs_of (mk_metric v s r k) = r" "known_subtotal (mk_metric v s r k) = k"
  by (simp_all add: mk_metric_def)

lemma mk_evidence_simps [simp]:
  "ev_alias (mk_evidence a s f r) = a" "ev_state (mk_evidence a s f r) = s"
  "ev_formula (mk_evidence a s f r) = f" "ev_roles (mk_evidence a s f r) = r"
  by (simp_all add: mk_evidence_def)

lemma money_eq: "money x = Inr y \<Longrightarrow> y = quant HalfEven 2 x"
  by (auto simp: money_def)

lemma money_places: "money x = Inr y \<Longrightarrow> has_places 2 y"
  by (auto simp: money_def)

lemma money_nonneg: "money x = Inr y \<Longrightarrow> 0 \<le> x \<Longrightarrow> 0 \<le> y"
  by (auto simp: money_def intro: quant_nonneg)

lemma ratio_nonneg: "ratio x = Inr y \<Longrightarrow> 0 \<le> x \<Longrightarrow> 0 \<le> y"
  by (auto simp: ratio_def intro: quant_nonneg)

lemma money_exact: "has_places 2 x \<Longrightarrow> \<bar>x\<bar> < 10 ^ 26 \<Longrightarrow> money x = Inr x"
  unfolding money_def by (rule quantize_exact) (simp_all add: prec_limit_def)

lemma money_error: "money x = Inr y \<Longrightarrow> \<bar>y - x\<bar> \<le> 1/200"
  using quant_error_half [of HalfEven 2 x] by (auto dest: money_eq)

end
