(* ===== verification/Fifo.thy ===== *)
theory Fifo
  imports Evidence
begin

text \<open>
  \<open>src/analysis/fifo_cost_aging_calculator.py\<close>: receipts become lots per SKU, sorted by
  receipt date and lot id; outbound events, sorted by date and id, consume the oldest
  eligible lots; what is left gives the ending value and the aged units. The loops are
  \<open>read_lots\<close>, \<open>read_outbounds\<close>, \<open>allocate\<close> (the inner loop over the lots of one SKU) and
  \<open>consume\<close> (the outer loop); \<open>calculate_fifo\<close> composes them.
\<close>

section \<open>Data\<close>

record lot =
  lot_id :: string
  lot_sku :: string
  receipt_date :: date
  remaining :: int
  unit_cost :: dec

record allocation =
  al_outbound :: string
  al_lot :: string
  al_sku :: string
  al_quantity :: int
  al_unit_cost :: dec
  al_extended :: dec

record outbound =
  ob_date :: date
  ob_id :: string
  ob_row :: row

type_synonym stock = "(string \<times> lot list) list"

record intake =
  in_seen :: "string list"
  in_stock :: stock
  in_limits :: "string list"

record ledger =
  lg_stock :: stock
  lg_allocs :: "allocation list"
  lg_cogs :: dec
  lg_uncovered :: int
  lg_period_count :: int
  lg_limits :: "string list"

record fifo_result =
  fr_as_of :: date
  fr_cogs :: metric
  fr_ending :: metric
  fr_aging_90 :: "int option"
  fr_aging_120 :: "int option"
  fr_allocations :: "allocation list"
  fr_evidence :: "evidence list"
  fr_limitations :: "string list"

section \<open>Reading the rows\<close>

definition parse_lot :: "string list \<Rightarrow> row \<Rightarrow> lot res" where
  "parse_lot seen r =
     ebind (text_value (row_get r ''lot_id'') ''lot_id'') (\<lambda>i.
     if i \<in> set seen then Inl (ValueError (''duplicate_lot:'' @ i)) else
     ebind (text_value (row_get r ''sku_id'') ''sku_id'') (\<lambda>sku.
     ebind (whole_units (row_get r ''quantity_received'') ''quantity_received'') (\<lambda>q.
     ebind (nonnegative_decimal (row_get r ''unit_cost_brl'') ''unit_cost_brl'') (\<lambda>c.
     ebind (date_value (row_get r ''receipt_date'') ''receipt_date'') (\<lambda>d.
       Inr \<lparr>lot_id = i, lot_sku = sku, receipt_date = d, remaining = q, unit_cost = c\<rparr>)))))"

definition add_lot :: "date \<Rightarrow> lot \<Rightarrow> intake \<Rightarrow> intake" where
  "add_lot as_of l s =
     (let s' = s\<lparr>in_seen := lot_id l # in_seen s\<rparr> in
      if as_of < receipt_date l
      then s'\<lparr>in_limits := in_limits s @ [''future_receipt_excluded:'' @ lot_id l]\<rparr>
      else s'\<lparr>in_stock := upd (lot_sku l) [] (\<lambda>ls. ls @ [l]) (in_stock s)\<rparr>)"

definition read_lot :: "date \<Rightarrow> row \<Rightarrow> intake \<Rightarrow> intake res" where
  "read_lot as_of r s = ebind (parse_lot (in_seen s) r) (\<lambda>l. Inr (add_lot as_of l s))"

definition lot_key :: "lot \<Rightarrow> date \<times> string" where
  "lot_key l = (receipt_date l, lot_id l)"

definition sort_stock :: "stock \<Rightarrow> stock" where
  "sort_stock st = map (\<lambda>(sku, ls). (sku, sort_key lot_key ls)) st"

definition read_lots :: "date \<Rightarrow> row list \<Rightarrow> intake res" where
  "read_lots as_of rows =
     ebind (efold (read_lot as_of) rows \<lparr>in_seen = [], in_stock = [], in_limits = []\<rparr>)
       (\<lambda>s. Inr (s\<lparr>in_stock := sort_stock (in_stock s)\<rparr>))"

definition read_outbound :: "date \<Rightarrow> row \<Rightarrow> outbound list \<times> string list
    \<Rightarrow> (outbound list \<times> string list) res" where
  "read_outbound as_of r s =
     ebind (text_value (row_get r ''outbound_id'') ''outbound_id'') (\<lambda>i.
     ebind (date_value (row_get r ''date'') ''date'') (\<lambda>d.
       if as_of < d then Inr (fst s, snd s @ [''future_outbound_excluded:'' @ i])
       else Inr (fst s @ [\<lparr>ob_date = d, ob_id = i, ob_row = r\<rparr>], snd s)))"

definition read_outbounds :: "date \<Rightarrow> row list \<Rightarrow> string list
    \<Rightarrow> (outbound list \<times> string list) res" where
  "read_outbounds as_of rows limits =
     ebind (efold (read_outbound as_of) rows ([], limits))
       (\<lambda>(obs, lim). Inr (sort_key (\<lambda>b. (ob_date b, ob_id b)) obs, lim))"

section \<open>Allocation\<close>

fun allocate :: "date \<Rightarrow> string \<Rightarrow> string \<Rightarrow> lot list \<Rightarrow> int
    \<Rightarrow> (allocation list \<times> lot list \<times> int) res" where
  "allocate d b sku [] need = Inr ([], [], need)"
| "allocate d b sku (l # ls) need =
     (if need = 0 then Inr ([], l # ls, 0)
      else if d < receipt_date l \<or> min need (remaining l) = 0 then
        ebind (allocate d b sku ls need) (\<lambda>(as, ls', rest). Inr (as, l # ls', rest))
      else let used = min need (remaining l) in
        ebind (money (dmul (of_int used) (unit_cost l))) (\<lambda>ext.
        ebind (money (unit_cost l)) (\<lambda>c.
        ebind (allocate d b sku ls (need - used)) (\<lambda>(as, ls', rest).
          Inr (\<lparr>al_outbound = b, al_lot = lot_id l, al_sku = sku, al_quantity = used,
                 al_unit_cost = c, al_extended = ext\<rparr> # as,
               l\<lparr>remaining := remaining l - used\<rparr> # ls', rest)))))"

definition in_period :: "date option \<Rightarrow> date \<Rightarrow> bool" where
  "in_period ps d = (case ps of None \<Rightarrow> True | Some p \<Rightarrow> p \<le> d)"

definition set_lots :: "string \<Rightarrow> lot list \<Rightarrow> stock \<Rightarrow> stock" where
  "set_lots sku ls st = map (\<lambda>(k, v). if k = sku then (k, ls) else (k, v)) st"

definition consume :: "date option \<Rightarrow> outbound \<Rightarrow> ledger \<Rightarrow> ledger res" where
  "consume ps b s =
     ebind (text_value (row_get (ob_row b) ''sku_id'') ''sku_id'') (\<lambda>sku.
     ebind (whole_units (row_get (ob_row b) ''quantity'') ''quantity'') (\<lambda>q.
     ebind (allocate (ob_date b) (ob_id b) sku (lookup_or [] (lg_stock s) sku) q)
       (\<lambda>(as, ls, rest). Inr (s\<lparr>
          lg_stock := set_lots sku ls (lg_stock s),
          lg_allocs := lg_allocs s @ as,
          lg_cogs := (if in_period ps (ob_date b) then foldl dadd (lg_cogs s) (map al_extended as)
                      else lg_cogs s),
          lg_uncovered := lg_uncovered s + rest,
          lg_period_count := lg_period_count s + (if in_period ps (ob_date b) then 1 else 0),
          lg_limits := lg_limits s @ (if rest \<noteq> 0
             then [''uncovered_outbound:'' @ sku @ '':'' @ show_int rest] else [])\<rparr>))))"

section \<open>The result\<close>

definition all_lots :: "stock \<Rightarrow> lot list" where
  "all_lots st = concat (map snd st)"

definition aged_units :: "date \<Rightarrow> int \<Rightarrow> lot list \<Rightarrow> int" where
  "aged_units as_of n ls = sum_list (map remaining (filter (\<lambda>l. n \<le> as_of - receipt_date l) ls))"

definition fifo_report :: "date \<Rightarrow> date option \<Rightarrow> bool \<Rightarrow> bool \<Rightarrow> ledger \<Rightarrow> fifo_result res" where
  "fifo_report as_of ps lots_present has_outbound s =
     (let ls = all_lots (lg_stock s);
          covered = lg_uncovered s = 0;
          complete = lg_stock s \<noteq> [] \<and> has_outbound;
          complete_period = lg_stock s \<noteq> [] \<and> lg_period_count s \<noteq> 0;
          limits = lg_limits s @ (if ps \<noteq> None \<and> lg_period_count s = 0
                     then [''period_outbound_events_missing''] else [])
      in ebind (money (dsum (map (\<lambda>l. dmul (of_int (remaining l)) (unit_cost l)) ls))) (\<lambda>ending.
         ebind (money (lg_cogs s)) (\<lambda>c.
           let cogs = (if covered \<and> complete_period
                       then mk_metric (Some c) Derived [''fifo.allocations''] (Some c)
                       else mk_metric None Unknown [''fifo.allocations''] (Some c));
               known = complete \<and> covered
           in Inr \<lparr>fr_as_of = as_of, fr_cogs = cogs,
                fr_ending = (if known then mk_metric (Some ending) Derived [''fifo.aging''] None
                   else mk_metric None Unknown [''fifo.aging''] (if lots_present then Some ending else None)),
                fr_aging_90 = (if known then Some (aged_units as_of 90 ls) else None),
                fr_aging_120 = (if known then Some (aged_units as_of 120 ls) else None),
                fr_allocations = lg_allocs s,
                fr_evidence =
                  [mk_evidence ''fifo.allocations'' (if value_of cogs \<noteq> None then Derived else Unknown)
                     ''oldest eligible receipt_date then lot_id''
                     [''inventory_receipt_lot'', ''outbound_event''],
                   mk_evidence ''fifo.aging'' (if known then Derived else Unknown)
                     ''as_of-receipt_date after outbound reconciliation''
                     [''inventory_receipt_lot'', ''outbound_event'']],
                fr_limitations = limits\<rparr>)))"

definition fifo_ledger :: "row list \<Rightarrow> row list \<Rightarrow> date \<Rightarrow> date option
    \<Rightarrow> (ledger \<times> outbound list) res" where
  "fifo_ledger receipt_lots outbound_events as_of ps =
     (if (case ps of None \<Rightarrow> False | Some p \<Rightarrow> as_of < p) then Inl (ValueError ''period_start_invalid'')
      else
     ebind (read_lots as_of receipt_lots) (\<lambda>s.
     ebind (read_outbounds as_of outbound_events
         (in_limits s @ (if receipt_lots = [] then [''receipt_lots_missing''] else [])
                      @ (if outbound_events = [] then [''outbound_events_missing''] else [])))
       (\<lambda>(obs, lim).
     ebind (efold (consume ps) obs \<lparr>lg_stock = in_stock s, lg_allocs = [], lg_cogs = 0,
          lg_uncovered = 0, lg_period_count = 0, lg_limits = lim\<rparr>) (\<lambda>g. Inr (g, obs)))))"

definition calculate_fifo :: "row list \<Rightarrow> row list \<Rightarrow> date \<Rightarrow> date option \<Rightarrow> fifo_result res" where
  "calculate_fifo receipt_lots outbound_events as_of ps =
     ebind (fifo_ledger receipt_lots outbound_events as_of ps)
       (\<lambda>(g, obs). fifo_report as_of ps (receipt_lots \<noteq> []) (obs \<noteq> []) g)"

section \<open>One allocation\<close>

definition lot_use :: "string \<Rightarrow> allocation list \<Rightarrow> int" where
  "lot_use i as = sum_list (map al_quantity (filter (\<lambda>a. al_lot a = i) as))"

definition total_use :: "allocation list \<Rightarrow> int" where
  "total_use as = sum_list (map al_quantity as)"

definition lots_nonneg :: "lot list \<Rightarrow> bool" where
  "lots_nonneg ls \<longleftrightarrow> (\<forall>l \<in> set ls. 0 \<le> remaining l)"

text \<open>\<open>same_lot l l'\<close>: the same lot at a later time.\<close>

definition same_lot :: "lot \<Rightarrow> lot \<Rightarrow> bool" where
  "same_lot l l' \<longleftrightarrow> lot_id l' = lot_id l \<and> lot_sku l' = lot_sku l
     \<and> receipt_date l' = receipt_date l \<and> unit_cost l' = unit_cost l
     \<and> 0 \<le> remaining l' \<and> remaining l' \<le> remaining l"

lemma lot_use_simps [simp]:
  "lot_use i [] = 0"
  "lot_use i (a # as) = (if al_lot a = i then al_quantity a else 0) + lot_use i as"
  "lot_use i (as @ bs) = lot_use i as + lot_use i bs"
  by (simp_all add: lot_use_def)

lemma total_use_simps [simp]:
  "total_use [] = 0" "total_use (a # as) = al_quantity a + total_use as"
  "total_use (as @ bs) = total_use as + total_use bs"
  by (simp_all add: total_use_def)

lemmas allocate_cases = ebind_eq_Inr Let_def

lemma allocate_Cons_cases:
  assumes "allocate d b sku (l # ls) need = Inr (as, ls', rest)"
  obtains (full) "need = 0" "as = []" "ls' = l # ls" "rest = 0"
    | (skip) ls'' where "need \<noteq> 0" "d < receipt_date l \<or> min need (remaining l) = 0"
        "allocate d b sku ls need = Inr (as, ls'', rest)" "ls' = l # ls''"
    | (take) as' ls'' a where "need \<noteq> 0" "receipt_date l \<le> d" "min need (remaining l) \<noteq> 0"
        "allocate d b sku ls (need - min need (remaining l)) = Inr (as', ls'', rest)"
        "as = a # as'" "ls' = l\<lparr>remaining := remaining l - min need (remaining l)\<rparr> # ls''"
        "al_outbound a = b" "al_lot a = lot_id l" "al_sku a = sku"
        "al_quantity a = min need (remaining l)"
        "money (dmul (of_int (min need (remaining l))) (unit_cost l)) = Inr (al_extended a)"
        "money (unit_cost l) = Inr (al_unit_cost a)"
proof -
  consider "need = 0" | "need \<noteq> 0" "d < receipt_date l \<or> min need (remaining l) = 0"
    | "need \<noteq> 0" "\<not> (d < receipt_date l \<or> min need (remaining l) = 0)" by blast
  then show thesis
  proof cases
    case 1
    then show thesis using assms full by simp
  next
    case 2
    then show thesis using assms skip by (auto simp: allocate_cases)
  next
    case 3
    then show thesis using assms by (auto simp: allocate_cases not_less intro: take)
  qed
qed

lemma allocate_same:
  "allocate d b sku ls need = Inr (as, ls', rest) \<Longrightarrow> lots_nonneg ls \<Longrightarrow> 0 \<le> need
    \<Longrightarrow> list_all2 same_lot ls ls'"
proof (induction ls arbitrary: need as ls')
  case Nil
  then show ?case by simp
next
  case (Cons l ls)
  have refl: "list_all2 same_lot ms ms" if "lots_nonneg ms" for ms
    using that by (auto simp: list_all2_same lots_nonneg_def same_lot_def)
  have n: "lots_nonneg ls" "0 \<le> remaining l" using Cons.prems(2) by (auto simp: lots_nonneg_def)
  from Cons.prems(1) show ?case
  proof (cases rule: allocate_Cons_cases)
    case full
    then show ?thesis using refl [OF Cons.prems(2)] by simp
  next
    case (skip ls'')
    then show ?thesis using Cons.IH Cons.prems(3) n by (auto simp: same_lot_def)
  next
    case (take as' ls'' a)
    have "list_all2 same_lot ls ls''"
      using Cons.IH [OF take(4)] n(1) by simp
    moreover have "same_lot l (l\<lparr>remaining := remaining l - min need (remaining l)\<rparr>)"
      using n(2) Cons.prems(3) by (auto simp: same_lot_def)
    ultimately show ?thesis using take(6) by simp
  qed
qed

text \<open>Everything asked for is either allocated or left over, and nothing is negative.\<close>

lemma allocate_total:
  "allocate d b sku ls need = Inr (as, ls', rest) \<Longrightarrow> lots_nonneg ls \<Longrightarrow> 0 \<le> need
    \<Longrightarrow> total_use as + rest = need \<and> 0 \<le> rest \<and> (\<forall>a \<in> set as. 0 < al_quantity a)"
proof (induction ls arbitrary: need as ls')
  case Nil
  then show ?case by simp
next
  case (Cons l ls)
  have n: "lots_nonneg ls" "0 \<le> remaining l" using Cons.prems(2) by (auto simp: lots_nonneg_def)
  from Cons.prems(1) show ?case
  proof (cases rule: allocate_Cons_cases)
    case full
    then show ?thesis by simp
  next
    case (skip ls'')
    then show ?thesis using Cons.IH Cons.prems(3) n by auto
  next
    case (take as' ls'' a)
    from Cons.IH [OF take(4) n(1)] take(5,10) take(3) n(2) Cons.prems(3)
    show ?thesis by auto
  qed
qed

text \<open>What a lot loses is what the allocations name it for.\<close>

lemma allocate_conserves:
  "allocate d b sku ls need = Inr (as, ls', rest) \<Longrightarrow> distinct (map lot_id ls)
    \<Longrightarrow> list_all2 (\<lambda>l l'. lot_id l' = lot_id l \<and> remaining l' + lot_use (lot_id l) as = remaining l) ls ls'
      \<and> (\<forall>i. i \<notin> lot_id ` set ls \<longrightarrow> lot_use i as = 0)"
proof (induction ls arbitrary: need as ls')
  case Nil
  then show ?case by simp
next
  case (Cons l ls)
  from Cons.prems(1) show ?case
  proof (cases rule: allocate_Cons_cases)
    case full
    then show ?thesis by (auto simp: list_all2_same)
  next
    case (skip ls'')
    have ih: "list_all2 (\<lambda>l l'. lot_id l' = lot_id l \<and> remaining l' + lot_use (lot_id l) as = remaining l) ls ls''"
      "\<forall>i. i \<notin> lot_id ` set ls \<longrightarrow> lot_use i as = 0"
      using Cons.IH [OF skip(3)] Cons.prems(2) by auto
    then show ?thesis using skip(4) Cons.prems(2) by auto
  next
    case (take as' ls'' a)
    have ih: "list_all2 (\<lambda>l l'. lot_id l' = lot_id l \<and> remaining l' + lot_use (lot_id l) as' = remaining l) ls ls''"
      "\<forall>i. i \<notin> lot_id ` set ls \<longrightarrow> lot_use i as' = 0"
      using Cons.IH [OF take(4)] Cons.prems(2) by auto
    have "list_all2 (\<lambda>m m'. lot_id m' = lot_id m \<and> remaining m' + lot_use (lot_id m) as = remaining m) ls ls''"
      using ih(1)
    proof (rule list.rel_mono_strong)
      fix m m' assume "m \<in> set ls"
        and "lot_id m' = lot_id m \<and> remaining m' + lot_use (lot_id m) as' = remaining m"
      moreover from Cons.prems(2) have "lot_id l \<notin> lot_id ` set ls" by simp
      then have "lot_id m \<noteq> lot_id l" using \<open>m \<in> set ls\<close> by (metis imageI)
      ultimately show "lot_id m' = lot_id m \<and> remaining m' + lot_use (lot_id m) as = remaining m"
        using take(5,8) by simp
    qed
    then show ?thesis using ih(2) take(5,6,8,10) Cons.prems(2) by auto
  qed
qed

text \<open>Only lots received by the day of the event are used.\<close>

lemma allocate_eligible:
  "allocate d b sku ls need = Inr (as, ls', rest) \<Longrightarrow> a \<in> set as
    \<Longrightarrow> al_outbound a = b \<and> al_sku a = sku
      \<and> (\<exists>l \<in> set ls. lot_id l = al_lot a \<and> receipt_date l \<le> d
            \<and> money (unit_cost l) = Inr (al_unit_cost a)
            \<and> money (dmul (of_int (al_quantity a)) (unit_cost l)) = Inr (al_extended a))"
proof (induction ls arbitrary: need as ls')
  case Nil
  then show ?case by simp
next
  case (Cons l ls)
  from Cons.prems(1) show ?case
  proof (cases rule: allocate_Cons_cases)
    case full
    then show ?thesis using Cons.prems(2) by simp
  next
    case (skip ls'')
    then show ?thesis using Cons.IH Cons.prems(2) by fastforce
  next
    case (take as' ls'' c)
    show ?thesis
    proof (cases "a = c")
      case True
      then show ?thesis using take by auto
    next
      case False
      then have "a \<in> set as'" using Cons.prems(2) take(5) by simp
      from Cons.IH [OF take(4) this] show ?thesis by auto
    qed
  qed
qed

text \<open>First in, first out: where a later lot was used, every earlier eligible one is empty.\<close>

lemma allocate_order:
  "allocate d b sku ls need = Inr (as, ls', rest) \<Longrightarrow> lots_nonneg ls \<Longrightarrow> 0 \<le> need
    \<Longrightarrow> i < j \<Longrightarrow> j < length ls \<Longrightarrow> receipt_date (ls ! i) \<le> d
    \<Longrightarrow> remaining (ls' ! j) \<noteq> remaining (ls ! j) \<Longrightarrow> remaining (ls' ! i) = 0"
proof (induction ls arbitrary: need as ls' i j)
  case Nil
  then show ?case by simp
next
  case (Cons l ls)
  have n: "lots_nonneg ls" "0 \<le> remaining l" using Cons.prems(2) by (auto simp: lots_nonneg_def)
  obtain j' where j: "j = Suc j'" using Cons.prems(4) by (cases j) auto
  from Cons.prems(1) show ?case
  proof (cases rule: allocate_Cons_cases)
    case full
    then show ?thesis using Cons.prems(7) by simp
  next
    case (skip ls'')
    show ?thesis
    proof (cases i)
      case 0
      then have "min need (remaining l) = 0" using skip(2) Cons.prems(6) by auto
      then have "remaining l = 0" using skip(1) Cons.prems(3) n(2) by (auto simp: min_def split: if_splits)
      then show ?thesis using 0 skip(4) by simp
    next
      case (Suc i')
      then show ?thesis
        using Cons.IH [OF skip(3) n(1) Cons.prems(3), of i' j'] Cons.prems(4-7) skip(4) j by simp
    qed
  next
    case (take as' ls'' a)
    have need': "0 \<le> need - min need (remaining l)" by simp
    show ?thesis
    proof (cases i)
      case 0
      have "need - min need (remaining l) \<noteq> 0"
      proof
        assume z: "need - min need (remaining l) = 0"
        have "ls'' = ls" using take(4) unfolding z by (cases ls) auto
        then show False using Cons.prems(7) take(6) j by simp
      qed
      then show ?thesis using 0 take(6) by (auto simp: min_def split: if_splits)
    next
      case (Suc i')
      then show ?thesis
        using Cons.IH [OF take(4) n(1) need', of i' j'] Cons.prems(4-7) take(6) j by simp
    qed
  qed
qed

text \<open>Units stay uncovered only when no eligible stock is left.\<close>

lemma allocate_exhausts:
  "allocate d b sku ls need = Inr (as, ls', rest) \<Longrightarrow> lots_nonneg ls \<Longrightarrow> 0 \<le> need
    \<Longrightarrow> 0 < rest \<Longrightarrow> i < length ls \<Longrightarrow> receipt_date (ls ! i) \<le> d \<Longrightarrow> remaining (ls' ! i) = 0"
proof (induction ls arbitrary: need as ls' i)
  case Nil
  then show ?case by simp
next
  case (Cons l ls)
  have n: "lots_nonneg ls" "0 \<le> remaining l" using Cons.prems(2) by (auto simp: lots_nonneg_def)
  from Cons.prems(1) show ?case
  proof (cases rule: allocate_Cons_cases)
    case full
    then show ?thesis using Cons.prems(4) by simp
  next
    case (skip ls'')
    show ?thesis
    proof (cases i)
      case 0
      then have "remaining l = 0"
        using skip(1,2) Cons.prems(3,6) n(2) by (auto simp: min_def split: if_splits)
      then show ?thesis using 0 skip(4) by simp
    next
      case (Suc i')
      then show ?thesis
        using Cons.IH [OF skip(3) n(1) Cons.prems(3,4), of i'] Cons.prems(5,6) skip(4) by simp
    qed
  next
    case (take as' ls'' a)
    have need': "0 \<le> need - min need (remaining l)" by simp
    have le: "rest \<le> need - min need (remaining l)"
      using allocate_total [OF take(4) n(1) need'] sum_list_nonneg [of "map al_quantity as'"]
      by (force simp: total_use_def)
    show ?thesis
    proof (cases i)
      case 0
      then show ?thesis using take(6) le Cons.prems(4) by (auto simp: min_def split: if_splits)
    next
      case (Suc i')
      then show ?thesis
        using Cons.IH [OF take(4) n(1) need' Cons.prems(4), of i'] Cons.prems(5,6) take(6) by simp
    qed
  qed
qed

section \<open>The stock as read\<close>

definition stock_ok :: "stock \<Rightarrow> bool" where
  "stock_ok st \<longleftrightarrow> distinct (map fst st) \<and> distinct (map lot_id (all_lots st))
     \<and> lots_nonneg (all_lots st)"

lemma all_lots_simps [simp]:
  "all_lots [] = []" "all_lots ((k, ls) # st) = ls @ all_lots st"
  by (simp_all add: all_lots_def)

lemma set_all_lots_upd:
  "set (all_lots (upd sku [] (\<lambda>ls. ls @ [l]) st)) = insert l (set (all_lots st))"
proof (induction st)
  case Nil
  show ?case by simp
next
  case (Cons p st)
  then show ?case by (cases p) simp
qed

lemma distinct_all_lots_upd:
  "distinct (map lot_id (all_lots st)) \<Longrightarrow> lot_id l \<notin> lot_id ` set (all_lots st)
    \<Longrightarrow> distinct (map lot_id (all_lots (upd sku [] (\<lambda>ls. ls @ [l]) st)))"
proof (induction st)
  case Nil
  then show ?case by simp
next
  case (Cons p st)
  then show ?case
    by (cases p) (auto simp: set_all_lots_upd image_Un Int_commute)
qed

lemma sort_stock_facts [simp]:
  "set (all_lots (sort_stock st)) = set (all_lots st)"
  "map fst (sort_stock st) = map fst st"
  "distinct (map lot_id (all_lots (sort_stock st))) = distinct (map lot_id (all_lots st))"
proof -
  show s: "set (all_lots (sort_stock st)) = set (all_lots st)" for st
    by (induction st) (auto simp: sort_stock_def)
  show "map fst (sort_stock st) = map fst st"
    by (induction st) (auto simp: sort_stock_def)
  have "mset (map lot_id (all_lots (sort_stock st))) = mset (map lot_id (all_lots st))"
    by (induction st) (auto simp: sort_stock_def)
  then show "distinct (map lot_id (all_lots (sort_stock st))) = distinct (map lot_id (all_lots st))"
    by (rule mset_eq_imp_distinct_iff)
qed

definition intake_ok :: "date \<Rightarrow> intake \<Rightarrow> bool" where
  "intake_ok as_of s \<longleftrightarrow> stock_ok (in_stock s) \<and> lot_id ` set (all_lots (in_stock s)) \<subseteq> set (in_seen s)
     \<and> (\<forall>l \<in> set (all_lots (in_stock s)). receipt_date l \<le> as_of)"

lemma parse_lot_facts:
  assumes "parse_lot seen r = Inr l"
  shows "lot_id l \<notin> set seen" and "0 \<le> remaining l"
  using assms unfolding parse_lot_def
  by (auto elim!: ebind_eq_InrE split: if_splits) (erule whole_units_nonneg)

lemma read_lot_ok:
  assumes "read_lot as_of r s = Inr t" and "intake_ok as_of s"
  shows "intake_ok as_of t"
proof -
  from assms(1) obtain l where l: "parse_lot (in_seen s) r = Inr l" and t: "t = add_lot as_of l s"
    by (auto simp: read_lot_def elim!: ebind_eq_InrE)
  have "lot_id l \<notin> lot_id ` set (all_lots (in_stock s))"
    using parse_lot_facts(1) [OF l] assms(2) by (auto simp: intake_ok_def)
  then show ?thesis using assms(2) parse_lot_facts(2) [OF l]
    by (auto simp: t add_lot_def Let_def intake_ok_def stock_ok_def distinct_upd
        distinct_all_lots_upd set_all_lots_upd lots_nonneg_def)
qed

lemma read_lots_ok:
  assumes "read_lots as_of rows = Inr s"
  shows "stock_ok (in_stock s)" and "\<forall>l \<in> set (all_lots (in_stock s)). receipt_date l \<le> as_of"
proof -
  from assms obtain u where u: "efold (read_lot as_of) rows \<lparr>in_seen = [], in_stock = [], in_limits = []\<rparr> = Inr u"
    and s: "s = u\<lparr>in_stock := sort_stock (in_stock u)\<rparr>"
    by (auto simp: read_lots_def ebind_eq_Inr)
  have "intake_ok as_of \<lparr>in_seen = [], in_stock = [], in_limits = []\<rparr>"
    by (simp add: intake_ok_def stock_ok_def lots_nonneg_def)
  with u have "intake_ok as_of u" by (rule efold_invariant) (rule read_lot_ok)
  then show "stock_ok (in_stock s)" "\<forall>l \<in> set (all_lots (in_stock s)). receipt_date l \<le> as_of"
    by (simp_all add: s intake_ok_def stock_ok_def lots_nonneg_def)
qed

section \<open>The ledger\<close>

definition demand :: "outbound \<Rightarrow> int" where
  "demand b = (case whole_units (row_get (ob_row b) ''quantity'') ''quantity'' of
     Inr q \<Rightarrow> q | Inl _ \<Rightarrow> 0)"

text \<open>\<open>drawn as l l'\<close>: lot \<open>l\<close> after the allocations \<open>as\<close>.\<close>

definition drawn :: "allocation list \<Rightarrow> lot \<Rightarrow> lot \<Rightarrow> bool" where
  "drawn as l l' \<longleftrightarrow> same_lot l l' \<and> remaining l' + lot_use (lot_id l) as = remaining l"

definition backed :: "outbound list \<Rightarrow> lot list \<Rightarrow> allocation \<Rightarrow> bool" where
  "backed obs ls a \<longleftrightarrow> (\<exists>b \<in> set obs. \<exists>l \<in> set ls. al_outbound a = ob_id b \<and> al_lot a = lot_id l
     \<and> receipt_date l \<le> ob_date b \<and> 0 < al_quantity a
     \<and> money (dmul (of_int (al_quantity a)) (unit_cost l)) = Inr (al_extended a))"

definition ledger_ok :: "stock \<Rightarrow> outbound list \<Rightarrow> ledger \<Rightarrow> bool" where
  "ledger_ok st obs g \<longleftrightarrow> map fst (lg_stock g) = map fst st
     \<and> list_all2 (drawn (lg_allocs g)) (all_lots st) (all_lots (lg_stock g))
     \<and> total_use (lg_allocs g) + lg_uncovered g = sum_list (map demand obs)
     \<and> 0 \<le> lg_uncovered g
     \<and> (\<forall>a \<in> set (lg_allocs g). backed obs (all_lots st) a)"

lemma lookup_lots_subset: "set (lookup_or [] st sku) \<subseteq> set (all_lots st)"
  by (induction st) (auto simp: lookup_or_def)

lemma distinct_lookup_lots:
  "distinct (map lot_id (all_lots st)) \<Longrightarrow> distinct (map lot_id (lookup_or [] st sku))"
  by (induction st) (auto simp: lookup_or_def)

lemma all_lots_set_lots:
  assumes "list_all2 P (lookup_or [] st sku) ls" and "distinct (map fst st)"
    and "distinct (map lot_id (all_lots st))"
    and "\<And>l. l \<in> set (all_lots st) \<Longrightarrow> lot_id l \<notin> lot_id ` set (lookup_or [] st sku) \<Longrightarrow> P l l"
  shows "list_all2 P (all_lots st) (all_lots (set_lots sku ls st))"
  using assms
proof (induction st)
  case Nil
  then show ?case by (simp add: set_lots_def)
next
  case (Cons p st)
  obtain k v where p: "p = (k, v)" by (cases p)
  have other: "set_lots sku ls st = st" if "sku \<notin> fst ` set st"
    using that by (induction st) (auto simp: set_lots_def)
  show ?case
  proof (cases "k = sku")
    case True
    then have st: "set_lots sku ls st = st" using Cons.prems(2) p by (intro other) auto
    have "list_all2 P (all_lots st) (all_lots st)"
      unfolding list_all2_same using Cons.prems(3,4) p True
      by (auto simp: lookup_or_def dest!: IntI [of "lot_id _"])
    then show ?thesis using Cons.prems(1) p True st
      by (simp add: set_lots_def lookup_or_def list_all2_appendI)
  next
    case False
    have look: "lookup_or [] (p # st) sku = lookup_or [] st sku"
      using p False by (simp add: lookup_or_def)
    have "list_all2 P v v"
      unfolding list_all2_same
    proof
      fix l assume l: "l \<in> set v"
      then have "lot_id l \<notin> lot_id ` set (all_lots st)" using Cons.prems(3) p by auto
      then have "lot_id l \<notin> lot_id ` set (lookup_or [] st sku)"
        using lookup_lots_subset [of st sku] by blast
      then show "P l l" using Cons.prems(4) [of l] l p look by simp
    qed
    moreover have "list_all2 P (all_lots st) (all_lots (set_lots sku ls st))"
      using Cons.IH Cons.prems p look by auto
    ultimately show ?thesis using p False by (simp add: set_lots_def list_all2_appendI)
  qed
qed

lemma list_all2_ids: "list_all2 (drawn as) ls ls' \<Longrightarrow> map lot_id ls' = map lot_id ls"
  by (induction rule: list_all2_induct) (auto simp: drawn_def same_lot_def)

lemma drawn_nonneg: "list_all2 (drawn as) ls ls' \<Longrightarrow> lots_nonneg ls'"
  by (induction rule: list_all2_induct) (auto simp: drawn_def same_lot_def lots_nonneg_def)

lemma keys_set_lots [simp]: "map fst (set_lots sku ls st) = map fst st"
  by (induction st) (auto simp: set_lots_def)

lemma drawn_trans: "drawn as l l' \<Longrightarrow> drawn bs l' l'' \<Longrightarrow> drawn (as @ bs) l l''"
  by (auto simp: drawn_def same_lot_def)

lemma consume_cases:
  assumes "consume ps b g = Inr g'"
  obtains sku q as ls rest where
    "whole_units (row_get (ob_row b) ''quantity'') ''quantity'' = Inr q"
    "allocate (ob_date b) (ob_id b) sku (lookup_or [] (lg_stock g) sku) q = Inr (as, ls, rest)"
    "lg_stock g' = set_lots sku ls (lg_stock g)" "lg_allocs g' = lg_allocs g @ as"
    "lg_uncovered g' = lg_uncovered g + rest"
    "lg_cogs g' = (if in_period ps (ob_date b) then foldl dadd (lg_cogs g) (map al_extended as)
       else lg_cogs g)"
  using assms by (auto simp: consume_def ebind_eq_Inr)

lemma consume_ok:
  assumes c: "consume ps b g = Inr g'" and ok: "ledger_ok st obs g" and st: "stock_ok st"
  shows "ledger_ok st (obs @ [b]) g'"
proof -
  from c obtain sku q as ls rest where
    q: "whole_units (row_get (ob_row b) ''quantity'') ''quantity'' = Inr q"
    and al: "allocate (ob_date b) (ob_id b) sku (lookup_or [] (lg_stock g) sku) q = Inr (as, ls, rest)"
    and g': "lg_stock g' = set_lots sku ls (lg_stock g)" "lg_allocs g' = lg_allocs g @ as"
      "lg_uncovered g' = lg_uncovered g + rest"
    by (rule consume_cases)
  define now where "now = lookup_or [] (lg_stock g) sku"
  have cur: "list_all2 (drawn (lg_allocs g)) (all_lots st) (all_lots (lg_stock g))"
    and keys: "map fst (lg_stock g) = map fst st"
    using ok by (auto simp: ledger_ok_def)
  have ids: "map lot_id (all_lots (lg_stock g)) = map lot_id (all_lots st)"
    using cur by (rule list_all2_ids)
  have nn: "lots_nonneg (all_lots (lg_stock g))" using cur by (rule drawn_nonneg)
  have dist: "distinct (map lot_id (all_lots (lg_stock g)))" "distinct (map fst (lg_stock g))"
    using st ids keys by (simp_all add: stock_ok_def)
  have nnow: "lots_nonneg now"
    using nn lookup_lots_subset by (auto simp: lots_nonneg_def now_def)
  have q0: "0 \<le> q" using q by (rule whole_units_nonneg)
  have dem: "demand b = q" using q by (simp add: demand_def)
  note al' = al [folded now_def]
  have cons: "list_all2 (\<lambda>l l'. lot_id l' = lot_id l \<and> remaining l' + lot_use (lot_id l) as = remaining l) now ls"
      "\<forall>i. i \<notin> lot_id ` set now \<longrightarrow> lot_use i as = 0"
    using allocate_conserves [OF al'] distinct_lookup_lots [OF dist(1)] by (auto simp: now_def)
  have same: "list_all2 same_lot now ls" using allocate_same [OF al' nnow q0] .
  have "list_all2 (drawn as) now ls"
    using same cons(1) by (auto simp: drawn_def list_all2_conv_all_nth)
  then have step: "list_all2 (drawn as) (all_lots (lg_stock g)) (all_lots (lg_stock g'))"
    unfolding g' using dist nn cons(2)
    by (intro all_lots_set_lots) (auto simp: now_def drawn_def same_lot_def lots_nonneg_def)
  have all: "list_all2 (drawn (lg_allocs g')) (all_lots st) (all_lots (lg_stock g'))"
    unfolding g'(2) using list_all2_trans [OF drawn_trans cur step] .
  have tot: "total_use as + rest = q \<and> 0 \<le> rest \<and> (\<forall>a \<in> set as. 0 < al_quantity a)"
    using allocate_total [OF al' nnow q0] .
  have "backed (obs @ [b]) (all_lots st) a" if a: "a \<in> set (lg_allocs g')" for a
  proof (cases "a \<in> set (lg_allocs g)")
    case True
    then show ?thesis using ok by (auto simp: ledger_ok_def backed_def)
  next
    case False
    then have a: "a \<in> set as" using a g'(2) by simp
    from allocate_eligible [OF al' a] obtain l where l: "l \<in> set now" "lot_id l = al_lot a"
      "receipt_date l \<le> ob_date b" "al_outbound a = ob_id b"
      "money (dmul (of_int (al_quantity a)) (unit_cost l)) = Inr (al_extended a)" by auto
    have "l \<in> set (all_lots (lg_stock g))" using l(1) lookup_lots_subset by (auto simp: now_def)
    then obtain i where i: "i < length (all_lots (lg_stock g))" "all_lots (lg_stock g) ! i = l"
      by (auto simp: in_set_conv_nth)
    then have d: "drawn (lg_allocs g) (all_lots st ! i) l" "i < length (all_lots st)"
      using cur by (auto simp: list_all2_conv_all_nth)
    then have "all_lots st ! i \<in> set (all_lots st)" by simp
    then show ?thesis using l d(1) a tot
      unfolding backed_def drawn_def same_lot_def by force
  qed
  then show ?thesis
    using all tot dem keys g' ok
    by (auto simp: ledger_ok_def)
qed

lemma efold_consume_ok:
  assumes "efold (consume ps) xs g = Inr g'" and "ledger_ok st obs g" and "stock_ok st"
  shows "ledger_ok st (obs @ xs) g'"
  using assms
proof (induction xs arbitrary: g obs)
  case Nil
  then show ?case by simp
next
  case (Cons b xs)
  from Cons.prems(1) obtain u where "consume ps b g = Inr u" "efold (consume ps) xs u = Inr g'"
    by (auto elim: ebind_eq_InrE)
  then show ?case using Cons.IH [of u "obs @ [b]"] consume_ok Cons.prems by simp
qed

lemma fifo_ledger_ok:
  assumes "fifo_ledger rl ob as_of ps = Inr (g, obs)"
  obtains s where "read_lots as_of rl = Inr s" and "stock_ok (in_stock s)"
    and "ledger_ok (in_stock s) obs g"
proof -
  from assms obtain s lim where s: "read_lots as_of rl = Inr s"
    and e: "efold (consume ps) obs \<lparr>lg_stock = in_stock s, lg_allocs = [], lg_cogs = 0,
          lg_uncovered = 0, lg_period_count = 0, lg_limits = lim\<rparr> = Inr g"
    unfolding fifo_ledger_def by (auto elim!: ebind_eq_InrE split: if_splits)
  have ok: "stock_ok (in_stock s)" using s by (rule read_lots_ok)
  have "list_all2 (drawn []) (all_lots (in_stock s)) (all_lots (in_stock s))"
    using ok by (auto simp: list_all2_same drawn_def same_lot_def stock_ok_def lots_nonneg_def)
  then have "ledger_ok (in_stock s) [] \<lparr>lg_stock = in_stock s, lg_allocs = [], lg_cogs = 0,
          lg_uncovered = 0, lg_period_count = 0, lg_limits = lim\<rparr>"
    by (simp add: ledger_ok_def)
  from efold_consume_ok [OF e this ok] have "ledger_ok (in_stock s) obs g" by simp
  with s ok show thesis by (rule that)
qed

lemma aged_units_antimono:
  "lots_nonneg ls \<Longrightarrow> m \<le> n \<Longrightarrow> 0 \<le> aged_units as_of n ls \<and> aged_units as_of n ls \<le> aged_units as_of m ls"
  by (induction ls) (auto simp: aged_units_def lots_nonneg_def)

lemma calculate_fifo_cases:
  assumes "calculate_fifo rl ob as_of ps = Inr r"
  obtains g obs c where "fifo_ledger rl ob as_of ps = Inr (g, obs)"
    "fr_allocations r = lg_allocs g" "money (lg_cogs g) = Inr c"
    "value_of (fr_cogs r) = (if lg_uncovered g = 0 \<and> lg_stock g \<noteq> [] \<and> lg_period_count g \<noteq> 0
        then Some c else None)"
    "known_subtotal (fr_cogs r) = Some c"
    "honest (fr_cogs r)" "honest (fr_ending r)"
    "fr_aging_90 r = (if lg_uncovered g = 0 \<and> lg_stock g \<noteq> [] \<and> obs \<noteq> []
        then Some (aged_units as_of 90 (all_lots (lg_stock g))) else None)"
    "fr_aging_120 r = (if lg_uncovered g = 0 \<and> lg_stock g \<noteq> [] \<and> obs \<noteq> []
        then Some (aged_units as_of 120 (all_lots (lg_stock g))) else None)"
proof -
  from assms obtain g obs where l: "fifo_ledger rl ob as_of ps = Inr (g, obs)"
    and r: "fifo_report as_of ps (rl \<noteq> []) (obs \<noteq> []) g = Inr r"
    unfolding calculate_fifo_def by (auto elim!: ebind_eq_InrE)
  from r obtain e c where e: "money (dsum (map (\<lambda>l. dmul (of_int (remaining l)) (unit_cost l))
      (all_lots (lg_stock g)))) = Inr e" and c: "money (lg_cogs g) = Inr c"
    by (auto simp: fifo_report_def Let_def elim!: ebind_eq_InrE)
  note r' = r [unfolded fifo_report_def Let_def e c ebind_Inr sum.inject, symmetric]
  show thesis by (rule that [OF l _ c]) (simp_all add: r' honest_def)
qed

lemma consume_cogs:
  assumes "efold (consume None) xs g = Inr g'"
    and "lg_cogs g = dsum (map al_extended (lg_allocs g))"
  shows "lg_cogs g' = dsum (map al_extended (lg_allocs g'))"
  using assms
proof (rule efold_invariant)
  fix b s t
  assume s: "lg_cogs s = dsum (map al_extended (lg_allocs s))" and "consume None b s = Inr t"
  then show "lg_cogs t = dsum (map al_extended (lg_allocs t))"
    by (elim consume_cases) (simp add: in_period_def dsum_def)
qed

lemma fifo_ledger_cogs:
  assumes "fifo_ledger rl ob as_of None = Inr (g, obs)"
  shows "lg_cogs g = dsum (map al_extended (lg_allocs g))"
proof -
  from assms obtain st lim where "efold (consume None) obs \<lparr>lg_stock = st, lg_allocs = [],
      lg_cogs = 0, lg_uncovered = 0, lg_period_count = 0, lg_limits = lim\<rparr> = Inr g"
    unfolding fifo_ledger_def by (auto elim!: ebind_eq_InrE split: if_splits)
  then show ?thesis by (rule consume_cogs) (simp add: dsum_def)
qed

lemma backed_places: "backed obs ls a \<Longrightarrow> has_places 2 (al_extended a)"
  by (auto simp: backed_def dest: money_places)

section \<open>Properties\<close>

definition demo_lots :: "row list" where
  "demo_lots =
     [[''lot_id'' \<mapsto> PStr ''L2'', ''sku_id'' \<mapsto> PStr ''A'', ''quantity_received'' \<mapsto> PInt 3,
       ''unit_cost_brl'' \<mapsto> PStr ''12.50'', ''receipt_date'' \<mapsto> PStr ''2026-01-05''],
      [''lot_id'' \<mapsto> PStr ''L1'', ''sku_id'' \<mapsto> PStr ''A'', ''quantity_received'' \<mapsto> PInt 2,
       ''unit_cost_brl'' \<mapsto> PInt 10, ''receipt_date'' \<mapsto> PStr ''2026-01-01'']]"

definition demo_outbound :: "row list" where
  "demo_outbound =
     [[''outbound_id'' \<mapsto> PStr ''O1'', ''sku_id'' \<mapsto> PStr ''A'', ''quantity'' \<mapsto> PInt 4,
       ''date'' \<mapsto> PStr ''2026-01-06'']]"

definition demo_day :: date where
  "demo_day = to_ordinal 2026 4 10"

definition demo_ledger :: ledger where
  "demo_ledger = \<lparr>
     lg_stock = [(''A'',
       [\<lparr>lot_id = ''L1'', lot_sku = ''A'', receipt_date = 739617, remaining = 0, unit_cost = 10\<rparr>,
        \<lparr>lot_id = ''L2'', lot_sku = ''A'', receipt_date = 739621, remaining = 1, unit_cost = 25/2\<rparr>])],
     lg_allocs =
       [\<lparr>al_outbound = ''O1'', al_lot = ''L1'', al_sku = ''A'', al_quantity = 2, al_unit_cost = 10,
          al_extended = 20\<rparr>,
        \<lparr>al_outbound = ''O1'', al_lot = ''L2'', al_sku = ''A'', al_quantity = 2, al_unit_cost = 25/2,
          al_extended = 25\<rparr>],
     lg_cogs = 45, lg_uncovered = 0, lg_period_count = 1, lg_limits = []\<rparr>"

lemma demo_run:
  obtains obs where "fifo_ledger demo_lots demo_outbound demo_day None = Inr (demo_ledger, obs)"
    and "map demand obs = [4]"
proof -
  have "case fifo_ledger demo_lots demo_outbound demo_day None of
      Inr (g, obs) \<Rightarrow> g = demo_ledger \<and> map demand obs = [4] | Inl _ \<Rightarrow> False"
    by code_simp
  then show thesis using that by (auto split: sum.splits prod.splits)
qed

text \<open>
  C1: conservation of stock. Every lot read from the receipts is still in the ledger after all
  outbound events, never negative, and what it lost is exactly the quantity the allocations
  name it for.
\<close>

theorem fifo_lots_conserved:
  assumes "fifo_ledger rl ob as_of ps = Inr (g, obs)"
  shows "\<exists>s. read_lots as_of rl = Inr s
    \<and> list_all2 (\<lambda>l l'. lot_id l' = lot_id l \<and> 0 \<le> remaining l'
        \<and> remaining l' + lot_use (lot_id l) (lg_allocs g) = remaining l)
      (all_lots (in_stock s)) (all_lots (lg_stock g))"
proof -
  obtain s where s: "read_lots as_of rl = Inr s" "ledger_ok (in_stock s) obs g"
    using assms by (metis fifo_ledger_ok)
  then have "list_all2 (drawn (lg_allocs g)) (all_lots (in_stock s)) (all_lots (lg_stock g))"
    by (simp add: ledger_ok_def)
  then have "list_all2 (\<lambda>l l'. lot_id l' = lot_id l \<and> 0 \<le> remaining l'
        \<and> remaining l' + lot_use (lot_id l) (lg_allocs g) = remaining l)
      (all_lots (in_stock s)) (all_lots (lg_stock g))"
    by (rule list.rel_mono_strong) (auto simp: drawn_def same_lot_def)
  with s(1) show ?thesis by blast
qed

theorem fifo_lots_conserved_witness:
  "\<exists>s. read_lots demo_day demo_lots = Inr s
    \<and> list_all2 (\<lambda>l l'. lot_id l' = lot_id l \<and> 0 \<le> remaining l'
        \<and> remaining l' + lot_use (lot_id l) (lg_allocs demo_ledger) = remaining l)
      (all_lots (in_stock s)) (all_lots (lg_stock demo_ledger))"
  by (rule demo_run) (rule fifo_lots_conserved)

text \<open>
  Every requested unit is accounted for. Over all outbound events up to \<open>as_of\<close>, the
  allocated units and the uncovered units add up to the requested units, and neither is
  negative.
\<close>

theorem fifo_demand_accounted:
  assumes "fifo_ledger rl ob as_of ps = Inr (g, obs)"
  shows "total_use (lg_allocs g) + lg_uncovered g = sum_list (map demand obs)
    \<and> 0 \<le> total_use (lg_allocs g) \<and> 0 \<le> lg_uncovered g"
proof -
  obtain st where "ledger_ok st obs g"
    using assms by (metis fifo_ledger_ok)
  then show ?thesis
    by (auto simp: ledger_ok_def total_use_def backed_def intro!: sum_list_nonneg) (metis less_imp_le)
qed

theorem fifo_demand_accounted_witness:
  "\<exists>obs. fifo_ledger demo_lots demo_outbound demo_day None = Inr (demo_ledger, obs)
    \<and> total_use (lg_allocs demo_ledger) + lg_uncovered demo_ledger = sum_list (map demand obs)"
  by (rule demo_run) (use fifo_demand_accounted in blast)


lemma demo_calculation:
  obtains r where "calculate_fifo demo_lots demo_outbound demo_day None = Inr r"
    and "fr_allocations r = lg_allocs demo_ledger" and "value_of (fr_cogs r) = Some 45"
    and "fr_aging_90 r = Some 1" and "fr_aging_120 r = Some 0"
proof -
  have "case calculate_fifo demo_lots demo_outbound demo_day None of
      Inr r \<Rightarrow> fr_allocations r = lg_allocs demo_ledger \<and> value_of (fr_cogs r) = Some 45
        \<and> fr_aging_90 r = Some 1 \<and> fr_aging_120 r = Some 0 | Inl _ \<Rightarrow> False"
    by code_simp
  then show thesis using that by (auto split: sum.splits)
qed



definition demo_shelf :: "lot list" where
  "demo_shelf =
     [\<lparr>lot_id = ''L2'', lot_sku = ''A'', receipt_date = 5, remaining = 3, unit_cost = 25/2\<rparr>,
      \<lparr>lot_id = ''L1'', lot_sku = ''A'', receipt_date = 1, remaining = 2, unit_cost = 10\<rparr>]"


text \<open>
  units are reported uncovered only when the stock is exhausted: if an event leaves a
  remainder, every lot of the SKU that it may use is empty afterwards.
\<close>

theorem fifo_uncovered_only_when_empty:
  assumes "allocate d b sku ls need = Inr (as, ls', rest)"
    and "\<forall>l \<in> set ls. 0 \<le> remaining l" and "0 \<le> need" and "0 < rest"
    and "i < length ls" and "receipt_date (ls ! i) \<le> d"
  shows "remaining (ls' ! i) = 0"
  using allocate_exhausts assms by (simp add: lots_nonneg_def)

theorem fifo_uncovered_only_when_empty_witness:
  "\<exists>as ls' rest. allocate 6 ''O1'' ''A'' demo_shelf 9 = Inr (as, ls', rest)
    \<and> 0 < rest \<and> remaining (ls' ! 0) = 0"
proof -
  have "case allocate 6 ''O1'' ''A'' demo_shelf 9 of Inr (as, ls', rest) \<Rightarrow> 0 < rest | Inl _ \<Rightarrow> False"
    "0 < length demo_shelf" "\<forall>l \<in> set demo_shelf. 0 \<le> remaining l" "receipt_date (demo_shelf ! 0) \<le> 6"
    by code_simp+
  then show ?thesis
    using fifo_uncovered_only_when_empty [of 6 "''O1''" "''A''" demo_shelf 9 _ _ _ 0]
    by (auto split: sum.splits prod.splits)
qed

text \<open>
  The cost of goods sold is exact and never guessed. Without a period it is reported only
  when every requested unit was covered, and then, while the total stays below 10 to the 26,
  it is the exact sum of the extended costs of the allocations.
\<close>

theorem fifo_cogs_exact:
  assumes "calculate_fifo rl ob as_of None = Inr r" and "value_of (fr_cogs r) = Some c"
    and "sum_list (map (\<lambda>a. \<bar>al_extended a\<bar>) (fr_allocations r)) < 10 ^ 26"
  shows "c = sum_list (map al_extended (fr_allocations r))
    \<and> (\<exists>g obs. fifo_ledger rl ob as_of None = Inr (g, obs)
          \<and> total_use (fr_allocations r) = sum_list (map demand obs))"
proof -
  obtain g obs c' where g: "fifo_ledger rl ob as_of None = Inr (g, obs)"
    and al: "fr_allocations r = lg_allocs g" and c': "money (lg_cogs g) = Inr c'"
    and v: "value_of (fr_cogs r) = (if lg_uncovered g = 0 \<and> lg_stock g \<noteq> [] \<and> lg_period_count g \<noteq> 0
        then Some c' else None)"
    using assms(1) by (rule calculate_fifo_cases)
  obtain st where s: "ledger_ok st obs g" using g by (metis fifo_ledger_ok)
  let ?xs = "map al_extended (lg_allocs g)"
  have b: "sum_list (map abs ?xs) < 10 ^ 26" using assms(3) al by (simp add: o_def)
  have places: "\<And>x. x \<in> set ?xs \<Longrightarrow> has_places 2 x"
    using s by (auto simp: ledger_ok_def dest: backed_places)
  have "dsum ?xs = sum_list ?xs"
    using b by (intro dsum_exact [of _ 2] places) (simp_all add: prec_limit_def)
  then have cogs: "lg_cogs g = sum_list ?xs" using fifo_ledger_cogs [OF g] by simp
  have "\<bar>sum_list ?xs\<bar> < 10 ^ 26" using sum_list_abs [of ?xs] b by linarith
  moreover have "has_places 2 (sum_list ?xs)" using places by (rule has_places_sum_list)
  ultimately have "money (lg_cogs g) = Inr (sum_list ?xs)" using cogs by (simp add: money_exact)
  then have "c = sum_list ?xs" "lg_uncovered g = 0"
    using c' v assms(2) by (auto split: if_splits)
  then show ?thesis using al g s by (auto simp: ledger_ok_def)
qed

theorem fifo_cogs_exact_witness:
  "\<exists>r. calculate_fifo demo_lots demo_outbound demo_day None = Inr r
    \<and> 45 = sum_list (map al_extended (fr_allocations r))"
proof (rule demo_calculation)
  fix r assume r: "calculate_fifo demo_lots demo_outbound demo_day None = Inr r"
    and al: "fr_allocations r = lg_allocs demo_ledger" and v: "value_of (fr_cogs r) = Some 45"
  have "sum_list (map (\<lambda>a. \<bar>al_extended a\<bar>) (fr_allocations r)) < 10 ^ 26"
    by (simp add: al demo_ledger_def)
  from fifo_cogs_exact [OF r v this] r show ?thesis by blast
qed

text \<open>
  unknown stays unknown. The aged units are reported together or not at all, the 120-day
  units are among the 90-day units, and no metric of the report has a value in the state
  \<open>Unknown\<close> or lacks one in another state.
\<close>

theorem fifo_aging_consistent:
  assumes "calculate_fifo rl ob as_of ps = Inr r"
  shows "honest (fr_cogs r) \<and> honest (fr_ending r)
    \<and> (case (fr_aging_90 r, fr_aging_120 r) of
         (Some u, Some v) \<Rightarrow> 0 \<le> v \<and> v \<le> u | (None, None) \<Rightarrow> True | _ \<Rightarrow> False)"
proof -
  obtain g obs where g: "fifo_ledger rl ob as_of ps = Inr (g, obs)"
    and h: "honest (fr_cogs r)" "honest (fr_ending r)"
    and a: "fr_aging_90 r = (if lg_uncovered g = 0 \<and> lg_stock g \<noteq> [] \<and> obs \<noteq> []
        then Some (aged_units as_of 90 (all_lots (lg_stock g))) else None)"
      "fr_aging_120 r = (if lg_uncovered g = 0 \<and> lg_stock g \<noteq> [] \<and> obs \<noteq> []
        then Some (aged_units as_of 120 (all_lots (lg_stock g))) else None)"
    using assms by (rule calculate_fifo_cases)
  obtain st where "ledger_ok st obs g" using g by (metis fifo_ledger_ok)
  then have "lots_nonneg (all_lots (lg_stock g))" by (auto simp: ledger_ok_def dest: drawn_nonneg)
  from aged_units_antimono [OF this, of 90 120 as_of] show ?thesis
    using h by (simp add: a)
qed

theorem fifo_aging_consistent_witness:
  "\<exists>r. calculate_fifo demo_lots demo_outbound demo_day None = Inr r
    \<and> fr_aging_90 r = Some 1 \<and> honest (fr_cogs r)"
  by (rule demo_calculation) (use fifo_aging_consistent in blast)

end
