(* ===== verification/SalesAds.thy ===== *)
theory SalesAds
  imports Evidence
begin

text \<open>
  \<open>src/analysis/sales_ads_calculator.py\<close>: sales rows and advertising rows are read and summed
  up, in total, per SKU and per day; the report ranks the SKUs, lists the days, and marks
  spikes. Reading a row (\<open>parse_sale\<close>, \<open>parse_ad\<close>) can fail and does not depend on the sums, so
  the two loops are a traversal followed by a fold (\<open>add_sale\<close>, \<open>add_ad\<close>). The snapshot hash
  is left out.
\<close>

section \<open>Data\<close>

record sku_sales =
  ss_sku :: string
  ss_net :: dec
  ss_units :: int
  ss_spend :: "dec option"
  ss_roas :: "dec option"

record daily_sales =
  ds_date :: string
  ds_net :: dec
  ds_spend :: "dec option"

record sales_ads_result =
  sr_gross :: metric
  sr_net :: metric
  sr_units :: metric
  sr_orders :: metric
  sr_aov :: metric
  sr_spend :: metric
  sr_roas :: metric
  sr_acos :: metric
  sr_ranking :: "sku_sales list"
  sr_trends :: "daily_sales list"
  sr_anomalies :: "string list"
  sr_evidence :: "evidence list"
  sr_limitations :: "string list"

record sale =
  sl_sku :: string
  sl_day :: string
  sl_units :: int
  sl_gross :: dec
  sl_discount :: "dec option"
  sl_order :: string

record ad =
  ad_sku :: string
  ad_day :: string
  ad_spend :: dec

text \<open>The running sums; \<open>t_skus\<close> holds \<open>(net, units, spend)\<close> and \<open>t_days\<close> holds \<open>(net, spend)\<close>.\<close>

record totals =
  t_gross :: dec
  t_discounts :: dec
  t_known :: dec
  t_complete :: bool
  t_units :: int
  t_orders :: "string list"
  t_skus :: "(string \<times> dec \<times> int \<times> dec) list"
  t_days :: "(string \<times> dec \<times> dec) list"
  t_spend :: dec

section \<open>Reading the rows\<close>

definition nonnegative_integer :: "row \<Rightarrow> string \<Rightarrow> int res" where
  "nonnegative_integer r field =
     ebind (integer_value (row_get r field) field) (\<lambda>n.
       if n < 0 then Inl (ValueError (field @ ''_negative'')) else Inr n)"

definition parse_discount :: "row \<Rightarrow> dec \<Rightarrow> dec option res" where
  "parse_discount r gross =
     (if row_missing r ''discount_brl'' then Inr None
      else ebind (nonnegative_decimal (row_get r ''discount_brl'') ''discount_brl'') (\<lambda>d.
        if gross < d then Inl (ValueError ''discount_exceeds_gross'') else Inr (Some d)))"

definition parse_sale :: "row \<Rightarrow> sale res" where
  "parse_sale r =
     ebind (text_value (row_get r ''sku_id'') ''sku_id'') (\<lambda>sku.
     ebind (text_value (row_get r ''date'') ''date'') (\<lambda>day.
     ebind (nonnegative_integer r ''units'') (\<lambda>units.
     ebind (nonnegative_decimal (row_get r ''gross_sales_brl'') ''gross_sales_brl'') (\<lambda>gross.
     ebind (parse_discount r gross) (\<lambda>discount.
     ebind (text_value (row_get r ''order_id'') ''order_id'') (\<lambda>order.
       Inr \<lparr>sl_sku = sku, sl_day = day, sl_units = units, sl_gross = gross,
            sl_discount = discount, sl_order = order\<rparr>))))))"

definition parse_ad :: "row \<Rightarrow> ad res" where
  "parse_ad r =
     ebind (text_value (row_get r ''sku_id'') ''sku_id'') (\<lambda>sku.
     ebind (text_value (row_get r ''date'') ''date'') (\<lambda>day.
     ebind (nonnegative_decimal (row_get r ''spend_brl'') ''spend_brl'') (\<lambda>spend.
     ebind (nonnegative_integer r ''impressions'') (\<lambda>_.
     ebind (nonnegative_integer r ''clicks'') (\<lambda>_.
     ebind (nonnegative_integer r ''attributed_orders'') (\<lambda>_.
       Inr \<lparr>ad_sku = sku, ad_day = day, ad_spend = spend\<rparr>))))))"

section \<open>The sums\<close>

definition no_totals :: totals where
  "no_totals = \<lparr>t_gross = 0, t_discounts = 0, t_known = 0, t_complete = True, t_units = 0,
     t_orders = [], t_skus = [], t_days = [], t_spend = 0\<rparr>"

definition add_net :: "sale \<Rightarrow> dec \<Rightarrow> totals \<Rightarrow> totals" where
  "add_net s net t = t\<lparr>
     t_known := dadd (t_known t) net,
     t_skus := upd (sl_sku s) (0, 0, 0) (\<lambda>(n, u, p). (dadd n net, u + sl_units s, p)) (t_skus t),
     t_days := upd (sl_day s) (0, 0) (\<lambda>(n, p). (dadd n net, p)) (t_days t)\<rparr>"

definition add_sale :: "sale \<Rightarrow> totals \<Rightarrow> totals" where
  "add_sale s t =
     (let t' = t\<lparr>t_gross := dadd (t_gross t) (sl_gross s), t_units := t_units t + sl_units s,
                 t_orders := List.insert (sl_order s) (t_orders t)\<rparr>
      in case sl_discount s of
           None \<Rightarrow> t'\<lparr>t_complete := False\<rparr>
         | Some d \<Rightarrow> add_net s (dsub (sl_gross s) d) (t'\<lparr>t_discounts := dadd (t_discounts t) d\<rparr>))"

definition add_ad :: "ad \<Rightarrow> totals \<Rightarrow> totals" where
  "add_ad a t = t\<lparr>
     t_spend := dadd (t_spend t) (ad_spend a),
     t_skus := upd (ad_sku a) (0, 0, 0) (\<lambda>(n, u, p). (n, u, dadd p (ad_spend a))) (t_skus t),
     t_days := upd (ad_day a) (0, 0) (\<lambda>(n, p). (n, dadd p (ad_spend a))) (t_days t)\<rparr>"

definition sum_up :: "row list \<Rightarrow> row list \<Rightarrow> totals res" where
  "sum_up sales advertising =
     ebind (emap parse_sale sales) (\<lambda>ss.
     ebind (emap parse_ad advertising) (\<lambda>as.
       Inr (fold add_ad as (fold add_sale ss no_totals))))"

section \<open>The report\<close>

definition rank_order :: "string \<times> dec \<times> int \<times> dec \<Rightarrow> dec \<times> string" where
  "rank_order p = (dneg (fst (snd p)), fst p)"

definition spend_column :: "bool \<Rightarrow> dec \<Rightarrow> dec option res" where
  "spend_column has_ads p = (if has_ads then ebind (money p) (\<lambda>m. Inr (Some m)) else Inr None)"

definition sku_line :: "bool \<Rightarrow> string \<times> dec \<times> int \<times> dec \<Rightarrow> sku_sales res" where
  "sku_line has_ads q = (case q of (sku, n, u, p) \<Rightarrow>
     ebind (money n) (\<lambda>net. ebind (spend_column has_ads p) (\<lambda>spend.
       Inr \<lparr>ss_sku = sku, ss_net = net, ss_units = u, ss_spend = spend, ss_roas = None\<rparr>)))"

definition day_line :: "bool \<Rightarrow> string \<times> dec \<times> dec \<Rightarrow> daily_sales res" where
  "day_line has_ads q = (case q of (day, n, p) \<Rightarrow>
     ebind (money n) (\<lambda>net. ebind (spend_column has_ads p) (\<lambda>spend.
       Inr \<lparr>ds_date = day, ds_net = net, ds_spend = spend\<rparr>)))"

definition anomalies :: "daily_sales list \<Rightarrow> string list res" where
  "anomalies trends =
     (if length trends < 2 then Inr []
      else ebind (ddiv (dsum (map ds_net trends)) (of_nat (length trends))) (\<lambda>average.
        if average = 0 then Inr []
        else Inr (map (\<lambda>d. ''sales_spike:'' @ ds_date d)
               (filter (\<lambda>d. dmul average (3/2) \<le> ds_net d) trends))))"

definition net_total :: "totals \<Rightarrow> dec" where
  "net_total t = (if t_complete t then dsub (t_gross t) (t_discounts t) else t_known t)"

definition average_order :: "totals \<Rightarrow> dec option res" where
  "average_order t =
     (if t_orders t \<noteq> [] \<and> t_complete t
      then ebind (ddiv (net_total t) (of_nat (length (t_orders t)))) (\<lambda>a.
           ebind (money a) (\<lambda>m. Inr (Some m)))
      else Inr None)"

definition unknown_metric :: metric where
  "unknown_metric = mk_metric None Unknown [] None"

definition sales_limitations :: "bool \<Rightarrow> bool \<Rightarrow> bool \<Rightarrow> string list" where
  "sales_limitations has_sales has_ads known =
     (if \<not> has_sales then [''sales_missing'']
      else if \<not> known then [''daily_sales.discount_brl_missing''] else [])
     @ (if \<not> has_ads then [''advertising_missing''] else [])
     @ (if has_sales \<and> has_ads then [''attributed_revenue_missing''] else [])"

definition sales_evidence :: "bool \<Rightarrow> bool \<Rightarrow> bool \<Rightarrow> evidence list" where
  "sales_evidence has_sales has_ads known =
     [mk_evidence ''sales.gross'' (if has_sales then Measured else Unknown)
        ''sum(gross_sales_brl)'' [''daily_sales''],
      mk_evidence ''sales.net'' (if has_sales \<and> known then Derived else Unknown)
        ''sum(gross_sales_brl)-sum(discount_brl)'' [''daily_sales''],
      mk_evidence ''sales.activity'' (if has_sales then Measured else Unknown)
        ''sum(units) and distinct(order_id)'' [''daily_sales''],
      mk_evidence ''advertising.total'' (if has_ads then Measured else Unknown)
        ''sum(spend)'' [''shopee_advertising''],
      mk_evidence ''sales_ads.roas'' Unknown
        ''requires attributed_revenue; total sales is not advertising revenue''
        [''daily_sales'', ''shopee_advertising'']]"

definition sales_ranking :: "bool \<Rightarrow> bool \<Rightarrow> totals \<Rightarrow> sku_sales list res" where
  "sales_ranking has_sales has_ads t =
     (if has_sales \<and> t_complete t then emap (sku_line has_ads) (sort_key rank_order (t_skus t)) else Inr [])"

definition sales_trends :: "bool \<Rightarrow> bool \<Rightarrow> totals \<Rightarrow> daily_sales list res" where
  "sales_trends has_sales has_ads t =
     (if has_sales \<and> t_complete t then emap (day_line has_ads) (sort_key fst (t_days t)) else Inr [])"

definition sales_metrics :: "bool \<Rightarrow> bool \<Rightarrow> totals
    \<Rightarrow> (metric \<times> metric \<times> metric) res" where
  "sales_metrics has_sales has_ads t =
     ebind (if has_sales then ebind (money (t_gross t)) (\<lambda>g.
              Inr (mk_metric (Some g) Measured [''sales.gross''] None)) else Inr unknown_metric) (\<lambda>gross.
     ebind (if has_sales then ebind (money (net_total t)) (\<lambda>n.
              Inr (mk_metric (if t_complete t then Some n else None)
                (if t_complete t then Derived else Unknown) [''sales.net''] (Some n)))
            else Inr unknown_metric) (\<lambda>net.
     ebind (if has_ads then ebind (money (t_spend t)) (\<lambda>p.
              Inr (mk_metric (Some p) Measured [''advertising.total''] None)) else Inr unknown_metric) (\<lambda>spend.
       Inr (gross, net, spend))))"

definition sales_report :: "bool \<Rightarrow> bool \<Rightarrow> totals \<Rightarrow> sales_ads_result res" where
  "sales_report has_sales has_ads t =
     ebind (average_order t) (\<lambda>aov.
     ebind (sales_ranking has_sales has_ads t) (\<lambda>ranking.
     ebind (sales_trends has_sales has_ads t) (\<lambda>trends.
     ebind (anomalies trends) (\<lambda>spikes.
     ebind (sales_metrics has_sales has_ads t) (\<lambda>(gross, net, spend).
       Inr \<lparr>sr_gross = gross, sr_net = net,
            sr_units = (if has_sales then mk_metric (Some (of_int (t_units t))) Measured [''sales.activity''] None
                        else unknown_metric),
            sr_orders = (if has_sales then mk_metric (Some (of_nat (length (t_orders t)))) Measured
                           [''sales.activity''] None else unknown_metric),
            sr_aov = (case aov of Some a \<Rightarrow> mk_metric (Some a) Derived [''sales.net''] None
                        | None \<Rightarrow> unknown_metric),
            sr_spend = spend,
            sr_roas = mk_metric None Unknown [''sales.net'', ''advertising.total''] None,
            sr_acos = mk_metric None Unknown [''sales.net'', ''advertising.total''] None,
            sr_ranking = ranking, sr_trends = trends, sr_anomalies = spikes,
            sr_evidence = sales_evidence has_sales has_ads (t_complete t),
            sr_limitations = sales_limitations has_sales has_ads (t_complete t)\<rparr>)))))"

definition calculate_sales_ads :: "row list \<Rightarrow> row list \<Rightarrow> sales_ads_result res" where
  "calculate_sales_ads sales advertising =
     ebind (sum_up sales advertising) (sales_report (sales \<noteq> []) (advertising \<noteq> []))"

section \<open>The sums are exact\<close>

text \<open>A row as \<open>parse_sale\<close> lets it through.\<close>

definition sale_ok :: "sale \<Rightarrow> bool" where
  "sale_ok s \<longleftrightarrow> 0 \<le> sl_units s \<and> 0 \<le> sl_gross s
     \<and> (case sl_discount s of None \<Rightarrow> True | Some d \<Rightarrow> 0 \<le> d \<and> d \<le> sl_gross s)"

definition cents :: "sale \<Rightarrow> bool" where
  "cents s \<longleftrightarrow> has_places 2 (sl_gross s)
     \<and> (case sl_discount s of None \<Rightarrow> True | Some d \<Rightarrow> has_places 2 d)"

lemma parse_sale_ok: "parse_sale r = Inr s \<Longrightarrow> sale_ok s"
  unfolding parse_sale_def
  by (auto elim!: ebind_eq_InrE simp: sale_ok_def nonnegative_integer_def parse_discount_def
      split: if_splits dest!: nonnegative_decimal_nonneg)

definition column :: "('v \<Rightarrow> dec) \<Rightarrow> ('k \<times> 'v) list \<Rightarrow> dec" where
  "column g m = sum_list (map (g \<circ> snd) m)"

lemma column_upd:
  "g d = 0 \<Longrightarrow> column g (upd k d f m) = column g m + (g (f (lookup_or d m k)) - g (lookup_or d m k))"
  unfolding column_def by (rule sum_upd)

lemma column_sort [simp]: "column g (sort_key f m) = column g m"
proof -
  have "mset (map (g \<circ> snd) (sort_key f m)) = mset (map (g \<circ> snd) m)" by simp
  then show ?thesis unfolding column_def by (metis sum_mset_sum_list)
qed

text \<open>A table of nets: distinct keys, amounts in cents that are not negative.\<close>

definition table_ok :: "('v \<Rightarrow> dec) \<Rightarrow> ('k \<times> 'v) list \<Rightarrow> bool" where
  "table_ok g m \<longleftrightarrow> distinct (map fst m) \<and> (\<forall>p \<in> set m. 0 \<le> g (snd p) \<and> has_places 2 (g (snd p)))"

lemma column_bound: "table_ok g m \<Longrightarrow> p \<in> set m \<Longrightarrow> g (snd p) \<le> column g m"
  by (force simp: column_def table_ok_def intro!: member_le_sum_list)

lemma lookup_or_in: "lookup_or d m k = d \<or> (\<exists>v. (k, v) \<in> set m \<and> lookup_or d m k = v)"
  by (auto simp: lookup_or_def split: option.splits dest: map_of_SomeD)

lemma table_lookup:
  assumes "table_ok g m" and "g d = 0"
  shows "0 \<le> g (lookup_or d m k)" and "has_places 2 (g (lookup_or d m k))"
    and "g (lookup_or d m k) \<le> column g m"
proof -
  have nn: "0 \<le> column g m"
    using assms(1) unfolding column_def table_ok_def by (intro sum_list_nonneg) auto
  show "0 \<le> g (lookup_or d m k)" "has_places 2 (g (lookup_or d m k))" "g (lookup_or d m k) \<le> column g m"
    using lookup_or_in [of d m k] assms nn column_bound [OF assms(1)] by (force simp: table_ok_def)+
qed

lemma set_upd_cases:
  "p \<in> set (upd k d f m) \<Longrightarrow> p = (k, f (lookup_or d m k)) \<or> p \<in> set m"
  by (induction m) (auto simp: lookup_or_def split: if_splits)

lemma table_ok_upd:
  assumes "table_ok g m" and "0 \<le> g (f (lookup_or d m k))" and "has_places 2 (g (f (lookup_or d m k)))"
  shows "table_ok g (upd k d f m)"
  using assms by (auto simp: table_ok_def distinct_upd dest!: set_upd_cases)

definition totals_ok :: "totals \<Rightarrow> bool" where
  "totals_ok t \<longleftrightarrow> has_places 2 (t_gross t) \<and> has_places 2 (t_discounts t) \<and> has_places 2 (t_known t)
     \<and> table_ok fst (t_skus t) \<and> table_ok fst (t_days t)
     \<and> column fst (t_skus t) = t_known t \<and> column fst (t_days t) = t_known t
     \<and> 0 \<le> t_known t \<and> 0 \<le> t_discounts t \<and> t_known t + t_discounts t \<le> t_gross t
     \<and> (t_complete t \<longrightarrow> t_known t + t_discounts t = t_gross t)"

lemma no_totals_ok: "totals_ok no_totals"
  by (simp add: totals_ok_def no_totals_def table_ok_def column_def)

lemma sum_exact:
  assumes "has_places 2 x" and "has_places 2 y" and "0 \<le> x" and "0 \<le> y" and "x + y < 10 ^ 26"
  shows "dadd x y = x + y"
  using assms by (intro dadd_exact [of 2]) (simp_all add: prec_limit_def)

lemma upd_net_ok:
  assumes "table_ok g m" and "g d = 0" and "\<And>v. g (f v) = dadd (g v) n"
    and "0 \<le> n" and "has_places 2 n" and "column g m + n < 10 ^ 26"
  shows "table_ok g (upd k d f m) \<and> column g (upd k d f m) = column g m + n"
proof -
  note l = table_lookup [OF assms(1,2), of k]
  have e: "g (f (lookup_or d m k)) = g (lookup_or d m k) + n"
    unfolding assms(3) using l assms(4-6) by (intro sum_exact) auto
  show ?thesis
    using l assms(4,5) by (auto intro!: table_ok_upd [OF assms(1)] has_places_add
        simp: column_upd [of g d, OF assms(2)] e)
qed

lemma add_sale_ok:
  assumes "totals_ok t" and "sale_ok s" and "cents s" and "t_gross t + sl_gross s < 10 ^ 26"
  shows "totals_ok (add_sale s t)" and "t_gross (add_sale s t) = t_gross t + sl_gross s"
    and "t_complete (add_sale s t) \<longleftrightarrow> t_complete t \<and> sl_discount s \<noteq> None"
    and "t_discounts (add_sale s t) = t_discounts t + (case sl_discount s of None \<Rightarrow> 0 | Some d \<Rightarrow> d)"
proof -
  have t: "has_places 2 (t_gross t)" "has_places 2 (t_discounts t)" "has_places 2 (t_known t)"
      "0 \<le> t_known t" "0 \<le> t_discounts t" "t_known t + t_discounts t \<le> t_gross t"
      "table_ok fst (t_skus t)" "table_ok fst (t_days t)"
      "column fst (t_skus t) = t_known t" "column fst (t_days t) = t_known t"
    using assms(1) by (simp_all add: totals_ok_def)
  have g: "dadd (t_gross t) (sl_gross s) = t_gross t + sl_gross s" "has_places 2 (sl_gross s)" "0 \<le> sl_gross s"
    using assms t by (auto simp: sale_ok_def cents_def intro!: sum_exact)
  have "totals_ok (add_sale s t) \<and> t_gross (add_sale s t) = t_gross t + sl_gross s
    \<and> (t_complete (add_sale s t) \<longleftrightarrow> t_complete t \<and> sl_discount s \<noteq> None)
    \<and> t_discounts (add_sale s t) = t_discounts t + (case sl_discount s of None \<Rightarrow> 0 | Some d \<Rightarrow> d)"
  proof (cases "sl_discount s")
    case None
    then show ?thesis
      using assms(1) g by (auto simp: add_sale_def Let_def totals_ok_def intro: has_places_add)
  next
    case (Some d)
    then have d: "0 \<le> d" "d \<le> sl_gross s" "has_places 2 d"
      using assms(2,3) by (auto simp: sale_ok_def cents_def)
    let ?n = "sl_gross s - d"
    have n: "dsub (sl_gross s) d = ?n"
      using d g(2,3) assms(4) t(4-6) by (intro dsub_exact [of 2]) (auto simp: prec_limit_def)
    have np: "0 \<le> ?n" "has_places 2 ?n" "column fst (t_skus t) + ?n < 10 ^ 26"
      "column fst (t_days t) + ?n < 10 ^ 26"
      using d g t assms(4) by (auto intro: has_places_diff)
    have s: "dadd (t_known t) ?n = t_known t + ?n" "dadd (t_discounts t) d = t_discounts t + d"
      using d g np t assms(4) by (auto intro!: sum_exact)
    note u = upd_net_ok [OF t(7) _ _ np(1-3), where d = "(0, 0, 0)" and k = "sl_sku s"
          and f = "\<lambda>(m, u, p). (dadd m ?n, u + sl_units s, p)"]
      upd_net_ok [OF t(8) _ _ np(1,2,4), where d = "(0, 0)" and k = "sl_day s"
          and f = "\<lambda>(m, p). (dadd m ?n, p)"]
    show ?thesis
      using Some n s g d t u np(1,2) assms(1)
      by (auto simp: add_sale_def add_net_def Let_def totals_ok_def case_prod_beta intro: has_places_add)
  qed
  then show "totals_ok (add_sale s t)" "t_gross (add_sale s t) = t_gross t + sl_gross s"
    "t_complete (add_sale s t) \<longleftrightarrow> t_complete t \<and> sl_discount s \<noteq> None"
    "t_discounts (add_sale s t) = t_discounts t + (case sl_discount s of None \<Rightarrow> 0 | Some d \<Rightarrow> d)"
    by auto
qed

definition gross_of :: "sale list \<Rightarrow> dec" where
  "gross_of ss = sum_list (map sl_gross ss)"

definition discounts_of :: "sale list \<Rightarrow> dec" where
  "discounts_of ss = sum_list (map (\<lambda>s. case sl_discount s of None \<Rightarrow> 0 | Some d \<Rightarrow> d) ss)"

lemma add_sales_ok:
  "totals_ok t \<Longrightarrow> \<forall>s \<in> set ss. sale_ok s \<and> cents s \<Longrightarrow> t_gross t + gross_of ss < 10 ^ 26
    \<Longrightarrow> totals_ok (fold add_sale ss t) \<and> t_gross (fold add_sale ss t) = t_gross t + gross_of ss
      \<and> (t_complete (fold add_sale ss t) \<longleftrightarrow> t_complete t \<and> (\<forall>s \<in> set ss. sl_discount s \<noteq> None))
      \<and> t_discounts (fold add_sale ss t) = t_discounts t + discounts_of ss"
proof (induction ss arbitrary: t)
  case Nil
  then show ?case by (simp add: gross_of_def discounts_of_def)
next
  case (Cons s ss)
  have "0 \<le> gross_of ss"
    using Cons.prems(2) by (auto simp: gross_of_def sale_ok_def intro!: sum_list_nonneg)
  then have b: "t_gross t + sl_gross s < 10 ^ 26" using Cons.prems(3) by (simp add: gross_of_def)
  note a = add_sale_ok [OF Cons.prems(1) _ _ b]
  have "sale_ok s" "cents s" using Cons.prems(2) by auto
  note a = a [OF this]
  have "t_gross (add_sale s t) + gross_of ss < 10 ^ 26"
    using Cons.prems(3) a(2) by (simp add: gross_of_def)
  from Cons.IH [OF a(1) _ this] Cons.prems(2) a show ?case
    by (auto simp: gross_of_def discounts_of_def)
qed

lemma upd_ad_ok:
  assumes "table_ok g m" and "g d = 0" and "\<And>v. g (f v) = g v"
  shows "table_ok g (upd k d f m) \<and> column g (upd k d f m) = column g m"
  using table_lookup [OF assms(1,2), of k] assms
  by (auto intro!: table_ok_upd simp: column_upd)

lemma add_ads_ok:
  "totals_ok t \<Longrightarrow> totals_ok (fold add_ad as t) \<and> t_gross (fold add_ad as t) = t_gross t
    \<and> t_complete (fold add_ad as t) = t_complete t \<and> t_discounts (fold add_ad as t) = t_discounts t"
proof (induction as arbitrary: t)
  case Nil
  then show ?case by simp
next
  case (Cons a as)
  have "table_ok fst (t_skus t)" "table_ok fst (t_days t)" using Cons.prems by (simp_all add: totals_ok_def)
  note u = upd_ad_ok [OF this(1), where d = "(0, 0, 0)" and k = "ad_sku a"
          and f = "\<lambda>(n, u, p). (n, u, dadd p (ad_spend a))"]
      upd_ad_ok [OF this(2), where d = "(0, 0)" and k = "ad_day a" and f = "\<lambda>(n, p). (n, dadd p (ad_spend a))"]
  have "totals_ok (add_ad a t)"
    using Cons.prems u by (auto simp: totals_ok_def add_ad_def case_prod_beta)
  from Cons.IH [OF this] show ?case by (simp add: add_ad_def)
qed

section \<open>The report\<close>

lemma sku_line_facts:
  "sku_line h p = Inr l \<Longrightarrow> ss_sku l = fst p \<and> money (fst (snd p)) = Inr (ss_net l) \<and> ss_roas l = None"
  by (cases p) (auto simp: sku_line_def elim!: ebind_eq_InrE)

lemma day_line_facts:
  "day_line h p = Inr l \<Longrightarrow> ds_date l = fst p \<and> money (fst (snd p)) = Inr (ds_net l)"
  by (cases p) (auto simp: day_line_def elim!: ebind_eq_InrE)

lemma lines_column:
  assumes "emap f m = Inr ls" and "\<And>p l. f p = Inr l \<Longrightarrow> money (g (snd p)) = Inr (h l)"
    and "table_ok g m" and "column g m < 10 ^ 26"
  shows "sum_list (map h ls) = column g m"
proof -
  have "list_all2 (\<lambda>p l. f p = Inr l) m ls" using assms(1) by (rule emap_list_all2)
  then have "list_all2 (\<lambda>p l. (g \<circ> snd) p = h l) m ls"
  proof (rule list.rel_mono_strong)
    fix p l
    assume p: "p \<in> set m" and l: "f p = Inr l"
    have "0 \<le> g (snd p)" "has_places 2 (g (snd p))" "g (snd p) \<le> column g m"
      using p assms(3) column_bound [OF assms(3) p] by (auto simp: table_ok_def)
    then have "money (g (snd p)) = Inr (g (snd p))" using assms(4) by (intro money_exact) auto
    with assms(2) [OF l] show "(g \<circ> snd) p = h l" by simp
  qed
  then have "map (g \<circ> snd) m = map h ls" by (simp add: list_all2_conv_all_nth list_eq_iff_nth_eq)
  then show ?thesis by (simp add: column_def)
qed

lemma table_ok_sort [simp]: "table_ok g (sort_key f m) = table_ok g m"
proof -
  have "mset (map fst (sort_key f m)) = mset (map fst m)" by simp
  then have "distinct (map fst (sort_key f m)) = distinct (map fst m)" by (rule mset_eq_imp_distinct_iff)
  then show ?thesis by (simp add: table_ok_def)
qed

lemma calculate_sales_ads_cases:
  assumes "calculate_sales_ads sales ads = Inr r"
  obtains ss as where "emap parse_sale sales = Inr ss" and "emap parse_ad ads = Inr as"
    and "sales_report (sales \<noteq> []) (ads \<noteq> []) (fold add_ad as (fold add_sale ss no_totals)) = Inr r"
  using assms by (auto simp: calculate_sales_ads_def sum_up_def elim!: ebind_eq_InrE)

lemma sales_report_cases:
  assumes "sales_report hs ha t = Inr r"
  obtains aov spikes where "average_order t = Inr aov"
    and "sales_ranking hs ha t = Inr (sr_ranking r)"
    and "sales_trends hs ha t = Inr (sr_trends r)"
    and "anomalies (sr_trends r) = Inr (sr_anomalies r)"
    and "sales_metrics hs ha t = Inr (sr_gross r, sr_net r, sr_spend r)"
    and "sr_roas r = mk_metric None Unknown [''sales.net'', ''advertising.total''] None"
    and "sr_acos r = mk_metric None Unknown [''sales.net'', ''advertising.total''] None"
    and "sr_units r = (if hs then mk_metric (Some (of_int (t_units t))) Measured [''sales.activity''] None
           else unknown_metric)"
    and "sr_orders r = (if hs then mk_metric (Some (of_nat (length (t_orders t)))) Measured
           [''sales.activity''] None else unknown_metric)"
    and "sr_aov r = (case aov of Some a \<Rightarrow> mk_metric (Some a) Derived [''sales.net''] None
           | None \<Rightarrow> unknown_metric)"
    and "sr_limitations r = sales_limitations hs ha (t_complete t)"
  using assms unfolding sales_report_def by (elim ebind_eq_InrE) (auto intro: that)

lemma sales_metrics_cases:
  assumes "sales_metrics hs ha t = Inr (g, n, p)"
  shows "honest g" and "honest n" and "honest p"
    and "hs \<Longrightarrow> money (t_gross t) = Inr (the (value_of g)) \<and> value_of g \<noteq> None"
    and "hs \<Longrightarrow> t_complete t \<Longrightarrow> money (net_total t) = Inr (the (value_of n)) \<and> value_of n \<noteq> None"
    and "value_of n \<noteq> None \<Longrightarrow> t_complete t" and "\<not> hs \<Longrightarrow> n = unknown_metric"
  using assms unfolding sales_metrics_def
  by (auto elim!: ebind_eq_InrE split: if_splits simp: honest_def unknown_metric_def)

lemma parsed_sales_ok: "emap parse_sale sales = Inr ss \<Longrightarrow> \<forall>s \<in> set ss. sale_ok s"
  by (auto dest!: emap_set dest: parse_sale_ok)

section \<open>Properties\<close>

definition demo_sales :: "row list" where
  "demo_sales =
     [[''sku_id'' \<mapsto> PStr ''A'', ''date'' \<mapsto> PStr ''2026-01-02'', ''units'' \<mapsto> PInt 2,
       ''gross_sales_brl'' \<mapsto> PStr ''20.50'', ''discount_brl'' \<mapsto> PStr ''0.50'', ''order_id'' \<mapsto> PStr ''O1''],
      [''sku_id'' \<mapsto> PStr ''B'', ''date'' \<mapsto> PStr ''2026-01-01'', ''units'' \<mapsto> PInt 1,
       ''gross_sales_brl'' \<mapsto> PInt 80, ''discount_brl'' \<mapsto> PInt 5, ''order_id'' \<mapsto> PStr ''O2'']]"

definition demo_ads :: "row list" where
  "demo_ads =
     [[''sku_id'' \<mapsto> PStr ''A'', ''date'' \<mapsto> PStr ''2026-01-02'', ''spend_brl'' \<mapsto> PStr ''7.25'',
       ''impressions'' \<mapsto> PInt 100, ''clicks'' \<mapsto> PInt 9, ''attributed_orders'' \<mapsto> PInt 1]]"

text \<open>
  C7: the net sales are partitioned exactly. When every sales row has its discount and the
  amounts are in cents (below 10^26 in total), gross and net sales are the exact sums of the
  rows, and the SKU ranking and the daily trend each add up to the same net sales.
\<close>

theorem sales_net_partitioned:
  assumes "calculate_sales_ads sales ads = Inr r" and "emap parse_sale sales = Inr ss"
    and "sales \<noteq> []" and "\<forall>s \<in> set ss. cents s \<and> sl_discount s \<noteq> None" and "gross_of ss < 10 ^ 26"
  shows "value_of (sr_gross r) = Some (gross_of ss)
    \<and> value_of (sr_net r) = Some (gross_of ss - discounts_of ss)
    \<and> sum_list (map ss_net (sr_ranking r)) = gross_of ss - discounts_of ss
    \<and> sum_list (map ds_net (sr_trends r)) = gross_of ss - discounts_of ss"
proof (intro conjI)
  from assms(1) obtain as where rep: "sales_report (sales \<noteq> []) (ads \<noteq> []) (fold add_ad as (fold add_sale ss no_totals)) = Inr r"
    using assms(2) by (auto elim!: calculate_sales_ads_cases)
  define t where "t = fold add_ad as (fold add_sale ss no_totals)"
  have z: "t_gross no_totals = 0" "t_discounts no_totals = 0" "t_complete no_totals"
    by (simp_all add: no_totals_def)
  have t: "totals_ok t" "t_gross t = gross_of ss" "t_complete t" "t_discounts t = discounts_of ss"
    using add_ads_ok [of "fold add_sale ss no_totals" as] add_sales_ok [OF no_totals_ok, of ss]
      parsed_sales_ok [OF assms(2)] assms(4,5) z by (auto simp: t_def)
  have k: "has_places 2 (t_gross t)" "has_places 2 (t_discounts t)" "has_places 2 (t_known t)"
      "0 \<le> t_known t" "0 \<le> t_discounts t" "t_known t + t_discounts t = t_gross t"
      "table_ok fst (t_skus t)" "table_ok fst (t_days t)"
      "column fst (t_skus t) = t_known t" "column fst (t_days t) = t_known t"
    using t(1,3) by (simp_all add: totals_ok_def)
  have b: "t_gross t < 10 ^ 26" "t_known t < 10 ^ 26" using k(4-6) t(2) assms(5) by auto
  have "dsub (t_gross t) (t_discounts t) = t_gross t - t_discounts t"
    using k b by (intro dsub_exact [of 2]) (auto simp: prec_limit_def)
  then have n: "net_total t = t_known t" using t(3) k(6) by (simp add: net_total_def)
  from rep [folded t_def] obtain met: "sales_metrics True (ads \<noteq> []) t = Inr (sr_gross r, sr_net r, sr_spend r)"
    and rk: "emap (sku_line (ads \<noteq> [])) (sort_key rank_order (t_skus t)) = Inr (sr_ranking r)"
    and tr: "emap (day_line (ads \<noteq> [])) (sort_key fst (t_days t)) = Inr (sr_trends r)"
    using assms(3) t(3) by (elim sales_report_cases) (simp add: sales_ranking_def sales_trends_def)
  have "money (t_gross t) = Inr (t_gross t)" "money (t_known t) = Inr (t_known t)"
    using k b by (auto intro!: money_exact)
  with sales_metrics_cases(4,5) [OF met] t n k(6)
  show "value_of (sr_gross r) = Some (gross_of ss)" "value_of (sr_net r) = Some (gross_of ss - discounts_of ss)"
    by auto
  show "sum_list (map ss_net (sr_ranking r)) = gross_of ss - discounts_of ss"
    using lines_column [OF rk, of fst ss_net] k b t sku_line_facts by force
  show "sum_list (map ds_net (sr_trends r)) = gross_of ss - discounts_of ss"
    using lines_column [OF tr, of fst ds_net] k b t day_line_facts by force
qed

lemma demo_sales_run:
  obtains r ss where "calculate_sales_ads demo_sales demo_ads = Inr r" and "emap parse_sale demo_sales = Inr ss"
    and "\<forall>s \<in> set ss. cents s \<and> sl_discount s \<noteq> None" and "gross_of ss < 10 ^ 26"
    and "map ss_sku (sr_ranking r) = [''B'', ''A'']"
proof -
  have "case (calculate_sales_ads demo_sales demo_ads, emap parse_sale demo_sales) of
      (Inr r, Inr ss) \<Rightarrow> list_all (\<lambda>s. cents s \<and> sl_discount s \<noteq> None) ss \<and> gross_of ss < 10 ^ 26
        \<and> map ss_sku (sr_ranking r) = [''B'', ''A'']
    | _ \<Rightarrow> False"
    by code_simp
  then show thesis using that by (auto simp: list_all_iff split: sum.splits)
qed

theorem sales_net_partitioned_witness:
  "\<exists>r ss. calculate_sales_ads demo_sales demo_ads = Inr r
    \<and> sum_list (map ss_net (sr_ranking r)) = gross_of ss - discounts_of ss"
proof -
  obtain r ss where d: "calculate_sales_ads demo_sales demo_ads = Inr r" "emap parse_sale demo_sales = Inr ss"
    "\<forall>s \<in> set ss. cents s \<and> sl_discount s \<noteq> None" "gross_of ss < 10 ^ 26"
    by (rule demo_sales_run)
  have "demo_sales \<noteq> []" by (simp add: demo_sales_def)
  from sales_net_partitioned [OF d(1,2) this d(3,4)] d(1) show ?thesis by blast
qed

text \<open>The keys of the tables, and sums the context has already rounded.\<close>

definition rounded :: "(string \<times> dec \<times> int \<times> dec) list \<Rightarrow> bool" where
  "rounded m \<longleftrightarrow> (\<forall>p \<in> set m. fix_prec (fst (snd p)) = fst (snd p))"

definition rounded_nets :: "totals \<Rightarrow> bool" where
  "rounded_nets t \<longleftrightarrow> distinct (map fst (t_skus t)) \<and> distinct (map fst (t_days t)) \<and> rounded (t_skus t)"

lemma rounded_upd:
  assumes "rounded m" and "\<And>v. fst (f v) = fst v \<or> (\<exists>n. fst (f v) = dadd (fst v) n)"
  shows "rounded (upd k (0, 0, 0) f m)"
  unfolding rounded_def
proof
  fix p assume "p \<in> set (upd k (0, 0, 0) f m)"
  then consider "p = (k, f (lookup_or (0, 0, 0) m k))" | "p \<in> set m" by (blast dest: set_upd_cases)
  then show "fix_prec (fst (snd p)) = fst (snd p)"
  proof cases
    case 1
    have "fix_prec (fst (lookup_or (0, 0, 0) m k)) = fst (lookup_or (0, 0, 0) m k)"
      using lookup_or_in [of "(0, 0, 0)" m k] assms(1) unfolding rounded_def by force
    then show ?thesis using 1 assms(2) [of "lookup_or (0, 0, 0) m k"] by (auto simp: dadd_def)
  qed (use assms(1) in \<open>auto simp: rounded_def\<close>)
qed

lemma add_net_rounded: "rounded_nets t \<Longrightarrow> rounded_nets (add_net s n t)"
  by (auto simp: rounded_nets_def add_net_def distinct_upd intro!: rounded_upd)

lemma add_sale_rounded: "rounded_nets t \<Longrightarrow> rounded_nets (add_sale s t)"
proof -
  assume "rounded_nets t"
  then have "rounded_nets (t\<lparr>t_gross := g, t_units := u, t_orders := os, t_discounts := d\<rparr>)" for g u os d
    by (simp add: rounded_nets_def)
  then show ?thesis using \<open>rounded_nets t\<close>
    by (auto simp: add_sale_def Let_def intro!: add_net_rounded split: option.splits) (simp add: rounded_nets_def)
qed

lemma add_ad_rounded: "rounded_nets t \<Longrightarrow> rounded_nets (add_ad a t)"
  by (auto simp: rounded_nets_def add_ad_def distinct_upd intro!: rounded_upd)

lemma fold_rounded: "rounded_nets (fold add_ad as (fold add_sale ss no_totals))"
proof -
  have "rounded_nets no_totals" by (simp add: rounded_nets_def rounded_def no_totals_def)
  then have "rounded_nets (fold add_sale ss no_totals)"
    by (rule fold_invariant [where Q = "\<lambda>_. True", rotated]) (auto intro: add_sale_rounded)
  then show ?thesis
    by (rule fold_invariant [where Q = "\<lambda>_. True", rotated]) (auto intro: add_ad_rounded)
qed

lemma dneg_le_iff: "fix_prec x = x \<Longrightarrow> fix_prec y = y \<Longrightarrow> dneg x \<le> dneg y \<longleftrightarrow> y \<le> x"
  by (simp add: dneg_def fix_prec_minus)

lemma money_mono: "money x = Inr x' \<Longrightarrow> money y = Inr y' \<Longrightarrow> x \<le> y \<Longrightarrow> x' \<le> y'"
  by (auto dest!: money_eq intro: quant_mono)

lemma fold_ads_complete [simp]: "t_complete (fold add_ad as t) = t_complete t"
  by (induction as arbitrary: t) (simp_all add: add_ad_def)

lemma fold_ads_orders [simp]: "t_orders (fold add_ad as t) = t_orders t"
  by (induction as arbitrary: t) (simp_all add: add_ad_def)

lemma fold_sku_keys:
  "fst ` set (t_skus (fold add_ad as t)) = ad_sku ` set as \<union> fst ` set (t_skus t)"
  by (induction as arbitrary: t) (auto simp: add_ad_def keys_upd)

lemma fold_sale_keys:
  "fst ` set (t_skus (fold add_sale ss t)) = sl_sku ` {s \<in> set ss. sl_discount s \<noteq> None} \<union> fst ` set (t_skus t)
    \<and> (t_complete (fold add_sale ss t) \<longleftrightarrow> t_complete t \<and> (\<forall>s \<in> set ss. sl_discount s \<noteq> None))"
  by (induction ss arbitrary: t)
    (auto simp: add_sale_def add_net_def Let_def keys_upd split: option.splits)

text \<open>
  the ranking is a ranking. Whatever the rows, its SKUs are distinct and ordered by net
  sales, highest first; when every discount is known they are exactly the SKUs that occur in
  the sales or in the advertising rows. The daily trend is in strictly increasing order of
  days.
\<close>

theorem sales_ranking_ordered:
  assumes "calculate_sales_ads sales ads = Inr r"
  shows "sorted_wrt (\<lambda>a b. ss_net b \<le> ss_net a) (sr_ranking r) \<and> distinct (map ss_sku (sr_ranking r))
    \<and> sorted_wrt (<) (map ds_date (sr_trends r))
    \<and> (\<exists>ss as. emap parse_sale sales = Inr ss \<and> emap parse_ad ads = Inr as
        \<and> (sr_ranking r \<noteq> [] \<longrightarrow> set (map ss_sku (sr_ranking r)) = sl_sku ` set ss \<union> ad_sku ` set as))"
proof -
  from assms obtain ss as where p: "emap parse_sale sales = Inr ss" "emap parse_ad ads = Inr as"
    and rep: "sales_report (sales \<noteq> []) (ads \<noteq> []) (fold add_ad as (fold add_sale ss no_totals)) = Inr r"
    by (rule calculate_sales_ads_cases)
  define t where "t = fold add_ad as (fold add_sale ss no_totals)"
  have rn: "rounded_nets t" unfolding t_def by (rule fold_rounded)
  from rep [folded t_def] have rk: "sales_ranking (sales \<noteq> []) (ads \<noteq> []) t = Inr (sr_ranking r)"
    and tr: "sales_trends (sales \<noteq> []) (ads \<noteq> []) t = Inr (sr_trends r)"
    by (elim sales_report_cases; simp)+
  have "sr_ranking r = [] \<or> sr_ranking r \<noteq> [] \<and> t_complete t
      \<and> emap (sku_line (ads \<noteq> [])) (sort_key rank_order (t_skus t)) = Inr (sr_ranking r)"
    using rk by (auto simp: sales_ranking_def split: if_splits)
  moreover
  have "sorted_wrt (\<lambda>a b. ss_net b \<le> ss_net a) ls \<and> distinct (map ss_sku ls)
      \<and> set (map ss_sku ls) = fst ` set (t_skus t)"
    if ls: "emap (sku_line (ads \<noteq> [])) (sort_key rank_order (t_skus t)) = Inr ls" for ls
  proof (intro conjI)
    have "sorted_wrt (\<lambda>p q. rank_order p \<le> rank_order q) (sort_key rank_order (t_skus t))"
      using sorted_sort_key [of rank_order "t_skus t"] by (simp add: sorted_wrt_map)
    with ls show "sorted_wrt (\<lambda>a b. ss_net b \<le> ss_net a) ls"
    proof (rule emap_sorted_wrt)
      fix p q a b
      assume q: "p \<in> set (sort_key rank_order (t_skus t))" "q \<in> set (sort_key rank_order (t_skus t))"
        and o: "rank_order p \<le> rank_order q"
        and l: "sku_line (ads \<noteq> []) p = Inr a" "sku_line (ads \<noteq> []) q = Inr b"
      have "fst (snd q) \<le> fst (snd p)"
        using o q rn dneg_le_iff by (auto simp: rank_order_def rounded_nets_def rounded_def less_eq_prod_def)
          (metis order_less_imp_le snd_conv fst_conv)+
      then show "ss_net b \<le> ss_net a"
        using money_mono sku_line_facts [OF l(1)] sku_line_facts [OF l(2)] by blast
    qed
    have m: "map ss_sku ls = map fst (sort_key rank_order (t_skus t))"
      using ls by (rule emap_keys) (auto dest: sku_line_facts)
    have "mset (map fst (sort_key rank_order (t_skus t))) = mset (map fst (t_skus t))" by simp
    then show "distinct (map ss_sku ls)"
      unfolding m using rn by (metis mset_eq_imp_distinct_iff rounded_nets_def)
    show "set (map ss_sku ls) = fst ` set (t_skus t)" unfolding m by simp
  qed
  moreover have "fst ` set (t_skus t) = sl_sku ` set ss \<union> ad_sku ` set as" if "t_complete t"
  proof -
    have "t_complete (fold add_sale ss no_totals)" using that by (simp add: t_def)
    then show ?thesis
      using fold_sale_keys [of ss no_totals] fold_sku_keys [of as "fold add_sale ss no_totals"]
      by (auto simp: t_def no_totals_def)
  qed
  moreover have "sorted_wrt (<) (map ds_date (sr_trends r))"
  proof (cases "sr_trends r = []")
    case False
    then have e: "emap (day_line (ads \<noteq> [])) (sort_key fst (t_days t)) = Inr (sr_trends r)"
      using tr by (auto simp: sales_trends_def split: if_splits)
    have m: "map ds_date (sr_trends r) = map fst (sort_key fst (t_days t))"
      using e by (rule emap_keys) (auto dest: day_line_facts)
    have "mset (map fst (sort_key fst (t_days t))) = mset (map fst (t_days t))" by simp
    then have "distinct (map fst (sort_key fst (t_days t)))"
      using rn by (metis mset_eq_imp_distinct_iff rounded_nets_def)
    then show ?thesis unfolding m by (simp add: strict_sorted_iff)
  qed simp
  ultimately show ?thesis using p by (elim disjE conjE) simp_all
qed

theorem sales_ranking_ordered_witness:
  "\<exists>r. calculate_sales_ads demo_sales demo_ads = Inr r \<and> map ss_sku (sr_ranking r) = [''B'', ''A'']
    \<and> sorted_wrt (\<lambda>a b. ss_net b \<le> ss_net a) (sr_ranking r)"
proof -
  obtain r where d: "calculate_sales_ads demo_sales demo_ads = Inr r" "map ss_sku (sr_ranking r) = [''B'', ''A'']"
    by (rule demo_sales_run)
  then show ?thesis using sales_ranking_ordered [OF d(1)] by (intro exI [of _ r]) simp
qed

text \<open>
  no figure without its sources. Every metric of the result has a value exactly when its
  state is not unknown; the return on advertising and its cost ratio are always unknown (total
  sales are not attributed revenue); and net sales and the average order value are known only
  when there are sales and every one of them has a discount no greater than its gross amount.
\<close>

theorem sales_metrics_honest:
  assumes "calculate_sales_ads sales ads = Inr r"
  shows "(\<forall>m \<in> {sr_gross r, sr_net r, sr_units r, sr_orders r, sr_aov r, sr_spend r, sr_roas r, sr_acos r}. honest m)
    \<and> value_of (sr_roas r) = None \<and> value_of (sr_acos r) = None
    \<and> (value_of (sr_net r) \<noteq> None \<or> value_of (sr_aov r) \<noteq> None \<longrightarrow>
        sales \<noteq> [] \<and> (\<exists>ss. emap parse_sale sales = Inr ss
          \<and> (\<forall>s \<in> set ss. \<exists>d. sl_discount s = Some d \<and> 0 \<le> d \<and> d \<le> sl_gross s)))"
proof -
  from assms obtain ss as where p: "emap parse_sale sales = Inr ss" "emap parse_ad ads = Inr as"
    and rep: "sales_report (sales \<noteq> []) (ads \<noteq> []) (fold add_ad as (fold add_sale ss no_totals)) = Inr r"
    by (rule calculate_sales_ads_cases)
  define t where "t = fold add_ad as (fold add_sale ss no_totals)"
  from rep [folded t_def] obtain aov where aov: "average_order t = Inr aov"
    and met: "sales_metrics (sales \<noteq> []) (ads \<noteq> []) t = Inr (sr_gross r, sr_net r, sr_spend r)"
    and ms: "sr_roas r = mk_metric None Unknown [''sales.net'', ''advertising.total''] None"
      "sr_acos r = mk_metric None Unknown [''sales.net'', ''advertising.total''] None"
      "sr_units r = (if sales \<noteq> [] then mk_metric (Some (of_int (t_units t))) Measured [''sales.activity''] None
           else unknown_metric)"
      "sr_orders r = (if sales \<noteq> [] then mk_metric (Some (of_nat (length (t_orders t)))) Measured
           [''sales.activity''] None else unknown_metric)"
      "sr_aov r = (case aov of Some a \<Rightarrow> mk_metric (Some a) Derived [''sales.net''] None
           | None \<Rightarrow> unknown_metric)"
    by (rule sales_report_cases) blast
  have c: "t_complete t \<longleftrightarrow> (\<forall>s \<in> set ss. sl_discount s \<noteq> None)"
    using fold_sale_keys [of ss no_totals] by (simp add: t_def no_totals_def)
  have o: "t_orders t \<noteq> [] \<Longrightarrow> sales \<noteq> []"
    using p(1) by (auto simp: t_def no_totals_def)
  have nn: "value_of (sr_net r) \<noteq> None \<Longrightarrow> sales \<noteq> []"
    using sales_metrics_cases(7) [OF met] by (auto simp: unknown_metric_def)
  have av: "aov \<noteq> None \<Longrightarrow> t_orders t \<noteq> [] \<and> t_complete t"
    using aov by (auto simp: average_order_def elim!: ebind_eq_InrE split: if_splits)
  have av': "value_of (sr_aov r) \<noteq> None \<Longrightarrow> aov \<noteq> None"
    using ms(5) by (auto simp: unknown_metric_def split: option.splits)
  have "\<forall>s \<in> set ss. \<exists>d. sl_discount s = Some d \<and> 0 \<le> d \<and> d \<le> sl_gross s" if "t_complete t"
    using that c parsed_sales_ok [OF p(1)] by (fastforce simp: sale_ok_def)
  then show ?thesis
    using sales_metrics_cases(1-3,6) [OF met] ms(1-4) ms(5) nn av av' o p(1)
    by (auto simp: honest_def unknown_metric_def split: option.splits)
qed

theorem sales_metrics_honest_witness:
  "\<exists>r. calculate_sales_ads demo_sales demo_ads = Inr r \<and> value_of (sr_roas r) = None \<and> honest (sr_net r)"
proof -
  obtain r where "calculate_sales_ads demo_sales demo_ads = Inr r" by (rule demo_sales_run)
  with sales_metrics_honest [OF this] show ?thesis by blast
qed

end
