(* ===== verification/StockHistory.thy ===== *)
theory StockHistory
  imports Evidence
begin

text \<open>
  The reading of stock snapshots and of the demand history, which
  \<open>src/analysis/inventory_risk_calculator.py\<close> and \<open>src/analysis/replenishment_calculator.py\<close>
  each have in the same form: the latest snapshot per SKU on or before the day of the report,
  the units sold and the days with a sale per SKU, and whether those days cover the period.
  Dates are ordinals; the code keeps the days of a SKU as ISO strings in a set, here as a
  list without repetitions.
\<close>

section \<open>Snapshots\<close>

type_synonym candidates = "(string \<times> (date \<times> row) list) list"

definition read_snapshot :: "date \<Rightarrow> row \<Rightarrow> candidates \<times> string list \<Rightarrow> (candidates \<times> string list) res" where
  "read_snapshot as_of r s = (case s of (cs, lm) \<Rightarrow>
     ebind (text_value (row_get r ''sku_id'') ''sku_id'') (\<lambda>sku.
     ebind (date_value (row_get r ''date'') ''date'') (\<lambda>d.
       if as_of < d
       then Inr (cs, lm @ [''future_inventory_excluded:'' @ sku @ '':'' @ isoformat d])
       else Inr (upd sku [] (\<lambda>ps. ps @ [(d, r)]) cs, lm))))"

definition pick_latest :: "string \<times> (date \<times> row) list \<Rightarrow> (string \<times> row) res" where
  "pick_latest c = (case c of (sku, ps) \<Rightarrow>
     (case sort_key (\<lambda>p. - fst p) ps of
        p # q # _ \<Rightarrow> if fst p = fst q
                     then Inl (ValueError (''duplicate_inventory:'' @ sku @ '':'' @ isoformat (fst p)))
                     else Inr (sku, snd p)
      | [p] \<Rightarrow> Inr (sku, snd p)
      | [] \<Rightarrow> Inl (ValueError [])))"

definition latest_inventory :: "date \<Rightarrow> row list \<Rightarrow> string list \<Rightarrow> ((string \<times> row) list \<times> string list) res" where
  "latest_inventory as_of rows lm =
     ebind (efold (read_snapshot as_of) rows ([], lm)) (\<lambda>(cs, lm').
     ebind (emap pick_latest cs) (\<lambda>ps. Inr (ps, lm')))"

section \<open>Demand\<close>

record demand_history =
  dh_units :: "(string \<times> dec) list"
  dh_dates :: "(string \<times> date list) list"
  dh_excluded :: "string list"

definition outside :: "date \<Rightarrow> date option \<Rightarrow> date \<Rightarrow> bool" where
  "outside as_of ps d \<longleftrightarrow> as_of < d \<or> (case ps of None \<Rightarrow> False | Some p \<Rightarrow> d < p)"

definition read_demand :: "date \<Rightarrow> date option \<Rightarrow> row \<Rightarrow> demand_history \<Rightarrow> demand_history res" where
  "read_demand as_of ps r h =
     ebind (text_value (row_get r ''sku_id'') ''sku_id'') (\<lambda>sku.
     ebind (date_value (row_get r ''date'') ''date'') (\<lambda>d.
       if outside as_of ps d
       then Inr (h\<lparr>dh_excluded := dh_excluded h
                     @ [''sales_outside_period_excluded:'' @ sku @ '':'' @ isoformat d]\<rparr>)
       else ebind (nonnegative_decimal (row_get r ''units'') ''units'') (\<lambda>u.
         Inr (h\<lparr>dh_units := upd sku 0 (\<lambda>n. dadd n u) (dh_units h),
                dh_dates := upd sku [] (List.insert d) (dh_dates h)\<rparr>))))"

definition demand_of :: "date \<Rightarrow> date option \<Rightarrow> row list \<Rightarrow> demand_history res" where
  "demand_of as_of ps rows =
     efold (read_demand as_of ps) rows \<lparr>dh_units = [], dh_dates = [], dh_excluded = []\<rparr>"

definition coverage_days :: "date \<Rightarrow> date option \<Rightarrow> date list \<Rightarrow> int" where
  "coverage_days as_of ps ds =
     (case ps of Some p \<Rightarrow> as_of - p + 1
      | None \<Rightarrow> if ds = [] then 0 else as_of - Min (set ds) + 1)"

definition coverage_complete :: "date option \<Rightarrow> date list \<Rightarrow> int \<Rightarrow> bool" where
  "coverage_complete ps ds days \<longleftrightarrow> ps \<noteq> None \<or> int (length ds) = days"

definition period_invalid :: "date \<Rightarrow> date option \<Rightarrow> bool" where
  "period_invalid as_of ps = (case ps of None \<Rightarrow> False | Some p \<Rightarrow> as_of < p)"

text \<open>Units per day, and the stock a snapshot row states.\<close>

definition velocity_of :: "dec \<Rightarrow> int \<Rightarrow> dec res" where
  "velocity_of units days = ebind (ddiv units (of_int days)) ratio"

definition stock_levels :: "row \<Rightarrow> (int \<times> int) res" where
  "stock_levels r =
     ebind (whole_units (row_get r ''on_hand_units'') ''on_hand_units'') (\<lambda>on_hand.
     ebind (whole_units (row_get_or (PInt 0) r ''inbound_units'') ''inbound_units'') (\<lambda>inbound.
       Inr (on_hand, inbound)))"

section \<open>What the snapshots are\<close>

text \<open>\<open>snapshot_of r sku d\<close>: row \<open>r\<close> is a snapshot of \<open>sku\<close> on day \<open>d\<close>.\<close>

definition snapshot_of :: "row \<Rightarrow> string \<Rightarrow> date \<Rightarrow> bool" where
  "snapshot_of r sku d \<longleftrightarrow> text_value (row_get r ''sku_id'') ''sku_id'' = Inr sku
     \<and> date_value (row_get r ''date'') ''date'' = Inr d"

definition dated_rows :: "date \<Rightarrow> row list \<Rightarrow> string \<Rightarrow> (date \<times> row) list" where
  "dated_rows as_of rows sku = concat (map (\<lambda>r.
     case (text_value (row_get r ''sku_id'') ''sku_id'', date_value (row_get r ''date'') ''date'') of
       (Inr s, Inr d) \<Rightarrow> if s = sku \<and> d \<le> as_of then [(d, r)] else []
     | _ \<Rightarrow> []) rows)"

lemma set_dated_rows:
  "(d, r) \<in> set (dated_rows as_of rows sku) \<longleftrightarrow> r \<in> set rows \<and> snapshot_of r sku d \<and> d \<le> as_of"
  by (induction rows) (auto simp: dated_rows_def snapshot_of_def split: sum.splits if_splits)

lemma dated_rows_nonempty:
  "dated_rows as_of rows sku \<noteq> [] \<longleftrightarrow> (\<exists>r \<in> set rows. \<exists>d \<le> as_of. snapshot_of r sku d)"
proof -
  have "dated_rows as_of rows sku \<noteq> [] \<longleftrightarrow> (\<exists>d r. (d, r) \<in> set (dated_rows as_of rows sku))"
    by (cases "dated_rows as_of rows sku") auto
  then show ?thesis by (auto simp: set_dated_rows)
qed

lemma dated_rows_simps:
  "dated_rows as_of (xs @ ys) sku = dated_rows as_of xs sku @ dated_rows as_of ys sku"
  by (simp add: dated_rows_def)

lemma efold_snapshots:
  assumes "efold (read_snapshot as_of) rows ([], lm) = Inr (cs, lm')"
  shows "distinct (map fst cs) \<and> (\<forall>sku. lookup_or [] cs sku = dated_rows as_of rows sku)
    \<and> (\<forall>sku. sku \<in> fst ` set cs \<longleftrightarrow> dated_rows as_of rows sku \<noteq> [])"
  using assms
proof (induction rows arbitrary: cs lm' rule: rev_induct)
  case Nil
  then show ?case by (simp add: dated_rows_def lookup_or_def)
next
  case (snoc r rows)
  then obtain cs0 lm0 where p: "efold (read_snapshot as_of) rows ([], lm) = Inr (cs0, lm0)"
    and q: "read_snapshot as_of r (cs0, lm0) = Inr (cs, lm')"
    by (auto simp: efold_append ebind_eq_Inr)
  from q obtain sku d where r: "snapshot_of r sku d"
    and cs: "cs = (if as_of < d then cs0 else upd sku [] (\<lambda>ps. ps @ [(d, r)]) cs0)"
    by (auto simp: read_snapshot_def snapshot_of_def elim!: ebind_eq_InrE split: if_splits)
  have one: "dated_rows as_of [r] s = (if s = sku \<and> d \<le> as_of then [(d, r)] else [])" for s
    using r by (auto simp: dated_rows_def snapshot_of_def)
  show ?case
    using snoc.IH [OF p] by (auto simp: cs dated_rows_simps one distinct_upd lookup_or_upd keys_upd)
qed

lemma pick_latest_facts:
  assumes "pick_latest (sku, ps) = Inr (s, r)"
  shows "s = sku \<and> (\<exists>d. (d, r) \<in> set ps \<and> (\<forall>p \<in> set ps. p \<noteq> (d, r) \<longrightarrow> fst p < d))"
proof (cases "sort_key (\<lambda>p. - fst p) ps")
  case Nil
  then show ?thesis using assms by (simp add: pick_latest_def)
next
  case (Cons p qs)
  have s: "set ps = set (p # qs)" using Cons by (metis set_sort)
  have o: "sorted (map (\<lambda>p. - fst p) (p # qs))" using Cons by (metis sorted_sort_key)
  have "s = sku \<and> r = snd p \<and> (\<forall>q \<in> set qs. fst q < fst p)"
    using assms Cons o by (force simp: pick_latest_def split: list.splits if_splits)
  then show ?thesis unfolding s by (intro conjI exI [of _ "fst p"]) auto
qed

text \<open>
  The rows found are, for exactly the SKUs with a snapshot up to the day of the report, the
  strictly newest such snapshot.
\<close>

lemma latest_inventory_facts:
  assumes "latest_inventory as_of rows lm = Inr (ps, lm')"
  shows "distinct (map fst ps)"
    and "(sku, r) \<in> set ps \<Longrightarrow> \<exists>d. r \<in> set rows \<and> snapshot_of r sku d \<and> d \<le> as_of
      \<and> (\<forall>r' \<in> set rows. \<forall>d'. snapshot_of r' sku d' \<and> d' \<le> as_of \<and> (d', r') \<noteq> (d, r) \<longrightarrow> d' < d)"
    and "(\<exists>r \<in> set rows. \<exists>d \<le> as_of. snapshot_of r sku d) \<longleftrightarrow> sku \<in> fst ` set ps"
proof -
  from assms obtain cs where cs: "efold (read_snapshot as_of) rows ([], lm) = Inr (cs, lm')"
    and ps: "emap pick_latest cs = Inr ps"
    by (auto simp: latest_inventory_def elim!: ebind_eq_InrE)
  note f = efold_snapshots [OF cs]
  have keys: "map fst ps = map fst cs"
    using ps by (rule emap_keys) (use pick_latest_facts in force)
  then show "distinct (map fst ps)" using f by simp
  show "\<exists>d. r \<in> set rows \<and> snapshot_of r sku d \<and> d \<le> as_of
      \<and> (\<forall>r' \<in> set rows. \<forall>d'. snapshot_of r' sku d' \<and> d' \<le> as_of \<and> (d', r') \<noteq> (d, r) \<longrightarrow> d' < d)"
    if "(sku, r) \<in> set ps"
  proof -
    from emap_set [OF ps that] obtain k qs where c: "(k, qs) \<in> set cs" "pick_latest (k, qs) = Inr (sku, r)"
      by auto
    from pick_latest_facts [OF c(2)] obtain d where d: "k = sku" "(d, r) \<in> set qs"
      "\<forall>p \<in> set qs. p \<noteq> (d, r) \<longrightarrow> fst p < d" by auto
    have "lookup_or [] cs sku = qs" using f c(1) d(1) by (simp add: lookup_or_def)
    then have qs: "qs = dated_rows as_of rows sku" using f by simp
    have "r \<in> set rows" "snapshot_of r sku d" "d \<le> as_of" using d(2) by (simp_all add: qs set_dated_rows)
    moreover have "d' < d" if "r' \<in> set rows" "snapshot_of r' sku d'" "d' \<le> as_of" "(d', r') \<noteq> (d, r)" for d' r'
      using d(3) that by (metis fst_conv qs set_dated_rows)
    ultimately show ?thesis by blast
  qed
  have "sku \<in> fst ` set ps \<longleftrightarrow> sku \<in> fst ` set cs" using arg_cong [OF keys, of set] by simp
  then show "(\<exists>r \<in> set rows. \<exists>d \<le> as_of. snapshot_of r sku d) \<longleftrightarrow> sku \<in> fst ` set ps"
    using f dated_rows_nonempty by simp
qed

section \<open>What the demand is\<close>

definition demand_ok :: "date \<Rightarrow> date option \<Rightarrow> demand_history \<Rightarrow> bool" where
  "demand_ok as_of ps h \<longleftrightarrow> (\<forall>p \<in> set (dh_units h). 0 \<le> snd p)
     \<and> (\<forall>p \<in> set (dh_dates h). distinct (snd p) \<and> (\<forall>d \<in> set (snd p). \<not> outside as_of ps d))"

lemma set_upd_pairs: "p \<in> set (upd k d f m) \<Longrightarrow> p = (k, f (lookup_or d m k)) \<or> p \<in> set m"
  by (induction m) (auto simp: lookup_or_def split: if_splits)

lemma lookup_or_mem: "lookup_or d m k = d \<or> (k, lookup_or d m k) \<in> set m"
  by (auto simp: lookup_or_def split: option.splits dest: map_of_SomeD)

lemma read_demand_cases:
  assumes "read_demand as_of ps r h = Inr h'"
  obtains (excluded) ex where "h' = h\<lparr>dh_excluded := ex\<rparr>"
    | (counted) sku d u where "\<not> outside as_of ps d" and "0 \<le> u"
        and "h' = h\<lparr>dh_units := upd sku 0 (\<lambda>n. dadd n u) (dh_units h),
                    dh_dates := upd sku [] (List.insert d) (dh_dates h)\<rparr>"
  using assms unfolding read_demand_def
  by (elim ebind_eq_InrE) (auto split: if_splits elim!: ebind_eq_InrE dest: nonnegative_decimal_nonneg
      intro: excluded counted)

lemma read_demand_ok: "read_demand as_of ps r h = Inr h' \<Longrightarrow> demand_ok as_of ps h \<Longrightarrow> demand_ok as_of ps h'"
proof (erule read_demand_cases)
  fix sku d u
  assume ok: "demand_ok as_of ps h" and u: "\<not> outside as_of ps d" "0 \<le> u"
    and h: "h' = h\<lparr>dh_units := upd sku 0 (\<lambda>n. dadd n u) (dh_units h),
                    dh_dates := upd sku [] (List.insert d) (dh_dates h)\<rparr>"
  have "0 \<le> lookup_or 0 (dh_units h) sku"
    using lookup_or_mem [of 0 "dh_units h" sku] ok by (fastforce simp: demand_ok_def)
  moreover have "distinct (lookup_or [] (dh_dates h) sku)"
    "\<forall>d \<in> set (lookup_or [] (dh_dates h) sku). \<not> outside as_of ps d"
    using lookup_or_mem [of "[]" "dh_dates h" sku] ok by (fastforce simp: demand_ok_def)+
  ultimately show "demand_ok as_of ps h'"
    using ok u by (auto simp: h demand_ok_def dadd_nonneg dest!: set_upd_pairs)
qed (simp add: demand_ok_def)

lemma demand_of_ok: "demand_of as_of ps rows = Inr h \<Longrightarrow> demand_ok as_of ps h"
  unfolding demand_of_def by (erule efold_invariant) (simp add: demand_ok_def, rule read_demand_ok)

lemma demand_units_nonneg: "demand_of as_of ps rows = Inr h \<Longrightarrow> 0 \<le> lookup_or 0 (dh_units h) sku"
  using demand_of_ok [of as_of ps rows h] lookup_or_mem [of 0 "dh_units h" sku] by (auto simp: demand_ok_def)

text \<open>A coverage that is not empty has at least one day.\<close>

lemma coverage_days_pos:
  assumes "demand_of as_of ps rows = Inr h" and "\<not> period_invalid as_of ps"
    and "coverage_days as_of ps (lookup_or [] (dh_dates h) sku) \<noteq> 0"
  shows "0 < coverage_days as_of ps (lookup_or [] (dh_dates h) sku)"
proof -
  let ?ds = "lookup_or [] (dh_dates h) sku"
  have o: "\<forall>d \<in> set ?ds. d \<le> as_of"
    using demand_of_ok [OF assms(1)] lookup_or_mem [of "[]" "dh_dates h" sku]
    by (fastforce simp: demand_ok_def outside_def)
  show ?thesis
  proof (cases ps)
    case None
    with assms(3) have "?ds \<noteq> []" by (auto simp: coverage_days_def)
    then have "Min (set ?ds) \<le> as_of" using o by (auto intro: Min_in)
    with None \<open>?ds \<noteq> []\<close> show ?thesis by (simp add: coverage_days_def)
  next
    case (Some p)
    then show ?thesis using assms(2) by (simp add: coverage_days_def period_invalid_def)
  qed
qed

lemma velocity_of_nonneg: "velocity_of u d = Inr v \<Longrightarrow> 0 \<le> u \<Longrightarrow> 0 \<le> d \<Longrightarrow> 0 \<le> v"
  unfolding velocity_of_def by (erule ebind_eq_InrE) (rule ratio_nonneg, assumption, erule ddiv_nonneg, auto)

lemma stock_levels_nonneg: "stock_levels r = Inr (a, b) \<Longrightarrow> 0 \<le> a \<and> 0 \<le> b"
  by (auto simp: stock_levels_def elim!: ebind_eq_InrE dest: whole_units_nonneg)

end
