(* ===== verification/InventoryRisk.thy ===== *)
theory InventoryRisk
  imports StockHistory
begin

text \<open>
  \<open>src/analysis/inventory_risk_calculator.py\<close>: for each SKU with a snapshot, the days of cover
  of the stock on hand and of the stock with what is inbound, at the average daily sales, and
  the class of risk. The row loop of the code is \<open>risk_items\<close>, one SKU is \<open>risk_item\<close>. The
  snapshot hash is left out.
\<close>

section \<open>Data\<close>

record risk_item =
  ri_sku :: string
  ri_on_hand :: int
  ri_inbound :: int
  ri_velocity :: "dec option"
  ri_current :: metric
  ri_projected :: metric
  ri_risk :: string
  ri_refs :: "string list"

record risk_result =
  rr_as_of :: date
  rr_items :: "risk_item list"
  rr_evidence :: "evidence list"
  rr_limitations :: "string list"

section \<open>One SKU\<close>

definition cover :: "int \<Rightarrow> dec \<Rightarrow> dec res" where
  "cover units velocity = ebind (ddiv (of_int units) velocity) (quantize HalfEven 2)"

definition risk_class :: "dec \<Rightarrow> string" where
  "risk_class current = (if current < 7 then ''stockout'' else if 90 < current then ''overstock'' else ''balanced'')"

definition known_item :: "string \<Rightarrow> int \<Rightarrow> int \<Rightarrow> dec \<Rightarrow> int \<Rightarrow> risk_item res" where
  "known_item sku on_hand inbound units days =
     ebind (velocity_of units days) (\<lambda>v.
     ebind (cover on_hand v) (\<lambda>current.
     ebind (cover (on_hand + inbound) v) (\<lambda>projected.
       let refs = [''inventory:'' @ sku, ''velocity:'' @ sku] in
       Inr \<lparr>ri_sku = sku, ri_on_hand = on_hand, ri_inbound = inbound, ri_velocity = Some v,
            ri_current = mk_metric (Some current) Derived refs None,
            ri_projected = mk_metric (Some projected) Derived refs None,
            ri_risk = risk_class current, ri_refs = refs\<rparr>)))"

definition unknown_item :: "string \<Rightarrow> int \<Rightarrow> int \<Rightarrow> risk_item" where
  "unknown_item sku on_hand inbound =
     (let refs = [''inventory:'' @ sku]; u = mk_metric None Unknown refs None in
      \<lparr>ri_sku = sku, ri_on_hand = on_hand, ri_inbound = inbound, ri_velocity = None,
       ri_current = u, ri_projected = u, ri_risk = ''unknown'', ri_refs = refs\<rparr>)"

definition velocity_missing :: "date option \<Rightarrow> date list \<Rightarrow> int \<Rightarrow> dec \<Rightarrow> bool" where
  "velocity_missing ps ds days units \<longleftrightarrow> days = 0 \<or> \<not> coverage_complete ps ds days \<or> units = 0"

definition risk_item :: "date \<Rightarrow> date option \<Rightarrow> demand_history \<Rightarrow> string \<times> row
    \<Rightarrow> (risk_item \<times> evidence list \<times> string list) res" where
  "risk_item as_of ps h s = (case s of (sku, r) \<Rightarrow>
     ebind (stock_levels r) (\<lambda>(on_hand, inbound).
       let ds = lookup_or [] (dh_dates h) sku;
           days = coverage_days as_of ps ds;
           units = lookup_or 0 (dh_units h) sku;
           ev = mk_evidence (''inventory:'' @ sku) Measured ''latest exact-SKU inventory row''
                  [''product_inventory_sales'']
       in if velocity_missing ps ds days units
          then Inr (unknown_item sku on_hand inbound, [ev],
             [''velocity_missing:'' @ sku]
             @ (if days \<noteq> 0 \<and> \<not> coverage_complete ps ds days
                then [''sales_coverage_incomplete:'' @ sku] else []))
          else ebind (known_item sku on_hand inbound units days) (\<lambda>i.
             Inr (i, [ev, mk_evidence (''velocity:'' @ sku) Derived ''sum(exact_sku_units)/covered_days''
                            [''daily_sales'']], []))))"

section \<open>All SKUs\<close>

definition no_inventory :: "(string \<times> row) list \<Rightarrow> evidence list \<times> string list" where
  "no_inventory stock = (if stock = []
     then ([mk_evidence ''inventory.source'' Unknown ''exact-SKU inventory source required''
              [''product_inventory_sales'']], [''inventory_missing''])
     else ([], []))"

definition unstocked_sales :: "(string \<times> row) list \<Rightarrow> demand_history \<Rightarrow> string list" where
  "unstocked_sales stock h = map (\<lambda>sku. ''sales_without_inventory:'' @ sku)
     (sort (filter (\<lambda>sku. sku \<notin> fst ` set stock) (map fst (dh_units h))))"

definition calculate_inventory_risk :: "row list \<Rightarrow> row list \<Rightarrow> date \<Rightarrow> date option \<Rightarrow> risk_result res" where
  "calculate_inventory_risk sales inventory as_of ps =
     (if period_invalid as_of ps then Inl (ValueError ''period_start_invalid'')
      else
     ebind (latest_inventory as_of inventory []) (\<lambda>(stock, lm).
     ebind (demand_of as_of ps sales) (\<lambda>h.
     ebind (emap (risk_item as_of ps h) (sort_key fst stock)) (\<lambda>items.
       Inr \<lparr>rr_as_of = as_of, rr_items = map fst items,
            rr_evidence = fst (no_inventory stock) @ concat (map (fst \<circ> snd) items),
            rr_limitations = lm @ snd (no_inventory stock) @ dh_excluded h @ unstocked_sales stock h
              @ concat (map (snd \<circ> snd) items)\<rparr>))))"

section \<open>Lemmas\<close>

lemma cover_mono:
  assumes "cover u v = Inr x" and "cover u' v = Inr x'" and "u \<le> u'" and "0 \<le> v"
  shows "x \<le> x'"
proof -
  obtain q q' where "ddiv (of_int u) v = Inr q" "ddiv (of_int u') v = Inr q'"
    and x: "x = quant HalfEven 2 q" "x' = quant HalfEven 2 q'"
    using assms(1,2) by (auto simp: cover_def elim!: ebind_eq_InrE)
  then have "q \<le> q'" using assms(3,4)
    by (auto simp: ddiv_def split: if_splits intro!: fix_prec_mono divide_right_mono)
  then show ?thesis unfolding x by (rule quant_mono)
qed

lemma cover_nonneg: "cover u v = Inr x \<Longrightarrow> 0 \<le> u \<Longrightarrow> 0 \<le> v \<Longrightarrow> 0 \<le> x"
  unfolding cover_def by (erule ebind_eq_InrE) (auto intro!: quant_nonneg dest!: ddiv_nonneg)

text \<open>A known item: its covers, its class.\<close>

definition known_spec :: "dec \<Rightarrow> int \<Rightarrow> risk_item \<Rightarrow> bool" where
  "known_spec units days i \<longleftrightarrow> (\<exists>v current projected.
     velocity_of units days = Inr v \<and> 0 < v \<and> ri_velocity i = Some v
     \<and> cover (ri_on_hand i) v = Inr current \<and> value_of (ri_current i) = Some current
     \<and> value_of (ri_projected i) = Some projected \<and> 0 \<le> current \<and> current \<le> projected
     \<and> (ri_risk i = ''stockout'' \<longleftrightarrow> current < 7) \<and> (ri_risk i = ''overstock'' \<longleftrightarrow> 90 < current)
     \<and> (ri_risk i = ''balanced'' \<longleftrightarrow> 7 \<le> current \<and> current \<le> 90))"

lemma known_item_spec:
  assumes "known_item sku on_hand inbound units days = Inr i"
    and "0 \<le> on_hand" and "0 \<le> inbound" and "0 \<le> units" and "0 \<le> days"
  shows "known_spec units days i \<and> ri_sku i = sku \<and> ri_on_hand i = on_hand \<and> ri_inbound i = inbound"
proof -
  obtain v c p where v: "velocity_of units days = Inr v" and c: "cover on_hand v = Inr c"
    and p: "cover (on_hand + inbound) v = Inr p"
    and i: "i = \<lparr>ri_sku = sku, ri_on_hand = on_hand, ri_inbound = inbound, ri_velocity = Some v,
            ri_current = mk_metric (Some c) Derived [''inventory:'' @ sku, ''velocity:'' @ sku] None,
            ri_projected = mk_metric (Some p) Derived [''inventory:'' @ sku, ''velocity:'' @ sku] None,
            ri_risk = risk_class c, ri_refs = [''inventory:'' @ sku, ''velocity:'' @ sku]\<rparr>"
    using assms(1) by (auto simp: known_item_def Let_def elim!: ebind_eq_InrE)
  have v0: "0 \<le> v" using v assms(4,5) by (rule velocity_of_nonneg)
  moreover have "v \<noteq> 0" using c by (auto simp: cover_def ddiv_def split: if_splits)
  ultimately have "0 < v" by simp
  moreover have "0 \<le> c" using c assms(2) v0 by (rule cover_nonneg)
  moreover have "c \<le> p" using cover_mono [OF c p _ v0] assms(3) by simp
  ultimately show ?thesis using v c by (auto simp: known_spec_def i risk_class_def)
qed

text \<open>The item of one SKU, for a demand history that was read.\<close>

lemma risk_item_cases:
  assumes "risk_item as_of ps h (sku, r) = Inr (i, ev, lm)"
    and "demand_of as_of ps sales = Inr h" and "\<not> period_invalid as_of ps"
  defines "ds \<equiv> lookup_or [] (dh_dates h) sku"
    and "units \<equiv> lookup_or 0 (dh_units h) sku"
  shows "stock_levels r = Inr (ri_on_hand i, ri_inbound i) \<and> ri_sku i = sku
    \<and> (if velocity_missing ps ds (coverage_days as_of ps ds) units
       then ri_risk i = ''unknown'' \<and> ri_velocity i = None \<and> value_of (ri_current i) = None
         \<and> value_of (ri_projected i) = None
       else known_spec units (coverage_days as_of ps ds) i)"
proof -
  let ?days = "coverage_days as_of ps ds"
  obtain on_hand inbound where s: "stock_levels r = Inr (on_hand, inbound)"
    using assms(1) by (auto simp: risk_item_def elim!: ebind_eq_InrE)
  have n: "0 \<le> on_hand" "0 \<le> inbound" using stock_levels_nonneg [OF s] by simp_all
  show ?thesis
  proof (cases "velocity_missing ps ds ?days units")
    case True
    then have "i = unknown_item sku on_hand inbound"
      using assms(1) s by (auto simp: risk_item_def Let_def ds_def units_def)
    then show ?thesis using True s by (simp add: unknown_item_def Let_def)
  next
    case False
    then have k: "known_item sku on_hand inbound units ?days = Inr i"
      using assms(1) s by (auto simp: risk_item_def Let_def ds_def units_def elim!: ebind_eq_InrE)
    have "?days \<noteq> 0" using False by (auto simp: velocity_missing_def)
    then have d: "0 \<le> ?days" unfolding ds_def
      using coverage_days_pos [OF assms(2,3)] by (fastforce intro: less_imp_le)
    have u: "0 \<le> units" unfolding units_def using assms(2) by (rule demand_units_nonneg)
    from known_item_spec [OF k n u d] show ?thesis using False s by simp
  qed
qed

lemma calculate_inventory_risk_cases:
  assumes "calculate_inventory_risk sales inventory as_of ps = Inr r"
  obtains stock lm h items where "\<not> period_invalid as_of ps"
    and "latest_inventory as_of inventory [] = Inr (stock, lm)" and "demand_of as_of ps sales = Inr h"
    and "emap (risk_item as_of ps h) (sort_key fst stock) = Inr items" and "rr_items r = map fst items"
  using assms unfolding calculate_inventory_risk_def
  by (auto elim!: ebind_eq_InrE intro: that split: if_splits)

lemma risk_items_listed:
  assumes "calculate_inventory_risk sales inventory as_of ps = Inr r" and "i \<in> set (rr_items r)"
  obtains stock lm h sku row ev lm' where "\<not> period_invalid as_of ps"
    and "latest_inventory as_of inventory [] = Inr (stock, lm)" and "demand_of as_of ps sales = Inr h"
    and "(sku, row) \<in> set stock" and "risk_item as_of ps h (sku, row) = Inr (i, ev, lm')"
proof -
  from assms(1) obtain stock lm h items where c: "\<not> period_invalid as_of ps"
    "latest_inventory as_of inventory [] = Inr (stock, lm)" "demand_of as_of ps sales = Inr h"
    "emap (risk_item as_of ps h) (sort_key fst stock) = Inr items" "rr_items r = map fst items"
    by (rule calculate_inventory_risk_cases)
  from assms(2) c(5) obtain ev lm' where "(i, ev, lm') \<in> set items" by auto
  from emap_set [OF c(4) this] obtain sku row where "(sku, row) \<in> set stock"
    "risk_item as_of ps h (sku, row) = Inr (i, ev, lm')" by auto
  then show thesis using c that by blast
qed

section \<open>Properties\<close>

definition demo_stock :: "row list" where
  "demo_stock =
     [[''sku_id'' \<mapsto> PStr ''A'', ''date'' \<mapsto> PStr ''2026-01-01'', ''on_hand_units'' \<mapsto> PInt 90],
      [''sku_id'' \<mapsto> PStr ''A'', ''date'' \<mapsto> PStr ''2026-01-04'', ''on_hand_units'' \<mapsto> PInt 10,
       ''inbound_units'' \<mapsto> PInt 5]]"

definition demo_demand :: "row list" where
  "demo_demand =
     [[''sku_id'' \<mapsto> PStr ''A'', ''date'' \<mapsto> PStr ''2026-01-03'', ''units'' \<mapsto> PInt 3],
      [''sku_id'' \<mapsto> PStr ''A'', ''date'' \<mapsto> PStr ''2026-01-04'', ''units'' \<mapsto> PInt 5]]"

lemma demo_risk_run:
  obtains r i where "calculate_inventory_risk demo_demand demo_stock (to_ordinal 2026 1 4) None = Inr r"
    and "rr_items r = [i]" and "ri_risk i = ''stockout''" and "ri_on_hand i = 10"
    and "ri_velocity i = Some 4" and "value_of (ri_current i) = Some (5/2)"
proof -
  have "case calculate_inventory_risk demo_demand demo_stock (to_ordinal 2026 1 4) None of
      Inr r \<Rightarrow> (case rr_items r of [i] \<Rightarrow> ri_risk i = ''stockout'' \<and> ri_on_hand i = 10
          \<and> ri_velocity i = Some 4 \<and> value_of (ri_current i) = Some (5/2) | _ \<Rightarrow> False)
    | Inl _ \<Rightarrow> False" by code_simp
  then show thesis using that by (auto split: sum.splits list.splits)
qed

text \<open>
  C34: every stocked SKU gets one line, from its newest snapshot. The SKUs of the result are
  strictly increasing, they are exactly those with a snapshot dated no later than the day of
  the report, and each line's stock is read from the strictly newest of them.
\<close>

theorem risk_from_newest_snapshot:
  assumes "calculate_inventory_risk sales inventory as_of ps = Inr r"
  shows "sorted_wrt (<) (map ri_sku (rr_items r))
    \<and> (\<forall>sku. sku \<in> ri_sku ` set (rr_items r) \<longleftrightarrow> (\<exists>s \<in> set inventory. \<exists>d \<le> as_of. snapshot_of s sku d))
    \<and> (\<forall>i \<in> set (rr_items r). \<exists>s \<in> set inventory. \<exists>d \<le> as_of. snapshot_of s (ri_sku i) d
        \<and> stock_levels s = Inr (ri_on_hand i, ri_inbound i)
        \<and> (\<forall>s' \<in> set inventory. \<forall>d' \<le> as_of. snapshot_of s' (ri_sku i) d' \<longrightarrow> s' = s \<and> d' = d \<or> d' < d))"
proof -
  from assms obtain stock lm h items where c: "\<not> period_invalid as_of ps"
    "latest_inventory as_of inventory [] = Inr (stock, lm)" "demand_of as_of ps sales = Inr h"
    "emap (risk_item as_of ps h) (sort_key fst stock) = Inr items" "rr_items r = map fst items"
    by (rule calculate_inventory_risk_cases)
  have k: "map ri_sku (rr_items r) = map fst (sort_key fst stock)"
  proof -
    have "map (ri_sku \<circ> fst) items = map fst (sort_key fst stock)"
      using c(4) by (rule emap_keys) (use risk_item_cases [OF _ c(3,1)] in force)
    then show ?thesis using c(5) by simp
  qed
  have "mset (map fst (sort_key fst stock)) = mset (map fst stock)" by simp
  then have "distinct (map fst (sort_key fst stock))"
    using latest_inventory_facts(1) [OF c(2)] by (metis mset_eq_imp_distinct_iff)
  then have "sorted_wrt (<) (map ri_sku (rr_items r))" unfolding k by (simp add: strict_sorted_iff)
  moreover have "sku \<in> ri_sku ` set (rr_items r) \<longleftrightarrow> (\<exists>s \<in> set inventory. \<exists>d \<le> as_of. snapshot_of s sku d)"
    for sku
    using arg_cong [OF k, of set] latest_inventory_facts(3) [OF c(2), of sku] by simp
  moreover have "\<exists>s \<in> set inventory. \<exists>d \<le> as_of. snapshot_of s (ri_sku i) d
        \<and> stock_levels s = Inr (ri_on_hand i, ri_inbound i)
        \<and> (\<forall>s' \<in> set inventory. \<forall>d' \<le> as_of. snapshot_of s' (ri_sku i) d' \<longrightarrow> s' = s \<and> d' = d \<or> d' < d)"
    if listed: "i \<in> set (rr_items r)" for i
  proof -
    obtain stock' lm' h' sku row ev lm'' where "\<not> period_invalid as_of ps" and i: "latest_inventory as_of inventory [] = Inr (stock', lm')"
      "demand_of as_of ps sales = Inr h'" "(sku, row) \<in> set stock'" "risk_item as_of ps h' (sku, row) = Inr (i, ev, lm'')"
      using assms listed by (rule risk_items_listed)
    have "stock_levels row = Inr (ri_on_hand i, ri_inbound i)" "ri_sku i = sku"
      using risk_item_cases [OF i(4,2) c(1)] by auto
    with latest_inventory_facts(2) [OF i(1,3)] show ?thesis by blast
  qed
  ultimately show ?thesis by blast
qed

theorem risk_from_newest_snapshot_witness:
  "\<exists>r i. calculate_inventory_risk demo_demand demo_stock (to_ordinal 2026 1 4) None = Inr r
    \<and> rr_items r = [i] \<and> ri_on_hand i = 10 \<and> sorted_wrt (<) (map ri_sku (rr_items r))"
proof -
  obtain r i where d: "calculate_inventory_risk demo_demand demo_stock (to_ordinal 2026 1 4) None = Inr r"
    "rr_items r = [i]" "ri_on_hand i = 10"
    by (rule demo_risk_run)
  with risk_from_newest_snapshot [OF d(1)] show ?thesis by (intro exI [of _ r] exI [of _ i]) simp
qed

text \<open>
  the class of risk says what it means. A line without an average (no days, days that are
  not covered, or no units) is unknown and has no numbers. Any other line has a positive
  average, the cover in days it gives, a projected cover that is at least as long, and is a
  stockout risk exactly below 7 days, overstock exactly above 90 days, and balanced between.
\<close>

theorem risk_class_meaning:
  assumes "calculate_inventory_risk sales inventory as_of ps = Inr r" and "i \<in> set (rr_items r)"
  shows "\<exists>h. demand_of as_of ps sales = Inr h \<and>
    (let ds = lookup_or [] (dh_dates h) (ri_sku i); units = lookup_or 0 (dh_units h) (ri_sku i);
         days = coverage_days as_of ps ds
     in if days = 0 \<or> \<not> coverage_complete ps ds days \<or> units = 0
        then ri_risk i = ''unknown'' \<and> ri_velocity i = None \<and> value_of (ri_current i) = None
          \<and> value_of (ri_projected i) = None
        else known_spec units days i)"
proof -
  obtain stock' lm' h' sku row ev lm'' where i: "\<not> period_invalid as_of ps"
    "demand_of as_of ps sales = Inr h'" "risk_item as_of ps h' (sku, row) = Inr (i, ev, lm'')"
    using assms by (rule risk_items_listed)
  show ?thesis
    using risk_item_cases [OF i(3,2,1)] i(2) by (auto simp: Let_def velocity_missing_def)
qed

theorem risk_class_meaning_witness:
  "\<exists>r i h. calculate_inventory_risk demo_demand demo_stock (to_ordinal 2026 1 4) None = Inr r
    \<and> i \<in> set (rr_items r) \<and> ri_risk i = ''stockout''
    \<and> demand_of (to_ordinal 2026 1 4) None demo_demand = Inr h \<and> ri_velocity i = Some 4"
proof -
  obtain r i where d: "calculate_inventory_risk demo_demand demo_stock (to_ordinal 2026 1 4) None = Inr r"
    "rr_items r = [i]" "ri_risk i = ''stockout''" "ri_velocity i = Some 4"
    by (rule demo_risk_run)
  then have "i \<in> set (rr_items r)" by simp
  with risk_class_meaning [OF d(1) this] d show ?thesis by blast
qed

text \<open>
  An average that rounds to zero is not caught. The check before the division asks whether
  the units are zero, not whether the rounded average is: with stock on hand and a demand of
  less than half a millionth of a unit per day the calculator raises \<open>DivisionByZero\<close> instead
  of classifying the SKU, whatever else the rows say.
\<close>

theorem risk_tiny_demand_raises:
  assumes "0 < on_hand" and "0 \<le> inbound" and "0 < units" and "0 < days"
    and "velocity_of units days = Inr 0"
  shows "known_item sku on_hand inbound units days = Inl DivisionByZero"
  using assms by (simp add: known_item_def cover_def ddiv_def)

theorem risk_tiny_demand_raises_witness:
  "calculate_inventory_risk [[''sku_id'' \<mapsto> PStr ''A'', ''date'' \<mapsto> PStr ''2026-01-04'', ''units'' \<mapsto> PStr ''0.0000004'']]
     demo_stock (to_ordinal 2026 1 4) None = Inl DivisionByZero
   \<and> known_item ''A'' 10 5 (4 / 10 ^ 7) 1 = Inl DivisionByZero"
proof
  show "calculate_inventory_risk [[''sku_id'' \<mapsto> PStr ''A'', ''date'' \<mapsto> PStr ''2026-01-04'', ''units'' \<mapsto> PStr ''0.0000004'']]
     demo_stock (to_ordinal 2026 1 4) None = Inl DivisionByZero"
    by code_simp
  have "velocity_of (4 / 10 ^ 7) 1 = Inr 0" by code_simp
  then show "known_item ''A'' 10 5 (4 / 10 ^ 7) 1 = Inl DivisionByZero"
    by (intro risk_tiny_demand_raises) simp_all
qed

end
