(* ===== verification/Replenishment.thy ===== *)
theory Replenishment
  imports StockHistory
begin

text \<open>
  \<open>src/analysis/replenishment_calculator.py\<close>: for each stocked SKU with a policy and enough
  demand history, the demand band, the order quantity, the latest day to order and its
  priority. \<open>order_inputs\<close> are the numbers the row loop reads, \<open>order_item\<close> is what it derives
  from them. The snapshot hash is left out.
\<close>

section \<open>Data\<close>

record order_line =
  ol_sku :: string
  ol_low :: "dec option"
  ol_base :: "dec option"
  ol_high :: "dec option"
  ol_quantity :: "int option"
  ol_latest :: "date option"
  ol_priority :: string
  ol_cash :: metric
  ol_state :: evidence_state
  ol_refs :: "string list"

record order_result =
  or_as_of :: date
  or_items :: "order_line list"
  or_evidence :: "evidence list"
  or_limitations :: "string list"

record order_inputs =
  oi_base :: dec
  oi_low :: dec
  oi_high :: dec
  oi_on_hand :: int
  oi_inbound :: int
  oi_lead :: int
  oi_safety :: int
  oi_reorder :: int
  oi_cover :: int

section \<open>One SKU\<close>

definition add_unique :: "string \<Rightarrow> row \<Rightarrow> (string \<times> row) list \<Rightarrow> (string \<times> row) list res" where
  "add_unique kind r m =
     ebind (text_value (row_get r ''sku_id'') ''sku_id'') (\<lambda>sku.
       if sku \<in> fst ` set m then Inl (ValueError (''duplicate_'' @ kind @ '':'' @ sku))
       else Inr (m @ [(sku, r)]))"

definition unique_by_sku :: "string \<Rightarrow> row list \<Rightarrow> (string \<times> row) list res" where
  "unique_by_sku kind rows = efold (add_unique kind) rows []"

definition blocked_item :: "string \<Rightarrow> order_line" where
  "blocked_item sku = \<lparr>ol_sku = sku, ol_low = None, ol_base = None, ol_high = None,
     ol_quantity = None, ol_latest = None, ol_priority = ''blocked'',
     ol_cash = mk_metric None Unknown [] None, ol_state = Unknown, ol_refs = []\<rparr>"

definition read_inputs :: "dec \<Rightarrow> int \<Rightarrow> row \<Rightarrow> row \<Rightarrow> order_inputs res" where
  "read_inputs units days inventory policy =
     ebind (velocity_of units days) (\<lambda>base.
     ebind (ratio (dmul base (8/10))) (\<lambda>low.
     ebind (ratio (dmul base (12/10))) (\<lambda>high.
     ebind (stock_levels inventory) (\<lambda>(on_hand, inbound).
     ebind (whole_units (row_get policy ''lead_time_days'') ''lead_time_days'') (\<lambda>lead.
     ebind (whole_units (row_get policy ''safety_stock_units'') ''safety_stock_units'') (\<lambda>safety.
     ebind (whole_units (row_get policy ''reorder_point_units'') ''reorder_point_units'') (\<lambda>reorder.
     ebind (whole_units (row_get policy ''target_cover_days'') ''target_cover_days'') (\<lambda>cover.
       Inr \<lparr>oi_base = base, oi_low = low, oi_high = high, oi_on_hand = on_hand, oi_inbound = inbound,
            oi_lead = lead, oi_safety = safety, oi_reorder = reorder, oi_cover = cover\<rparr>))))))))"

definition target_units :: "order_inputs \<Rightarrow> dec" where
  "target_units p = max (dadd (dmul (oi_high p) (of_int (oi_cover p))) (of_int (oi_safety p)))
     (of_int (oi_reorder p))"

text \<open>\<open>available_inbound\<close> is the constant 0 of the code: inbound stock is never counted.\<close>

definition order_quantity :: "order_inputs \<Rightarrow> int" where
  "order_quantity p = max 0 (to_integral Ceiling (dsub (dsub (target_units p) (of_int (oi_on_hand p))) 0))"

definition latest_order :: "date \<Rightarrow> order_inputs \<Rightarrow> date res" where
  "latest_order as_of p =
     ebind (ddiv (of_int (oi_on_hand p)) (oi_base p)) (\<lambda>q.
       if oi_on_hand p \<le> oi_reorder p then Inr as_of
       else add_days as_of (to_integral Floor q - oi_lead p))"

definition order_priority :: "date \<Rightarrow> date \<Rightarrow> string res" where
  "order_priority as_of latest =
     (if latest \<le> as_of then Inr ''urgent''
      else ebind (add_days as_of 7) (\<lambda>w. Inr (if latest \<le> w then ''soon'' else ''planned'')))"

definition order_cash :: "string \<Rightarrow> row \<Rightarrow> int \<Rightarrow> (metric \<times> string list) res" where
  "order_cash sku policy quantity =
     (case row_get policy ''unit_cost_brl'' of
        PNone \<Rightarrow> Inr (mk_metric None Unknown [''replenishment:'' @ sku] None, [''unit_cost_missing:'' @ sku])
      | v \<Rightarrow> ebind (nonnegative_decimal v ''unit_cost_brl'') (\<lambda>c.
          ebind (money (dmul c (of_int quantity))) (\<lambda>m.
            Inr (mk_metric (Some m) Derived [''replenishment:'' @ sku] None, []))))"

definition order_item :: "date \<Rightarrow> string \<Rightarrow> row \<Rightarrow> order_inputs \<Rightarrow> (order_line \<times> string list) res" where
  "order_item as_of sku policy p =
     ebind (latest_order as_of p) (\<lambda>latest.
     ebind (order_priority as_of latest) (\<lambda>priority.
     ebind (order_cash sku policy (order_quantity p)) (\<lambda>(cash, lm).
       Inr (\<lparr>ol_sku = sku, ol_low = Some (oi_low p), ol_base = Some (oi_base p), ol_high = Some (oi_high p),
             ol_quantity = Some (order_quantity p), ol_latest = Some latest, ol_priority = priority,
             ol_cash = cash, ol_state = Derived, ol_refs = [''replenishment:'' @ sku]\<rparr>,
            (if oi_inbound p \<noteq> 0 then [''inbound_availability_unknown:'' @ sku] else []) @ lm))))"

definition blocked :: "string \<Rightarrow> string \<Rightarrow> string \<Rightarrow> string \<Rightarrow> order_line \<times> evidence \<times> string list" where
  "blocked sku formula role limitation =
     (blocked_item sku, mk_evidence (''replenishment:'' @ sku) Unknown formula [role], [limitation])"

definition derived_evidence :: "string \<Rightarrow> evidence" where
  "derived_evidence sku = mk_evidence (''replenishment:'' @ sku) Derived
     ''max(high_demand*target_cover+safety,reorder_point)-available_inventory; reorder threshold can trigger now''
     [''daily_sales'', ''product_inventory_sales'', ''replenishment_policy'']"

definition plan_sku :: "date \<Rightarrow> date option \<Rightarrow> demand_history \<Rightarrow> (string \<times> row) list \<Rightarrow> string \<times> row
    \<Rightarrow> (order_line \<times> evidence \<times> string list) res" where
  "plan_sku as_of ps h policies s = (case s of (sku, inventory) \<Rightarrow>
     case map_of policies sku of
       None \<Rightarrow> Inr (blocked sku ''exact-SKU replenishment policy required'' ''replenishment_policy''
                  (''policy_missing:'' @ sku))
     | Some policy \<Rightarrow>
         let ds = lookup_or [] (dh_dates h) sku; days = coverage_days as_of ps ds;
             units = lookup_or 0 (dh_units h) sku
         in if days = 0 \<or> units = 0
            then Inr (blocked sku ''no exact-SKU demand history'' ''daily_sales''
                   (''demand_history_missing:'' @ sku))
            else if \<not> coverage_complete ps ds days
            then Inr (blocked sku ''daily coverage is incomplete and no explicit period_start was supplied''
                   ''daily_sales'' (''demand_history_insufficient:'' @ sku @ '':'' @ show_int (int (length ds))))
            else if days < 7
            then Inr (blocked sku ''at least 7 covered days required'' ''daily_sales''
                   (''demand_history_insufficient:'' @ sku @ '':'' @ show_int days))
            else ebind (read_inputs units days inventory policy) (\<lambda>p.
                 ebind (order_item as_of sku policy p) (\<lambda>(i, lm). Inr (i, derived_evidence sku, lm))))"

section \<open>All SKUs\<close>

definition calculate_replenishment :: "row list \<Rightarrow> row list \<Rightarrow> row list \<Rightarrow> date \<Rightarrow> date option
    \<Rightarrow> order_result res" where
  "calculate_replenishment sales inventory policies as_of ps =
     (if period_invalid as_of ps then Inl (ValueError ''period_start_invalid'')
      else
     ebind (demand_of as_of ps sales) (\<lambda>h.
     ebind (latest_inventory as_of inventory []) (\<lambda>(stock, lm).
     ebind (unique_by_sku ''policy'' policies) (\<lambda>pol.
     ebind (emap (plan_sku as_of ps h pol) (sort_key fst stock)) (\<lambda>items.
       Inr \<lparr>or_as_of = as_of, or_items = map fst items,
            or_evidence = (if stock = []
               then [mk_evidence ''replenishment.inventory'' Unknown ''exact-SKU inventory source required''
                       [''product_inventory_sales'']] else []) @ map (fst \<circ> snd) items,
            or_limitations = lm @ (if stock = [] then [''inventory_missing''] else [])
              @ concat (map (snd \<circ> snd) items)\<rparr>)))))"

section \<open>Lemmas\<close>

definition inputs_ok :: "order_inputs \<Rightarrow> bool" where
  "inputs_ok p \<longleftrightarrow> 0 \<le> oi_low p \<and> oi_low p \<le> oi_base p \<and> oi_base p \<le> oi_high p \<and> has_places 6 (oi_high p)
     \<and> 0 \<le> oi_on_hand p \<and> 0 \<le> oi_inbound p \<and> 0 \<le> oi_lead p \<and> 0 \<le> oi_safety p \<and> 0 \<le> oi_reorder p
     \<and> 0 \<le> oi_cover p"

lemma ratio_eq: "ratio x = Inr y \<Longrightarrow> y = quant HalfEven 6 x"
  by (auto simp: ratio_def)

lemma ratio_below:
  assumes "ratio (dmul base c) = Inr y" and "ratio x = Inr base" and "0 \<le> base" and "c \<le> 1"
  shows "y \<le> base"
proof -
  have b: "has_places 6 base" "\<bar>base\<bar> * 10 ^ 6 < of_int prec_limit"
    using assms(2) unfolding ratio_def by (rule quantize_has_places, rule quantize_bound)
  have "dmul base c \<le> fix_prec base"
    unfolding dmul_def using assms(3,4) by (intro fix_prec_mono) (simp add: mult_left_le)
  also have "\<dots> = base" using b by (rule fix_prec_places)
  finally have "quant HalfEven 6 (dmul base c) \<le> quant HalfEven 6 base" by (rule quant_mono)
  then show ?thesis using ratio_eq [OF assms(1)] b by (simp add: quant_id)
qed

lemma ratio_above:
  assumes "ratio (dmul base c) = Inr y" and "ratio x = Inr base" and "0 \<le> base" and "1 \<le> c"
  shows "base \<le> y"
proof -
  have b: "has_places 6 base" "\<bar>base\<bar> * 10 ^ 6 < of_int prec_limit"
    using assms(2) unfolding ratio_def by (rule quantize_has_places, rule quantize_bound)
  have "base = fix_prec base" using fix_prec_places [OF b] by simp
  also have "fix_prec base \<le> dmul base c"
    unfolding dmul_def using assms(3,4) by (intro fix_prec_mono) (simp add: mult_le_cancel_left1)
  finally have "quant HalfEven 6 base \<le> quant HalfEven 6 (dmul base c)" by (rule quant_mono)
  then show ?thesis using ratio_eq [OF assms(1)] b by (simp add: quant_id)
qed

lemma read_inputs_ok:
  assumes "read_inputs units days inventory policy = Inr p" and "0 \<le> units" and "0 \<le> days"
  shows "inputs_ok p \<and> velocity_of units days = Inr (oi_base p)
    \<and> stock_levels inventory = Inr (oi_on_hand p, oi_inbound p)"
proof -
  obtain base low high on_hand inbound lead safety reorder cover
    where r: "velocity_of units days = Inr base" "ratio (dmul base (8/10)) = Inr low"
      "ratio (dmul base (12/10)) = Inr high" "stock_levels inventory = Inr (on_hand, inbound)"
      "whole_units (row_get policy ''lead_time_days'') ''lead_time_days'' = Inr lead"
      "whole_units (row_get policy ''safety_stock_units'') ''safety_stock_units'' = Inr safety"
      "whole_units (row_get policy ''reorder_point_units'') ''reorder_point_units'' = Inr reorder"
      "whole_units (row_get policy ''target_cover_days'') ''target_cover_days'' = Inr cover"
    and p: "p = \<lparr>oi_base = base, oi_low = low, oi_high = high, oi_on_hand = on_hand, oi_inbound = inbound,
            oi_lead = lead, oi_safety = safety, oi_reorder = reorder, oi_cover = cover\<rparr>"
    using assms(1) unfolding read_inputs_def by (elim ebind_eq_InrE) (auto elim!: ebind_eq_InrE)
  obtain x where x: "ratio x = Inr base" using r(1) by (auto simp: velocity_of_def elim!: ebind_eq_InrE)
  have b: "0 \<le> base" using r(1) assms(2,3) by (rule velocity_of_nonneg)
  have "0 \<le> low" using r(2) by (rule ratio_nonneg) (simp add: dmul_nonneg b)
  moreover have "low \<le> base" using r(2) x b by (rule ratio_below) simp
  moreover have "base \<le> high" using r(3) x b by (rule ratio_above) simp
  moreover have "has_places 6 high" using r(3) by (auto simp: ratio_def)
  ultimately show ?thesis
    using r(1,4) stock_levels_nonneg [OF r(4)] r(5-8) [THEN whole_units_nonneg]
    by (simp add: p inputs_ok_def)
qed

text \<open>The order covers the target and is the least that does, while the numbers are exact.\<close>

definition exact_target :: "order_inputs \<Rightarrow> dec" where
  "exact_target p = max (oi_high p * of_int (oi_cover p) + of_int (oi_safety p)) (of_int (oi_reorder p))"

definition moderate :: "order_inputs \<Rightarrow> bool" where
  "moderate p \<longleftrightarrow> exact_target p < 10 ^ 20 \<and> oi_on_hand p < 10 ^ 20"

lemma has_places_mult_int: "has_places k x \<Longrightarrow> has_places k (x * of_int n)"
  unfolding has_places_def by (metis Ints_mult Ints_of_int mult.commute mult.left_commute)

lemma target_units_exact:
  assumes "inputs_ok p" and "moderate p"
  shows "target_units p = exact_target p" and "has_places 6 (exact_target p)"
    and "dsub (dsub (target_units p) (of_int (oi_on_hand p))) 0 = exact_target p - of_int (oi_on_hand p)"
proof -
  let ?x = "oi_high p * of_int (oi_cover p)"
  have h: "0 \<le> ?x" "has_places 6 ?x" "0 \<le> oi_safety p" "0 \<le> oi_on_hand p" "0 \<le> oi_reorder p"
    using assms(1) by (auto simp: inputs_ok_def has_places_mult_int)
  have m: "?x + of_int (oi_safety p) < 10 ^ 20" "(of_int (oi_on_hand p) :: rat) < 10 ^ 20"
    using assms(2) by (auto simp: moderate_def exact_target_def)
  have s: "?x + of_int (oi_safety p) \<ge> 0" "has_places 6 (?x + of_int (oi_safety p))"
    using h by (auto intro: has_places_add)
  have "dmul (oi_high p) (of_int (oi_cover p)) = ?x"
    unfolding dmul_def using h m by (intro fix_prec_places [of 6]) (auto simp: prec_limit_def)
  moreover have "dadd ?x (of_int (oi_safety p)) = ?x + of_int (oi_safety p)"
    using h m s by (intro dadd_exact [of 6]) (auto simp: prec_limit_def)
  ultimately show t: "target_units p = exact_target p" by (simp add: target_units_def exact_target_def)
  show pl: "has_places 6 (exact_target p)" using s(2) by (simp add: exact_target_def max_def)
  have "0 \<le> exact_target p" using s(1) by (simp add: exact_target_def le_max_iff_disj)
  then have d: "\<bar>exact_target p - of_int (oi_on_hand p)\<bar> < 10 ^ 20"
    using assms(2) m(2) h(4) unfolding moderate_def by (simp add: abs_less_iff)
  then have "dsub (exact_target p) (of_int (oi_on_hand p)) = exact_target p - of_int (oi_on_hand p)"
    using pl by (intro dsub_exact [of 6]) (auto simp: prec_limit_def)
  moreover have "dsub (exact_target p - of_int (oi_on_hand p)) 0 = exact_target p - of_int (oi_on_hand p) - 0"
    using pl d by (intro dsub_exact [of 6]) (auto simp: prec_limit_def has_places_diff)
  ultimately show "dsub (dsub (target_units p) (of_int (oi_on_hand p))) 0 = exact_target p - of_int (oi_on_hand p)"
    using t by simp
qed

lemma order_quantity_covers:
  assumes "inputs_ok p" and "moderate p"
  shows "exact_target p \<le> of_int (oi_on_hand p + order_quantity p)"
    and "0 < order_quantity p \<Longrightarrow> of_int (oi_on_hand p + order_quantity p - 1) < exact_target p"
proof -
  have q: "order_quantity p = max 0 \<lceil>exact_target p - of_int (oi_on_hand p)\<rceil>"
    by (simp only: order_quantity_def to_integral_def round_int.simps target_units_exact(3) [OF assms])
  have c: "exact_target p - of_int (oi_on_hand p) \<le> of_int \<lceil>exact_target p - of_int (oi_on_hand p)\<rceil>"
    "of_int \<lceil>exact_target p - of_int (oi_on_hand p)\<rceil> - 1 < exact_target p - of_int (oi_on_hand p)"
    by linarith+
  show "exact_target p \<le> of_int (oi_on_hand p + order_quantity p)"
    using c(1) by (simp add: q max_def) linarith
  show "of_int (oi_on_hand p + order_quantity p - 1) < exact_target p" if "0 < order_quantity p"
    using c(2) that by (simp add: q max_def split: if_splits)
qed

lemma order_item_cases:
  assumes "order_item as_of sku policy p = Inr (i, lm)"
  shows "ol_sku i = sku \<and> ol_low i = Some (oi_low p) \<and> ol_base i = Some (oi_base p)
    \<and> ol_high i = Some (oi_high p) \<and> ol_quantity i = Some (order_quantity p)
    \<and> (\<exists>latest. ol_latest i = Some latest \<and> latest_order as_of p = Inr latest
        \<and> order_priority as_of latest = Inr (ol_priority i))
    \<and> (\<exists>lm. order_cash sku policy (order_quantity p) = Inr (ol_cash i, lm))"
  using assms unfolding order_item_def by (elim ebind_eq_InrE) (auto elim!: ebind_eq_InrE)

lemma latest_order_facts:
  assumes "latest_order as_of p = Inr latest"
  shows "oi_base p \<noteq> 0" and "oi_on_hand p \<le> oi_reorder p \<longrightarrow> latest = as_of"
  using assms by (auto simp: latest_order_def ddiv_def split: if_splits elim!: ebind_eq_InrE)

lemma order_priority_facts:
  assumes "order_priority as_of latest = Inr pr"
  shows "(pr = ''urgent'' \<longleftrightarrow> latest \<le> as_of) \<and> (pr = ''soon'' \<longleftrightarrow> as_of < latest \<and> latest \<le> as_of + 7)
    \<and> (pr = ''planned'' \<longleftrightarrow> as_of + 7 < latest)"
  using assms by (auto simp: order_priority_def add_days_def split: if_splits)

lemma read_inputs_stock:
  "read_inputs units days inventory policy = Inr p \<Longrightarrow> stock_levels inventory = Inr (oi_on_hand p, oi_inbound p)"
  unfolding read_inputs_def by (elim ebind_eq_InrE) (auto elim!: ebind_eq_InrE)

lemma read_inputs_reorder:
  "read_inputs units days inventory policy = Inr p
    \<Longrightarrow> whole_units (row_get policy ''reorder_point_units'') ''reorder_point_units'' = Inr (oi_reorder p)"
  unfolding read_inputs_def by (elim ebind_eq_InrE) (auto elim!: ebind_eq_InrE)

lemma add_unique_cases: "add_unique kind r m = Inr m' \<Longrightarrow> \<exists>sku. m' = m @ [(sku, r)]"
  by (auto simp: add_unique_def elim!: ebind_eq_InrE split: if_splits)

lemma unique_by_sku_rows:
  assumes "unique_by_sku kind rows = Inr m"
  shows "(sku, r) \<in> set m \<Longrightarrow> r \<in> set rows"
proof -
  have "snd ` set m \<subseteq> set rows"
    using assms unfolding unique_by_sku_def by (rule efold_invariant) (simp, fastforce dest: add_unique_cases)
  then show "(sku, r) \<in> set m \<Longrightarrow> r \<in> set rows" by force
qed

text \<open>How a line comes about: it is blocked, or it is derived from inputs that were read.\<close>

lemma plan_sku_cases:
  assumes "plan_sku as_of ps h pol (sku, inventory) = Inr (i, ev, lm)"
    and "demand_of as_of ps sales = Inr h" and "\<not> period_invalid as_of ps"
  obtains (blocked) "i = blocked_item sku"
    | (derived) policy p lm' where "map_of pol sku = Some policy"
        and "read_inputs (lookup_or 0 (dh_units h) sku)
               (coverage_days as_of ps (lookup_or [] (dh_dates h) sku)) inventory policy = Inr p"
        and "inputs_ok p" and "order_item as_of sku policy p = Inr (i, lm')"
        and "7 \<le> coverage_days as_of ps (lookup_or [] (dh_dates h) sku)"
proof -
  have u: "0 \<le> lookup_or 0 (dh_units h) sku" using assms(2) by (rule demand_units_nonneg)
  show thesis
  proof (cases "i = blocked_item sku")
    case False
    then obtain policy p lm' where p: "map_of pol sku = Some policy"
        "\<not> coverage_days as_of ps (lookup_or [] (dh_dates h) sku) < 7"
        "read_inputs (lookup_or 0 (dh_units h) sku)
           (coverage_days as_of ps (lookup_or [] (dh_dates h) sku)) inventory policy = Inr p"
        "order_item as_of sku policy p = Inr (i, lm')"
      using assms(1) unfolding plan_sku_def
      by (auto simp: Let_def blocked_def split: option.splits if_splits elim!: ebind_eq_InrE)
    then show thesis using read_inputs_ok [OF p(3) u] by (intro derived) auto
  qed (rule blocked)
qed

lemma calculate_replenishment_cases:
  assumes "calculate_replenishment sales inventory policies as_of ps = Inr r" and "i \<in> set (or_items r)"
  obtains stock lm h pol sku row ev lm' where "\<not> period_invalid as_of ps"
    and "latest_inventory as_of inventory [] = Inr (stock, lm)" and "demand_of as_of ps sales = Inr h"
    and "unique_by_sku ''policy'' policies = Inr pol"
    and "(sku, row) \<in> set stock" and "plan_sku as_of ps h pol (sku, row) = Inr (i, ev, lm')"
proof -
  from assms(1) obtain stock lm h pol items where c: "\<not> period_invalid as_of ps"
    "latest_inventory as_of inventory [] = Inr (stock, lm)" "demand_of as_of ps sales = Inr h"
    "unique_by_sku ''policy'' policies = Inr pol"
    "emap (plan_sku as_of ps h pol) (sort_key fst stock) = Inr items" "or_items r = map fst items"
    unfolding calculate_replenishment_def by (auto elim!: ebind_eq_InrE split: if_splits)
  from assms(2) c(6) obtain ev lm' where "(i, ev, lm') \<in> set items" by auto
  from emap_set [OF c(5) this] obtain sku row where "(sku, row) \<in> set stock"
    "plan_sku as_of ps h pol (sku, row) = Inr (i, ev, lm')" by auto
  then show thesis using c that by blast
qed

section \<open>Properties\<close>

definition demo_week :: "row list" where
  "demo_week =
     [[''sku_id'' \<mapsto> PStr ''A'', ''date'' \<mapsto> PStr ''2026-01-03'', ''units'' \<mapsto> PInt 8],
      [''sku_id'' \<mapsto> PStr ''A'', ''date'' \<mapsto> PStr ''2026-01-04'', ''units'' \<mapsto> PInt 12]]"

definition demo_shelf :: "row list" where
  "demo_shelf = [[''sku_id'' \<mapsto> PStr ''A'', ''date'' \<mapsto> PStr ''2026-01-04'', ''on_hand_units'' \<mapsto> PInt 10]]"

definition demo_policy :: "row list" where
  "demo_policy = [[''sku_id'' \<mapsto> PStr ''A'', ''lead_time_days'' \<mapsto> PInt 2, ''safety_stock_units'' \<mapsto> PInt 3,
     ''reorder_point_units'' \<mapsto> PInt 4, ''target_cover_days'' \<mapsto> PInt 8, ''unit_cost_brl'' \<mapsto> PStr ''1.50'']]"

definition demo_plan :: "order_result res" where
  "demo_plan = calculate_replenishment demo_week demo_shelf demo_policy (to_ordinal 2026 1 4)
     (Some (to_ordinal 2025 12 26))"

lemma demo_plan_run:
  obtains r i where "demo_plan = Inr r" and "or_items r = [i]" and "ol_quantity i = Some 13"
    and "ol_priority i = ''soon''"
proof -
  have "case demo_plan of Inr r \<Rightarrow> (case or_items r of [i] \<Rightarrow> ol_quantity i = Some 13 \<and> ol_priority i = ''soon''
      | _ \<Rightarrow> False) | Inl _ \<Rightarrow> False" by code_simp
  then show thesis using that by (auto split: sum.splits list.splits)
qed



text \<open>
  the band and the urgency. A line is either blocked and has no numbers at all, or its
  demand band is ordered (0 \<open>\<le>\<close> low \<open>\<le>\<close> base \<open>\<le>\<close> high) around a positive base, and its priority says when
  to order: urgent exactly when the latest order day is not after the day of the report, which
  is the case whenever the stock is at or below the reorder point; soon exactly within the
  next seven days; planned otherwise.
\<close>

theorem replenishment_band_and_urgency:
  assumes "calculate_replenishment sales inventory policies as_of ps = Inr r" and "i \<in> set (or_items r)"
  shows "i = blocked_item (ol_sku i) \<or> (\<exists>low base high latest on_hand reorder.
      ol_low i = Some low \<and> ol_base i = Some base \<and> ol_high i = Some high \<and> ol_latest i = Some latest
      \<and> 0 \<le> low \<and> low \<le> base \<and> base \<le> high \<and> 0 < base
      \<and> (on_hand \<le> reorder \<longrightarrow> latest = as_of)
      \<and> (\<exists>s \<in> set inventory. \<exists>inbound. stock_levels s = Inr (on_hand, inbound))
      \<and> (\<exists>pol \<in> set policies. whole_units (row_get pol ''reorder_point_units'') ''reorder_point_units'' = Inr reorder)
      \<and> (ol_priority i = ''urgent'' \<longleftrightarrow> latest \<le> as_of)
      \<and> (ol_priority i = ''soon'' \<longleftrightarrow> as_of < latest \<and> latest \<le> as_of + 7)
      \<and> (ol_priority i = ''planned'' \<longleftrightarrow> as_of + 7 < latest))"
proof -
  obtain stock lm h pol sku row ev lm' where c: "\<not> period_invalid as_of ps"
    "latest_inventory as_of inventory [] = Inr (stock, lm)" "demand_of as_of ps sales = Inr h"
    "unique_by_sku ''policy'' policies = Inr pol" "(sku, row) \<in> set stock"
    "plan_sku as_of ps h pol (sku, row) = Inr (i, ev, lm')"
    using assms by (rule calculate_replenishment_cases)
  from c(6,3,1) show ?thesis
  proof (cases rule: plan_sku_cases)
    case blocked
    then show ?thesis by (simp add: blocked_item_def)
  next
    case (derived policy p lm')
    let ?h = "oi_on_hand p" and ?r = "oi_reorder p"
    obtain latest where o: "ol_low i = Some (oi_low p)" "ol_base i = Some (oi_base p)"
      "ol_high i = Some (oi_high p)" "ol_latest i = Some latest" "latest_order as_of p = Inr latest"
      "order_priority as_of latest = Inr (ol_priority i)"
      using order_item_cases [OF derived(4)] by blast
    have b: "0 \<le> oi_low p" "oi_low p \<le> oi_base p" "oi_base p \<le> oi_high p"
      using derived(3) by (simp_all add: inputs_ok_def)
    have l: "0 < oi_base p" "?h \<le> ?r \<longrightarrow> latest = as_of"
      using latest_order_facts [OF o(5)] b by auto
    have s: "\<exists>s \<in> set inventory. \<exists>inbound. stock_levels s = Inr (?h, inbound)"
      using latest_inventory_facts(2) [OF c(2,5)] read_inputs_stock [OF derived(2)] by blast
    have r: "\<exists>pol \<in> set policies. whole_units (row_get pol ''reorder_point_units'') ''reorder_point_units'' = Inr ?r"
      using unique_by_sku_rows [OF c(4)] map_of_SomeD [OF derived(1)] read_inputs_reorder [OF derived(2)] by blast
    show ?thesis
      using o(1-4) b l s r order_priority_facts [OF o(6)] by blast
  qed
qed

theorem replenishment_band_and_urgency_witness:
  "\<exists>r i. demo_plan = Inr r \<and> or_items r = [i] \<and> ol_priority i = ''soon''
    \<and> (\<exists>low base. ol_low i = Some low \<and> ol_base i = Some base \<and> low \<le> base)"
proof -
  obtain r i where d: "demo_plan = Inr r" "or_items r = [i]" "ol_priority i = ''soon''"
    by (rule demo_plan_run)
  then have "i \<in> set (or_items r)" by simp
  note b = replenishment_band_and_urgency [OF d(1) [unfolded demo_plan_def] this]
  have "i \<noteq> blocked_item (ol_sku i)"
  proof
    assume "i = blocked_item (ol_sku i)"
    then have "ol_priority i = ''blocked''" by (metis blocked_item_def order_line.select_convs(7))
    then show False using d(3) by simp
  qed
  with b d show ?thesis by blast
qed

end
