(* ===== verification/OperatingProfit.thy ===== *)
theory OperatingProfit
  imports Evidence
begin

text \<open>
  \<open>src/analysis/operating_profit_calculator.py\<close>: the eleven components are summed from their
  rows (\<open>read_parts\<close>), then net revenue, gross, contribution and operating profit are layered
  on each other (\<open>profit_layers\<close>); a layer is unknown when one of its inputs is. The inputs are
  a function from the role to its rows, with no rows for a role that is missing. The snapshot
  hash is left out.
\<close>

section \<open>Data\<close>

record profit_parts =
  pp_gross_sales :: "dec option"
  pp_discounts :: "dec option"
  pp_refunds :: "dec option"
  pp_cogs :: "dec option"
  pp_platform :: "dec option"
  pp_advertising :: "dec option"
  pp_fulfillment :: "dec option"
  pp_expense :: "dec option"
  pp_tax :: "dec option"
  pp_other :: "dec option"
  pp_fx :: "dec option"

record profit_layers =
  pl_net :: metric
  pl_gross :: metric
  pl_contribution :: metric
  pl_operating :: metric

record profit_result =
  pr_layers :: profit_layers
  pr_components :: "(string \<times> dec option) list"
  pr_evidence :: "evidence list"
  pr_limitations :: "string list"

type_synonym profit_inputs = "string \<Rightarrow> row list"

section \<open>Reading the components\<close>

definition note_once :: "string \<Rightarrow> string list \<Rightarrow> string list" where
  "note_once x lm = (if x \<in> set lm then lm else lm @ [x])"

definition money_some :: "dec \<Rightarrow> dec option res" where
  "money_some x = ebind (money x) (\<lambda>m. Inr (Some m))"

definition column_amount :: "string \<Rightarrow> row \<Rightarrow> dec res" where
  "column_amount field r = nonnegative_decimal (row_get r field) field"

text \<open>\<open>Decimal(str(value))\<close> without the checks of \<open>decimal_value\<close>: text that is no number raises
  \<open>InvalidOperation\<close>, a number that is not finite a \<open>ValueError\<close>.\<close>

definition signed_amount :: "string \<Rightarrow> row \<Rightarrow> dec res" where
  "signed_amount field r =
     (case row_get r field of
        PInt n \<Rightarrow> Inr (of_int n)
      | PDec x \<Rightarrow> Inr x
      | PNan \<Rightarrow> Inl (ValueError (field @ ''_invalid''))
      | PInf _ \<Rightarrow> Inl (ValueError (field @ ''_invalid''))
      | PStr s \<Rightarrow> (case parse_decimal s of
            Some (Finite x) \<Rightarrow> Inr x
          | Some NonFinite \<Rightarrow> Inl (ValueError (field @ ''_invalid''))
          | None \<Rightarrow> Inl InvalidOperation)
      | _ \<Rightarrow> Inl InvalidOperation)"

definition total_of :: "(string \<Rightarrow> row \<Rightarrow> dec res) \<Rightarrow> string \<Rightarrow> row list \<Rightarrow> dec option res" where
  "total_of amount field rows = ebind (emap (amount field) rows) (\<lambda>vs. money_some (dsum vs))"

definition column_sum :: "(string \<Rightarrow> row \<Rightarrow> dec res) \<Rightarrow> profit_inputs \<Rightarrow> string \<Rightarrow> string \<Rightarrow> string list
    \<Rightarrow> (dec option \<times> string list) res" where
  "column_sum amount inputs role field lm =
     (if inputs role = [] then Inr (None, note_once (role @ ''_missing'') lm)
      else if list_ex (\<lambda>r. row_missing r field) (inputs role)
      then Inr (None, lm @ [role @ ''.'' @ field @ ''_missing''])
      else ebind (total_of amount field (inputs role)) (\<lambda>v. Inr (v, lm)))"

definition column_sum_optional :: "profit_inputs \<Rightarrow> string \<Rightarrow> string \<Rightarrow> string list
    \<Rightarrow> (dec option \<times> string list) res" where
  "column_sum_optional inputs role field lm =
     (if inputs role = [] then Inr (Some 0, lm)
      else if list_ex (\<lambda>r. row_missing r field) (inputs role)
      then Inr (None, lm @ [role @ ''.'' @ field @ ''_missing''])
      else ebind (total_of column_amount field (inputs role)) (\<lambda>v. Inr (v, lm)))"

definition check_rate :: "row \<Rightarrow> unit res" where
  "check_rate r = ebind (nonnegative_decimal (row_get r ''brl_per_usd'') ''brl_per_usd'') (\<lambda>x.
     if x = 0 then Inl (ValueError ''brl_per_usd_zero'') else Inr ())"

definition read_parts :: "profit_inputs \<Rightarrow> (profit_parts \<times> string list) res" where
  "read_parts inputs =
     ebind (column_sum column_amount inputs ''daily_sales'' ''gross_sales_brl'' []) (\<lambda>(gross_sales, l1).
     ebind (column_sum column_amount inputs ''daily_sales'' ''discount_brl'' l1) (\<lambda>(discounts, l2).
     ebind (column_sum column_amount inputs ''refund'' ''refund_brl'' l2) (\<lambda>(refunds, l3).
     ebind (column_sum column_amount inputs ''fifo_cogs'' ''cogs_brl'' l3) (\<lambda>(cogs, l4).
     ebind (column_sum column_amount inputs ''settlement'' ''fee_brl'' l4) (\<lambda>(platform, l5).
     ebind (column_sum column_amount inputs ''shopee_advertising'' ''spend_brl'' l5) (\<lambda>(advertising, l6).
     ebind (column_sum column_amount inputs ''fulfillment_cost'' ''cost_brl'' l6) (\<lambda>(fulfillment, l7).
     ebind (column_sum column_amount inputs ''operating_expense'' ''amount_brl'' l7) (\<lambda>(expense, l8).
     ebind (column_sum_optional inputs ''tax'' ''tax_brl'' l8) (\<lambda>(tax, l9).
     ebind (column_sum column_amount inputs ''other_variable_cost'' ''cost_brl'' l9) (\<lambda>(other, l10).
     ebind (emap check_rate (inputs ''fx_assumption'')) (\<lambda>_.
     ebind (column_sum signed_amount inputs ''fx_effect'' ''effect_brl'' l10) (\<lambda>(fx, l11).
       Inr (\<lparr>pp_gross_sales = gross_sales, pp_discounts = discounts, pp_refunds = refunds,
              pp_cogs = cogs, pp_platform = platform, pp_advertising = advertising,
              pp_fulfillment = fulfillment, pp_expense = expense, pp_tax = tax, pp_other = other,
              pp_fx = fx\<rparr>,
            if fx = None then l11 @ [''fx_effect_unavailable_brl_only_inputs''] else l11)))))))))))))"

section \<open>The layers\<close>

definition known_part :: "dec option \<Rightarrow> dec" where
  "known_part v = (case v of None \<Rightarrow> 0 | Some x \<Rightarrow> x)"

definition layer_base :: "dec option \<Rightarrow> dec \<Rightarrow> dec" where
  "layer_base v k = (case v of None \<Rightarrow> k | Some x \<Rightarrow> x)"

definition layer_metric :: "dec option \<Rightarrow> dec \<Rightarrow> string \<Rightarrow> metric res" where
  "layer_metric v k ref = ebind (money k) (\<lambda>m.
     Inr (mk_metric v (if v \<noteq> None then Derived else Unknown) [ref] (if v \<noteq> None then v else Some m)))"

definition contribution_costs :: "profit_parts \<Rightarrow> dec option list" where
  "contribution_costs p = [pp_platform p, pp_advertising p, pp_fulfillment p, pp_tax p, pp_other p]"

definition known_values :: "dec option list \<Rightarrow> dec list" where
  "known_values vs = map the (filter (\<lambda>v. v \<noteq> None) vs)"

definition net_value :: "profit_parts \<Rightarrow> dec option res" where
  "net_value p = (case (pp_gross_sales p, pp_discounts p, pp_refunds p) of
     (Some g, Some d, Some r) \<Rightarrow> money_some (dsub (dsub g d) r) | _ \<Rightarrow> Inr None)"

definition gross_value :: "profit_parts \<Rightarrow> dec option \<Rightarrow> dec option res" where
  "gross_value p net = (case (net, pp_cogs p) of
     (Some n, Some c) \<Rightarrow> money_some (dsub n c) | _ \<Rightarrow> Inr None)"

definition contribution_value :: "profit_parts \<Rightarrow> dec option \<Rightarrow> dec option res" where
  "contribution_value p gross =
     (if gross \<noteq> None \<and> list_all (\<lambda>v. v \<noteq> None) (contribution_costs p) \<and> pp_fx p \<noteq> None
      then money_some (dadd (dsub (the gross) (dsum (map the (contribution_costs p)))) (the (pp_fx p)))
      else Inr None)"

definition operating_value :: "profit_parts \<Rightarrow> dec option \<Rightarrow> dec option res" where
  "operating_value p contribution = (case (contribution, pp_expense p) of
     (Some c, Some e) \<Rightarrow> money_some (dsub c e) | _ \<Rightarrow> Inr None)"

definition profit_layers :: "profit_parts \<Rightarrow> profit_layers res" where
  "profit_layers p =
     (let revenue_known = dsub (dsub (known_part (pp_gross_sales p)) (known_part (pp_discounts p)))
                            (known_part (pp_refunds p)) in
     ebind (net_value p) (\<lambda>nv.
     ebind (layer_metric nv revenue_known ''profit.net_revenue'') (\<lambda>net.
     let gross_known = dsub (layer_base nv revenue_known) (known_part (pp_cogs p)) in
     ebind (gross_value p nv) (\<lambda>gv.
     ebind (layer_metric gv gross_known ''profit.gross'') (\<lambda>gross.
     let contribution_known = dadd (dsub (layer_base gv gross_known)
           (dsum (known_values (contribution_costs p)))) (known_part (pp_fx p)) in
     ebind (contribution_value p gv) (\<lambda>cv.
     ebind (layer_metric cv contribution_known ''profit.contribution'') (\<lambda>contribution.
     let operating_known = dsub (layer_base cv contribution_known) (known_part (pp_expense p)) in
     ebind (operating_value p cv) (\<lambda>ov.
     ebind (layer_metric ov operating_known ''profit.operating'') (\<lambda>operating.
       Inr \<lparr>pl_net = net, pl_gross = gross, pl_contribution = contribution, pl_operating = operating\<rparr>)))))))))"

definition profit_components :: "profit_parts \<Rightarrow> (string \<times> dec option) list" where
  "profit_components p =
     [(''gross_sales'', pp_gross_sales p), (''discounts'', pp_discounts p), (''refunds'', pp_refunds p),
      (''cogs'', pp_cogs p), (''platform_fees'', pp_platform p), (''advertising'', pp_advertising p),
      (''fulfillment'', pp_fulfillment p), (''tax'', pp_tax p), (''other_mapped'', pp_other p),
      (''operating_expense'', pp_expense p), (''fx_effect'', pp_fx p)]"

definition profit_evidence :: "profit_parts \<Rightarrow> profit_layers \<Rightarrow> evidence list" where
  "profit_evidence p l =
     [mk_evidence ''profit.net_revenue'' (state_of (pl_net l)) ''gross-discounts-refunds''
        [''daily_sales'', ''refund''],
      mk_evidence ''profit.gross'' (state_of (pl_gross l)) ''net_revenue-fifo_cogs''
        [''daily_sales'', ''refund'', ''fifo_cogs''],
      mk_evidence ''profit.contribution'' (state_of (pl_contribution l))
        ''gross_profit-platform-advertising-fulfillment-tax-other_mapped+fx_effect''
        [''settlement'', ''shopee_advertising'', ''fulfillment_cost'', ''tax'', ''other_variable_cost'',
         ''fx_effect''],
      mk_evidence ''profit.operating'' (state_of (pl_operating l)) ''contribution_profit-operating_expense''
        [''operating_expense''],
      mk_evidence ''profit.other_mapped'' (if pp_other p \<noteq> None then Measured else Unknown)
        ''sum(other_variable_cost.cost_brl)'' [''other_variable_cost''],
      mk_evidence ''profit.fx_effect'' (if pp_fx p \<noteq> None then Measured else Unknown)
        (if pp_fx p \<noteq> None then ''sum(fx_effect.effect_brl)''
         else ''no explicit BRL FX effect is available'')
        [''fx_effect'', ''fx_assumption'']]"

definition calculate_operating_profit :: "profit_inputs \<Rightarrow> profit_result res" where
  "calculate_operating_profit inputs =
     ebind (read_parts inputs) (\<lambda>(p, lm).
     ebind (profit_layers p) (\<lambda>l.
       Inr \<lparr>pr_layers = l, pr_components = profit_components p,
            pr_evidence = profit_evidence p l, pr_limitations = lm\<rparr>))"

section \<open>Lemmas\<close>

text \<open>An amount in cents that leaves room for sums of a dozen of its kind.\<close>

definition fits :: "dec \<Rightarrow> bool" where
  "fits x \<longleftrightarrow> has_places 2 x \<and> \<bar>x\<bar> < 10 ^ 24"

definition part_fits :: "dec option \<Rightarrow> bool" where
  "part_fits v \<longleftrightarrow> (case v of None \<Rightarrow> True | Some x \<Rightarrow> \<bar>x\<bar> < 10 ^ 24)"

definition parts_list :: "profit_parts \<Rightarrow> dec option list" where
  "parts_list p = map snd (profit_components p)"

lemma money_some_eq: "money_some x = Inr v \<longleftrightarrow> (\<exists>m. money x = Inr m \<and> v = Some m)"
  by (auto simp: money_some_def ebind_eq_Inr)

lemma column_sum_places: "column_sum a inputs role field lm = Inr (Some x, lm') \<Longrightarrow> has_places 2 x"
  by (auto simp: column_sum_def total_of_def money_some_eq ebind_eq_Inr dest: money_places split: if_splits)

lemma column_sum_optional_places:
  "column_sum_optional inputs role field lm = Inr (Some x, lm') \<Longrightarrow> has_places 2 x"
  by (auto simp: column_sum_optional_def total_of_def money_some_eq ebind_eq_Inr dest: money_places split: if_splits)

lemmas part_places = column_sum_places column_sum_optional_places

lemma read_parts_places:
  assumes "read_parts inputs = Inr (p, lm)" and "Some x \<in> set (parts_list p)"
  shows "has_places 2 x"
  using assms(1) unfolding read_parts_def
  apply (elim ebind_eq_InrE)
  apply (clarsimp split: prod.splits elim!: ebind_eq_InrE)
  using assms(2) by (auto simp: parts_list_def profit_components_def dest: part_places)

lemma money_fits: "has_places 2 x \<Longrightarrow> \<bar>x\<bar> < 10 ^ 26 \<Longrightarrow> money_some x = Inr (Some x)"
  by (simp add: money_some_def money_exact)

lemma sub_fits:
  assumes "has_places 2 x" and "has_places 2 y" and "\<bar>x - y\<bar> < 10 ^ 26"
  shows "dsub x y = x - y" and "has_places 2 (x - y)"
  using assms by (auto intro!: dsub_exact [of 2] has_places_diff simp: prec_limit_def)

lemma add_fits:
  assumes "has_places 2 x" and "has_places 2 y" and "\<bar>x + y\<bar> < 10 ^ 26"
  shows "dadd x y = x + y" and "has_places 2 (x + y)"
  using assms by (auto intro!: dadd_exact [of 2] has_places_add simp: prec_limit_def)

lemma layer_metric_facts:
  assumes "layer_metric v k ref = Inr m"
  shows "value_of m = v" and "honest m" and "v \<noteq> None \<Longrightarrow> known_subtotal m = v" and "known_subtotal m \<noteq> None"
  using assms by (auto simp: layer_metric_def honest_def elim!: ebind_eq_InrE split: if_splits)

lemma profit_layers_cases:
  assumes "profit_layers p = Inr l"
  obtains nv gv cv ov where "net_value p = Inr nv" and "gross_value p nv = Inr gv"
    and "contribution_value p gv = Inr cv" and "operating_value p cv = Inr ov"
    and "value_of (pl_net l) = nv" and "value_of (pl_gross l) = gv"
    and "value_of (pl_contribution l) = cv" and "value_of (pl_operating l) = ov"
    and "\<forall>m \<in> {pl_net l, pl_gross l, pl_contribution l, pl_operating l}.
      honest m \<and> known_subtotal m \<noteq> None \<and> (value_of m \<noteq> None \<longrightarrow> known_subtotal m = value_of m)"
proof -
  obtain nv gv cv ov kn kg kc ko where v: "net_value p = Inr nv" "gross_value p nv = Inr gv"
    "contribution_value p gv = Inr cv" "operating_value p cv = Inr ov"
    and m: "layer_metric nv kn ''profit.net_revenue'' = Inr (pl_net l)"
      "layer_metric gv kg ''profit.gross'' = Inr (pl_gross l)"
      "layer_metric cv kc ''profit.contribution'' = Inr (pl_contribution l)"
      "layer_metric ov ko ''profit.operating'' = Inr (pl_operating l)"
    using assms unfolding profit_layers_def Let_def by (elim ebind_eq_InrE) auto
  show thesis
    using that [OF v] m [THEN layer_metric_facts(1)] m [THEN layer_metric_facts(2)]
      m [THEN layer_metric_facts(3)] m [THEN layer_metric_facts(4)] by simp
qed

lemma value_known:
  "net_value p = Inr nv \<Longrightarrow> nv \<noteq> None \<longleftrightarrow> pp_gross_sales p \<noteq> None \<and> pp_discounts p \<noteq> None \<and> pp_refunds p \<noteq> None"
  "gross_value p nv = Inr gv \<Longrightarrow> gv \<noteq> None \<longleftrightarrow> nv \<noteq> None \<and> pp_cogs p \<noteq> None"
  "contribution_value p gv = Inr cv \<Longrightarrow> cv \<noteq> None \<longleftrightarrow> gv \<noteq> None \<and> pp_fx p \<noteq> None
     \<and> (\<forall>v \<in> set (contribution_costs p). v \<noteq> None)"
  "operating_value p cv = Inr ov \<Longrightarrow> ov \<noteq> None \<longleftrightarrow> cv \<noteq> None \<and> pp_expense p \<noteq> None"
  by (auto simp: net_value_def gross_value_def contribution_value_def operating_value_def money_some_eq
      list_all_iff split: option.splits if_splits)

text \<open>With every part known and of moderate size, each layer is the exact difference.\<close>

lemma layers_exact:
  assumes "\<forall>v \<in> set (parts_list p). \<exists>x. v = Some x \<and> fits x"
  defines "net \<equiv> the (pp_gross_sales p) - the (pp_discounts p) - the (pp_refunds p)"
  defines "gross \<equiv> net - the (pp_cogs p)"
  defines "costs \<equiv> sum_list (map the (contribution_costs p))"
  defines "contribution \<equiv> gross - costs + the (pp_fx p)"
  shows "net_value p = Inr (Some net)" and "gross_value p (Some net) = Inr (Some gross)"
    and "contribution_value p (Some gross) = Inr (Some contribution)"
    and "operating_value p (Some contribution) = Inr (Some (contribution - the (pp_expense p)))"
proof -
  have "\<exists>g d r c pl ad fu tx ot ex fx. parts_list p = map Some [g, d, r, c, pl, ad, fu, tx, ot, ex, fx]
      \<and> list_all fits [g, d, r, c, pl, ad, fu, tx, ot, ex, fx]"
    using assms(1) by (auto simp: parts_list_def profit_components_def)
  then obtain g d r c pl ad fu tx ot ex fx
    where p: "pp_gross_sales p = Some g" "pp_discounts p = Some d" "pp_refunds p = Some r"
      "pp_cogs p = Some c" "pp_platform p = Some pl" "pp_advertising p = Some ad"
      "pp_fulfillment p = Some fu" "pp_tax p = Some tx" "pp_other p = Some ot"
      "pp_expense p = Some ex" "pp_fx p = Some fx"
    and f: "fits g" "fits d" "fits r" "fits c" "fits pl" "fits ad" "fits fu" "fits tx" "fits ot" "fits ex" "fits fx"
    by (auto simp: parts_list_def profit_components_def)
  note pl = f [unfolded fits_def, THEN conjunct1]
  note b = f [unfolded fits_def, THEN conjunct2]
  have bd: "\<bar>g - d\<bar> < 10 ^ 26" "\<bar>g - d - r\<bar> < 10 ^ 26" "\<bar>g - d - r - c\<bar> < 10 ^ 26"
    using b(1-4) by simp_all
  note n1 = sub_fits [OF pl(1,2) bd(1)]
  note n2 = sub_fits [OF n1(2) pl(3) bd(2)]
  show "net_value p = Inr (Some net)"
    using n1 n2 bd by (simp add: net_value_def p net_def money_fits)
  note n3 = sub_fits [OF n2(2) pl(4) bd(3)]
  show "gross_value p (Some net) = Inr (Some gross)"
    using n3 bd by (simp add: gross_value_def p net_def gross_def money_fits)
  let ?cs = "[pl, ad, fu, tx, ot]"
  have cs: "\<And>x. x \<in> set ?cs \<Longrightarrow> has_places 2 x" using pl by auto
  have "sum_list (map abs ?cs) < 10 ^ 25" using b(5-9) by simp
  then have s: "dsum ?cs = sum_list ?cs" by (intro dsum_exact [OF cs]) (simp_all add: prec_limit_def)
  have sp: "has_places 2 (sum_list ?cs)" using cs by (rule has_places_sum_list)
  have b0: "\<bar>g - d - r - c\<bar> < 4 * 10 ^ 24" "\<bar>sum_list ?cs\<bar> < 5 * 10 ^ 24"
    using abs_diff_less [OF abs_diff_less [OF abs_diff_less [OF b(1,2)] b(3)] b(4)]
      abs_add_less [OF b(5) abs_add_less [OF b(6) abs_add_less [OF b(7) abs_add_less [OF b(8,9)]]]] by simp_all
  note b1 = abs_diff_less [OF b0]
  have bs: "\<bar>(g - d - r - c) - sum_list ?cs\<bar> < 10 ^ 26" using b1 by simp
  note n4 = sub_fits [OF n3(2) sp bs]
  have bf: "\<bar>(g - d - r - c) - sum_list ?cs + fx\<bar> < 10 ^ 26"
    using abs_add_less [OF b1 b(11)] by simp
  note n5 = add_fits [OF n4(2) pl(11) bf]
  show "contribution_value p (Some gross) = Inr (Some contribution)"
    using n4 n5 s bf money_fits [OF n5(2) bf]
    by (simp add: contribution_value_def contribution_costs_def p net_def gross_def costs_def
        contribution_def)
  have be: "\<bar>(g - d - r - c) - sum_list ?cs + fx - ex\<bar> < 10 ^ 26"
    using abs_diff_less [OF abs_add_less [OF b1 b(11)] b(10)] by simp
  note n6 = sub_fits [OF n5(2) pl(10) be]
  show "operating_value p (Some contribution) = Inr (Some (contribution - the (pp_expense p)))"
    using n6 money_fits [OF n6(2) be]
    by (simp add: operating_value_def contribution_costs_def p net_def gross_def costs_def contribution_def)
qed

section \<open>Properties\<close>

definition demo_inputs :: profit_inputs where
  "demo_inputs = (\<lambda>_. [])(
     ''daily_sales'' := [[''gross_sales_brl'' \<mapsto> PStr ''100.00'', ''discount_brl'' \<mapsto> PInt 10]],
     ''refund'' := [[''refund_brl'' \<mapsto> PInt 5]],
     ''fifo_cogs'' := [[''cogs_brl'' \<mapsto> PStr ''40.00'']],
     ''settlement'' := [[''fee_brl'' \<mapsto> PInt 8]],
     ''shopee_advertising'' := [[''spend_brl'' \<mapsto> PInt 4]],
     ''fulfillment_cost'' := [[''cost_brl'' \<mapsto> PInt 3]],
     ''operating_expense'' := [[''amount_brl'' \<mapsto> PInt 6]],
     ''other_variable_cost'' := [[''cost_brl'' \<mapsto> PInt 1]],
     ''fx_assumption'' := [[''brl_per_usd'' \<mapsto> PStr ''5.1'']],
     ''fx_effect'' := [[''effect_brl'' \<mapsto> PStr ''-2.00'']])"

definition demo_parts :: profit_parts where
  "demo_parts = \<lparr>pp_gross_sales = Some 100, pp_discounts = Some 10, pp_refunds = Some 5, pp_cogs = Some 40,
     pp_platform = Some 8, pp_advertising = Some 4, pp_fulfillment = Some 3, pp_expense = Some 6,
     pp_tax = Some 0, pp_other = Some 1, pp_fx = Some (- 2)\<rparr>"

lemma demo_profit_run:
  obtains r where "calculate_operating_profit demo_inputs = Inr r" and "read_parts demo_inputs = Inr (demo_parts, [])"
proof -
  have p: "read_parts demo_inputs = Inr (demo_parts, [])" by code_simp
  have "is_ok (profit_layers demo_parts)" by code_simp
  then show thesis using that p
    by (auto simp: is_ok_def calculate_operating_profit_def split: sum.splits)
qed

text \<open>
  C30: the layers are exact. When all eleven components are known and below 10^24 in size,
  net revenue is gross sales less discounts and refunds, gross profit is that less the cost of
  goods, contribution is that less the five contribution costs plus the currency effect, and
  operating profit is that less the operating expense, to the cent and without any rounding.
\<close>

theorem profit_layers_exact:
  assumes "calculate_operating_profit inputs = Inr r" and "read_parts inputs = Inr (p, lm)"
    and "\<forall>c \<in> set (pr_components r). \<exists>x. snd c = Some x \<and> \<bar>x\<bar> < 10 ^ 24"
  defines "net \<equiv> the (pp_gross_sales p) - the (pp_discounts p) - the (pp_refunds p)"
  defines "gross \<equiv> net - the (pp_cogs p)"
  defines "contribution \<equiv> gross - the (pp_platform p) - the (pp_advertising p) - the (pp_fulfillment p)
             - the (pp_tax p) - the (pp_other p) + the (pp_fx p)"
  shows "value_of (pl_net (pr_layers r)) = Some net \<and> value_of (pl_gross (pr_layers r)) = Some gross
    \<and> value_of (pl_contribution (pr_layers r)) = Some contribution
    \<and> value_of (pl_operating (pr_layers r)) = Some (contribution - the (pp_expense p))"
proof -
  have l: "profit_layers p = Inr (pr_layers r)" "pr_components r = profit_components p"
    using assms(1,2) by (auto simp: calculate_operating_profit_def elim!: ebind_eq_InrE)
  have "\<exists>x. v = Some x \<and> fits x" if "v \<in> set (parts_list p)" for v
  proof -
    from that assms(3) l(2) obtain x where "v = Some x" "\<bar>x\<bar> < 10 ^ 24"
      by (auto simp: parts_list_def)
    then show ?thesis using read_parts_places [OF assms(2)] that by (auto simp: fits_def)
  qed
  then have a: "\<forall>v \<in> set (parts_list p). \<exists>x. v = Some x \<and> fits x" by blast
  obtain nv gv cv ov where v: "net_value p = Inr nv" "gross_value p nv = Inr gv"
    "contribution_value p gv = Inr cv" "operating_value p cv = Inr ov"
    "value_of (pl_net (pr_layers r)) = nv" "value_of (pl_gross (pr_layers r)) = gv"
    "value_of (pl_contribution (pr_layers r)) = cv" "value_of (pl_operating (pr_layers r)) = ov"
    using l(1) by (rule profit_layers_cases) blast
  have c: "contribution = gross - sum_list (map the (contribution_costs p)) + the (pp_fx p)"
    by (simp add: contribution_def contribution_costs_def)
  show ?thesis
    using v layers_exact [OF a] by (simp add: net_def gross_def c)
qed

theorem profit_layers_exact_witness:
  "\<exists>r. calculate_operating_profit demo_inputs = Inr r
    \<and> value_of (pl_operating (pr_layers r)) = Some (85 - 40 - 8 - 4 - 3 - 0 - 1 + (- 2) - 6)"
proof -
  obtain r where d: "calculate_operating_profit demo_inputs = Inr r" "read_parts demo_inputs = Inr (demo_parts, [])"
    by (rule demo_profit_run)
  have "pr_components r = profit_components demo_parts"
    using d by (auto simp: calculate_operating_profit_def elim!: ebind_eq_InrE)
  then have "\<forall>c \<in> set (pr_components r). \<exists>x. snd c = Some x \<and> \<bar>x\<bar> < 10 ^ 24"
    by (simp add: profit_components_def demo_parts_def)
  from profit_layers_exact [OF d this] d(1) show ?thesis by (simp add: demo_parts_def)
qed

text \<open>
  The unknown propagates and nothing else does. Each layer has a value exactly when the
  layer below and its own components do; so operating profit is known exactly when all eleven
  components are. Every layer states its subtotal of what is known, which is the value itself
  when there is one, and is marked unknown exactly when it has no value.
\<close>

theorem profit_unknown_propagates:
  assumes "calculate_operating_profit inputs = Inr r" and "read_parts inputs = Inr (p, lm)"
  shows "(value_of (pl_net (pr_layers r)) \<noteq> None \<longleftrightarrow>
        pp_gross_sales p \<noteq> None \<and> pp_discounts p \<noteq> None \<and> pp_refunds p \<noteq> None)
    \<and> (value_of (pl_gross (pr_layers r)) \<noteq> None \<longleftrightarrow>
        value_of (pl_net (pr_layers r)) \<noteq> None \<and> pp_cogs p \<noteq> None)
    \<and> (value_of (pl_operating (pr_layers r)) \<noteq> None \<longleftrightarrow> (\<forall>c \<in> set (pr_components r). snd c \<noteq> None))
    \<and> (\<forall>m \<in> {pl_net (pr_layers r), pl_gross (pr_layers r), pl_contribution (pr_layers r), pl_operating (pr_layers r)}.
        honest m \<and> known_subtotal m \<noteq> None \<and> (value_of m \<noteq> None \<longrightarrow> known_subtotal m = value_of m))"
proof -
  have l: "profit_layers p = Inr (pr_layers r)" "pr_components r = profit_components p"
    using assms by (auto simp: calculate_operating_profit_def elim!: ebind_eq_InrE)
  from l(1) show ?thesis
  proof (rule profit_layers_cases)
    fix nv gv cv ov
    assume v: "net_value p = Inr nv" "gross_value p nv = Inr gv" "contribution_value p gv = Inr cv"
      "operating_value p cv = Inr ov"
    note k = value_known(1) [OF v(1)] value_known(2) [OF v(2)] value_known(3) [OF v(3)] value_known(4) [OF v(4)]
    assume w: "value_of (pl_net (pr_layers r)) = nv" "value_of (pl_gross (pr_layers r)) = gv"
      "value_of (pl_contribution (pr_layers r)) = cv" "value_of (pl_operating (pr_layers r)) = ov"
      and m: "\<forall>m \<in> {pl_net (pr_layers r), pl_gross (pr_layers r), pl_contribution (pr_layers r),
        pl_operating (pr_layers r)}. honest m \<and> known_subtotal m \<noteq> None
          \<and> (value_of m \<noteq> None \<longrightarrow> known_subtotal m = value_of m)"
    have "ov \<noteq> None \<longleftrightarrow> (\<forall>c \<in> set (pr_components r). snd c \<noteq> None)"
      using k unfolding l(2) by (simp add: profit_components_def contribution_costs_def) blast
    then show ?thesis using k(1,2) m unfolding w by (intro conjI)
  qed
qed

theorem profit_unknown_propagates_witness:
  "\<exists>r. calculate_operating_profit demo_inputs = Inr r
    \<and> value_of (pl_net (pr_layers r)) \<noteq> None \<and> honest (pl_operating (pr_layers r))"
proof -
  obtain r where d: "calculate_operating_profit demo_inputs = Inr r" "read_parts demo_inputs = Inr (demo_parts, [])"
    by (rule demo_profit_run)
  from profit_unknown_propagates [OF d] d(1) show ?thesis by (auto simp: demo_parts_def)
qed

end
