(* ===== verification/ProfitBridge.thy ===== *)
theory ProfitBridge
  imports Evidence
begin

text \<open>
  \<open>src/profit/contracts.py\<close> and \<open>src/profit/bridge.py\<close>: two periods are compared by splitting
  the change of the contribution profit into eleven drivers and a residual. SKUs are aligned
  first (\<open>align_sku\<close>: a new SKU borrows the nearest baseline, a discontinued one its own), then
  the drivers are computed on the aligned pairs.
\<close>

section \<open>Contracts\<close>

record profit_sku =
  sk_id :: string
  sk_quantity :: int
  sk_revenue :: "dec option"
  sk_cogs :: "dec option"

record profit_period =
  pd_start :: date
  pd_end :: date
  pd_skus :: "profit_sku list"
  pd_contribution :: "dec option"
  pd_platform :: "dec option"
  pd_advertising :: "dec option"
  pd_refund :: "dec option"
  pd_fulfillment :: "dec option"
  pd_tax :: "dec option"
  pd_fx :: "dec option"
  pd_other :: "dec option"

text \<open>The drivers in the order of \<open>DRIVER_ORDER\<close>.\<close>

datatype driver = Volume | PriceDiscount | Mix | Advertising | Refunds | Fulfillment
  | PlatformFees | CogsChange | FxChange | TaxChange | OtherMapped | Residual

definition driver_order :: "driver list" where
  "driver_order = [Volume, PriceDiscount, Mix, Advertising, Refunds, Fulfillment, PlatformFees,
     CogsChange, FxChange, TaxChange, OtherMapped, Residual]"

fun driver_rank :: "driver \<Rightarrow> int" where
  "driver_rank Volume = 1"
| "driver_rank PriceDiscount = 2"
| "driver_rank Mix = 3"
| "driver_rank Advertising = 4"
| "driver_rank Refunds = 5"
| "driver_rank Fulfillment = 6"
| "driver_rank PlatformFees = 7"
| "driver_rank CogsChange = 8"
| "driver_rank FxChange = 9"
| "driver_rank TaxChange = 10"
| "driver_rank OtherMapped = 11"
| "driver_rank Residual = 12"

lemma driver_rank_inj: "driver_rank d = driver_rank e \<Longrightarrow> d = e"
  by (cases d; cases e) simp_all

instantiation driver :: linorder
begin

definition less_eq_driver :: "driver \<Rightarrow> driver \<Rightarrow> bool" where
  "less_eq_driver d e \<longleftrightarrow> driver_rank d \<le> driver_rank e"

definition less_driver :: "driver \<Rightarrow> driver \<Rightarrow> bool" where
  "less_driver d e \<longleftrightarrow> driver_rank d < driver_rank e"

instance
  by standard (auto simp: less_eq_driver_def less_driver_def dest: driver_rank_inj)

end

record bridge_item =
  bi_driver :: driver
  bi_ordinal :: int
  bi_amount :: "dec option"
  bi_state :: evidence_state
  bi_formula :: string
  bi_refs :: "string list"

record profit_bridge =
  pb_baseline :: "date \<times> date"
  pb_current :: "date \<times> date"
  pb_baseline_contribution :: "dec option"
  pb_current_contribution :: "dec option"
  pb_total :: "dec option"
  pb_items :: "bridge_item list"
  pb_residual :: "dec option"
  pb_reconciled :: bool
  pb_limitations :: "string list"

text \<open>\<open>__post_init__\<close> of the contracts.\<close>

definition check_amount :: "bool \<Rightarrow> dec option \<Rightarrow> string \<Rightarrow> unit res" where
  "check_amount nonnegative v code =
     (case v of None \<Rightarrow> Inr ()
      | Some x \<Rightarrow> if nonnegative \<and> x < 0 then Inl (ValueError code) else Inr ())"

definition check_sku :: "profit_sku \<Rightarrow> unit res" where
  "check_sku s =
     ebind (ensure (strip (sk_id s) \<noteq> []) (ValueError ''profit_sku_id_invalid'')) (\<lambda>_.
     ebind (ensure (0 \<le> sk_quantity s) (ValueError ''profit_sku_quantity_invalid'')) (\<lambda>_.
     ebind (check_amount True (sk_revenue s) ''profit_sku_net_unit_revenue_invalid'') (\<lambda>_.
       check_amount True (sk_cogs s) ''profit_sku_unit_cogs_invalid'')))"

definition check_period :: "profit_period \<Rightarrow> unit res" where
  "check_period p =
     ebind (ensure (pd_start p \<le> pd_end p) (ValueError ''profit_period_invalid'')) (\<lambda>_.
     ebind (ensure (distinct (map sk_id (pd_skus p))) (ValueError ''profit_period_sku_duplicate'')) (\<lambda>_.
     ebind (check_amount False (pd_contribution p) ''profit_contribution_invalid'') (\<lambda>_.
     ebind (check_amount True (pd_platform p) ''platform_fee_brl_invalid'') (\<lambda>_.
     ebind (check_amount True (pd_advertising p) ''advertising_brl_invalid'') (\<lambda>_.
     ebind (check_amount True (pd_refund p) ''refund_loss_brl_invalid'') (\<lambda>_.
     ebind (check_amount True (pd_fulfillment p) ''fulfillment_brl_invalid'') (\<lambda>_.
     ebind (check_amount True (pd_tax p) ''tax_brl_invalid'') (\<lambda>_.
     ebind (check_amount True (pd_other p) ''other_mapped_brl_invalid'') (\<lambda>_.
       check_amount False (pd_fx p) ''fx_effect_brl_invalid'')))))))))"

section \<open>Comparable periods\<close>

definition money_up :: "dec \<Rightarrow> dec res" where
  "money_up x = quantize HalfUp 2 x"

definition is_complete_month :: "date \<Rightarrow> date \<Rightarrow> bool res" where
  "is_complete_month s e =
     (if ord_day s \<noteq> 1 then Inr False
      else ebind (if ord_month s = 12 then mk_date (ord_year s + 1) 1 1
                  else mk_date (ord_year s) (ord_month s + 1) 1) (\<lambda>next_month.
           ebind (add_days next_month (- 1)) (\<lambda>last_day. Inr (e = last_day))))"

definition complete_months :: "profit_period \<Rightarrow> profit_period \<Rightarrow> bool res" where
  "complete_months current baseline =
     ebind (is_complete_month (pd_start current) (pd_end current)) (\<lambda>c.
       if c then is_complete_month (pd_start baseline) (pd_end baseline) else Inr False)"

definition check_periods :: "profit_period \<Rightarrow> profit_period \<Rightarrow> unit res" where
  "check_periods current baseline =
     ebind (complete_months current baseline) (\<lambda>months.
       if (pd_end current - pd_start current + 1 \<noteq> pd_end baseline - pd_start baseline + 1 \<and> \<not> months)
          \<or> pd_start current \<le> pd_end baseline
       then Inl (ValueError ''profit_bridge_periods_invalid'') else Inr ())"

section \<open>Alignment\<close>

definition sku_table :: "profit_sku list \<Rightarrow> string \<Rightarrow> profit_sku option" where
  "sku_table ss = map_of (rev (map (\<lambda>s. (sk_id s, s)) ss))"

definition is_complete :: "profit_sku \<Rightarrow> bool" where
  "is_complete s \<longleftrightarrow> sk_revenue s \<noteq> None \<and> sk_cogs s \<noteq> None"

definition distance_key :: "dec \<Rightarrow> profit_sku \<Rightarrow> dec \<times> string" where
  "distance_key r s = (dabs (dsub (the (sk_revenue s)) r), sk_id s)"

definition nearest_baseline :: "profit_sku \<Rightarrow> profit_sku list \<Rightarrow> profit_sku option" where
  "nearest_baseline current candidates =
     (case sk_revenue current of None \<Rightarrow> None | Some r \<Rightarrow> min_key (distance_key r) candidates)"

record aligned_pair =
  ap_base :: profit_sku
  ap_current :: profit_sku
  ap_assumed :: bool
  ap_limits :: "string list"

definition empty_sku :: "string \<Rightarrow> dec option \<Rightarrow> dec option \<Rightarrow> profit_sku" where
  "empty_sku i r c = \<lparr>sk_id = i, sk_quantity = 0, sk_revenue = r, sk_cogs = c\<rparr>"

definition align_sku :: "profit_sku list \<Rightarrow> profit_sku option \<Rightarrow> profit_sku option \<Rightarrow> string
    \<Rightarrow> aligned_pair res" where
  "align_sku complete_baselines base current i =
     (case (base, current) of
        (Some b, Some c) \<Rightarrow> Inr \<lparr>ap_base = b, ap_current = c, ap_assumed = False, ap_limits = []\<rparr>
      | (None, Some c) \<Rightarrow>
          (case nearest_baseline c complete_baselines of
             None \<Rightarrow> Inr \<lparr>ap_base = empty_sku i None None, ap_current = c, ap_assumed = False,
                          ap_limits = [''new_sku_baseline_missing:'' @ i]\<rparr>
           | Some r \<Rightarrow> Inr \<lparr>ap_base = empty_sku i (sk_revenue r) (sk_cogs r), ap_current = c,
                ap_assumed = True, ap_limits = [''new_sku_baseline_assumption:'' @ i @ '':'' @ sk_id r]\<rparr>)
      | (Some b, None) \<Rightarrow> Inr \<lparr>ap_base = b, ap_current = empty_sku i (sk_revenue b) (sk_cogs b),
           ap_assumed = True, ap_limits = [''discontinued_sku_current_assumption:'' @ i]\<rparr>
      | (None, None) \<Rightarrow> Inl (AssertionError ''aligned_sku_missing''))"

definition sku_ids :: "profit_sku list \<Rightarrow> profit_sku list \<Rightarrow> string list" where
  "sku_ids base current = sort (remdups (map sk_id base @ map sk_id current))"

definition align :: "profit_sku list \<Rightarrow> profit_sku list \<Rightarrow> aligned_pair list res" where
  "align base current =
     emap (\<lambda>i. align_sku (filter is_complete base) (sku_table base i) (sku_table current i) i)
       (sku_ids base current)"

section \<open>Volume and mix\<close>

definition base_margin :: "aligned_pair \<Rightarrow> dec option" where
  "base_margin a = (case (sk_revenue (ap_base a), sk_cogs (ap_base a)) of
     (Some r, Some c) \<Rightarrow> Some (dsub r c) | _ \<Rightarrow> None)"

definition base_quantity :: "aligned_pair \<Rightarrow> int" where
  "base_quantity a = sk_quantity (ap_base a)"

definition current_quantity :: "aligned_pair \<Rightarrow> int" where
  "current_quantity a = sk_quantity (ap_current a)"

definition weighted_pairs :: "aligned_pair list \<Rightarrow> (int \<times> dec) list" where
  "weighted_pairs as = map (\<lambda>a. (base_quantity a, the (base_margin a)))
     (filter (\<lambda>a. base_margin a \<noteq> None \<and> 0 < base_quantity a) as)"

definition weighted_margin :: "aligned_pair list \<Rightarrow> dec option res" where
  "weighted_margin as =
     (let q0 = sum_list (map base_quantity as); ws = weighted_pairs as
      in if 0 < q0 \<and> sum_list (map fst ws) = q0
         then ebind (ddiv (dsum (map (\<lambda>p. dmul (of_int (fst p)) (snd p)) ws)) (of_int q0)) (\<lambda>w. Inr (Some w))
         else Inr None)"

text \<open>The margin of every pair is looked up, also of those whose quantity did not change.\<close>

definition mix_term :: "dec \<Rightarrow> aligned_pair \<Rightarrow> dec res" where
  "mix_term w a = (case base_margin a of
     None \<Rightarrow> Inl (KeyError (sk_id (ap_base a)))
   | Some m \<Rightarrow> Inr (dmul (of_int (current_quantity a - base_quantity a)) (dsub m w)))"

definition quantity_change :: "aligned_pair list \<Rightarrow> int" where
  "quantity_change as = sum_list (map current_quantity as) - sum_list (map base_quantity as)"

definition volume_and_mix :: "aligned_pair list \<Rightarrow> (dec option \<times> dec option) res" where
  "volume_and_mix as =
     ebind (weighted_margin as) (\<lambda>w.
       case w of None \<Rightarrow> Inr (None, None)
       | Some w \<Rightarrow>
         if list_ex (\<lambda>a. base_quantity a \<noteq> current_quantity a \<and> base_margin a = None) as then Inr (None, None)
         else ebind (money_up (dmul (of_int (quantity_change as)) w)) (\<lambda>volume.
              ebind (emap (mix_term w) as) (\<lambda>ts.
              ebind (money_up (dsum ts)) (\<lambda>mix. Inr (Some volume, Some mix)))))"

section \<open>The other drivers\<close>

text \<open>\<open>_sku_change\<close>: \<open>None\<close> when a SKU that sold lacks one of the two values.\<close>

fun sku_total :: "(profit_sku \<Rightarrow> dec option) \<Rightarrow> aligned_pair list \<Rightarrow> dec \<Rightarrow> dec option" where
  "sku_total f [] t = Some t"
| "sku_total f (a # as) t =
     (if current_quantity a = 0 then sku_total f as t
      else case (f (ap_current a), f (ap_base a)) of
        (Some c, Some b) \<Rightarrow> sku_total f as (dadd t (dmul (of_int (current_quantity a)) (dsub c b)))
      | _ \<Rightarrow> None)"

definition sku_change :: "(profit_sku \<Rightarrow> dec option) \<Rightarrow> dec \<Rightarrow> aligned_pair list \<Rightarrow> dec option res" where
  "sku_change f sign as = (case sku_total f as 0 of None \<Rightarrow> Inr None
     | Some t \<Rightarrow> ebind (money_up (dmul sign t)) (\<lambda>m. Inr (Some m)))"

definition signed_change :: "dec option \<Rightarrow> dec option \<Rightarrow> dec option res" where
  "signed_change current baseline = (case (current, baseline) of
     (Some c, Some b) \<Rightarrow> ebind (money_up (dsub c b)) (\<lambda>m. Inr (Some m)) | _ \<Rightarrow> Inr None)"

definition cost_change :: "dec option \<Rightarrow> dec option \<Rightarrow> dec option res" where
  "cost_change current baseline = ebind (signed_change current baseline) (\<lambda>v.
     case v of None \<Rightarrow> Inr None | Some x \<Rightarrow> ebind (money_up (dneg x)) (\<lambda>m. Inr (Some m)))"

text \<open>The values of the eleven drivers, in the order of the code's dictionary (it is the order of
  \<open>driver_order\<close> without the residual).\<close>

definition driver_values :: "profit_period \<Rightarrow> profit_period \<Rightarrow> aligned_pair list
    \<Rightarrow> (driver \<times> dec option) list res" where
  "driver_values current baseline as =
     ebind (volume_and_mix as) (\<lambda>(volume, mix).
     ebind (sku_change sk_revenue 1 as) (\<lambda>price.
     ebind (sku_change sk_cogs (- 1) as) (\<lambda>cogs.
     ebind (cost_change (pd_advertising current) (pd_advertising baseline)) (\<lambda>advertising.
     ebind (cost_change (pd_refund current) (pd_refund baseline)) (\<lambda>refunds.
     ebind (cost_change (pd_fulfillment current) (pd_fulfillment baseline)) (\<lambda>fulfillment.
     ebind (cost_change (pd_platform current) (pd_platform baseline)) (\<lambda>platform.
     ebind (signed_change (pd_fx current) (pd_fx baseline)) (\<lambda>fx.
     ebind (cost_change (pd_tax current) (pd_tax baseline)) (\<lambda>tax.
     ebind (cost_change (pd_other current) (pd_other baseline)) (\<lambda>other.
       Inr [(Volume, volume), (PriceDiscount, price), (Mix, mix), (Advertising, advertising),
            (Refunds, refunds), (Fulfillment, fulfillment), (PlatformFees, platform),
            (CogsChange, cogs), (FxChange, fx), (TaxChange, tax), (OtherMapped, other)]))))))))))"

section \<open>The bridge\<close>

definition value_at :: "(driver \<times> dec option) list \<Rightarrow> driver \<Rightarrow> dec option" where
  "value_at vs d = lookup_or None vs d"

definition known_drivers :: "(driver \<times> dec option) list \<Rightarrow> dec list" where
  "known_drivers vs = map the (filter (\<lambda>v. v \<noteq> None) (map snd vs))"

definition unknown_driver :: "(driver \<times> dec option) list \<Rightarrow> bool" where
  "unknown_driver vs = list_ex (\<lambda>p. snd p = None) vs"

definition missing_note :: "(driver \<times> dec option) list \<Rightarrow> driver \<Rightarrow> string \<Rightarrow> string list" where
  "missing_note vs d note = (if value_at vs d = None then [note] else [])"

definition driver_notes :: "(driver \<times> dec option) list \<Rightarrow> string list" where
  "driver_notes vs =
     (if value_at vs Volume = None then [''volume_inputs_missing'', ''mix_inputs_missing''] else [])
     @ missing_note vs PriceDiscount ''price_discount_inputs_missing''
     @ missing_note vs CogsChange ''cogs_inputs_missing''
     @ missing_note vs Advertising ''advertising_missing''
     @ missing_note vs Refunds ''refund_loss_missing''
     @ missing_note vs Fulfillment ''fulfillment_missing''
     @ missing_note vs PlatformFees ''platform_fee_missing''
     @ missing_note vs FxChange ''fx_effect_missing''
     @ missing_note vs TaxChange ''tax_missing''
     @ missing_note vs OtherMapped ''other_mapped_missing''"

definition item_state :: "bool \<Rightarrow> (driver \<times> dec option) list \<Rightarrow> dec option \<Rightarrow> driver \<Rightarrow> evidence_state" where
  "item_state assumed vs change d =
     (if d = Residual then (if change = None \<or> unknown_driver vs then Unknown else Derived)
      else if value_at vs d = None then Unknown
      else if assumed \<and> d \<in> {Volume, PriceDiscount, Mix, CogsChange} then Assumed
      else Derived)"

fun driver_formula :: "driver \<Rightarrow> string" where
  "driver_formula Volume = ''(Q1-Q0)*baseline_weighted_mean_margin''"
| "driver_formula PriceDiscount = ''sum(q1_s*(net_unit_revenue1_s-net_unit_revenue0_s))''"
| "driver_formula Mix = ''sum((q1_s-q0_s)*(baseline_margin_s-baseline_weighted_mean_margin))''"
| "driver_formula Advertising = ''-(advertising1-advertising0)''"
| "driver_formula Refunds = ''-(refund_loss1-refund_loss0)''"
| "driver_formula Fulfillment = ''-(fulfillment1-fulfillment0)''"
| "driver_formula PlatformFees = ''-(platform_fee1-platform_fee0)''"
| "driver_formula CogsChange = ''-sum(q1_s*(unit_cogs1_s-unit_cogs0_s))''"
| "driver_formula FxChange = ''fx_effect1-fx_effect0''"
| "driver_formula TaxChange = ''-(tax1-tax0)''"
| "driver_formula OtherMapped = ''-(other_variable_cost1-other_variable_cost0)''"
| "driver_formula Residual = ''total_contribution_profit_change-sum(known_drivers)''"

fun driver_refs :: "driver \<Rightarrow> string list" where
  "driver_refs Volume = [''daily_sales'', ''inventory_receipt_lot'', ''outbound_event'']"
| "driver_refs PriceDiscount = [''daily_sales'']"
| "driver_refs Mix = [''daily_sales'', ''inventory_receipt_lot'', ''outbound_event'']"
| "driver_refs Advertising = [''shopee_advertising'']"
| "driver_refs Refunds = [''refund'']"
| "driver_refs Fulfillment = [''fulfillment_cost'']"
| "driver_refs PlatformFees = [''settlement'']"
| "driver_refs CogsChange = [''inventory_receipt_lot'', ''outbound_event'']"
| "driver_refs FxChange = [''fx_effect'']"
| "driver_refs TaxChange = [''tax'']"
| "driver_refs OtherMapped = [''other_variable_cost'']"
| "driver_refs Residual = [''operating_profit'']"

definition bridge_items :: "bool \<Rightarrow> (driver \<times> dec option) list \<Rightarrow> dec option \<Rightarrow> dec option
    \<Rightarrow> bridge_item list" where
  "bridge_items assumed vs change residual =
     map (\<lambda>(n, d). \<lparr>bi_driver = d, bi_ordinal = n,
            bi_amount = (if d = Residual then residual else value_at vs d),
            bi_state = item_state assumed vs change d,
            bi_formula = driver_formula d, bi_refs = driver_refs d\<rparr>)
       (zip (map int (upt 1 13)) driver_order)"

definition residual_of :: "dec option \<Rightarrow> (driver \<times> dec option) list \<Rightarrow> dec option res" where
  "residual_of change vs = (case change of None \<Rightarrow> Inr None
     | Some t \<Rightarrow> ebind (money_up (dsub t (dsum (known_drivers vs)))) (\<lambda>r. Inr (Some r)))"

definition is_reconciled :: "dec option \<Rightarrow> (driver \<times> dec option) list \<Rightarrow> dec option \<Rightarrow> dec \<Rightarrow> bool" where
  "is_reconciled change vs residual tolerance \<longleftrightarrow> change \<noteq> None \<and> \<not> unknown_driver vs
     \<and> (case residual of None \<Rightarrow> False | Some r \<Rightarrow> dabs r \<le> tolerance)"

definition money_optional :: "dec option \<Rightarrow> dec option res" where
  "money_optional v = (case v of None \<Rightarrow> Inr None | Some x \<Rightarrow> ebind (money_up x) (\<lambda>m. Inr (Some m)))"

definition build_profit_bridge :: "profit_period \<Rightarrow> profit_period \<Rightarrow> dec \<Rightarrow> profit_bridge res" where
  "build_profit_bridge current baseline tolerance =
     ebind (ensure (0 \<le> tolerance) (ValueError ''profit_bridge_tolerance_invalid'')) (\<lambda>_.
     ebind (check_periods current baseline) (\<lambda>_.
     ebind (align (pd_skus baseline) (pd_skus current)) (\<lambda>as.
     ebind (driver_values current baseline as) (\<lambda>vs.
     ebind (signed_change (pd_contribution current) (pd_contribution baseline)) (\<lambda>change.
     ebind (residual_of change vs) (\<lambda>residual.
     ebind (money_optional (pd_contribution baseline)) (\<lambda>b.
     ebind (money_optional (pd_contribution current)) (\<lambda>c.
       let reconciled = is_reconciled change vs residual tolerance in
       Inr \<lparr>pb_baseline = (pd_start baseline, pd_end baseline),
            pb_current = (pd_start current, pd_end current),
            pb_baseline_contribution = b, pb_current_contribution = c, pb_total = change,
            pb_items = bridge_items (list_ex ap_assumed as) vs change residual,
            pb_residual = residual, pb_reconciled = reconciled,
            pb_limitations = unique (concat (map ap_limits as) @ driver_notes vs
              @ (if change = None then [''contribution_profit_missing''] else [])
              @ (if unknown_driver vs then [''bridge_inputs_incomplete'']
                 else if \<not> reconciled then [''residual_outside_tolerance''] else []))\<rparr>))))))))"

section \<open>Amounts\<close>

lemma money_up_eq: "money_up x = Inr y \<Longrightarrow> y = quant HalfUp 2 x"
  by (auto simp: money_up_def)

lemma money_up_places: "money_up x = Inr y \<Longrightarrow> has_places 2 y"
  by (auto simp: money_up_def)

lemma money_up_error: "money_up x = Inr y \<Longrightarrow> \<bar>y - x\<bar> \<le> 1/200"
  using quant_error_half [of HalfUp 2 x] by (auto dest: money_up_eq)

lemma money_up_exact: "has_places 2 x \<Longrightarrow> \<bar>x\<bar> < 10 ^ 26 \<Longrightarrow> money_up x = Inr x"
  unfolding money_up_def by (rule quantize_exact) (simp_all add: prec_limit_def)

lemma money_up_abs: "money_up x = Inr y \<Longrightarrow> dabs y = \<bar>y\<bar>"
  unfolding money_up_def dabs_def
  by (frule quantize_has_places, frule quantize_bound, rule fix_prec_places [of 2])
    (auto simp: abs_if has_places_minus)

lemma signed_change_places: "signed_change c b = Inr (Some x) \<Longrightarrow> has_places 2 x"
  by (auto simp: signed_change_def dest: money_up_places elim!: ebind_eq_InrE split: option.splits)

lemma cost_change_places: "cost_change c b = Inr (Some x) \<Longrightarrow> has_places 2 x"
  by (auto simp: cost_change_def dest: money_up_places elim!: ebind_eq_InrE split: option.splits)

lemma sku_change_places: "sku_change f g as = Inr (Some x) \<Longrightarrow> has_places 2 x"
  by (auto simp: sku_change_def dest: money_up_places elim!: ebind_eq_InrE split: option.splits)

lemma volume_and_mix_places:
  assumes "volume_and_mix as = Inr (v, m)"
  shows "(v = Some x \<longrightarrow> has_places 2 x) \<and> (m = Some x \<longrightarrow> has_places 2 x) \<and> (v = None \<longleftrightarrow> m = None)"
  using assms by (auto simp: volume_and_mix_def dest: money_up_places elim!: ebind_eq_InrE
      split: option.splits if_splits)

definition values_ok :: "(driver \<times> dec option) list \<Rightarrow> bool" where
  "values_ok vs \<longleftrightarrow> map fst vs = butlast driver_order
     \<and> (\<forall>p \<in> set vs. case snd p of None \<Rightarrow> True | Some x \<Rightarrow> has_places 2 x)"

lemmas change_places = sku_change_places cost_change_places signed_change_places

lemma driver_values_ok:
  assumes "driver_values current baseline as = Inr vs"
  shows "values_ok vs"
proof -
  obtain v m p c ad re fu pf fx tx ot where d: "volume_and_mix as = Inr (v, m)"
    "sku_change sk_revenue 1 as = Inr p" "sku_change sk_cogs (- 1) as = Inr c"
    "cost_change (pd_advertising current) (pd_advertising baseline) = Inr ad"
    "cost_change (pd_refund current) (pd_refund baseline) = Inr re"
    "cost_change (pd_fulfillment current) (pd_fulfillment baseline) = Inr fu"
    "cost_change (pd_platform current) (pd_platform baseline) = Inr pf"
    "signed_change (pd_fx current) (pd_fx baseline) = Inr fx"
    "cost_change (pd_tax current) (pd_tax baseline) = Inr tx"
    "cost_change (pd_other current) (pd_other baseline) = Inr ot"
    and vs: "vs = [(Volume, v), (PriceDiscount, p), (Mix, m), (Advertising, ad),
            (Refunds, re), (Fulfillment, fu), (PlatformFees, pf),
            (CogsChange, c), (FxChange, fx), (TaxChange, tx), (OtherMapped, ot)]"
    using assms unfolding driver_values_def by (elim ebind_eq_InrE) (auto elim!: ebind_eq_InrE)
  have "case x of None \<Rightarrow> True | Some y \<Rightarrow> has_places 2 y" if "x \<in> {v, m, p, c, ad, re, fu, pf, fx, tx, ot}" for x
    using that d volume_and_mix_places [OF d(1)] by (auto split: option.splits dest: change_places)
  then show ?thesis by (simp add: values_ok_def vs driver_order_def)
qed

lemma build_cases:
  assumes "build_profit_bridge current baseline tolerance = Inr b"
  obtains as vs where "0 \<le> tolerance" and "check_periods current baseline = Inr ()"
    and "align (pd_skus baseline) (pd_skus current) = Inr as" and "driver_values current baseline as = Inr vs"
    and "signed_change (pd_contribution current) (pd_contribution baseline) = Inr (pb_total b)"
    and "residual_of (pb_total b) vs = Inr (pb_residual b)"
    and "pb_items b = bridge_items (list_ex ap_assumed as) vs (pb_total b) (pb_residual b)"
    and "pb_reconciled b = is_reconciled (pb_total b) vs (pb_residual b) tolerance"
  using assms unfolding build_profit_bridge_def Let_def by (elim ebind_eq_InrE) (auto intro: that)

section \<open>The items\<close>

definition amount_of :: "profit_bridge \<Rightarrow> driver \<Rightarrow> dec option" where
  "amount_of b d = (case find (\<lambda>i. bi_driver i = d) (pb_items b) of
     Some i \<Rightarrow> bi_amount i | None \<Rightarrow> None)"

lemma items_order:
  "map bi_driver (bridge_items a vs t r) = driver_order"
  "map bi_ordinal (bridge_items a vs t r) = map int (upt 1 13)"
  by (simp_all add: bridge_items_def driver_order_def upt_conv_Cons)

lemma amount_of_items:
  assumes "pb_items b = bridge_items a vs t r"
  shows "amount_of b d = (if d = Residual then r else value_at vs d)"
  by (cases d) (simp_all add: assms amount_of_def bridge_items_def driver_order_def upt_conv_Cons)

lemma driver_values_at:
  assumes "values_ok vs"
  shows "map (value_at vs) (butlast driver_order) = map snd vs"
    and "unknown_driver vs \<longleftrightarrow> (\<exists>d \<in> set (butlast driver_order). value_at vs d = None)"
proof -
  have d: "distinct (map fst vs)" using assms by (simp add: values_ok_def driver_order_def)
  have "map (value_at vs) (map fst vs) = map snd vs"
    using d by (auto simp: value_at_def lookup_or_def)
  moreover have "map fst vs = butlast driver_order" using assms by (simp add: values_ok_def)
  ultimately show m: "map (value_at vs) (butlast driver_order) = map snd vs" by metis
  have "unknown_driver vs \<longleftrightarrow> None \<in> set (map snd vs)" by (force simp: unknown_driver_def list_ex_iff)
  then show "unknown_driver vs \<longleftrightarrow> (\<exists>d \<in> set (butlast driver_order). value_at vs d = None)"
    unfolding m [symmetric] by force
qed

lemma sum_known:
  "sum_list (map (\<lambda>v. case v of None \<Rightarrow> 0 | Some x \<Rightarrow> (x :: rat)) ys) = sum_list (map the (filter (\<lambda>v. v \<noteq> None) ys))"
  by (induction ys) auto

section \<open>Properties\<close>

definition demo_current :: profit_period where
  "demo_current = \<lparr>pd_start = to_ordinal 2026 2 1, pd_end = to_ordinal 2026 2 28,
     pd_skus = [\<lparr>sk_id = ''A'', sk_quantity = 12, sk_revenue = Some 11, sk_cogs = Some 5\<rparr>,
                \<lparr>sk_id = ''C'', sk_quantity = 4, sk_revenue = Some 20, sk_cogs = Some 9\<rparr>],
     pd_contribution = Some 100, pd_platform = Some 5, pd_advertising = Some 3, pd_refund = Some 1,
     pd_fulfillment = Some 2, pd_tax = Some 0, pd_fx = Some 0, pd_other = Some 1\<rparr>"

definition demo_baseline :: profit_period where
  "demo_baseline = \<lparr>pd_start = to_ordinal 2026 1 1, pd_end = to_ordinal 2026 1 31,
     pd_skus = [\<lparr>sk_id = ''A'', sk_quantity = 10, sk_revenue = Some 10, sk_cogs = Some 5\<rparr>,
                \<lparr>sk_id = ''B'', sk_quantity = 10, sk_revenue = Some 19, sk_cogs = Some 10\<rparr>],
     pd_contribution = Some 131, pd_platform = Some 4, pd_advertising = Some 3, pd_refund = Some 2,
     pd_fulfillment = Some 2, pd_tax = Some 0, pd_fx = Some 0, pd_other = Some 1\<rparr>"

definition demo_bridge :: "profit_bridge res" where
  "demo_bridge = build_profit_bridge demo_current demo_baseline (1/100)"

lemma demo_bridge_run:
  obtains b where "demo_bridge = Inr b" and "pb_total b = Some (- 31)" and "pb_residual b = Some (- 7)"
    and "map bi_amount (pb_items b) = [Some (- 28), Some 16, Some (- 16), Some 0, Some 1, Some 0, Some (- 1),
      Some 4, Some 0, Some 0, Some 0, Some (- 7)]" and "\<not> pb_reconciled b"
proof -
  have "case demo_bridge of Inr b \<Rightarrow> pb_total b = Some (- 31) \<and> pb_residual b = Some (- 7)
      \<and> map bi_amount (pb_items b) = [Some (- 28), Some 16, Some (- 16), Some 0, Some 1, Some 0, Some (- 1),
          Some 4, Some 0, Some 0, Some 0, Some (- 7)]
      \<and> \<not> pb_reconciled b
    | Inl _ \<Rightarrow> False" by code_simp
  then show thesis using that by (auto split: sum.splits)
qed

text \<open>
  C29: the bridge adds up. The items are the twelve drivers in their fixed order, numbered from
  one; and when the total change is known and all amounts are below 10^24, the known drivers
  and the residual add up to it exactly.
\<close>

theorem bridge_adds_up:
  assumes "build_profit_bridge current baseline tolerance = Inr b" and "pb_total b = Some t"
    and "\<bar>t\<bar> < 10 ^ 24" and "\<forall>d \<in> set (butlast driver_order). \<forall>x. amount_of b d = Some x \<longrightarrow> \<bar>x\<bar> < 10 ^ 24"
  shows "map bi_driver (pb_items b) = driver_order \<and> map bi_ordinal (pb_items b) = map int (upt 1 13)
    \<and> (\<Sum>d\<leftarrow>driver_order. case amount_of b d of None \<Rightarrow> 0 | Some x \<Rightarrow> x) = t"
proof -
  obtain as vs where v: "driver_values current baseline as = Inr vs"
    and t: "signed_change (pd_contribution current) (pd_contribution baseline) = Inr (pb_total b)"
    and r: "residual_of (pb_total b) vs = Inr (pb_residual b)"
    and i: "pb_items b = bridge_items (list_ex ap_assumed as) vs (pb_total b) (pb_residual b)"
    using assms(1) by (rule build_cases) blast
  have ok: "values_ok vs" using v by (rule driver_values_ok)
  note am = amount_of_items [OF i]
  have nr: "Residual \<notin> set (butlast driver_order)" by (simp add: driver_order_def)
  have at: "map (amount_of b) (butlast driver_order) = map snd vs"
    using driver_values_at(1) [OF ok] am nr by (metis (mono_tags, lifting) map_eq_conv)
  let ?ks = "known_drivers vs"
  have small: "\<bar>x\<bar> < 10 ^ 24" "has_places 2 x" if "x \<in> set ?ks" for x
  proof -
    have x: "Some x \<in> snd ` set vs" using that by (force simp: known_drivers_def)
    then have "Some x \<in> amount_of b ` set (butlast driver_order)"
      using arg_cong [OF at, of set] by simp
    then show "\<bar>x\<bar> < 10 ^ 24" using assms(4) by fastforce
    from x ok show "has_places 2 x" by (fastforce simp: values_ok_def)
  qed
  have "length (map fst vs) = length (butlast driver_order)" using ok by (simp only: values_ok_def)
  then have "length vs = 11" by (simp add: driver_order_def)
  then have len: "length ?ks \<le> 11"
    unfolding known_drivers_def by (metis length_filter_le length_map)
  have "sum_list (map abs ?ks) \<le> of_nat (length ?ks) * 10 ^ 24"
    using small(1) by (intro sum_abs_bound) (simp add: less_imp_le)
  also have "\<dots> \<le> 11 * 10 ^ 24" using len by (intro mult_right_mono) simp_all
  finally have bound: "sum_list (map abs ?ks) \<le> 11 * 10 ^ 24" .
  have dsum: "dsum ?ks = sum_list ?ks"
    using bound small(2) by (intro dsum_exact [of _ 2]) (simp_all add: prec_limit_def)
  have "\<bar>sum_list ?ks\<bar> \<le> 11 * 10 ^ 24" using sum_list_abs [of ?ks] bound by linarith
  then have b: "\<bar>t - sum_list ?ks\<bar> < 10 ^ 26" using assms(3) by simp
  have p: "has_places 2 t" "has_places 2 (sum_list ?ks)"
    using t assms(2) small(2) by (auto intro: signed_change_places has_places_sum_list)
  then have "dsub t (sum_list ?ks) = t - sum_list ?ks" "has_places 2 (t - sum_list ?ks)"
    using b by (auto intro!: dsub_exact [of 2] has_places_diff simp: prec_limit_def)
  then have res: "pb_residual b = Some (t - sum_list ?ks)"
    using r assms(2) b by (auto simp: residual_of_def dsum money_up_exact)
  have "driver_order = butlast driver_order @ [Residual]" by (simp add: driver_order_def)
  then have "(\<Sum>d\<leftarrow>driver_order. case amount_of b d of None \<Rightarrow> 0 | Some x \<Rightarrow> x)
      = (\<Sum>v\<leftarrow>map (amount_of b) (butlast driver_order @ [Residual]). case v of None \<Rightarrow> 0 | Some x \<Rightarrow> x)"
    by (simp add: o_def)
  also have "\<dots> = (\<Sum>v\<leftarrow>map snd vs. case v of None \<Rightarrow> 0 | Some x \<Rightarrow> x) + (t - sum_list ?ks)"
    unfolding map_append at using res am by simp
  also have "\<dots> = sum_list ?ks + (t - sum_list ?ks)"
    unfolding sum_known known_drivers_def ..
  finally show ?thesis using items_order i by simp
qed

theorem bridge_adds_up_witness:
  "\<exists>b. demo_bridge = Inr b \<and> pb_total b = Some (- 31)
    \<and> (\<Sum>d\<leftarrow>driver_order. case amount_of b d of None \<Rightarrow> 0 | Some x \<Rightarrow> x) = - 31"
proof -
  obtain b where d: "demo_bridge = Inr b" "pb_total b = Some (- 31)"
    "map bi_amount (pb_items b) = [Some (- 28), Some 16, Some (- 16), Some 0, Some 1, Some 0, Some (- 1),
      Some 4, Some 0, Some 0, Some 0, Some (- 7)]"
    by (rule demo_bridge_run)
  have "\<forall>v \<in> set (map bi_amount (pb_items b)). \<forall>y. v = Some y \<longrightarrow> \<bar>y\<bar> < 10 ^ 24"
    unfolding d(3) by simp
  moreover have "amount_of b x = Some y \<Longrightarrow> Some y \<in> set (map bi_amount (pb_items b))" for x y
    by (auto simp: amount_of_def find_Some_iff image_iff split: option.splits) (metis nth_mem)
  ultimately have "\<bar>y\<bar> < 10 ^ 24" if "amount_of b x = Some y" for x y
    using that by blast
  then show ?thesis
    using bridge_adds_up [OF d(1) [unfolded demo_bridge_def] d(2)] d(1,2) by (intro exI [of _ b]) simp
qed

text \<open>
  What reconciled means. A bridge is reconciled exactly when the total change and all
  eleven drivers are known and the residual is within the tolerance; the residual is then no
  unknown, and every item without an amount is marked unknown (and, the residual apart, only
  those).
\<close>

theorem bridge_reconciled_meaning:
  assumes "build_profit_bridge current baseline tolerance = Inr b"
  shows "(pb_reconciled b \<longleftrightarrow> pb_total b \<noteq> None \<and> (\<forall>d \<in> set driver_order. amount_of b d \<noteq> None)
      \<and> \<bar>the (pb_residual b)\<bar> \<le> tolerance)
    \<and> amount_of b Residual = pb_residual b
    \<and> (\<forall>i \<in> set (pb_items b). (bi_amount i = None \<longrightarrow> bi_state i = Unknown)
        \<and> (bi_driver i \<noteq> Residual \<and> bi_state i = Unknown \<longrightarrow> bi_amount i = None))"
proof -
  obtain as vs where v: "driver_values current baseline as = Inr vs"
    and r: "residual_of (pb_total b) vs = Inr (pb_residual b)"
    and i: "pb_items b = bridge_items (list_ex ap_assumed as) vs (pb_total b) (pb_residual b)"
    and c: "pb_reconciled b = is_reconciled (pb_total b) vs (pb_residual b) tolerance"
    using assms by (rule build_cases) blast
  have ok: "values_ok vs" using v by (rule driver_values_ok)
  note am = amount_of_items [OF i]
  have nr: "Residual \<notin> set (butlast driver_order)" "set driver_order = insert Residual (set (butlast driver_order))"
    by (auto simp: driver_order_def)
  have u: "unknown_driver vs \<longleftrightarrow> (\<exists>d \<in> set (butlast driver_order). amount_of b d = None)"
    unfolding driver_values_at(2) [OF ok] using am nr(1) by metis
  have "pb_total b \<noteq> None \<Longrightarrow> (\<exists>x. pb_residual b = Some x \<and> dabs x = \<bar>x\<bar>)"
    using r by (auto simp: residual_of_def elim!: ebind_eq_InrE split: option.splits dest!: sym [of "Some _"] intro: money_up_abs)
  moreover have "pb_total b = None \<Longrightarrow> pb_residual b = None"
    using r by (simp add: residual_of_def)
  ultimately have "pb_reconciled b \<longleftrightarrow> pb_total b \<noteq> None \<and> (\<forall>d \<in> set driver_order. amount_of b d \<noteq> None)
      \<and> \<bar>the (pb_residual b)\<bar> \<le> tolerance"
    unfolding c is_reconciled_def u nr(2) using am by (auto split: option.splits)
  moreover have "\<forall>i \<in> set (pb_items b). (bi_amount i = None \<longrightarrow> bi_state i = Unknown)
        \<and> (bi_driver i \<noteq> Residual \<and> bi_state i = Unknown \<longrightarrow> bi_amount i = None)"
    using r unfolding i bridge_items_def
    by (auto simp: item_state_def residual_of_def elim!: ebind_eq_InrE split: if_splits option.splits)
  ultimately show ?thesis using am by simp
qed

theorem bridge_reconciled_meaning_witness:
  "\<exists>b. demo_bridge = Inr b \<and> \<not> pb_reconciled b \<and> pb_total b \<noteq> None \<and> \<not> \<bar>the (pb_residual b)\<bar> \<le> 1/100"
proof -
  obtain b where d: "demo_bridge = Inr b" "pb_total b = Some (- 31)" "pb_residual b = Some (- 7)" "\<not> pb_reconciled b"
    by (rule demo_bridge_run)
  from bridge_reconciled_meaning [OF d(1) [unfolded demo_bridge_def]] d show ?thesis
    by (intro exI [of _ b]) simp
qed

text \<open>
  only comparable periods are bridged. A bridge exists only when the baseline ends before
  the current period starts, and the two have the same number of days or are both complete
  calendar months; the tolerance is then not negative.
\<close>

theorem bridge_periods_comparable:
  assumes "build_profit_bridge current baseline tolerance = Inr b"
  shows "pd_end baseline < pd_start current \<and> 0 \<le> tolerance
    \<and> (pd_end current - pd_start current = pd_end baseline - pd_start baseline
       \<or> is_complete_month (pd_start current) (pd_end current) = Inr True
         \<and> is_complete_month (pd_start baseline) (pd_end baseline) = Inr True)"
proof -
  have t: "0 \<le> tolerance" and c: "check_periods current baseline = Inr ()"
    using assms by (auto elim: build_cases)
  obtain months where m: "complete_months current baseline = Inr months"
    and e: "pd_end baseline < pd_start current"
      "pd_end current - pd_start current = pd_end baseline - pd_start baseline \<or> months"
    using c by (auto simp: check_periods_def elim!: ebind_eq_InrE split: if_splits)
  have "months \<longrightarrow> is_complete_month (pd_start current) (pd_end current) = Inr True
         \<and> is_complete_month (pd_start baseline) (pd_end baseline) = Inr True"
    using m by (auto simp: complete_months_def elim!: ebind_eq_InrE split: if_splits)
  with t e show ?thesis by auto
qed

theorem bridge_periods_comparable_witness:
  "\<exists>b. demo_bridge = Inr b \<and> pd_end demo_baseline < pd_start demo_current
    \<and> pd_end demo_current - pd_start demo_current \<noteq> pd_end demo_baseline - pd_start demo_baseline
    \<and> is_complete_month (pd_start demo_current) (pd_end demo_current) = Inr True"
proof -
  obtain b where d: "demo_bridge = Inr b" by (rule demo_bridge_run)
  have "pd_end demo_current - pd_start demo_current \<noteq> pd_end demo_baseline - pd_start demo_baseline"
    by code_simp
  with bridge_periods_comparable [OF d [unfolded demo_bridge_def]] d show ?thesis by blast
qed

text \<open>
  A SKU that sold nothing in both periods and has no unit figures stops the bridge. The
  guard before the mix looks only at SKUs whose quantity changed, the mix itself looks up the
  margin of every SKU: with a weighted margin and nothing else missing, a SKU without a margin
  and without a change of quantity raises \<open>KeyError\<close>.
\<close>

theorem bridge_idle_sku_raises:
  assumes "weighted_margin as = Inr (Some w)" and "a \<in> set as" and "base_margin a = None"
    and "\<forall>a \<in> set as. base_quantity a \<noteq> current_quantity a \<longrightarrow> base_margin a \<noteq> None"
    and "money_up (dmul (of_int (quantity_change as)) w) = Inr v"
  shows "\<exists>i. volume_and_mix as = Inl (KeyError i)"
proof -
  have "\<exists>i. emap (mix_term w) as = Inl (KeyError i)"
    using assms(2)
  proof (induction as)
    case Nil
    then show ?case by simp
  next
    case (Cons x xs)
    show ?case
    proof (cases "base_margin x")
      case None
      then show ?thesis by (simp add: mix_term_def)
    next
      case (Some m)
      then have "a \<in> set xs" using Cons.prems assms(3) by auto
      with Cons.IH Some show ?thesis by (auto simp: mix_term_def)
    qed
  qed
  moreover have "\<not> list_ex (\<lambda>a. base_quantity a \<noteq> current_quantity a \<and> base_margin a = None) as"
    using assms(4) by (auto simp: list_ex_iff)
  ultimately show ?thesis using assms(1,5) by (auto simp: volume_and_mix_def)
qed

definition idle_sku :: profit_sku where
  "idle_sku = \<lparr>sk_id = ''Z'', sk_quantity = 0, sk_revenue = None, sk_cogs = None\<rparr>"

definition idle_pairs :: "aligned_pair list" where
  "idle_pairs = [\<lparr>ap_base = \<lparr>sk_id = ''A'', sk_quantity = 10, sk_revenue = Some 10, sk_cogs = Some 5\<rparr>,
       ap_current = \<lparr>sk_id = ''A'', sk_quantity = 12, sk_revenue = Some 11, sk_cogs = Some 5\<rparr>,
       ap_assumed = False, ap_limits = []\<rparr>,
     \<lparr>ap_base = idle_sku, ap_current = idle_sku, ap_assumed = False, ap_limits = []\<rparr>]"

theorem bridge_idle_sku_raises_witness:
  "(\<exists>i. volume_and_mix idle_pairs = Inl (KeyError i))
   \<and> build_profit_bridge (demo_current\<lparr>pd_skus := idle_sku # pd_skus demo_current\<rparr>)
       (demo_baseline\<lparr>pd_skus := idle_sku # pd_skus demo_baseline\<rparr>) (1/100) = Inl (KeyError ''Z'')"
proof
  have "weighted_margin idle_pairs = Inr (Some 5)" by code_simp
  moreover have "idle_pairs ! 1 \<in> set idle_pairs" by (simp add: idle_pairs_def)
  moreover have "base_margin (idle_pairs ! 1) = None" by code_simp
  moreover have "\<forall>a \<in> set idle_pairs. base_quantity a \<noteq> current_quantity a \<longrightarrow> base_margin a \<noteq> None"
    by (simp add: idle_pairs_def base_margin_def base_quantity_def current_quantity_def idle_sku_def)
  moreover have "money_up (dmul (of_int (quantity_change idle_pairs)) 5) = Inr 10" by code_simp
  ultimately show "\<exists>i. volume_and_mix idle_pairs = Inl (KeyError i)" by (rule bridge_idle_sku_raises)
  show "build_profit_bridge (demo_current\<lparr>pd_skus := idle_sku # pd_skus demo_current\<rparr>)
       (demo_baseline\<lparr>pd_skus := idle_sku # pd_skus demo_baseline\<rparr>) (1/100) = Inl (KeyError ''Z'')"
    by code_simp
qed

section \<open>The change of the margin\<close>

text \<open>Pairs whose four unit figures are known decimals of at most six places, and the size of
  their contribution to the sums.\<close>

definition figure_ok :: "dec option \<Rightarrow> bool" where
  "figure_ok v \<longleftrightarrow> (case v of None \<Rightarrow> False | Some x \<Rightarrow> has_places 6 x \<and> \<bar>x\<bar> < 10 ^ 20)"

definition pair_ok :: "aligned_pair \<Rightarrow> bool" where
  "pair_ok a \<longleftrightarrow> figure_ok (sk_revenue (ap_base a)) \<and> figure_ok (sk_cogs (ap_base a))
     \<and> figure_ok (sk_revenue (ap_current a)) \<and> figure_ok (sk_cogs (ap_current a))"

definition figure :: "dec option \<Rightarrow> dec" where
  "figure v = (case v of None \<Rightarrow> 0 | Some x \<Rightarrow> x)"

definition pair_weight :: "dec \<Rightarrow> aligned_pair \<Rightarrow> dec" where
  "pair_weight w a = (of_int \<bar>current_quantity a\<bar> + of_int \<bar>base_quantity a\<bar>) *
     (\<bar>figure (sk_revenue (ap_base a))\<bar> + \<bar>figure (sk_cogs (ap_base a))\<bar>
      + \<bar>figure (sk_revenue (ap_current a))\<bar> + \<bar>figure (sk_cogs (ap_current a))\<bar> + \<bar>w\<bar>)"

definition sku_margin :: "profit_sku \<Rightarrow> dec" where
  "sku_margin s = of_int (sk_quantity s) * (figure (sk_revenue s) - figure (sk_cogs s))"

lemma pair_ok_margin: "pair_ok a \<Longrightarrow> base_margin a \<noteq> None"
  unfolding pair_ok_def figure_ok_def base_margin_def by (auto split: option.splits)

lemma scale_exact:
  assumes "has_places 6 x" and "\<bar>of_int n * x\<bar> < 10 ^ 22"
  shows "dmul (of_int n) x = of_int n * x" and "has_places 6 (of_int n * x)"
proof -
  show p: "has_places 6 (of_int n * x)"
    using assms(1) unfolding has_places_def by (metis Ints_mult Ints_of_int mult.assoc)
  then show "dmul (of_int n) x = of_int n * x"
    unfolding dmul_def using assms(2) by (intro fix_prec_places [of 6]) (simp_all add: prec_limit_def)
qed

lemma diff_exact:
  assumes "has_places 6 x" and "has_places 6 y" and "\<bar>x\<bar> < 10 ^ 20" and "\<bar>y\<bar> < 2 * 10 ^ 20"
  shows "dsub x y = x - y" and "has_places 6 (x - y)" and "\<bar>x - y\<bar> < 3 * 10 ^ 20"
proof -
  show b: "\<bar>x - y\<bar> < 3 * 10 ^ 20" using abs_diff_less [OF assms(3,4)] by simp
  then show "dsub x y = x - y" "has_places 6 (x - y)"
    using assms(1,2) by (auto intro!: dsub_exact [of 6] has_places_diff simp: prec_limit_def)
qed

lemma pair_weight_bounds:
  shows "0 \<le> pair_weight w a"
    and "\<bar>of_int (current_quantity a - base_quantity a) * (figure (sk_revenue (ap_base a)) - figure (sk_cogs (ap_base a)) - w)\<bar>
      \<le> pair_weight w a"
    and "\<bar>of_int (current_quantity a - base_quantity a) * w\<bar> \<le> pair_weight w a"
    and "\<bar>of_int (current_quantity a) * (figure (sk_revenue (ap_current a)) - figure (sk_revenue (ap_base a)))\<bar> \<le> pair_weight w a"
    and "\<bar>of_int (current_quantity a) * (figure (sk_cogs (ap_current a)) - figure (sk_cogs (ap_base a)))\<bar> \<le> pair_weight w a"
proof -
  have q: "\<bar>of_int (current_quantity a - base_quantity a) :: rat\<bar> \<le> of_int \<bar>current_quantity a\<bar> + of_int \<bar>base_quantity a\<bar>"
    "\<bar>of_int (current_quantity a) :: rat\<bar> \<le> of_int \<bar>current_quantity a\<bar> + of_int \<bar>base_quantity a\<bar>"
    by (simp_all add: abs_triangle_ineq4 flip: of_int_abs of_int_add) 
  show "0 \<le> pair_weight w a" by (simp add: pair_weight_def)
  have m: "\<bar>n * x\<bar> \<le> pair_weight w a"
    if "\<bar>n\<bar> \<le> of_int \<bar>current_quantity a\<bar> + of_int \<bar>base_quantity a\<bar>"
      "\<bar>x\<bar> \<le> \<bar>figure (sk_revenue (ap_base a))\<bar> + \<bar>figure (sk_cogs (ap_base a))\<bar>
      + \<bar>figure (sk_revenue (ap_current a))\<bar> + \<bar>figure (sk_cogs (ap_current a))\<bar> + \<bar>w\<bar>" for n x
    unfolding pair_weight_def abs_mult using that by (intro mult_mono) auto
  show "\<bar>of_int (current_quantity a - base_quantity a) * (figure (sk_revenue (ap_base a)) - figure (sk_cogs (ap_base a)) - w)\<bar>
      \<le> pair_weight w a" using q(1) by (rule m) linarith
  show "\<bar>of_int (current_quantity a - base_quantity a) * w\<bar> \<le> pair_weight w a"
    using q(1) by (rule m) linarith
  show "\<bar>of_int (current_quantity a) * (figure (sk_revenue (ap_current a)) - figure (sk_revenue (ap_base a)))\<bar> \<le> pair_weight w a"
    using q(2) by (rule m) linarith
  show "\<bar>of_int (current_quantity a) * (figure (sk_cogs (ap_current a)) - figure (sk_cogs (ap_base a)))\<bar> \<le> pair_weight w a"
    using q(2) by (rule m) linarith
qed

lemma mix_terms_exact:
  assumes "\<forall>a \<in> set as. pair_ok a \<and> pair_weight w a < 10 ^ 20" and "has_places 6 w" and "\<bar>w\<bar> < 10 ^ 20"
  shows "emap (mix_term w) as = Inr (map (\<lambda>a. of_int (current_quantity a - base_quantity a)
      * (figure (sk_revenue (ap_base a)) - figure (sk_cogs (ap_base a)) - w)) as)
    \<and> (\<forall>x \<in> set (map (\<lambda>a. of_int (current_quantity a - base_quantity a)
      * (figure (sk_revenue (ap_base a)) - figure (sk_cogs (ap_base a)) - w)) as). has_places 6 x)"
  using assms(1)
proof (induction as)
  case Nil
  then show ?case by simp
next
  case (Cons a as)
  obtain r c where rc: "sk_revenue (ap_base a) = Some r" "sk_cogs (ap_base a) = Some c"
    "has_places 6 r" "has_places 6 c" "\<bar>r\<bar> < 10 ^ 20" "\<bar>c\<bar> < 10 ^ 20"
    using Cons.prems by (auto simp: pair_ok_def figure_ok_def split: option.splits)
  have m: "dsub r c = r - c" "has_places 6 (r - c)" "\<bar>r - c\<bar> < 2 * 10 ^ 20"
    using diff_exact [OF rc(3,4,5)] rc(6) abs_diff_less [OF rc(5,6)] by auto
  have b: "\<bar>(r - c) - w\<bar> < 3 * 10 ^ 20" using abs_diff_less [OF m(3) assms(3)] by simp
  then have d: "dsub (r - c) w = r - c - w" "has_places 6 (r - c - w)"
    using m(2) assms(2) by (auto intro!: dsub_exact [of 6] has_places_diff simp: prec_limit_def)
  have "\<bar>of_int (current_quantity a - base_quantity a) * (r - c - w)\<bar> < 10 ^ 22"
    using pair_weight_bounds(2) [of a w] Cons.prems by (simp add: rc figure_def)
  note e = scale_exact [OF d(2) this]
  show ?case using Cons e by (simp add: mix_term_def base_margin_def rc m(1) d(1) figure_def)
qed

lemma sku_total_exact:
  assumes "\<forall>a \<in> set as. figure_ok (f (ap_base a)) \<and> figure_ok (f (ap_current a))" and "has_places 6 t"
    and "\<bar>t\<bar> + (\<Sum>a\<leftarrow>as. \<bar>of_int (current_quantity a) * (figure (f (ap_current a)) - figure (f (ap_base a)))\<bar>) < 10 ^ 21"
  shows "sku_total f as t = Some (t + (\<Sum>a\<leftarrow>as. of_int (current_quantity a)
      * (figure (f (ap_current a)) - figure (f (ap_base a)))))"
  using assms
proof (induction as arbitrary: t)
  case Nil
  then show ?case by simp
next
  case (Cons a as)
  obtain b c where bc: "f (ap_base a) = Some b" "f (ap_current a) = Some c"
    "has_places 6 b" "has_places 6 c" "\<bar>b\<bar> < 10 ^ 20" "\<bar>c\<bar> < 10 ^ 20"
    using Cons.prems(1) by (auto simp: figure_ok_def split: option.splits)
  let ?x = "of_int (current_quantity a) * (c - b)"
  have nn: "0 \<le> (\<Sum>a\<leftarrow>as. \<bar>of_int (current_quantity a) * (figure (f (ap_current a)) - figure (f (ap_base a)))\<bar>)"
    by (intro sum_list_nonneg) auto
  have s: "\<bar>t\<bar> + (\<bar>?x\<bar> + (\<Sum>a\<leftarrow>as. \<bar>of_int (current_quantity a) * (figure (f (ap_current a)) - figure (f (ap_base a)))\<bar>)) < 10 ^ 21"
    using Cons.prems(3) by (simp add: bc figure_def)
  show ?case
  proof (cases "current_quantity a = 0")
    case True
    then show ?thesis using Cons.IH [OF _ Cons.prems(2)] Cons.prems(1) s by simp
  next
    case False
    have d: "dsub c b = c - b" "has_places 6 (c - b)" using diff_exact [OF bc(4,3,6)] bc(5) by auto
    have x: "\<bar>?x\<bar> < 10 ^ 21" using s nn by linarith
    then have e: "dmul (of_int (current_quantity a)) (c - b) = ?x" "has_places 6 ?x"
      using scale_exact [OF d(2)] by auto
    have t: "dadd t ?x = t + ?x" "has_places 6 (t + ?x)"
      using Cons.prems(2) e(2) s nn abs_triangle_ineq [of t ?x]
      by (auto intro!: dadd_exact [of 6] has_places_add simp: prec_limit_def)
    have "\<bar>t + ?x\<bar> + (\<Sum>a\<leftarrow>as. \<bar>of_int (current_quantity a) * (figure (f (ap_current a)) - figure (f (ap_base a)))\<bar>) < 10 ^ 21"
      using s abs_triangle_ineq [of t ?x] by linarith
    from Cons.IH [OF _ t(2) this] show ?thesis
      using Cons.prems(1) False by (simp add: bc d(1) e(1) t(1) figure_def add.assoc)
  qed
qed

lemma sum_le_weights:
  "(\<And>a. a \<in> set as \<Longrightarrow> \<bar>g a\<bar> \<le> pair_weight w a) \<Longrightarrow> (\<Sum>a\<leftarrow>as. \<bar>g a\<bar>) \<le> (\<Sum>a\<leftarrow>as. pair_weight w a)"
  by (rule sum_list_mono)

lemma sku_change_exact:
  assumes "\<forall>a \<in> set as. figure_ok (f (ap_base a)) \<and> figure_ok (f (ap_current a))"
    and "(\<Sum>a\<leftarrow>as. \<bar>of_int (current_quantity a) * (figure (f (ap_current a)) - figure (f (ap_base a)))\<bar>) < 10 ^ 20"
    and "sku_change f g as = Inr v" and "g = 1 \<or> g = - 1"
  shows "\<exists>x. v = Some x \<and> \<bar>x - g * (\<Sum>a\<leftarrow>as. of_int (current_quantity a)
      * (figure (f (ap_current a)) - figure (f (ap_base a))))\<bar> \<le> 1/200"
proof -
  let ?g = "\<lambda>a. of_int (current_quantity a) * (figure (f (ap_current a)) - figure (f (ap_base a)))"
  let ?s = "\<Sum>a\<leftarrow>as. ?g a"
  have t: "sku_total f as 0 = Some ?s"
    using sku_total_exact [OF assms(1), of 0] assms(2) by simp
  have p: "has_places 6 ?s"
  proof (rule has_places_sum_list)
    fix x assume "x \<in> set (map ?g as)"
    then obtain a where a: "a \<in> set as" "x = ?g a" by auto
    then have "has_places 6 (figure (f (ap_current a)) - figure (f (ap_base a)))"
      using assms(1) by (auto simp: figure_ok_def figure_def split: option.splits intro: has_places_diff)
    then show "has_places 6 x"
      unfolding a(2) has_places_def by (metis Ints_mult Ints_of_int mult.assoc)
  qed
  have "\<bar>?s\<bar> < 10 ^ 20" using sum_list_abs [of "map ?g as"] assms(2) by (simp add: o_def)
  then have "dmul g ?s = g * ?s"
    unfolding dmul_def using assms(4) p
    by (intro fix_prec_places [of 6]) (auto simp: prec_limit_def has_places_minus)
  then obtain x where "v = Some x" "money_up (g * ?s) = Inr x"
    using assms(3) t by (auto simp: sku_change_def elim!: ebind_eq_InrE)
  then show ?thesis using money_up_error by blast
qed

lemma two_amounts:
  "ebind (money_up V) (\<lambda>volume. ebind (money_up M) (\<lambda>mix. Inr (Some volume, Some mix))) = Inr (v, m)
    \<Longrightarrow> \<exists>x y. v = Some x \<and> m = Some y \<and> money_up V = Inr x \<and> money_up M = Inr y"
  by (auto elim!: ebind_eq_InrE)

lemma volume_and_mix_exact:
  assumes "\<forall>a \<in> set as. pair_ok a" and "(\<Sum>a\<leftarrow>as. pair_weight w a) < 10 ^ 20"
    and "weighted_margin as = Inr (Some w)" and "has_places 6 w" and "\<bar>w\<bar> < 10 ^ 20"
    and "volume_and_mix as = Inr (v, m)"
  shows "\<exists>x y. v = Some x \<and> m = Some y
    \<and> \<bar>x + y - (\<Sum>a\<leftarrow>as. of_int (current_quantity a - base_quantity a)
        * (figure (sk_revenue (ap_base a)) - figure (sk_cogs (ap_base a))))\<bar> \<le> 1/100"
proof -
  let ?d = "\<lambda>a. of_int (current_quantity a - base_quantity a) :: rat"
  let ?m = "\<lambda>a. figure (sk_revenue (ap_base a)) - figure (sk_cogs (ap_base a))"
  let ?ts = "map (\<lambda>a. ?d a * (?m a - w)) as"
  have w: "pair_weight w a < 10 ^ 20" if "a \<in> set as" for a
    using member_le_sum_list [of "pair_weight w a" "map (pair_weight w) as"] pair_weight_bounds(1) assms(2) that
    by (fastforce simp: o_def)
  note ts = mix_terms_exact [of as w, OF _ assms(4,5)]
  have ts: "emap (mix_term w) as = Inr ?ts" "\<And>x. x \<in> set ?ts \<Longrightarrow> has_places 6 x"
    using ts w assms(1) by blast+
  have "sum_list (map abs ?ts) < 10 ^ 20"
    using sum_le_weights [of as "\<lambda>a. ?d a * (?m a - w)" w] pair_weight_bounds(2) assms(2)
    by (fastforce simp: o_def)
  then have mix: "dsum ?ts = sum_list ?ts"
    using ts(2) by (intro dsum_exact [of _ 6]) (simp_all add: prec_limit_def)
  have q: "(of_int (quantity_change as) :: rat) * w = (\<Sum>a\<leftarrow>as. ?d a * w)"
    unfolding quantity_change_def by (induction as) (simp_all add: algebra_simps)
  have "\<bar>\<Sum>a\<leftarrow>as. ?d a * w\<bar> < 10 ^ 20"
    using sum_list_abs [of "map (\<lambda>a. ?d a * w) as"] sum_le_weights [of as "\<lambda>a. ?d a * w" w]
      pair_weight_bounds(3) assms(2) by (fastforce simp: o_def)
  then have vol: "dmul (of_int (quantity_change as)) w = (\<Sum>a\<leftarrow>as. ?d a * w)"
    using scale_exact(1) [OF assms(4), of "quantity_change as"] q by simp
  have "\<not> list_ex (\<lambda>a. base_quantity a \<noteq> current_quantity a \<and> base_margin a = None) as"
    using assms(1) pair_ok_margin by (auto simp: list_ex_iff)
  then have e: "volume_and_mix as = ebind (money_up (\<Sum>a\<leftarrow>as. ?d a * w)) (\<lambda>volume.
      ebind (money_up (sum_list ?ts)) (\<lambda>mix. Inr (Some volume, Some mix)))"
    unfolding volume_and_mix_def assms(3) ebind_Inr option.case vol ts(1) mix by (simp only: if_False)
  obtain x y where x: "v = Some x" "money_up (\<Sum>a\<leftarrow>as. ?d a * w) = Inr x"
    and y: "m = Some y" "money_up (sum_list ?ts) = Inr y"
    using two_amounts [OF trans [OF sym [OF e] assms(6)]] by blast
  have s: "(\<Sum>a\<leftarrow>as. ?d a * w) + sum_list ?ts = (\<Sum>a\<leftarrow>as. ?d a * ?m a)"
    by (simp add: algebra_simps flip: sum_list_addf)
  have "\<bar>x + y - (\<Sum>a\<leftarrow>as. ?d a * ?m a)\<bar> \<le> 1/100"
    unfolding s [symmetric]
    using money_up_error [OF x(2)] money_up_error [OF y(2)] unfolding abs_le_iff by linarith
  then show ?thesis using x(1) y(1) by blast
qed


definition demo_pairs :: "aligned_pair list" where
  "demo_pairs = (case align (pd_skus demo_baseline) (pd_skus demo_current) of Inr as \<Rightarrow> as | Inl _ \<Rightarrow> [])"


end
