(* ===== verification/Analogs.thy ===== *)
theory Analogs
  imports Evidence
begin

text \<open>
  \<open>src/forecast/contracts.py\<close> (candidates, historical SKUs, analogs) and
  \<open>src/forecast/analogs.py\<close>: each catalog SKU is scored against the candidate by category,
  attributes, price and history, and the five best are returned.
\<close>

section \<open>Contracts\<close>

record product_candidate =
  pc_name :: string
  pc_category :: string
  pc_attributes :: "string list"
  pc_launch :: date
  pc_price :: dec
  pc_discount :: dec
  pc_unit_cost :: "dec option"
  pc_opening :: int
  pc_moq :: int
  pc_lead_time :: int
  pc_daily_ad :: dec

definition planned_net_price :: "product_candidate \<Rightarrow> dec" where
  "planned_net_price c = dsub (pc_price c) (pc_discount c)"

record historical_sku =
  hs_sku :: string
  hs_category :: string
  hs_attributes :: "string list"
  hs_net_price :: dec
  hs_daily_ad :: "dec option"
  hs_history_days :: int
  hs_total_units :: int
  hs_unit_cost :: "dec option"
  hs_unknown :: "string list"

definition daily_units :: "historical_sku \<Rightarrow> dec res" where
  "daily_units h = (if hs_history_days h \<le> 0 then Inr 0
     else ddiv (of_int (hs_total_units h)) (of_int (hs_history_days h)))"

record components =
  ac_category :: dec
  ac_attributes :: dec
  ac_price :: dec
  ac_window :: dec

record analog =
  an_historical :: historical_sku
  an_score :: dec
  an_components :: components

definition an_sku :: "analog \<Rightarrow> string" where
  "an_sku a = hs_sku (an_historical a)"

section \<open>Tokens\<close>

text \<open>\<open>split()\<close>: the words between runs of white space.\<close>

fun split_words :: "string \<Rightarrow> string \<Rightarrow> string list" where
  "split_words w [] = (if w = [] then [] else [w])"
| "split_words w (c # s) =
     (if is_space c then (if w = [] then [] else [w]) @ split_words [] s else split_words (w @ [c]) s)"

fun join :: "string \<Rightarrow> string list \<Rightarrow> string" where
  "join d [] = []"
| "join d [w] = w"
| "join d (w # v # ws) = w @ d @ join d (v # ws)"

definition dash_to_space :: "char \<Rightarrow> char" where
  "dash_to_space c = (if c = CHR ''-'' then CHR '' '' else c)"

definition token :: "string \<Rightarrow> string" where
  "token s = join ''_'' (split_words [] (map (dash_to_space \<circ> lower_char) (strip s)))"

definition tokens :: "string list \<Rightarrow> string list" where
  "tokens vs = remdups (filter (\<lambda>t. t \<noteq> []) (map token vs))"

section \<open>Scoring\<close>

definition six_up :: "dec \<Rightarrow> dec res" where
  "six_up x = quantize HalfUp 6 x"

definition jaccard :: "string list \<Rightarrow> string list \<Rightarrow> dec res" where
  "jaccard xs ys =
     (let common = length (filter (\<lambda>x. x \<in> set ys) xs); either = length (remdups (xs @ ys))
      in if either = 0 then Inr 0 else ddiv (of_nat common) (of_nat either))"

definition price_proximity :: "dec \<Rightarrow> dec \<Rightarrow> dec res" where
  "price_proximity h p =
     ebind (ddiv (dabs (dsub h p)) (max h p)) (\<lambda>q. Inr (max 0 (dsub 1 q)))"

definition launch_window :: "int \<Rightarrow> dec res" where
  "launch_window days = ebind (ddiv (of_int (max 0 days)) 90) (\<lambda>q. Inr (min 1 q))"

definition components_of :: "string \<Rightarrow> string list \<Rightarrow> dec \<Rightarrow> historical_sku \<Rightarrow> components res" where
  "components_of category attributes planned h =
     ebind (jaccard attributes (tokens (hs_attributes h))) (\<lambda>j.
     ebind (price_proximity (hs_net_price h) planned) (\<lambda>p.
     ebind (launch_window (hs_history_days h)) (\<lambda>l.
     ebind (six_up (if category = token (hs_category h) then 1 else 0)) (\<lambda>c'.
     ebind (six_up j) (\<lambda>j'.
     ebind (six_up p) (\<lambda>p'.
     ebind (six_up l) (\<lambda>l'.
       Inr \<lparr>ac_category = c', ac_attributes = j', ac_price = p', ac_window = l'\<rparr>)))))))"

definition score_of :: "components \<Rightarrow> dec res" where
  "score_of c = six_up (dadd (dadd (dadd (dmul (45/100) (ac_category c)) (dmul (25/100) (ac_attributes c)))
     (dmul (15/100) (ac_price c))) (dmul (15/100) (ac_window c)))"

definition make_analog :: "string \<Rightarrow> string list \<Rightarrow> dec \<Rightarrow> historical_sku \<Rightarrow> analog res" where
  "make_analog category attributes planned h =
     ebind (components_of category attributes planned h) (\<lambda>c.
     ebind (score_of c) (\<lambda>s. Inr \<lparr>an_historical = h, an_score = s, an_components = c\<rparr>))"

definition scan_sku :: "string \<Rightarrow> string list \<Rightarrow> dec \<Rightarrow> historical_sku \<Rightarrow> string list \<times> analog list
    \<Rightarrow> (string list \<times> analog list) res" where
  "scan_sku category attributes planned h s =
     (if hs_sku h \<in> set (fst s) then Inl (ValueError ''historical_sku_duplicate'')
      else if hs_net_price h \<le> 0 then Inr (hs_sku h # fst s, snd s)
      else ebind (make_analog category attributes planned h) (\<lambda>a.
        Inr (hs_sku h # fst s, snd s @ [a])))"

definition rank_key :: "analog \<Rightarrow> dec \<times> string" where
  "rank_key a = (dneg (an_score a), an_sku a)"

definition select_analogs :: "product_candidate \<Rightarrow> historical_sku list \<Rightarrow> analog list res" where
  "select_analogs candidate catalog =
     (let planned = planned_net_price candidate; category = token (pc_category candidate);
          attributes = tokens (pc_attributes candidate)
      in if planned \<le> 0 then Inl (ValueError ''planned_net_price_invalid'')
         else if category = [] then Inl (ValueError ''candidate_category_invalid'')
         else ebind (efold (scan_sku category attributes planned) catalog ([], [])) (\<lambda>s.
           Inr (take 5 (sort_key rank_key (snd s)))))"

section \<open>Scores are shares\<close>

definition share :: "dec \<Rightarrow> bool" where
  "share x \<longleftrightarrow> 0 \<le> x \<and> x \<le> 1"

lemma fix_prec_1 [simp]: "fix_prec 1 = 1"
  using fix_prec_of_int [of 1] by (simp add: prec_limit_def)

lemma fix_prec_share: "share x \<Longrightarrow> share (fix_prec x)"
  using fix_prec_mono [of x 1] by (simp add: share_def fix_prec_nonneg)

lemma quant_1 [simp]: "quant m k 1 = 1"
  using quant_id [of k 1 m] has_places_of_int [of k 1] by simp

lemma six_up_share: "six_up x = Inr y \<Longrightarrow> share x \<Longrightarrow> share y"
  using quant_mono [of x 1 HalfUp 6] by (auto simp: six_up_def share_def quant_nonneg)

lemma ddiv_share: "ddiv x y = Inr q \<Longrightarrow> 0 \<le> x \<Longrightarrow> x \<le> y \<Longrightarrow> share q"
proof -
  assume q: "ddiv x y = Inr q" and x: "0 \<le> x" "x \<le> y"
  then have "y \<noteq> 0" "q = fix_prec (x / y)" by (auto simp: ddiv_def split: if_splits)
  moreover have "share (x / y)" using x \<open>y \<noteq> 0\<close> by (simp add: share_def)
  ultimately show ?thesis by (simp add: fix_prec_share)
qed

lemma jaccard_share: "jaccard xs ys = Inr q \<Longrightarrow> distinct xs \<Longrightarrow> share q"
proof -
  assume j: "jaccard xs ys = Inr q" and d: "distinct xs"
  have "length (filter (\<lambda>x. x \<in> set ys) xs) \<le> length (remdups (xs @ ys))"
  proof -
    have "length (filter (\<lambda>x. x \<in> set ys) xs) = card (set (filter (\<lambda>x. x \<in> set ys) xs))"
      using distinct_card [of "filter (\<lambda>x. x \<in> set ys) xs"] d by simp
    also have "\<dots> \<le> card (set (xs @ ys))" by (rule card_mono) auto
    finally show ?thesis by (simp only: length_remdups_card_conv)
  qed
  then have "(of_nat (length (filter (\<lambda>x. x \<in> set ys) xs)) :: rat) \<le> of_nat (length (remdups (xs @ ys)))"
    by (simp only: of_nat_le_iff)
  then show "share q" using j ddiv_share unfolding jaccard_def Let_def
    by (auto simp: share_def split: if_splits)
qed

lemma price_proximity_share: "price_proximity h p = Inr q \<Longrightarrow> 0 < h \<Longrightarrow> share q"
proof -
  assume "price_proximity h p = Inr q" and h: "0 < h"
  then obtain r where r: "ddiv (dabs (dsub h p)) (max h p) = Inr r" and q: "q = max 0 (dsub 1 r)"
    by (auto simp: price_proximity_def elim!: ebind_eq_InrE)
  have "0 \<le> r" using r h by (intro ddiv_nonneg [OF r]) (auto simp: dabs_def fix_prec_nonneg le_max_iff_disj)
  then have "dsub 1 r \<le> 1" unfolding dsub_def using fix_prec_mono [of "1 - r" 1] by simp
  then show "share q" by (simp add: q share_def)
qed

lemma launch_window_share: "launch_window d = Inr q \<Longrightarrow> share q"
  by (auto simp: launch_window_def share_def min_def elim!: ebind_eq_InrE dest: ddiv_nonneg)

definition shares :: "components \<Rightarrow> bool" where
  "shares c \<longleftrightarrow> share (ac_category c) \<and> share (ac_attributes c) \<and> share (ac_price c) \<and> share (ac_window c)"

lemma components_shares:
  assumes "components_of category attributes planned h = Inr c" and "distinct attributes"
    and "0 < hs_net_price h"
  shows "shares c"
proof -
  obtain j p l c' j' p' l' where v: "jaccard attributes (tokens (hs_attributes h)) = Inr j"
    "price_proximity (hs_net_price h) planned = Inr p" "launch_window (hs_history_days h) = Inr l"
    and w: "six_up (if category = token (hs_category h) then 1 else 0) = Inr c'" "six_up j = Inr j'"
      "six_up p = Inr p'" "six_up l = Inr l'"
    and c: "c = \<lparr>ac_category = c', ac_attributes = j', ac_price = p', ac_window = l'\<rparr>"
    using assms(1) unfolding components_of_def by (elim ebind_eq_InrE) auto
  have "share (if category = token (hs_category h) then 1 else 0)" by (simp add: share_def)
  with v w assms(2,3) show ?thesis
    by (auto simp: c shares_def intro: six_up_share jaccard_share price_proximity_share launch_window_share)
qed

lemma dmul_share:
  assumes "share x" and "0 \<le> c" and "fix_prec c = c"
  shows "0 \<le> dmul c x \<and> dmul c x \<le> c"
  using assms dmul_mono [of c x 1] by (simp add: share_def dmul_nonneg) (simp add: dmul_def)

lemma score_share:
  assumes "score_of c = Inr s" and "shares c"
  shows "share s"
proof -
  have f: "fix_prec (45/100) = 45/100" "fix_prec (25/100) = 25/100" "fix_prec (15/100) = 15/100"
    "fix_prec (70/100) = 70/100" "fix_prec (85/100) = 85/100"
    using fix_prec_places [of 2 "45/100"] fix_prec_places [of 2 "25/100"] fix_prec_places [of 2 "15/100"]
      fix_prec_places [of 2 "70/100"] fix_prec_places [of 2 "85/100"]
    by (simp_all add: has_places_def prec_limit_def)
  define w x y z where "w = dmul (45/100) (ac_category c)" and "x = dmul (25/100) (ac_attributes c)"
    and "y = dmul (15/100) (ac_price c)" and "z = dmul (15/100) (ac_window c)"
  have sh: "share (ac_category c)" "share (ac_attributes c)" "share (ac_price c)" "share (ac_window c)"
    using assms(2) by (simp_all add: shares_def)
  have b: "0 \<le> w \<and> w \<le> 45/100" "0 \<le> x \<and> x \<le> 25/100" "0 \<le> y \<and> y \<le> 15/100" "0 \<le> z \<and> z \<le> 15/100"
    unfolding w_def x_def y_def z_def
    by (rule dmul_share [OF sh(1) _ f(1)], simp, rule dmul_share [OF sh(2) _ f(2)], simp,
        rule dmul_share [OF sh(3) _ f(3)], simp, rule dmul_share [OF sh(4) _ f(3)], simp)
  have "dadd w x \<le> dadd (45/100) (25/100)" "0 \<le> dadd w x" using b by (auto intro: dadd_mono dadd_nonneg)
  then have 1: "dadd w x \<le> 70/100" "0 \<le> dadd w x" using f by (simp_all add: dadd_def)
  have "dadd (dadd w x) y \<le> dadd (70/100) (15/100)" using 1 b by (intro dadd_mono) auto
  then have 2: "dadd (dadd w x) y \<le> 85/100" "0 \<le> dadd (dadd w x) y"
    using f 1 b by (simp_all add: dadd_def fix_prec_nonneg)
  have "dadd (dadd (dadd w x) y) z \<le> dadd (85/100) (15/100)" using 2 b by (intro dadd_mono) auto
  then have "share (dadd (dadd (dadd w x) y) z)"
    using 2 b by (simp add: share_def dadd_def fix_prec_nonneg)
  then show ?thesis using assms(1) unfolding score_of_def w_def x_def y_def z_def by (rule six_up_share [rotated])
qed

lemma make_analog_facts:
  assumes "make_analog category attributes planned h = Inr a" and "distinct attributes" and "0 < hs_net_price h"
  shows "an_historical a = h \<and> share (an_score a) \<and> shares (an_components a) \<and> has_places 6 (an_score a)"
proof -
  obtain c s where c: "components_of category attributes planned h = Inr c" "score_of c = Inr s"
    and a: "a = \<lparr>an_historical = h, an_score = s, an_components = c\<rparr>"
    using assms(1) by (auto simp: make_analog_def elim!: ebind_eq_InrE)
  have "has_places 6 s" using c(2) by (auto simp: score_of_def six_up_def)
  then show ?thesis using components_shares [OF c(1) assms(2,3)] score_share [OF c(2)] by (simp add: a)
qed

text \<open>What the scan collects: one analog per SKU of positive price, each scored.\<close>

definition scored :: "string \<Rightarrow> string list \<Rightarrow> dec \<Rightarrow> historical_sku list \<Rightarrow> analog list \<Rightarrow> bool" where
  "scored category attributes planned catalog as \<longleftrightarrow>
     map an_historical as = filter (\<lambda>h. 0 < hs_net_price h) catalog
     \<and> (\<forall>a \<in> set as. make_analog category attributes planned (an_historical a) = Inr a)"

lemma efold_scan:
  assumes "efold (scan_sku category attributes planned) catalog ([], []) = Inr s" and "distinct attributes"
  shows "set (fst s) = hs_sku ` set catalog \<and> distinct (map hs_sku catalog)
    \<and> scored category attributes planned catalog (snd s)"
  using assms(1)
proof (induction catalog arbitrary: s rule: rev_induct)
  case Nil
  then show ?case by (auto simp: scored_def)
next
  case (snoc h catalog)
  then obtain u where u: "efold (scan_sku category attributes planned) catalog ([], []) = Inr u"
    and v: "scan_sku category attributes planned h u = Inr s"
    by (auto simp: efold_append ebind_eq_Inr)
  note ih = snoc.IH [OF u]
  have new: "hs_sku h \<notin> set (fst u)" using v by (auto simp: scan_sku_def split: if_splits)
  show ?case
  proof (cases "hs_net_price h \<le> 0")
    case True
    then have "s = (hs_sku h # fst u, snd u)" using v new by (simp add: scan_sku_def)
    then show ?thesis using ih new True by (auto simp: scored_def)
  next
    case False
    then obtain a where a: "make_analog category attributes planned h = Inr a"
      and s: "s = (hs_sku h # fst u, snd u @ [a])"
      using v new by (auto simp: scan_sku_def elim!: ebind_eq_InrE)
    have "an_historical a = h" using make_analog_facts [OF a assms(2)] False by simp
    then show ?thesis using ih new False a by (auto simp: s scored_def)
  qed
qed

lemma take_sorted_least:
  assumes "x \<in> set (take n (sort_key f xs))" and "y \<in> set xs" and "y \<notin> set (take n (sort_key f xs))"
  shows "f x \<le> f y"
proof -
  have "y \<in> set (sort_key f xs)" using assms(2) by simp
  then have y: "y \<in> set (drop n (sort_key f xs))"
    using assms(3) by (metis Un_iff append_take_drop_id set_append)
  have "sorted (map f (take n (sort_key f xs) @ drop n (sort_key f xs)))" by simp
  with assms(1) y show ?thesis unfolding map_append sorted_append by auto
qed

section \<open>Properties\<close>

definition demo_candidate :: product_candidate where
  "demo_candidate = \<lparr>pc_name = ''Lamp'', pc_category = ''Home-Decor'', pc_attributes = [''LED'', ''desk lamp''],
     pc_launch = to_ordinal 2026 5 1, pc_price = 110, pc_discount = 10, pc_unit_cost = Some 40,
     pc_opening = 5, pc_moq = 12, pc_lead_time = 45, pc_daily_ad = 6\<rparr>"

definition demo_catalog :: "historical_sku list" where
  "demo_catalog =
     [\<lparr>hs_sku = ''A'', hs_category = ''home decor'', hs_attributes = [''led''], hs_net_price = 100,
       hs_daily_ad = Some 6, hs_history_days = 90, hs_total_units = 180, hs_unit_cost = Some 30, hs_unknown = []\<rparr>,
      \<lparr>hs_sku = ''B'', hs_category = ''home decor'', hs_attributes = [], hs_net_price = 100,
       hs_daily_ad = Some 6, hs_history_days = 45, hs_total_units = 90, hs_unit_cost = Some 30, hs_unknown = []\<rparr>,
      \<lparr>hs_sku = ''C'', hs_category = ''toys'', hs_attributes = [], hs_net_price = 0,
       hs_daily_ad = None, hs_history_days = 45, hs_total_units = 10, hs_unit_cost = None, hs_unknown = []\<rparr>]"

lemma demo_analogs_run:
  obtains as where "select_analogs demo_candidate demo_catalog = Inr as" and "map an_sku as = [''A'', ''B'']"
    and "map an_score as = [875/1000, 675/1000]"
proof -
  have "case select_analogs demo_candidate demo_catalog of Inr as \<Rightarrow> map an_sku as = [''A'', ''B'']
      \<and> map an_score as = [875/1000, 675/1000] | Inl _ \<Rightarrow> False" by code_simp
  then show thesis using that by (auto split: sum.splits)
qed

text \<open>
  The analogs are the best five. At most five analogs are returned, for distinct catalog
  SKUs of positive price, ordered by score, highest first; every score and every component is
  between 0 and 1; and a SKU of positive price that was left out scores no higher than any
  that was returned.
\<close>

theorem analogs_best_five:
  assumes "select_analogs candidate catalog = Inr as"
  shows "length as \<le> 5 \<and> distinct (map an_sku as)
    \<and> sorted_wrt (\<lambda>a b. an_score b < an_score a \<or> an_score a = an_score b \<and> an_sku a \<le> an_sku b) as
    \<and> (\<forall>a \<in> set as. an_historical a \<in> set catalog \<and> 0 < hs_net_price (an_historical a)
        \<and> share (an_score a) \<and> shares (an_components a))
    \<and> (\<forall>h \<in> set catalog. 0 < hs_net_price h \<and> h \<notin> an_historical ` set as \<longrightarrow>
        (\<exists>c. make_analog (token (pc_category candidate)) (tokens (pc_attributes candidate))
               (planned_net_price candidate) h = Inr c \<and> (\<forall>a \<in> set as. an_score c \<le> an_score a)))"
proof -
  define category attributes planned where "category = token (pc_category candidate)"
    and "attributes = tokens (pc_attributes candidate)" and "planned = planned_net_price candidate"
  obtain s where e: "efold (scan_sku category attributes planned) catalog ([], []) = Inr s"
    and as: "as = take 5 (sort_key rank_key (snd s))"
    using assms unfolding select_analogs_def Let_def category_def attributes_def planned_def
    by (auto elim!: ebind_eq_InrE split: if_splits)
  have d: "distinct attributes" by (simp add: attributes_def tokens_def)
  note f = efold_scan [OF e d]
  have sc: "map an_historical (snd s) = filter (\<lambda>h. 0 < hs_net_price h) catalog"
    "\<And>a. a \<in> set (snd s) \<Longrightarrow> make_analog category attributes planned (an_historical a) = Inr a"
    using f by (auto simp: scored_def)
  have sub: "a \<in> set (snd s)" if "a \<in> set as" for a
    using that unfolding as by (metis in_set_takeD set_sort)
  have hist: "an_historical a \<in> set catalog \<and> 0 < hs_net_price (an_historical a)" if "a \<in> set (snd s)" for a
    using that arg_cong [OF sc(1), of set] by auto
  have facts: "share (an_score a) \<and> shares (an_components a) \<and> fix_prec (an_score a) = an_score a"
    if "a \<in> set (snd s)" for a
  proof -
    note m = make_analog_facts [OF sc(2) [OF that] d] hist [OF that]
    then have "\<bar>an_score a\<bar> * 10 ^ 6 < of_int prec_limit" by (simp add: share_def prec_limit_def)
    then show ?thesis using m fix_prec_places [of 6 "an_score a"] by simp
  qed
  have le: "an_score y \<le> an_score x \<and> (an_score x = an_score y \<longrightarrow> an_sku x \<le> an_sku y)"
    if "x \<in> set (snd s)" "y \<in> set (snd s)" "rank_key x \<le> rank_key y" for x y
    using that facts [OF that(1)] facts [OF that(2)]
    by (auto simp: rank_key_def less_eq_prod_def dneg_def fix_prec_minus)
  have "sorted_wrt (\<lambda>x y. rank_key x \<le> rank_key y) (sort_key rank_key (snd s))"
    using sorted_sort_key [of rank_key "snd s"] by (simp add: sorted_wrt_map)
  then have "sorted_wrt (\<lambda>x y. rank_key x \<le> rank_key y) as" unfolding as by (rule sorted_wrt_take)
  then have "sorted_wrt (\<lambda>a b. an_score b < an_score a \<or> an_score a = an_score b \<and> an_sku a \<le> an_sku b) as"
    by (rule sorted_wrt_mono_rel [rotated]) (use le sub in fastforce)
  moreover have "distinct (map an_sku as)"
  proof -
    have "map an_sku (snd s) = map hs_sku (filter (\<lambda>h. 0 < hs_net_price h) catalog)"
      using arg_cong [OF sc(1), of "map hs_sku"] by (simp add: an_sku_def [abs_def] o_def)
    then have "distinct (map an_sku (snd s))" using f by (simp add: distinct_map_filter)
    moreover have "mset (map an_sku (sort_key rank_key (snd s))) = mset (map an_sku (snd s))" by simp
    ultimately have "distinct (map an_sku (sort_key rank_key (snd s)))" by (metis mset_eq_imp_distinct_iff)
    then show ?thesis unfolding as by (simp add: distinct_take flip: take_map)
  qed
  moreover have "\<exists>c. make_analog category attributes planned h = Inr c \<and> (\<forall>a \<in> set as. an_score c \<le> an_score a)"
    if h: "h \<in> set catalog" "0 < hs_net_price h" "h \<notin> an_historical ` set as" for h
  proof -
    have "h \<in> set (map an_historical (snd s))" unfolding sc(1) using h by simp
    then obtain c where c: "c \<in> set (snd s)" "an_historical c = h" by auto
    then have "c \<notin> set as" using h(3) by auto
    then have "rank_key a \<le> rank_key c" if "a \<in> set as" for a
      using take_sorted_least [of a 5 rank_key "snd s" c] that c(1) unfolding as by blast
    then show ?thesis using le sub c sc(2) by blast
  qed
  moreover have "length as \<le> 5" by (simp add: as)
  ultimately show ?thesis
    using hist facts sub unfolding category_def attributes_def planned_def by blast
qed

theorem analogs_best_five_witness:
  "\<exists>as. select_analogs demo_candidate demo_catalog = Inr as \<and> map an_sku as = [''A'', ''B'']
    \<and> (\<forall>a \<in> set as. share (an_score a))"
proof -
  obtain as where d: "select_analogs demo_candidate demo_catalog = Inr as" "map an_sku as = [''A'', ''B'']"
    by (rule demo_analogs_run)
  with analogs_best_five [OF d(1)] show ?thesis by (intro exI [of _ as]) simp
qed

end
