(* ===== verification/NewProduct.thy ===== *)
theory NewProduct
  imports Analogs
begin

text \<open>
  \<open>src/forecast/new_product.py\<close> and \<open>src/forecast/backtest.py\<close>: the forecast for 7, 30 and 90
  days from the confirmed analogs, the guidance for the first order, and the evaluation over
  hidden windows. The power \<open>** Decimal("-1.2")\<close> of the price ratio is a parameter \<open>decpow\<close>: the
  decimal library promises it to be only almost always correctly rounded, and it may signal;
  nothing below depends on its values. The ratio itself is rounded to 32 digits
  (\<open>fix_digits 32\<close>), as the local context of the code does.
\<close>

section \<open>Data\<close>

datatype confidence = LowConfidence | MediumConfidence | HighConfidence

record forecast_request =
  fq_candidate :: product_candidate
  fq_safety :: int
  fq_assumptions :: "string list"
  fq_missing :: "string list"

text \<open>A dictionary with the keys \<open>low\<close>, \<open>base\<close> and \<open>high\<close>.\<close>

record 'a scenarios =
  sc_low :: 'a
  sc_base :: 'a
  sc_high :: 'a

record horizon_forecast =
  hf_days :: int
  hf_units :: "int scenarios"
  hf_revenue :: "dec scenarios"
  hf_profit :: "dec option scenarios"
  hf_cover :: "dec option scenarios"

record forecast_factors =
  ff_demand :: dec
  ff_net_price :: dec
  ff_daily_ad :: dec
  ff_price :: dec
  ff_advertising :: dec

record forecast_result =
  fc_confidence :: confidence
  fc_reasons :: "string list"
  fc_horizons :: "(int \<times> horizon_forecast) list"
  fc_recommended :: "int option"
  fc_moq :: "int option"
  fc_factors :: "forecast_factors option"
  fc_assumptions :: "string list"
  fc_missing :: "string list"
  fc_limitations :: "string list"
  fc_analogs :: "string list"
  fc_guidance :: "(int \<times> string) option"

section \<open>Validation and confidence\<close>

definition validate_request :: "forecast_request \<Rightarrow> analog list \<Rightarrow> unit res" where
  "validate_request q as =
     (let c = fq_candidate q in
      ebind (ensure (distinct (map an_sku as)) (ValueError ''confirmed_analog_duplicate'')) (\<lambda>_.
      ebind (ensure (as \<noteq> []) (ValueError ''confirmed_analogs_missing'')) (\<lambda>_.
        ensure (0 \<le> pc_opening c \<and> 0 < pc_moq c \<and> 0 < pc_lead_time c \<and> 0 \<le> fq_safety q
            \<and> 0 \<le> pc_daily_ad c) (ValueError ''forecast_input_invalid''))))"

definition confidence_of :: "forecast_request \<Rightarrow> analog list \<Rightarrow> confidence \<times> string list" where
  "confidence_of q as =
     (let days = map (\<lambda>a. hs_history_days (an_historical a)) as;
          history_days = (if days = [] then 0 else Min (set days));
          all_costs = pc_unit_cost (fq_candidate q) \<noteq> None
            \<and> list_all (\<lambda>a. hs_unit_cost (an_historical a) \<noteq> None) as;
          no_unknown = list_all (\<lambda>a. hs_unknown (an_historical a) = []) as
      in if 3 \<le> length as \<and> 90 \<le> history_days \<and> all_costs \<and> no_unknown
         then (HighConfidence, [''at_least_three_confirmed_analogs'', ''ninety_complete_days'',
                 ''cost_fields_complete'', ''no_unknown_analog_evidence''])
         else if 2 \<le> length as \<and> 30 \<le> history_days
         then (MediumConfidence, [''at_least_two_confirmed_analogs'', ''thirty_complete_days''])
         else (LowConfidence, [''fewer_than_two_30_day_confirmed_analogs'']))"

section \<open>The factors\<close>

definition fix_digits :: "int \<Rightarrow> dec \<Rightarrow> dec" where
  "fix_digits n x = (if x = 0 then 0
     else let e = adjusted x - (n - 1) in of_int (round_half_even (x / 10 powi e)) * 10 powi e)"

definition weighted_sum :: "analog list \<Rightarrow> dec list \<Rightarrow> dec" where
  "weighted_sum as vs = dsum (map2 (\<lambda>a v. dmul (an_score a) v) as vs)"

definition weighted :: "analog list \<Rightarrow> dec list \<Rightarrow> dec \<Rightarrow> dec res" where
  "weighted as vs total_weight = ddiv (weighted_sum as vs) total_weight"

definition clamp :: "dec \<Rightarrow> dec \<Rightarrow> dec \<Rightarrow> dec" where
  "clamp lo hi x = min hi (max lo x)"

definition price_factor :: "(dec \<Rightarrow> dec res) \<Rightarrow> dec \<Rightarrow> dec \<Rightarrow> dec res" where
  "price_factor decpow planned avg =
     ebind (decpow (fix_digits 32 (planned / avg))) (\<lambda>r. Inr (clamp (60/100) (140/100) r))"

definition advertising_factor :: "dec \<Rightarrow> dec \<Rightarrow> dec res" where
  "advertising_factor planned avg =
     (if planned = 0 \<and> avg = 0 then Inr 1
      else if avg = 0 then Inl (ValueError ''analog_ad_baseline_missing'')
      else ebind (ddiv planned avg) (\<lambda>q.
        Inr (clamp (80/100) (120/100) (dadd 1 (dmul (15/100) (dsub q 1))))))"

section \<open>One horizon\<close>

definition launch_ramp :: "int \<Rightarrow> dec" where
  "launch_ramp h = (if h = 7 then 65/100 else if h = 30 then 90/100 else 1)"

definition multipliers :: "confidence \<Rightarrow> dec scenarios" where
  "multipliers c = (case c of
     HighConfidence \<Rightarrow> \<lparr>sc_low = 70/100, sc_base = 1, sc_high = 130/100\<rparr>
   | _ \<Rightarrow> \<lparr>sc_low = 60/100, sc_base = 1, sc_high = 140/100\<rparr>)"

definition whole_up :: "dec \<Rightarrow> int res" where
  "whole_up x = ebind (quantize HalfUp 0 x) (\<lambda>y. Inr \<lfloor>y\<rfloor>)"

definition money_half_up :: "dec \<Rightarrow> dec res" where
  "money_half_up x = quantize HalfUp 2 x"

definition each_scenario :: "('a \<Rightarrow> 'b res) \<Rightarrow> 'a scenarios \<Rightarrow> 'b scenarios res" where
  "each_scenario f s =
     ebind (f (sc_low s)) (\<lambda>l. ebind (f (sc_base s)) (\<lambda>b. ebind (f (sc_high s)) (\<lambda>h.
       Inr \<lparr>sc_low = l, sc_base = b, sc_high = h\<rparr>)))"

definition scenario_units :: "dec \<Rightarrow> dec \<Rightarrow> int res" where
  "scenario_units raw_base m = whole_up (dmul raw_base m)"

definition scenario_revenue :: "dec \<Rightarrow> int \<Rightarrow> dec res" where
  "scenario_revenue price units = money_half_up (dmul (of_int units) price)"

definition contribution_profit :: "int \<Rightarrow> dec \<Rightarrow> forecast_request \<Rightarrow> int \<Rightarrow> dec option res" where
  "contribution_profit horizon price q units =
     (case pc_unit_cost (fq_candidate q) of None \<Rightarrow> Inr None
      | Some c \<Rightarrow> ebind (money_half_up (dsub (dmul (of_int units) (dsub price c))
            (dmul (pc_daily_ad (fq_candidate q)) (of_int horizon)))) (\<lambda>m. Inr (Some m)))"

definition stock_cover :: "int \<Rightarrow> int \<Rightarrow> int \<Rightarrow> dec option res" where
  "stock_cover opening horizon units =
     (if units \<le> 0 then Inr None
      else ebind (ddiv (dmul (of_int opening) (of_int horizon)) (of_int units)) (\<lambda>x.
           ebind (quantize HalfUp 2 x) (\<lambda>m. Inr (Some m))))"

definition raw_base :: "dec \<Rightarrow> int \<Rightarrow> dec \<Rightarrow> dec \<Rightarrow> dec" where
  "raw_base demand horizon pf af =
     dmul (dmul (dmul (dmul demand (of_int horizon)) (launch_ramp horizon)) pf) af"

definition forecast_horizon :: "forecast_request \<Rightarrow> confidence \<Rightarrow> dec \<Rightarrow> dec \<Rightarrow> dec \<Rightarrow> dec \<Rightarrow> int
    \<Rightarrow> (int \<times> horizon_forecast) res" where
  "forecast_horizon q c price demand pf af horizon =
     ebind (each_scenario (scenario_units (raw_base demand horizon pf af)) (multipliers c)) (\<lambda>units.
     ebind (each_scenario (scenario_revenue price) units) (\<lambda>revenue.
     ebind (each_scenario (contribution_profit horizon price q) units) (\<lambda>profit.
     ebind (each_scenario (stock_cover (pc_opening (fq_candidate q)) horizon) units) (\<lambda>cover.
       Inr (horizon, \<lparr>hf_days = horizon, hf_units = units, hf_revenue = revenue,
              hf_profit = profit, hf_cover = cover\<rparr>)))))"

section \<open>The first order\<close>

definition high_units_at :: "(int \<times> horizon_forecast) list \<Rightarrow> int \<Rightarrow> int" where
  "high_units_at hs h = (case map_of hs h of None \<Rightarrow> 0 | Some f \<Rightarrow> sc_high (hf_units f))"

definition guidance_horizon :: "product_candidate \<Rightarrow> int" where
  "guidance_horizon c = min 90 (max 30 (pc_lead_time c))"

definition guidance_units :: "(int \<times> horizon_forecast) list \<Rightarrow> int \<Rightarrow> (int \<times> bool) res" where
  "guidance_units hs g =
     (if g \<in> fst ` set hs then Inr (high_units_at hs g, False)
      else ebind (ddiv (dmul (dsub (of_int (high_units_at hs 90)) (of_int (high_units_at hs 30)))
                    (of_int (g - 30))) 60) (\<lambda>x.
           ebind (whole_up (dadd (of_int (high_units_at hs 30)) x)) (\<lambda>u. Inr (u, True))))"

definition round_to_moq :: "int \<Rightarrow> int \<Rightarrow> int res" where
  "round_to_moq quantity moq =
     (if quantity \<le> 0 then Inr 0
      else ebind (ddiv (of_int quantity) (of_int moq)) (\<lambda>x. Inr (to_integral Ceiling x * moq)))"

section \<open>The forecast\<close>

definition blocked_forecast :: "string list \<Rightarrow> string list \<Rightarrow> string list \<Rightarrow> string list \<Rightarrow> forecast_result" where
  "blocked_forecast reasons assumptions missing skus =
     \<lparr>fc_confidence = LowConfidence, fc_reasons = reasons, fc_horizons = [], fc_recommended = None,
      fc_moq = None, fc_factors = None, fc_assumptions = assumptions, fc_missing = missing,
      fc_limitations = [''insufficient_complete_analogs''], fc_analogs = skus, fc_guidance = None\<rparr>"

definition forecast_inputs :: "(dec \<Rightarrow> dec res) \<Rightarrow> forecast_request \<Rightarrow> analog list
    \<Rightarrow> (dec \<times> dec \<times> dec \<times> dec \<times> dec) res" where
  "forecast_inputs decpow q as =
     (let total_weight = dsum (map an_score as); price = planned_net_price (fq_candidate q) in
      if total_weight \<le> 0 then Inl (ValueError ''analog_weight_invalid'') else
      ebind (emap (daily_units \<circ> an_historical) as) (\<lambda>us.
      ebind (weighted as us total_weight) (\<lambda>demand.
      ebind (weighted as (map (hs_net_price \<circ> an_historical) as) total_weight) (\<lambda>avg_price.
      if avg_price \<le> 0 then Inl (ValueError ''weighted_analog_net_price_invalid'') else
      if list_ex (\<lambda>a. hs_daily_ad (an_historical a) = None) as
      then Inl (ValueError ''analog_ad_baseline_missing'') else
      ebind (weighted as (map (the \<circ> hs_daily_ad \<circ> an_historical) as) total_weight) (\<lambda>avg_ad.
      if price \<le> 0 then Inl (ValueError ''planned_net_price_invalid'') else
      ebind (price_factor decpow price avg_price) (\<lambda>pf.
      ebind (advertising_factor (pc_daily_ad (fq_candidate q)) avg_ad) (\<lambda>af.
        Inr (demand, avg_price, avg_ad, pf, af))))))))"

definition shown_factors :: "dec \<Rightarrow> dec \<Rightarrow> dec \<Rightarrow> dec \<Rightarrow> dec \<Rightarrow> forecast_factors res" where
  "shown_factors demand avg_price avg_ad pf af =
     ebind (six_up demand) (\<lambda>d. ebind (six_up avg_price) (\<lambda>p. ebind (six_up avg_ad) (\<lambda>a.
     ebind (six_up pf) (\<lambda>f. ebind (six_up af) (\<lambda>g.
       Inr \<lparr>ff_demand = d, ff_net_price = p, ff_daily_ad = a, ff_price = f, ff_advertising = g\<rparr>)))))"

definition recommended_units :: "forecast_request \<Rightarrow> int \<Rightarrow> int" where
  "recommended_units q high = max 0 (high + fq_safety q - pc_opening (fq_candidate q))"

definition sorted_set :: "string list \<Rightarrow> string list" where
  "sorted_set xs = sort (remdups xs)"

definition forecast_limits :: "product_candidate \<Rightarrow> string list" where
  "forecast_limits c = sorted_set ((if pc_unit_cost c = None then [''contribution_profit_unavailable''] else [])
     @ (if 90 < pc_lead_time c then [''lead_time_capped_at_90_days''] else []))"

definition forecast_new_product :: "(dec \<Rightarrow> dec res) \<Rightarrow> forecast_request \<Rightarrow> analog list \<Rightarrow> forecast_result res" where
  "forecast_new_product decpow q confirmed =
     (let as = sort_key an_sku confirmed; cand = fq_candidate q in
      ebind (validate_request q as) (\<lambda>_.
      let (c, reasons) = confidence_of q as;
          assumptions = sorted_set (fq_assumptions q);
          missing = sorted_set (fq_missing q @ (if pc_unit_cost cand = None then [''unit_cost_brl''] else []))
      in if c = LowConfidence then Inr (blocked_forecast reasons assumptions missing (map an_sku as))
      else ebind (forecast_inputs decpow q as) (\<lambda>(demand, avg_price, avg_ad, pf, af).
           ebind (shown_factors demand avg_price avg_ad pf af) (\<lambda>factors.
           ebind (emap (forecast_horizon q c (planned_net_price cand) demand pf af) [7, 30, 90]) (\<lambda>hs.
           ebind (guidance_units hs (guidance_horizon cand)) (\<lambda>(high, interpolated).
           ebind (round_to_moq (recommended_units q high) (pc_moq cand)) (\<lambda>moq.
             Inr \<lparr>fc_confidence = c, fc_reasons = reasons, fc_horizons = hs,
                  fc_recommended = Some (recommended_units q high), fc_moq = Some moq,
                  fc_factors = Some factors,
                  fc_assumptions = sorted_set (assumptions @ (if interpolated
                    then [''first_order_high_units_linearly_interpolated_30_90''] else [])),
                  fc_missing = missing, fc_limitations = forecast_limits cand,
                  fc_analogs = map an_sku as,
                  fc_guidance = Some (guidance_horizon cand, if interpolated
                    then ''linear_interpolation_of_approved_30_90_high_units''
                    else ''approved_horizon'')\<rparr>)))))))"

section \<open>Backtest\<close>

record backtest_window =
  bw_id :: string
  bw_request :: forecast_request
  bw_analogs :: "analog list"
  bw_actual :: "(int \<times> int) list"

record backtest_state =
  bs_errors :: "dec list"
  bs_actual :: dec
  bs_covered :: int
  bs_repeat :: bool
  bs_sensitivities :: "dec list"
  bs_count :: int

record backtest_result =
  br_count :: int
  br_mae :: dec
  br_wape :: "dec option"
  br_coverage :: dec
  br_sensitivity :: dec
  br_repeat :: bool
  br_limitations :: "string list"

definition base_units :: "forecast_result \<Rightarrow> int \<Rightarrow> int" where
  "base_units r h = (case map_of (fc_horizons r) h of None \<Rightarrow> 0 | Some f \<Rightarrow> sc_base (hf_units f))"

definition score_actual :: "forecast_result \<Rightarrow> int \<times> int \<Rightarrow> backtest_state \<Rightarrow> backtest_state res" where
  "score_actual r p s =
     (case map_of (fc_horizons r) (fst p) of
        None \<Rightarrow> Inl (ValueError ''backtest_actual_invalid'')
      | Some f \<Rightarrow> if snd p < 0 then Inl (ValueError ''backtest_actual_invalid'')
          else Inr (s\<lparr>bs_errors := bs_errors s @ [dabs (dsub (of_int (sc_base (hf_units f))) (of_int (snd p)))],
                     bs_actual := dadd (bs_actual s) (of_int (snd p)),
                     bs_covered := bs_covered s + (if sc_low (hf_units f) \<le> snd p \<and> snd p \<le> sc_high (hf_units f)
                       then 1 else 0),
                     bs_count := bs_count s + 1\<rparr>))"

definition sensitivity :: "forecast_result \<Rightarrow> forecast_result \<Rightarrow> int \<times> int \<Rightarrow> dec res" where
  "sensitivity first alternative p =
     (let base = of_int (base_units first (fst p)) in
      ddiv (dabs (dsub (of_int (base_units alternative (fst p))) base)) (max base 1))"

definition omit_analog :: "(dec \<Rightarrow> dec res) \<Rightarrow> backtest_window \<Rightarrow> forecast_result \<Rightarrow> analog
    \<Rightarrow> backtest_state \<Rightarrow> backtest_state res" where
  "omit_analog decpow w first omitted s =
     ebind (forecast_new_product decpow (bw_request w)
         (filter (\<lambda>a. an_sku a \<noteq> an_sku omitted) (bw_analogs w))) (\<lambda>alternative.
       if fc_confidence alternative = LowConfidence then Inr s
       else ebind (emap (sensitivity first alternative) (sort_key fst (bw_actual w))) (\<lambda>xs.
         Inr (s\<lparr>bs_sensitivities := bs_sensitivities s @ xs\<rparr>)))"

definition run_window :: "(dec \<Rightarrow> dec res) \<Rightarrow> backtest_window \<Rightarrow> backtest_state \<Rightarrow> backtest_state res" where
  "run_window decpow w s =
     ebind (forecast_new_product decpow (bw_request w) (bw_analogs w)) (\<lambda>first.
     ebind (forecast_new_product decpow (bw_request w) (bw_analogs w)) (\<lambda>second.
       if fc_confidence first = LowConfidence
       then Inl (ValueError ''backtest_window_insufficient_evidence'')
       else ebind (efold (score_actual first) (sort_key fst (bw_actual w))
              (s\<lparr>bs_repeat := bs_repeat s \<and> first = second\<rparr>)) (\<lambda>s'.
            if 3 \<le> length (bw_analogs w) then efold (omit_analog decpow w first) (bw_analogs w) s'
            else Inr s')))"

definition max_or_zero :: "dec list \<Rightarrow> dec" where
  "max_or_zero xs = (case xs of [] \<Rightarrow> 0 | x # ys \<Rightarrow> foldl max x ys)"

definition no_score :: backtest_state where
  "no_score = \<lparr>bs_errors = [], bs_actual = 0, bs_covered = 0, bs_repeat = True,
     bs_sensitivities = [], bs_count = 0\<rparr>"

definition mae_of :: "backtest_state \<Rightarrow> dec res" where
  "mae_of s = ebind (ddiv (dsum (bs_errors s)) (of_int (bs_count s))) (quantize HalfUp 2)"

definition wape_of :: "backtest_state \<Rightarrow> dec option res" where
  "wape_of s = (if 0 < bs_actual s
     then ebind (ddiv (dsum (bs_errors s)) (bs_actual s)) (\<lambda>w. ebind (six_up w) (\<lambda>y. Inr (Some y)))
     else Inr None)"

definition coverage_of :: "backtest_state \<Rightarrow> dec res" where
  "coverage_of s = ebind (ddiv (of_int (bs_covered s)) (of_int (bs_count s))) six_up"

definition backtest_report :: "backtest_state \<Rightarrow> backtest_result res" where
  "backtest_report s =
     (if bs_count s = 0 then Inl (ValueError ''backtest_actual_missing'') else
      ebind (mae_of s) (\<lambda>mae. ebind (wape_of s) (\<lambda>wape. ebind (coverage_of s) (\<lambda>coverage.
      ebind (six_up (max_or_zero (bs_sensitivities s))) (\<lambda>sens.
        Inr \<lparr>br_count = bs_count s, br_mae = mae, br_wape = wape, br_coverage = coverage,
             br_sensitivity = sens, br_repeat = bs_repeat s,
             br_limitations = (if bs_actual s = 0 then [''wape_undefined_zero_actual_total''] else [])\<rparr>)))))"

definition backtest_hidden_windows :: "(dec \<Rightarrow> dec res) \<Rightarrow> backtest_window list \<Rightarrow> backtest_result res" where
  "backtest_hidden_windows decpow windows =
     (if windows = [] then Inl (ValueError ''backtest_windows_missing'')
      else ebind (efold (run_window decpow) (sort_key bw_id windows) no_score) backtest_report)"

section \<open>Lemmas on one horizon\<close>

lemma clamp_bounds: "lo \<le> hi \<Longrightarrow> lo \<le> clamp lo hi x \<and> clamp lo hi x \<le> hi"
  by (auto simp: clamp_def)

lemma price_factor_bounds: "price_factor f p w = Inr x \<Longrightarrow> 60/100 \<le> x \<and> x \<le> 140/100"
  using clamp_bounds [of "60/100" "140/100"] by (auto simp: price_factor_def elim!: ebind_eq_InrE)

lemma advertising_factor_bounds: "advertising_factor p w = Inr x \<Longrightarrow> 80/100 \<le> x \<and> x \<le> 120/100"
  using clamp_bounds [of "80/100" "120/100"]
  by (auto simp: advertising_factor_def elim!: ebind_eq_InrE split: if_splits)

lemma whole_up_mono: "whole_up x = Inr i \<Longrightarrow> whole_up y = Inr j \<Longrightarrow> x \<le> y \<Longrightarrow> i \<le> j"
  by (auto simp: whole_up_def elim!: ebind_eq_InrE intro: floor_mono quant_mono)

lemma whole_up_nonneg: "whole_up x = Inr i \<Longrightarrow> 0 \<le> x \<Longrightarrow> 0 \<le> i"
  by (auto simp: whole_up_def elim!: ebind_eq_InrE dest!: quantize_InrD intro: quant_nonneg)

lemma each_scenario_cases:
  assumes "each_scenario f s = Inr t"
  shows "f (sc_low s) = Inr (sc_low t)" and "f (sc_base s) = Inr (sc_base t)" and "f (sc_high s) = Inr (sc_high t)"
  using assms by (auto simp: each_scenario_def elim!: ebind_eq_InrE)

definition ascending :: "'a :: linorder \<Rightarrow> 'a scenarios \<Rightarrow> bool" where
  "ascending z s \<longleftrightarrow> z \<le> sc_low s \<and> sc_low s \<le> sc_base s \<and> sc_base s \<le> sc_high s"

lemma each_scenario_ascending:
  assumes "each_scenario f s = Inr t" and "ascending z s"
    and "\<And>x y a b. z \<le> x \<Longrightarrow> x \<le> y \<Longrightarrow> f x = Inr a \<Longrightarrow> f y = Inr b \<Longrightarrow> a \<le> b"
    and "\<And>x a. z \<le> x \<Longrightarrow> f x = Inr a \<Longrightarrow> z' \<le> a"
  shows "ascending z' t"
  using each_scenario_cases [OF assms(1)] assms(2-4) by (auto simp: ascending_def) (meson order_trans)+

lemma multipliers_ascending: "ascending 0 (multipliers c)"
  by (cases c) (simp_all add: multipliers_def ascending_def)

lemma units_ascending:
  assumes "each_scenario (scenario_units b) (multipliers c) = Inr u" and "0 \<le> b"
  shows "ascending 0 u"
  using assms(1) multipliers_ascending
proof (rule each_scenario_ascending)
  fix x y :: rat and m n
  assume "x \<le> y" "scenario_units b x = Inr m" "scenario_units b y = Inr n"
  then show "m \<le> n" using assms(2) by (auto simp: scenario_units_def intro: whole_up_mono dmul_mono)
next
  fix x :: rat and m
  assume "0 \<le> x" "scenario_units b x = Inr m"
  then show "0 \<le> m" using assms(2) by (auto simp: scenario_units_def intro: whole_up_nonneg dmul_nonneg)
qed

lemma money_half_up_eq: "money_half_up x = Inr y \<Longrightarrow> y = quant HalfUp 2 x"
  by (auto simp: money_half_up_def)

lemma dmul_commute: "dmul x y = dmul y x"
  by (simp add: dmul_def mult.commute)

lemma revenue_ascending:
  assumes "each_scenario (scenario_revenue price) u = Inr v" and "ascending 0 u" and "0 \<le> price"
  shows "ascending 0 v"
  using assms(1,2)
proof (rule each_scenario_ascending)
  fix x y :: int and m n :: rat
  assume "x \<le> y" "scenario_revenue price x = Inr m" "scenario_revenue price y = Inr n"
  then show "m \<le> n"
    using dmul_mono [OF assms(3), of "of_int x" "of_int y"]
    by (auto simp: scenario_revenue_def dmul_commute [of _ price] dest!: money_half_up_eq intro: quant_mono)
next
  fix x :: int and m :: rat
  assume "0 \<le> x" "scenario_revenue price x = Inr m"
  then show "0 \<le> m"
    using dmul_nonneg [of "of_int x" price] assms(3)
    by (auto simp: scenario_revenue_def dest!: money_half_up_eq intro: quant_nonneg)
qed

lemma raw_base_nonneg: "0 \<le> d \<Longrightarrow> 0 \<le> h \<Longrightarrow> 0 \<le> pf \<Longrightarrow> 0 \<le> af \<Longrightarrow> 0 \<le> raw_base d h pf af"
  by (auto simp: raw_base_def launch_ramp_def intro!: dmul_nonneg)

lemma forecast_horizon_facts:
  assumes "forecast_horizon q c price d pf af h = Inr (h', f)"
    and "0 \<le> d" and "0 \<le> h" and "0 \<le> pf" and "0 \<le> af" and "0 \<le> price"
  shows "h' = h \<and> ascending 0 (hf_units f) \<and> ascending 0 (hf_revenue f)"
proof -
  obtain u v where u: "each_scenario (scenario_units (raw_base d h pf af)) (multipliers c) = Inr u"
    and v: "each_scenario (scenario_revenue price) u = Inr v" and f: "h' = h" "hf_units f = u" "hf_revenue f = v"
    using assms(1) unfolding forecast_horizon_def by (elim ebind_eq_InrE) auto
  have "ascending 0 u" using u raw_base_nonneg [OF assms(2-5)] by (rule units_ascending)
  moreover from v this assms(6) have "ascending 0 v" by (rule revenue_ascending)
  ultimately show ?thesis by (simp add: f)
qed

lemma daily_units_nonneg: "daily_units h = Inr u \<Longrightarrow> 0 \<le> hs_total_units h \<Longrightarrow> 0 \<le> u"
  by (auto simp: daily_units_def split: if_splits intro: ddiv_nonneg)

lemma weighted_nonneg:
  assumes "weighted as vs w = Inr x" and "\<forall>a \<in> set as. 0 \<le> an_score a" and "\<forall>v \<in> set vs. 0 \<le> v" and "0 < w"
  shows "0 \<le> x"
proof -
  have "0 \<le> weighted_sum as vs"
    unfolding weighted_sum_def using assms(2,3)
    by (intro dsum_nonneg) (auto dest: set_zip_leftD set_zip_rightD intro!: dmul_nonneg)
  then show ?thesis using assms(1,4) ddiv_nonneg [of "weighted_sum as vs" w x] by (simp add: weighted_def)
qed

lemma forecast_inputs_facts:
  assumes "forecast_inputs f q as = Inr (d, ap, aa, pf, af)"
    and "\<forall>a \<in> set as. 0 \<le> an_score a \<and> 0 \<le> hs_total_units (an_historical a)"
  shows "0 \<le> d \<and> 0 < planned_net_price (fq_candidate q) \<and> 60/100 \<le> pf \<and> pf \<le> 140/100 \<and> 80/100 \<le> af \<and> af \<le> 120/100"
proof -
  obtain us where us: "emap (daily_units \<circ> an_historical) as = Inr us"
    and d: "weighted as us (dsum (map an_score as)) = Inr d" and w: "0 < dsum (map an_score as)"
    and p: "0 < planned_net_price (fq_candidate q)"
    and pf: "price_factor f (planned_net_price (fq_candidate q)) ap = Inr pf"
    and af: "advertising_factor (pc_daily_ad (fq_candidate q)) aa = Inr af"
    using assms(1) unfolding forecast_inputs_def Let_def
    by (auto elim!: ebind_eq_InrE split: if_splits simp: not_le)
  have "\<forall>u \<in> set us. 0 \<le> u"
    using emap_set [OF us] assms(2) by (fastforce intro: daily_units_nonneg)
  then have "0 \<le> d" using weighted_nonneg [OF d] assms(2) w by blast
  then show ?thesis using p price_factor_bounds [OF pf] advertising_factor_bounds [OF af] by blast
qed

section \<open>Lemmas on the forecast\<close>

lemma forecast_cases:
  assumes "forecast_new_product f q confirmed = Inr r"
  obtains (blocked) "r = blocked_forecast (fc_reasons r) (fc_assumptions r) (fc_missing r) (fc_analogs r)"
    | (known) d ap aa pf af high b fs m where "fc_confidence r \<noteq> LowConfidence"
        and "validate_request q (sort_key an_sku confirmed) = Inr ()"
        and "forecast_inputs f q (sort_key an_sku confirmed) = Inr (d, ap, aa, pf, af)"
        and "shown_factors d ap aa pf af = Inr fs" and "fc_factors r = Some fs"
        and "emap (forecast_horizon q (fc_confidence r) (planned_net_price (fq_candidate q)) d pf af) [7, 30, 90]
               = Inr (fc_horizons r)"
        and "guidance_units (fc_horizons r) (guidance_horizon (fq_candidate q)) = Inr (high, b)"
        and "fc_recommended r = Some (recommended_units q high)"
        and "round_to_moq (recommended_units q high) (pc_moq (fq_candidate q)) = Inr m" and "fc_moq r = Some m"
proof -
  let ?as = "sort_key an_sku confirmed"
  obtain c rs where c: "confidence_of q ?as = (c, rs)" by (cases "confidence_of q ?as")
  show thesis
  proof (cases "c = LowConfidence")
    case True
    then show thesis using assms c blocked
      by (auto simp: forecast_new_product_def Let_def blocked_forecast_def elim!: ebind_eq_InrE)
  next
    case False
    then obtain d ap aa pf af fs hs high b m where v: "validate_request q ?as = Inr ()"
      and i: "forecast_inputs f q ?as = Inr (d, ap, aa, pf, af)" and s: "shown_factors d ap aa pf af = Inr fs"
      and h: "emap (forecast_horizon q c (planned_net_price (fq_candidate q)) d pf af) [7, 30, 90] = Inr hs"
      and g: "guidance_units hs (guidance_horizon (fq_candidate q)) = Inr (high, b)"
      and m: "round_to_moq (recommended_units q high) (pc_moq (fq_candidate q)) = Inr m"
      and r: "fc_confidence r = c" "fc_factors r = Some fs" "fc_horizons r = hs"
        "fc_recommended r = Some (recommended_units q high)" "fc_moq r = Some m"
      using assms c unfolding forecast_new_product_def Let_def
      by (simp del: emap.simps) (elim ebind_eq_InrE, auto simp del: emap.simps elim!: ebind_eq_InrE)
    show thesis using known [of d ap aa pf af fs high b m] False v i s h g m r by simp
  qed
qed

lemma six_up_between:
  assumes "six_up x = Inr y" and "has_places 6 lo" and "has_places 6 hi" and "lo \<le> x" and "x \<le> hi"
  shows "lo \<le> y \<and> y \<le> hi"
  using assms quant_mono [of lo x HalfUp 6] quant_mono [of x hi HalfUp 6] by (auto simp: six_up_def quant_id)

lemma shown_factors_between:
  assumes "shown_factors d ap aa pf af = Inr fs" and "60/100 \<le> pf \<and> pf \<le> 140/100" and "80/100 \<le> af \<and> af \<le> 120/100"
  shows "60/100 \<le> ff_price fs \<and> ff_price fs \<le> 140/100 \<and> 80/100 \<le> ff_advertising fs \<and> ff_advertising fs \<le> 120/100"
proof -
  have p: "has_places 6 (60/100)" "has_places 6 (140/100)" "has_places 6 (80/100)" "has_places 6 (120/100)"
    by (simp_all add: has_places_def)
  have "six_up pf = Inr (ff_price fs)" "six_up af = Inr (ff_advertising fs)"
    using assms(1) by (auto simp: shown_factors_def elim!: ebind_eq_InrE)
  then show ?thesis
    using six_up_between [of pf "ff_price fs" "60/100" "140/100"]
      six_up_between [of af "ff_advertising fs" "80/100" "120/100"] p assms(2,3) by blast
qed

lemma horizons_facts:
  assumes "emap (forecast_horizon q c price d pf af) [7, 30, 90] = Inr hs"
    and "0 \<le> d" and "0 \<le> pf" and "0 \<le> af" and "0 \<le> price"
  shows "map fst hs = [7, 30, 90]" and "\<forall>p \<in> set hs. ascending 0 (hf_units (snd p)) \<and> ascending 0 (hf_revenue (snd p))"
proof -
  have f: "fst p = h \<and> ascending 0 (hf_units (snd p)) \<and> ascending 0 (hf_revenue (snd p))"
    if "forecast_horizon q c price d pf af h = Inr p" "0 \<le> h" for h p
    using forecast_horizon_facts [of q c price d pf af h "fst p" "snd p"] that assms(2-5) by simp
  have "map fst hs = map id [7, 30, 90]"
  proof (rule emap_keys [OF assms(1)])
    fix h p assume "forecast_horizon q c price d pf af h = Inr p"
    then show "fst p = id h"
      unfolding forecast_horizon_def by (elim ebind_eq_InrE) auto
  qed
  then show "map fst hs = [7, 30, 90]" by simp
  show "\<forall>p \<in> set hs. ascending 0 (hf_units (snd p)) \<and> ascending 0 (hf_revenue (snd p))"
    using emap_set [OF assms(1)] f by fastforce
qed

text \<open>The multiple of the minimum order quantity.\<close>

lemma round_to_moq_facts:
  assumes "round_to_moq n moq = Inr m" and "0 < moq" and "n < 10 ^ 13" and "moq < 10 ^ 13" and "0 \<le> n"
  shows "n \<le> m \<and> moq dvd m \<and> m < n + moq"
proof (cases "n = 0")
  case True
  then show ?thesis using assms by (simp add: round_to_moq_def)
next
  case False
  define x :: rat where "x = of_int n / of_int moq"
  define k where "k = \<lceil>x\<rceil>"
  have n: "0 < n" using False assms(5) by simp
  have x: "0 < x" "x \<le> of_int n" using n assms(2) by (auto simp: x_def divide_le_eq)
  have k: "of_int (k - 1) < x" "x \<le> of_int k" by (simp_all add: k_def) linarith+
  have nb: "(of_int n :: rat) < 10 ^ 13" "(of_int moq :: rat) < 10 ^ 13"
    using assms(3,4) by (metis of_int_less_iff of_int_numeral of_int_power)+
  have kb: "0 < k" "k \<le> n" using x by (auto simp: k_def ceiling_le_iff)
  have "fix_prec x \<le> fix_prec (of_int k)" using k(2) by (rule fix_prec_mono)
  also have "\<dots> = of_int k" using kb assms(3) by (intro fix_prec_of_int) (simp add: prec_limit_def)
  finally have up: "fix_prec x \<le> of_int k" .
  let ?y = "of_int (k - 1) + 1 / 10 ^ 13 :: rat"
  have "k * moq \<ge> n" "(k - 1) * moq + 1 \<le> n"
  proof -
    have "of_int n \<le> (of_int (k * moq) :: rat)" using k(2) assms(2) by (simp add: x_def divide_le_eq)
    then show "k * moq \<ge> n" by (simp only: of_int_le_iff)
    have "of_int ((k - 1) * moq) < (of_int n :: rat)" using k(1) assms(2) by (simp add: x_def less_divide_eq)
    then show "(k - 1) * moq + 1 \<le> n" by (simp only: of_int_less_iff)
  qed
  note kn = this
  have "?y \<le> x"
  proof -
    have "of_int ((k - 1) * moq + 1) \<le> (of_int n :: rat)" using kn(2) by (simp only: of_int_le_iff)
    then have "of_int ((k - 1) * moq + 1) / of_int moq \<le> x"
      unfolding x_def using assms(2) by (intro divide_right_mono) simp_all
    moreover have "(of_int ((k - 1) * moq + 1) :: rat) / of_int moq = of_int (k - 1) + 1 / of_int moq"
      using assms(2) by (simp add: add_divide_distrib)
    ultimately have "of_int (k - 1) + 1 / of_int moq \<le> x" by simp
    moreover have "1 / 10 ^ 13 \<le> 1 / (of_int moq :: rat)" using nb(2) assms(2) by (intro divide_left_mono) auto
    ultimately show ?thesis by linarith
  qed
  then have "fix_prec ?y \<le> fix_prec x" by (rule fix_prec_mono)
  moreover have "fix_prec ?y = ?y"
  proof (rule fix_prec_places [of 13])
    have "?y = of_int ((k - 1) * 10 ^ 13 + 1) / 10 ^ 13" by (simp add: field_simps)
    then show "has_places 13 ?y" unfolding has_places_iff by blast
    have "(of_int k :: rat) \<le> of_int n" using kb(2) by (simp only: of_int_le_iff)
    moreover have "(1 :: rat) \<le> of_int k" using kb(1) by simp
    ultimately show "\<bar>?y\<bar> * 10 ^ 13 < of_int prec_limit" using nb(1) by (simp add: prec_limit_def)
  qed
  ultimately have "of_int (k - 1) < fix_prec x" by simp
  with up have "\<lceil>fix_prec x\<rceil> = k" by (intro ceiling_unique) simp_all
  then have "m = k * moq"
    using assms(1,2) n by (auto simp: round_to_moq_def ddiv_def to_integral_def x_def)
  then show ?thesis using kn by (auto simp: algebra_simps)
qed

section \<open>Properties of the forecast\<close>

definition demo_request :: forecast_request where
  "demo_request = \<lparr>fq_candidate = demo_candidate, fq_safety = 10, fq_assumptions = [], fq_missing = []\<rparr>"

definition demo_confirmed :: "analog list" where
  "demo_confirmed =
     [\<lparr>an_historical = \<lparr>hs_sku = ''A'', hs_category = ''home'', hs_attributes = [], hs_net_price = 100,
        hs_daily_ad = Some 6, hs_history_days = 90, hs_total_units = 180, hs_unit_cost = Some 30, hs_unknown = []\<rparr>,
       an_score = 3/4, an_components = \<lparr>ac_category = 1, ac_attributes = 1, ac_price = 1, ac_window = 1\<rparr>\<rparr>,
      \<lparr>an_historical = \<lparr>hs_sku = ''B'', hs_category = ''home'', hs_attributes = [], hs_net_price = 100,
        hs_daily_ad = Some 6, hs_history_days = 45, hs_total_units = 90, hs_unit_cost = Some 30, hs_unknown = []\<rparr>,
       an_score = 1/2, an_components = \<lparr>ac_category = 1, ac_attributes = 0, ac_price = 1, ac_window = 1\<rparr>\<rparr>]"

definition demo_power :: "dec \<Rightarrow> dec res" where
  "demo_power x = Inr 1"

definition demo_forecast :: "forecast_result res" where
  "demo_forecast = forecast_new_product demo_power demo_request demo_confirmed"

lemma demo_confirmed_ok:
  "\<forall>a \<in> set demo_confirmed. 0 \<le> an_score a \<and> 0 \<le> hs_total_units (an_historical a)"
proof -
  have "list_all (\<lambda>a. 0 \<le> an_score a \<and> 0 \<le> hs_total_units (an_historical a)) demo_confirmed" by code_simp
  then show ?thesis by (simp add: list_all_iff)
qed

lemma demo_forecast_run:
  obtains r where "demo_forecast = Inr r" and "fc_confidence r = MediumConfidence"
    and "map (\<lambda>p. sc_base (hf_units (snd p))) (fc_horizons r) = [9, 54, 180]"
    and "fc_recommended r = Some 125" and "fc_moq r = Some 132"
proof -
  have "case demo_forecast of Inr r \<Rightarrow> fc_confidence r = MediumConfidence
      \<and> map (\<lambda>p. sc_base (hf_units (snd p))) (fc_horizons r) = [9, 54, 180]
      \<and> fc_recommended r = Some 125 \<and> fc_moq r = Some 132 | Inl _ \<Rightarrow> False"
    by code_simp
  then show thesis using that by (auto split: sum.splits)
qed

text \<open>
  C32: the scenarios are ordered. For analogs with scores and units that are not negative, a
  forecast either is blocked for low confidence and has no numbers, or covers exactly 7, 30 and
  90 days, each with \<open>0 \<le> low \<le> base \<le> high\<close> for the units and for the revenue, from a price
  factor between 0.60 and 1.40 and an advertising factor between 0.80 and 1.20, whatever the
  decimal power returns.
\<close>

theorem forecast_scenarios_ordered:
  assumes "forecast_new_product f q confirmed = Inr r"
    and "\<forall>a \<in> set confirmed. 0 \<le> an_score a \<and> 0 \<le> hs_total_units (an_historical a)"
  shows "(fc_confidence r = LowConfidence \<and> fc_horizons r = [] \<and> fc_recommended r = None \<and> fc_moq r = None)
    \<or> (fc_confidence r \<noteq> LowConfidence \<and> map fst (fc_horizons r) = [7, 30, 90]
       \<and> (\<forall>p \<in> set (fc_horizons r). ascending 0 (hf_units (snd p)) \<and> ascending 0 (hf_revenue (snd p)))
       \<and> (\<exists>fs. fc_factors r = Some fs \<and> 60/100 \<le> ff_price fs \<and> ff_price fs \<le> 140/100
            \<and> 80/100 \<le> ff_advertising fs \<and> ff_advertising fs \<le> 120/100))"
  using assms(1)
proof (cases rule: forecast_cases)
  case blocked
  then show ?thesis unfolding blocked_forecast_def by (metis forecast_result.select_convs(1,3,4,5))
next
  case (known d ap aa pf af high b fs m)
  have "\<forall>a \<in> set (sort_key an_sku confirmed). 0 \<le> an_score a \<and> 0 \<le> hs_total_units (an_historical a)"
    using assms(2) by simp
  note i = forecast_inputs_facts [OF known(3) this]
  have "0 \<le> d" "0 \<le> pf" "0 \<le> af" "0 \<le> planned_net_price (fq_candidate q)" using i by auto
  note h = horizons_facts [OF known(6) this]
  have "60/100 \<le> ff_price fs \<and> ff_price fs \<le> 140/100 \<and> 80/100 \<le> ff_advertising fs \<and> ff_advertising fs \<le> 120/100"
    using i by (intro shown_factors_between [OF known(4)]) blast+
  then show ?thesis using known(1,5) h by blast
qed

theorem forecast_scenarios_ordered_witness:
  "\<exists>r. demo_forecast = Inr r \<and> map fst (fc_horizons r) = [7, 30, 90]
    \<and> (\<forall>p \<in> set (fc_horizons r). ascending 0 (hf_units (snd p)))"
proof -
  obtain r where d: "demo_forecast = Inr r" "fc_confidence r = MediumConfidence" by (rule demo_forecast_run)
  with forecast_scenarios_ordered [OF d(1) [unfolded demo_forecast_def] demo_confirmed_ok] show ?thesis by auto
qed

text \<open>
  The first order. The recommended order is not negative and, when the lead time falls on
  the 30 or the 90 day horizon, brings the opening stock up to the high units and the safety
  stock. The order that respects the minimum quantity is the least multiple of it that covers
  the recommendation (for quantities below 10^13, where the rounded division is exact enough).
\<close>

theorem first_order_moq:
  assumes "forecast_new_product f q confirmed = Inr r" and "fc_recommended r = Some n" and "fc_moq r = Some m"
    and "n < 10 ^ 13" and "pc_moq (fq_candidate q) < 10 ^ 13"
  shows "0 \<le> n \<and> n \<le> m \<and> pc_moq (fq_candidate q) dvd m \<and> m < n + pc_moq (fq_candidate q)
    \<and> (guidance_horizon (fq_candidate q) \<in> fst ` set (fc_horizons r) \<longrightarrow>
        high_units_at (fc_horizons r) (guidance_horizon (fq_candidate q)) + fq_safety q
          \<le> pc_opening (fq_candidate q) + n)"
  using assms(1)
proof (cases rule: forecast_cases)
  case blocked
  then have "fc_recommended r = None" unfolding blocked_forecast_def by (metis forecast_result.select_convs(4))
  then show ?thesis using assms(2) by simp
next
  case (known d ap aa pf af high b fs m')
  have n: "n = recommended_units q high" "m' = m" using known(8,10) assms(2,3) by simp_all
  have "0 < pc_moq (fq_candidate q)"
    using known(2) by (auto simp: validate_request_def Let_def elim!: ebind_eq_InrE)
  moreover have "0 \<le> n" by (simp add: n recommended_units_def)
  ultimately have "n \<le> m \<and> pc_moq (fq_candidate q) dvd m \<and> m < n + pc_moq (fq_candidate q)"
    using round_to_moq_facts [of n "pc_moq (fq_candidate q)" m] known(9) assms(4,5) by (simp add: n)
  moreover have "guidance_horizon (fq_candidate q) \<in> fst ` set (fc_horizons r) \<longrightarrow>
      high = high_units_at (fc_horizons r) (guidance_horizon (fq_candidate q))"
    using known(7) unfolding guidance_units_def by (metis Inr_inject Pair_inject)
  ultimately show ?thesis using \<open>0 \<le> n\<close> by (auto simp: n recommended_units_def)
qed

theorem first_order_moq_witness:
  "\<exists>r. demo_forecast = Inr r \<and> fc_recommended r = Some 125 \<and> fc_moq r = Some 132
    \<and> pc_moq (fq_candidate demo_request) dvd 132"
proof -
  obtain r where d: "demo_forecast = Inr r" "fc_recommended r = Some 125" "fc_moq r = Some 132"
    by (rule demo_forecast_run)
  have "pc_moq (fq_candidate demo_request) < 10 ^ 13" by (simp add: demo_request_def demo_candidate_def)
  from first_order_moq [OF d(1) [unfolded demo_forecast_def] d(2,3) _ this] d show ?thesis
    by (intro exI [of _ r]) simp
qed

section \<open>Properties of the backtest\<close>

definition scores_ok :: "backtest_state \<Rightarrow> bool" where
  "scores_ok s \<longleftrightarrow> (\<forall>x \<in> set (bs_errors s). 0 \<le> x) \<and> 0 \<le> bs_actual s \<and> 0 \<le> bs_covered s
     \<and> bs_covered s \<le> bs_count s \<and> bs_repeat s \<and> (\<forall>x \<in> set (bs_sensitivities s). 0 \<le> x)"

lemma score_actual_ok: "score_actual r p s = Inr t \<Longrightarrow> scores_ok s \<Longrightarrow> scores_ok t"
  by (auto simp: score_actual_def scores_ok_def dabs_def dadd_nonneg fix_prec_nonneg
      split: option.splits if_splits)

lemma omit_analog_ok:
  assumes "omit_analog f w first omitted s = Inr t" and "scores_ok s"
  shows "scores_ok t"
proof -
  have "0 \<le> x" if "sensitivity first alternative p = Inr x" for alternative p x
    using that unfolding sensitivity_def Let_def by (rule ddiv_nonneg) (auto simp: dabs_def fix_prec_nonneg)
  then have sens: "\<forall>x \<in> set xs. 0 \<le> x" if "emap (sensitivity first alternative) ps = Inr xs" for alternative ps xs
    using emap_set [OF that] by blast
  consider "t = s" | alternative xs where "emap (sensitivity first alternative) (sort_key fst (bw_actual w)) = Inr xs"
      "t = s\<lparr>bs_sensitivities := bs_sensitivities s @ xs\<rparr>"
    using assms(1) unfolding omit_analog_def by (auto elim!: ebind_eq_InrE split: if_splits)
  then show ?thesis
  proof cases
    case 2
    then show ?thesis using assms(2) sens [OF 2(1)] by (auto simp: scores_ok_def)
  qed (use assms(2) in simp)
qed

lemma run_window_ok:
  assumes "run_window f w s = Inr t" and "scores_ok s"
  shows "scores_ok t"
proof -
  obtain first s' where s': "efold (score_actual first) (sort_key fst (bw_actual w)) (s\<lparr>bs_repeat := bs_repeat s\<rparr>) = Inr s'"
    and t: "t = s' \<or> efold (omit_analog f w first) (bw_analogs w) s' = Inr t"
    using assms(1) unfolding run_window_def by (auto elim!: ebind_eq_InrE split: if_splits)
  have "scores_ok (s\<lparr>bs_repeat := bs_repeat s\<rparr>)" using assms(2) by (simp add: scores_ok_def)
  with s' have "scores_ok s'" by (rule efold_invariant) (rule score_actual_ok)
  with t show ?thesis by (auto elim: efold_invariant intro: omit_analog_ok)
qed

lemma max_or_zero_nonneg: "\<forall>x \<in> set xs. 0 \<le> x \<Longrightarrow> 0 \<le> max_or_zero xs"
proof -
  have "0 \<le> a \<Longrightarrow> 0 \<le> foldl max a ys" for a :: rat and ys
    by (induction ys arbitrary: a) auto
  then show "\<forall>x \<in> set xs. 0 \<le> x \<Longrightarrow> 0 \<le> max_or_zero xs"
    by (auto simp: max_or_zero_def split: list.splits)
qed

lemma six_up_nonneg: "six_up x = Inr y \<Longrightarrow> 0 \<le> x \<Longrightarrow> 0 \<le> y"
  by (auto simp: six_up_def dest!: quantize_InrD intro: quant_nonneg)

lemma errors_nonneg: "scores_ok s \<Longrightarrow> 0 \<le> dsum (bs_errors s)"
  by (intro dsum_nonneg) (auto simp: scores_ok_def)

lemma mae_nonneg:
  assumes "mae_of s = Inr y" and "scores_ok s"
  shows "0 \<le> y"
proof -
  obtain q where q: "ddiv (dsum (bs_errors s)) (of_int (bs_count s)) = Inr q" "quantize HalfUp 2 q = Inr y"
    using assms(1) by (auto simp: mae_of_def elim!: ebind_eq_InrE)
  have "0 \<le> q" using q(1) errors_nonneg [OF assms(2)]
    by (rule ddiv_nonneg) (use assms(2) in \<open>auto simp: scores_ok_def\<close>)
  then show ?thesis using q(2) by (auto dest!: quantize_InrD intro: quant_nonneg)
qed

lemma wape_nonneg:
  assumes "wape_of s = Inr (Some y)" and "scores_ok s"
  shows "0 \<le> y"
proof -
  obtain q where q: "ddiv (dsum (bs_errors s)) (bs_actual s) = Inr q" "six_up q = Inr y"
    using assms(1) by (auto simp: wape_of_def elim!: ebind_eq_InrE split: if_splits)
  have "0 \<le> q" using q(1) errors_nonneg [OF assms(2)]
    by (rule ddiv_nonneg) (use assms(2) in \<open>auto simp: scores_ok_def\<close>)
  with q(2) show ?thesis by (rule six_up_nonneg)
qed

lemma coverage_share:
  assumes "coverage_of s = Inr y" and "scores_ok s"
  shows "share y"
proof -
  obtain q where q: "ddiv (of_int (bs_covered s)) (of_int (bs_count s)) = Inr q" "six_up q = Inr y"
    using assms(1) by (auto simp: coverage_of_def elim!: ebind_eq_InrE)
  have "share q" using q(1) by (rule ddiv_share) (use assms(2) in \<open>simp_all add: scores_ok_def\<close>)
  with q(2) show ?thesis by (rule six_up_share)
qed

text \<open>
  the backtest's figures are what they claim to be. A backtest that returns has evaluated
  at least one case; the mean error and the sensitivity are not negative; the coverage is a
  share between 0 and 1; the weighted error is missing exactly when all actuals are zero, which
  is then stated as a limitation; and the repeated forecasts agreed.
\<close>

theorem backtest_figures:
  assumes "backtest_hidden_windows f ws = Inr b"
  shows "0 < br_count b \<and> 0 \<le> br_mae b \<and> share (br_coverage b) \<and> 0 \<le> br_sensitivity b \<and> br_repeat b
    \<and> (\<forall>w. br_wape b = Some w \<longrightarrow> 0 \<le> w)
    \<and> (br_wape b = None \<longleftrightarrow> br_limitations b = [''wape_undefined_zero_actual_total''])"
proof -
  obtain s where s: "efold (run_window f) (sort_key bw_id ws) no_score = Inr s" and r: "backtest_report s = Inr b"
    using assms by (auto simp: backtest_hidden_windows_def elim!: ebind_eq_InrE split: if_splits)
  have "scores_ok no_score" by (simp add: scores_ok_def no_score_def)
  with s have ok: "scores_ok s" by (rule efold_invariant) (rule run_window_ok)
  have c: "bs_count s \<noteq> 0" "br_count b = bs_count s" "br_repeat b = bs_repeat s"
    and m: "mae_of s = Inr (br_mae b)" and w: "wape_of s = Inr (br_wape b)" and co: "coverage_of s = Inr (br_coverage b)"
    and se: "six_up (max_or_zero (bs_sensitivities s)) = Inr (br_sensitivity b)"
    and l: "br_limitations b = (if bs_actual s = 0 then [''wape_undefined_zero_actual_total''] else [])"
    using r unfolding backtest_report_def by (auto elim!: ebind_eq_InrE split: if_splits)
  have o: "0 < bs_count s" "0 \<le> bs_actual s" "bs_repeat s" using ok c(1) by (auto simp: scores_ok_def)
  have "0 \<le> br_mae b" "share (br_coverage b)" "0 \<le> br_sensitivity b"
    using mae_nonneg [OF m ok] coverage_share [OF co ok]
      six_up_nonneg [OF se max_or_zero_nonneg] ok by (auto simp: scores_ok_def)
  moreover have "\<forall>y. br_wape b = Some y \<longrightarrow> 0 \<le> y" using wape_nonneg [OF _ ok] w by auto
  moreover have "br_wape b = None \<longleftrightarrow> bs_actual s = 0"
    using w o(2) by (cases "br_wape b") (auto simp: wape_of_def elim!: ebind_eq_InrE split: if_splits)
  ultimately show ?thesis using o c(2,3) l by simp
qed

definition demo_window :: backtest_window where
  "demo_window = \<lparr>bw_id = ''w1'', bw_request = demo_request, bw_analogs = demo_confirmed,
     bw_actual = [(30, 60), (7, 30)]\<rparr>"

theorem backtest_figures_witness:
  "\<exists>b. backtest_hidden_windows demo_power [demo_window] = Inr b \<and> br_count b = 2 \<and> br_coverage b = 1/2
    \<and> 0 \<le> br_mae b"
proof -
  have "case backtest_hidden_windows demo_power [demo_window] of
      Inr b \<Rightarrow> br_count b = 2 \<and> br_coverage b = 1/2 | Inl _ \<Rightarrow> False" by code_simp
  then obtain b where d: "backtest_hidden_windows demo_power [demo_window] = Inr b" "br_count b = 2" "br_coverage b = 1/2"
    by (auto split: sum.splits)
  with backtest_figures [OF d(1)] show ?thesis by blast
qed

end
