(* ===== verification/Schema.thy ===== *)
theory Schema
  imports PyValue
begin

text \<open>
  The rows of the database (\<open>src/db/schema.py\<close>) that the session and action services read and
  write, and the state of the whole database as one record of tables. A table is the list of
  its rows in the order of insertion; identifiers, hashes and workspace names are text, times
  are integers (microseconds). Columns a service only copies around are kept as they are;
  columns no modelled operation reads are left out.
\<close>

type_synonym uuid = string
type_synonym digest = string
type_synonym time = int

datatype json = JNull | JBool bool | JInt int | JStr string | JList "json list" | JObj "(string \<times> json) list"

section \<open>Accounts, sessions, turns\<close>

record operator_account =
  oa_id :: uuid
  oa_workspace :: string
  oa_login :: string
  oa_password_hash :: string
  oa_active :: bool

record operator_session =
  os_id :: uuid
  os_workspace :: string
  os_operator :: uuid
  os_token_hash :: digest
  os_csrf_hash :: digest
  os_created_at :: time
  os_last_seen_at :: time
  os_idle_expires_at :: time
  os_absolute_expires_at :: time
  os_revoked_at :: "time option"

datatype session_status = Active | Ended | Expired

record demo_session =
  ds_id :: uuid
  ds_workspace :: string
  ds_token_hash :: digest
  ds_csrf_hash :: digest
  ds_source_hash :: digest
  ds_dataset_version :: "uuid option"
  ds_forecast :: "uuid option"
  ds_profit_bridge :: "uuid option"
  ds_imported_at :: "time option"
  ds_chat_epoch :: int
  ds_status :: session_status
  ds_created_at :: time
  ds_last_seen_at :: time
  ds_idle_expires_at :: time
  ds_absolute_expires_at :: time
  ds_ended_at :: "time option"

text \<open>A chat turn, as far as the sessions are concerned: whose it is.\<close>

datatype chat_actor = ByOperator uuid | ByDemo uuid

record turn_row =
  tr_id :: uuid
  tr_actor :: chat_actor

section \<open>Action cards\<close>

datatype action_status = New | Reviewed | Approved | Dismissed

datatype action_command = Review | Adjust | Approve | Dismiss | Export | RecordOutcome

datatype source_type = DeterministicRule | NewProductForecast | ProfitBridgeSource | OperatingAdvice | ChatBoxDraft

datatype fact_state = Measured | Derived | Assumed | Unknown

datatype certainty = Low | Medium | High

record fact_ref =
  fr_alias :: string
  fr_state :: fact_state
  fr_source_ref :: string
  fr_value :: "string option"

text \<open>
  What a suggestion says and what it rests on: the fields that \<open>ActionSource\<close> and
  \<open>ActionRevision\<close> share. A number is a finite decimal or one of the special values.
\<close>

record action_content =
  ac_suggestion :: string
  ac_target :: string
  ac_period_start :: date
  ac_period_end :: date
  ac_scope :: "(string \<times> json) list"
  ac_quantity :: "literal option"
  ac_budget :: "literal option"
  ac_action_date :: "date option"
  ac_threshold :: "literal option"
  ac_expected_impact :: "(string \<times> string) list"
  ac_confidence :: certainty
  ac_limitations :: "string list"
  ac_analysis_run :: "uuid option"
  ac_forecast :: "uuid option"
  ac_bridge :: "uuid option"
  ac_chat_turn :: "uuid option"
  ac_chat_tool :: "string option"
  ac_answer_version :: "string option"

record action_source = action_content +
  as_source_type :: source_type
  as_dataset_version :: uuid

record revision_row =
  rv_id :: uuid
  rv_action :: uuid
  rv_number :: int
  rv_content :: action_content
  rv_facts :: "fact_ref list"
  rv_created_at :: time

record card_row =
  cr_id :: uuid
  cr_workspace :: string
  cr_dataset_version :: uuid
  cr_source_type :: source_type
  cr_status :: action_status
  cr_current_revision :: int
  cr_key_hash :: digest
  cr_request_hash :: digest
  cr_created_at :: time
  cr_updated_at :: time
  cr_terminal_at :: "time option"

record decision_row =
  dr_id :: uuid
  dr_action :: uuid
  dr_revision :: int
  dr_ordinal :: int
  dr_command :: action_command
  dr_reason :: string
  dr_key_hash :: digest
  dr_request_hash :: digest
  dr_created_at :: time

record export_row =
  er_id :: uuid
  er_action :: uuid
  er_revision :: int
  er_storage_object :: "uuid option"
  er_sha256 :: digest
  er_key_hash :: digest
  er_request_hash :: digest
  er_created_at :: time

datatype conclusion = Achieved | PartiallyAchieved | NotAchieved | Inconclusive

record outcome_row =
  or_id :: uuid
  or_action :: uuid
  or_revision :: int
  or_outcome_revision :: int
  or_review_date :: date
  or_result :: "(string \<times> string) list"
  or_evidence :: "fact_ref list"
  or_conclusion :: conclusion
  or_reason :: string
  or_key_hash :: digest
  or_request_hash :: digest
  or_created_at :: time

record overlay_row =
  ov_id :: uuid
  ov_session :: uuid
  ov_action :: uuid
  ov_base_revision :: int
  ov_revision :: int
  ov_command :: action_command
  ov_status :: action_status
  ov_adjustment :: "(string \<times> json) list"
  ov_reason :: string
  ov_key_hash :: digest
  ov_request_hash :: digest
  ov_created_at :: time

section \<open>The database\<close>

record db =
  db_workspaces :: "(string \<times> string) list"
  db_accounts :: "operator_account list"
  db_operator_sessions :: "operator_session list"
  db_demo_sessions :: "demo_session list"
  db_turns :: "turn_row list"
  db_saved_turns :: "uuid list"
  db_cards :: "card_row list"
  db_revisions :: "revision_row list"
  db_decisions :: "decision_row list"
  db_exports :: "export_row list"
  db_outcomes :: "outcome_row list"
  db_overlays :: "overlay_row list"

definition empty_db :: db where
  "empty_db = \<lparr>db_workspaces = [], db_accounts = [], db_operator_sessions = [], db_demo_sessions = [], db_turns = [],
     db_saved_turns = [], db_cards = [], db_revisions = [], db_decisions = [], db_exports = [],
     db_outcomes = [], db_overlays = []\<rparr>"

section \<open>Statements\<close>

text \<open>\<open>UPDATE ... WHERE\<close>: the rows that satisfy the condition are changed in place.\<close>

definition update_where :: "('r \<Rightarrow> bool) \<Rightarrow> ('r \<Rightarrow> 'r) \<Rightarrow> 'r list \<Rightarrow> 'r list" where
  "update_where p f rs = map (\<lambda>r. if p r then f r else r) rs"

text \<open>\<open>SELECT ... one_or_none()\<close> on a unique key: the first row that satisfies the condition.\<close>

definition select_one :: "('r \<Rightarrow> bool) \<Rightarrow> 'r list \<Rightarrow> 'r option" where
  "select_one p rs = find p rs"

definition delete_where :: "('r \<Rightarrow> bool) \<Rightarrow> 'r list \<Rightarrow> 'r list" where
  "delete_where p rs = filter (\<lambda>r. \<not> p r) rs"

text \<open>
  A unit of work (\<open>src/db/unit_of_work.py\<close>): the body runs in one transaction. An error of the
  body rolls it back; the connection may be lost before the commit took effect or after it did,
  and in both cases the caller sees an exception that is none of the body's own.
\<close>

datatype fault = NoFault | LostBeforeCommit | LostAfterCommit

datatype ('e, 'a) outcome = Returned 'a | Raised 'e | ConnectionLost

definition run_uow :: "fault \<Rightarrow> ('s \<Rightarrow> 'e + ('a \<times> 's)) \<Rightarrow> 's \<Rightarrow> ('e, 'a) outcome \<times> 's" where
  "run_uow flt body s =
     (case body s of
        Inl e \<Rightarrow> (Raised e, s)
      | Inr (a, s') \<Rightarrow> (case flt of
            NoFault \<Rightarrow> (Returned a, s')
          | LostBeforeCommit \<Rightarrow> (ConnectionLost, s)
          | LostAfterCommit \<Rightarrow> (ConnectionLost, s')))"

lemma run_uow_state: "snd (run_uow flt body s) = s \<or> (\<exists>a. body s = Inr (a, snd (run_uow flt body s)))"
  by (auto simp: run_uow_def split: sum.splits fault.splits)

lemma run_uow_returned: "run_uow flt body s = (Returned a, s') \<longleftrightarrow> flt = NoFault \<and> body s = Inr (a, s')"
  by (auto simp: run_uow_def split: sum.splits fault.splits)

lemma update_where_length [simp]: "length (update_where p f rs) = length rs"
  by (simp add: update_where_def)

lemma update_where_keys:
  "(\<And>r. k (f r) = k r) \<Longrightarrow> map k (update_where p f rs) = map k rs"
  by (simp add: update_where_def)

lemma update_where_mem:
  "r \<in> set (update_where p f rs) \<longleftrightarrow> (\<exists>s \<in> set rs. r = (if p s then f s else s))"
  by (auto simp: update_where_def)

lemma ball_update_where:
  "(\<forall>r \<in> set (update_where p f rs). P r) \<longleftrightarrow> (\<forall>s \<in> set rs. P (if p s then f s else s))"
  by (auto simp: update_where_def)

lemma update_where_all:
  "\<forall>r \<in> set rs. P r \<Longrightarrow> (\<And>r. r \<in> set rs \<Longrightarrow> p r \<Longrightarrow> P r \<Longrightarrow> P (f r)) \<Longrightarrow> \<forall>r \<in> set (update_where p f rs). P r"
  by (auto simp: update_where_def)

lemma select_one_SomeD: "select_one p rs = Some r \<Longrightarrow> r \<in> set rs \<and> p r"
  by (auto simp: select_one_def find_Some_iff)

lemma select_one_None_iff: "select_one p rs = None \<longleftrightarrow> (\<forall>r \<in> set rs. \<not> p r)"
  by (auto simp: select_one_def find_None_iff)

lemma select_one_unique:
  assumes "distinct (map k rs)" and "r \<in> set rs" and "p r" and "\<And>s. p s \<Longrightarrow> k s = k r"
  shows "select_one p rs = Some r"
  using assms
proof (induction rs)
  case Nil
  then show ?case by simp
next
  case (Cons s rs)
  show ?case
  proof (cases "p s")
    case True
    then have "k s = k r" by (rule Cons.prems(4))
    moreover have "r \<in> set rs \<Longrightarrow> k r \<in> k ` set rs" by (rule imageI)
    ultimately have "s = r" using Cons.prems(1,2) by auto
    then show ?thesis using True by (simp add: select_one_def)
  next
    case False
    then have r: "r \<in> set rs" using Cons.prems(2,3) by auto
    have "select_one p rs = Some r"
      by (rule Cons.IH [OF _ r Cons.prems(3,4)]) (use Cons.prems(1) in simp)
    then show ?thesis using False by (simp add: select_one_def)
  qed
qed

lemma select_one_map: "(\<And>r. p (f r) = p r) \<Longrightarrow> select_one p (map f rs) = map_option f (select_one p rs)"
  by (induction rs) (auto simp: select_one_def)

lemma delete_where_mem [simp]: "r \<in> set (delete_where p rs) \<longleftrightarrow> r \<in> set rs \<and> \<not> p r"
  by (simp add: delete_where_def)

lemma select_one_single: "select_one p [r] = (if p r then Some r else None)"
  by (simp add: select_one_def)

lemma select_one_append:
  "select_one p (rs @ ss) = (case select_one p rs of None \<Rightarrow> select_one p ss | Some r \<Rightarrow> Some r)"
  by (induction rs) (auto simp: select_one_def)

section \<open>Replays\<close>

text \<open>
  The contract of an operation with an idempotency key, on a machine whose states only grow: once
  it has answered, the rows give that answer (\<open>answer\<close>, the authority); a growing state keeps it;
  and a request that has its answer gets it again without a change, whatever the time and the fault.
\<close>

locale replaying = ordered_machine step inv below
  for step :: "'e \<Rightarrow> 's \<Rightarrow> 's" and inv :: "'s \<Rightarrow> bool" and below :: "'s \<Rightarrow> 's \<Rightarrow> bool" +
  fixes request :: "'q \<Rightarrow> 'c \<Rightarrow> 's \<Rightarrow> ('err, 'a) outcome \<times> 's"
    and answer :: "'q \<Rightarrow> 's \<Rightarrow> 'a option"
  assumes request_inv: "inv s \<Longrightarrow> inv (snd (request q c s))"
    and request_answer: "inv s \<Longrightarrow> request q c s = (Returned a, t) \<Longrightarrow> answer q t = Some a"
    and answer_below: "inv s \<Longrightarrow> inv t \<Longrightarrow> below s t \<Longrightarrow> answer q s = Some a \<Longrightarrow> answer q t = Some a"
    and answer_request: "inv s \<Longrightarrow> answer q s = Some a \<Longrightarrow> request q c s = (Returned a, s)"
begin

lemma exactly_once:
  assumes "inv s" and "request q c s = (Returned a, t)"
  shows "request q c' (fold step es t) = (Returned a, fold step es t)"
proof -
  have t: "inv t" using request_inv [OF assms(1), of q c] assms(2) by simp
  note later = run_inv [OF t, of es]
  have "answer q (fold step es t) = Some a"
    by (rule answer_below [OF t later run_below [OF t] request_answer [OF assms]])
  then show ?thesis by (rule answer_request [OF later])
qed

lemma same_answer:
  assumes "inv s" and "request q c s = (Returned a, t)" and "request q c' (fold step es t) = (out, u)"
  shows "out = Returned a \<and> u = fold step es t"
  using exactly_once [OF assms(1,2), of c' es] assms(3) by simp

end

end
