(* ===== verification/Sessions.thy ===== *)
theory Sessions
  imports Schema
begin

text \<open>
  Anonymous viewer sessions: the statements of \<open>src/repositories/sessions.py\<close> on the tables
  and the service \<open>src/services/demo_session_service.py\<close> on top of them. A transaction is a
  function from the database to a result and the next database. Tokens, identifiers and the
  clock are arguments of an operation; the keyed hash of a token, the release in force and the
  resolvers of its forecast and profit bridge are fields of the service.
\<close>

section \<open>Statements on demo sessions\<close>

text \<open>The condition the queries share: active, not ended and inside both expiry times.\<close>

definition is_live :: "time \<Rightarrow> demo_session \<Rightarrow> bool" where
  "is_live now s \<longleftrightarrow> ds_status s = Active \<and> ds_ended_at s = None
     \<and> now < ds_idle_expires_at s \<and> now < ds_absolute_expires_at s"

definition is_open :: "demo_session \<Rightarrow> bool" where
  "is_open s \<longleftrightarrow> ds_status s = Active \<and> ds_ended_at s = None"

definition set_demo :: "demo_session list \<Rightarrow> db \<Rightarrow> db" where
  "set_demo ss d = d\<lparr>db_demo_sessions := ss\<rparr>"

text \<open>\<open>UPDATE demo_sessions ... WHERE id = ... AND ... RETURNING\<close>\<close>

definition update_demo :: "(demo_session \<Rightarrow> bool) \<Rightarrow> (demo_session \<Rightarrow> demo_session) \<Rightarrow> uuid \<Rightarrow> db
    \<Rightarrow> demo_session option \<times> db" where
  "update_demo p f sid d =
     (map_option f (select_one (\<lambda>s. ds_id s = sid \<and> p s) (db_demo_sessions d)),
      set_demo (update_where (\<lambda>s. ds_id s = sid \<and> p s) f (db_demo_sessions d)) d)"

definition get_active_demo_session :: "digest \<Rightarrow> time \<Rightarrow> db \<Rightarrow> demo_session option" where
  "get_active_demo_session token now d =
     select_one (\<lambda>s. ds_token_hash s = token \<and> is_live now s) (db_demo_sessions d)"

definition touch_demo_session :: "uuid \<Rightarrow> time \<Rightarrow> time \<Rightarrow> db \<Rightarrow> demo_session option \<times> db" where
  "touch_demo_session sid now idle =
     update_demo (is_live now) (\<lambda>s. s\<lparr>ds_last_seen_at := now, ds_idle_expires_at := idle\<rparr>) sid"

definition import_demo_row :: "uuid \<Rightarrow> time \<Rightarrow> db \<Rightarrow> demo_session option \<times> db" where
  "import_demo_row sid now =
     update_demo (is_live now)
       (\<lambda>s. s\<lparr>ds_imported_at := (case ds_imported_at s of None \<Rightarrow> Some now | Some t \<Rightarrow> Some t)\<rparr>) sid"

definition epoch_matches :: "string \<Rightarrow> uuid \<Rightarrow> int \<Rightarrow> time \<Rightarrow> demo_session \<Rightarrow> bool" where
  "epoch_matches ws version epoch now s \<longleftrightarrow> ds_workspace s = ws \<and> ds_dataset_version s = Some version
     \<and> ds_chat_epoch s = epoch \<and> is_live now s"

definition lock_demo_chat_epoch :: "uuid \<Rightarrow> string \<Rightarrow> uuid \<Rightarrow> int \<Rightarrow> time \<Rightarrow> db \<Rightarrow> bool" where
  "lock_demo_chat_epoch sid ws version epoch now d \<longleftrightarrow>
     select_one (\<lambda>s. ds_id s = sid \<and> epoch_matches ws version epoch now s) (db_demo_sessions d) \<noteq> None"

definition advance_demo_chat_epoch :: "uuid \<Rightarrow> string \<Rightarrow> uuid \<Rightarrow> int \<Rightarrow> time \<Rightarrow> db \<Rightarrow> int option \<times> db" where
  "advance_demo_chat_epoch sid ws version epoch now d =
     (case update_demo (epoch_matches ws version epoch now)
             (\<lambda>s. s\<lparr>ds_chat_epoch := ds_chat_epoch s + 1\<rparr>) sid d of
        (r, d') \<Rightarrow> (map_option ds_chat_epoch r, d'))"

definition demo_csrf_matches :: "uuid \<Rightarrow> digest \<Rightarrow> db \<Rightarrow> bool" where
  "demo_csrf_matches sid candidate d =
     (case select_one (\<lambda>s. ds_id s = sid \<and> is_open s) (db_demo_sessions d) of
        None \<Rightarrow> False | Some s \<Rightarrow> ds_csrf_hash s = candidate)"

definition count_sessions_for_source :: "digest \<Rightarrow> time \<Rightarrow> db \<Rightarrow> nat" where
  "count_sessions_for_source source since d =
     length (filter (\<lambda>s. ds_source_hash s = source \<and> since \<le> ds_created_at s) (db_demo_sessions d))"

section \<open>What ends with a session\<close>

text \<open>
  Chat turns of a session are deleted with it, except those an operator saved and those an
  action revision names as its authority.
\<close>

definition turn_saved :: "db \<Rightarrow> turn_row \<Rightarrow> bool" where
  "turn_saved d t \<longleftrightarrow> tr_id t \<in> set (db_saved_turns d)"

definition turn_is_authority :: "db \<Rightarrow> turn_row \<Rightarrow> bool" where
  "turn_is_authority d t \<longleftrightarrow> list_ex (\<lambda>r. ac_chat_turn (rv_content r) = Some (tr_id t)) (db_revisions d)"

definition ephemeral :: "db \<Rightarrow> chat_actor list \<Rightarrow> turn_row \<Rightarrow> bool" where
  "ephemeral d actors t \<longleftrightarrow> tr_actor t \<in> set actors \<and> \<not> turn_saved d t \<and> \<not> turn_is_authority d t"

definition delete_ephemeral_chat :: "chat_actor list \<Rightarrow> db \<Rightarrow> nat \<times> db" where
  "delete_ephemeral_chat actors d =
     (length (filter (ephemeral d actors) (db_turns d)),
      d\<lparr>db_turns := delete_where (ephemeral d actors) (db_turns d)\<rparr>)"

definition delete_session_overlays :: "uuid list \<Rightarrow> db \<Rightarrow> db" where
  "delete_session_overlays sids d =
     d\<lparr>db_overlays := delete_where (\<lambda>v. ov_session v \<in> set sids) (db_overlays d)\<rparr>"

definition forget_sessions :: "uuid list \<Rightarrow> db \<Rightarrow> db" where
  "forget_sessions sids d = snd (delete_ephemeral_chat (map ByDemo sids) (delete_session_overlays sids d))"

definition end_demo_session :: "uuid \<Rightarrow> time \<Rightarrow> db \<Rightarrow> bool \<times> db" where
  "end_demo_session sid now d =
     (case update_demo is_open (\<lambda>s. s\<lparr>ds_status := Ended, ds_ended_at := Some now\<rparr>) sid d of
        (None, d') \<Rightarrow> (False, d')
      | (Some _, d') \<Rightarrow> (True, forget_sessions [sid] d'))"

definition overdue :: "time \<Rightarrow> demo_session \<Rightarrow> bool" where
  "overdue now s \<longleftrightarrow> is_open s \<and> (ds_idle_expires_at s \<le> now \<or> ds_absolute_expires_at s \<le> now)"

definition expire_demo_sessions :: "time \<Rightarrow> db \<Rightarrow> nat \<times> db" where
  "expire_demo_sessions now d =
     (let ids = map ds_id (filter (overdue now) (db_demo_sessions d));
          d' = set_demo (update_where (overdue now)
                 (\<lambda>s. s\<lparr>ds_status := Expired, ds_ended_at := Some now\<rparr>) (db_demo_sessions d)) d
      in if ids = [] then (0, d') else (length ids, forget_sessions ids d'))"

section \<open>The service\<close>

definition minutes :: "int \<Rightarrow> time" where
  "minutes n = n * 60 * 1000000"

definition idle_ttl :: time where
  "idle_ttl = minutes 30"

definition absolute_ttl :: time where
  "absolute_ttl = minutes 120"

definition admission_window :: time where
  "admission_window = minutes 60"

datatype session_error = PublicReleaseUnavailable | DemoSessionRateLimited | IntegrityError | LimitTooLow

record demo_service =
  sv_workspace :: string
  sv_token_hash :: "string \<Rightarrow> digest"
  sv_release :: "uuid option"
  sv_release_valid :: "(uuid \<Rightarrow> bool) option"
  sv_forecast_of :: "(uuid \<Rightarrow> uuid option) option"
  sv_bridge_of :: "(uuid \<Rightarrow> uuid option) option"
  sv_limit :: int

text \<open>The constructor refuses a limit below 15.\<close>

definition make_service :: "demo_service \<Rightarrow> session_error + demo_service" where
  "make_service v = (if sv_limit v < 15 then Inl LimitTooLow else Inr v)"

record session_request =
  rq_id :: uuid
  rq_token :: string
  rq_csrf :: string
  rq_source :: string

definition resolver :: "('a \<Rightarrow> 'b option) option \<Rightarrow> 'a \<Rightarrow> 'b option" where
  "resolver r x = (case r of None \<Rightarrow> None | Some f \<Rightarrow> f x)"

definition new_session :: "demo_service \<Rightarrow> session_request \<Rightarrow> uuid \<Rightarrow> time \<Rightarrow> demo_session" where
  "new_session v q version now =
     \<lparr>ds_id = rq_id q, ds_workspace = sv_workspace v,
      ds_token_hash = sv_token_hash v (rq_token q), ds_csrf_hash = sv_token_hash v (rq_csrf q),
      ds_source_hash = sv_token_hash v (rq_source q), ds_dataset_version = Some version,
      ds_forecast = resolver (sv_forecast_of v) version,
      ds_profit_bridge = resolver (sv_bridge_of v) version, ds_imported_at = None,
      ds_chat_epoch = 0, ds_status = Active, ds_created_at = now, ds_last_seen_at = now,
      ds_idle_expires_at = now + idle_ttl, ds_absolute_expires_at = now + absolute_ttl,
      ds_ended_at = None\<rparr>"

text \<open>\<open>INSERT\<close> fails on a used primary key or token hash.\<close>

definition insert_demo_session :: "demo_session \<Rightarrow> db \<Rightarrow> session_error + db" where
  "insert_demo_session s d =
     (if list_ex (\<lambda>r. ds_id r = ds_id s \<or> ds_token_hash r = ds_token_hash s) (db_demo_sessions d)
      then Inl IntegrityError else Inr (set_demo (db_demo_sessions d @ [s]) d))"

definition released_version :: "demo_service \<Rightarrow> session_error + uuid" where
  "released_version v =
     (case sv_release v of None \<Rightarrow> Inl PublicReleaseUnavailable
      | Some version \<Rightarrow>
          (case sv_release_valid v of None \<Rightarrow> Inr version
           | Some ok \<Rightarrow> if ok version then Inr version else Inl PublicReleaseUnavailable))"

definition create_session :: "demo_service \<Rightarrow> session_request \<Rightarrow> time \<Rightarrow> db
    \<Rightarrow> session_error + (demo_session \<times> db)" where
  "create_session v q now d =
     ebind (released_version v) (\<lambda>version.
       let s = new_session v q version now in
       if sv_limit v \<le> int (count_sessions_for_source (ds_source_hash s) (now - admission_window) d)
       then Inl DemoSessionRateLimited
       else ebind (insert_demo_session s d) (\<lambda>d'. Inr (s, d')))"

text \<open>A request with a session token: the session is looked up and its idle time renewed.\<close>

definition resolve_session :: "demo_service \<Rightarrow> string \<Rightarrow> time \<Rightarrow> db \<Rightarrow> demo_session option \<times> db" where
  "resolve_session v token now d =
     (case get_active_demo_session (sv_token_hash v token) now d of
        None \<Rightarrow> (None, d)
      | Some s \<Rightarrow> touch_demo_session (ds_id s) now (min (now + idle_ttl) (ds_absolute_expires_at s)) d)"

definition csrf_matches :: "demo_service \<Rightarrow> uuid \<Rightarrow> string \<Rightarrow> db \<Rightarrow> bool" where
  "csrf_matches v sid csrf d = demo_csrf_matches sid (sv_token_hash v csrf) d"

text \<open>The operations as requests, so that a history of the service is a list of them.\<close>

datatype session_event =
    CreateSession session_request
  | ResolveSession string
  | EndSession uuid
  | ImportData uuid
  | ExpireSessions
  | AdvanceEpoch uuid string uuid int

fun session_step :: "demo_service \<Rightarrow> time \<times> session_event \<Rightarrow> db \<Rightarrow> db" where
  "session_step v (now, CreateSession q) d = (case create_session v q now d of Inl _ \<Rightarrow> d | Inr (_, d') \<Rightarrow> d')"
| "session_step v (now, ResolveSession token) d = snd (resolve_session v token now d)"
| "session_step v (now, EndSession sid) d = snd (end_demo_session sid now d)"
| "session_step v (now, ImportData sid) d = snd (import_demo_row sid now d)"
| "session_step v (now, ExpireSessions) d = snd (expire_demo_sessions now d)"
| "session_step v (now, AdvanceEpoch sid ws version epoch) d =
     snd (advance_demo_chat_epoch sid ws version epoch now d)"

section \<open>What a request can do to one session\<close>

text \<open>
  The life of a single row: a request leaves it alone, renews it, marks the import, advances
  the chat epoch, or closes it. Renewal, import and advance need a live session.
\<close>

inductive row_step :: "time \<Rightarrow> demo_session \<Rightarrow> demo_session \<Rightarrow> bool" for now :: time where
  row_keep: "row_step now s s"
| row_touch: "is_live now s \<Longrightarrow> row_step now s
     (s\<lparr>ds_last_seen_at := now, ds_idle_expires_at := min (now + idle_ttl) (ds_absolute_expires_at s)\<rparr>)"
| row_import: "is_live now s \<Longrightarrow> row_step now s
     (s\<lparr>ds_imported_at := (case ds_imported_at s of None \<Rightarrow> Some now | Some t \<Rightarrow> Some t)\<rparr>)"
| row_advance: "is_live now s \<Longrightarrow> row_step now s (s\<lparr>ds_chat_epoch := ds_chat_epoch s + 1\<rparr>)"
| row_end: "is_open s \<Longrightarrow> row_step now s (s\<lparr>ds_status := Ended, ds_ended_at := Some now\<rparr>)"
| row_expire: "overdue now s \<Longrightarrow> row_step now s (s\<lparr>ds_status := Expired, ds_ended_at := Some now\<rparr>)"

inductive_cases row_stepE: "row_step now s t"

lemma row_step_frame:
  assumes "row_step now s t"
  shows "ds_id t = ds_id s" "ds_token_hash t = ds_token_hash s" "ds_source_hash t = ds_source_hash s"
    "ds_created_at t = ds_created_at s" "ds_absolute_expires_at t = ds_absolute_expires_at s"
    "ds_workspace t = ds_workspace s" "ds_dataset_version t = ds_dataset_version s"
  using assms by (auto elim: row_stepE)

lemma rows_step_same: "list_all2 (row_step now) ss ss"
  by (simp add: list_all2_same row_keep)

lemma rows_step_update:
  "(\<And>s. s \<in> set ss \<Longrightarrow> p s \<Longrightarrow> row_step now s (f s)) \<Longrightarrow> list_all2 (row_step now) ss (update_where p f ss)"
  by (induction ss) (auto simp: update_where_def row_keep)

lemma sessions_set_demo [simp]: "db_demo_sessions (set_demo ss d) = ss"
  by (simp add: set_demo_def)

lemma sessions_forget [simp]: "db_demo_sessions (forget_sessions ids d) = db_demo_sessions d"
  by (simp add: forget_sessions_def delete_ephemeral_chat_def delete_session_overlays_def)

lemma update_demo_simps [simp]:
  "snd (update_demo p f sid d) = set_demo (update_where (\<lambda>s. ds_id s = sid \<and> p s) f (db_demo_sessions d)) d"
  "fst (update_demo p f sid d) = map_option f (select_one (\<lambda>s. ds_id s = sid \<and> p s) (db_demo_sessions d))"
  by (simp_all add: update_demo_def)

lemma end_demo_session_sessions:
  "db_demo_sessions (snd (end_demo_session sid now d)) = update_where (\<lambda>s. ds_id s = sid \<and> is_open s)
     (\<lambda>s. s\<lparr>ds_status := Ended, ds_ended_at := Some now\<rparr>) (db_demo_sessions d)"
  by (simp add: end_demo_session_def update_demo_def split: option.split)

lemma expire_demo_sessions_sessions:
  "db_demo_sessions (snd (expire_demo_sessions now d)) = update_where (overdue now)
     (\<lambda>s. s\<lparr>ds_status := Expired, ds_ended_at := Some now\<rparr>) (db_demo_sessions d)"
  by (simp add: expire_demo_sessions_def Let_def)

lemma advance_sessions:
  "db_demo_sessions (snd (advance_demo_chat_epoch sid ws version epoch now d))
     = update_where (\<lambda>s. ds_id s = sid \<and> epoch_matches ws version epoch now s)
         (\<lambda>s. s\<lparr>ds_chat_epoch := ds_chat_epoch s + 1\<rparr>) (db_demo_sessions d)"
  by (simp add: advance_demo_chat_epoch_def update_demo_def)

lemma create_sessionD:
  assumes "create_session v q now d = Inr (s, d')"
  shows "\<exists>version. s = new_session v q version now"
    and "d' = set_demo (db_demo_sessions d @ [s]) d"
    and "ds_id s \<notin> ds_id ` set (db_demo_sessions d)"
    and "ds_token_hash s \<notin> ds_token_hash ` set (db_demo_sessions d)"
    and "int (count_sessions_for_source (ds_source_hash s) (now - admission_window) d) < sv_limit v"
  using assms by (auto simp: create_session_def ebind_eq_Inr Let_def insert_demo_session_def list_ex_iff
      split: if_splits)

text \<open>Every request moves the table row by row, or appends one admitted session.\<close>

definition admits :: "demo_service \<Rightarrow> time \<Rightarrow> db \<Rightarrow> demo_session \<Rightarrow> bool" where
  "admits v now d s \<longleftrightarrow> (\<exists>q version. s = new_session v q version now)
     \<and> ds_id s \<notin> ds_id ` set (db_demo_sessions d) \<and> ds_token_hash s \<notin> ds_token_hash ` set (db_demo_sessions d)
     \<and> int (count_sessions_for_source (ds_source_hash s) (now - admission_window) d) < sv_limit v"

lemma session_step_rows:
  assumes "distinct (map ds_id (db_demo_sessions d))"
  shows "list_all2 (row_step now) (db_demo_sessions d) (db_demo_sessions (session_step v (now, e) d))
    \<or> (\<exists>s. admits v now d s \<and> session_step v (now, e) d = set_demo (db_demo_sessions d @ [s]) d)"
proof (cases e)
  case (CreateSession q)
  show ?thesis
  proof (cases "create_session v q now d")
    case (Inl x)
    then show ?thesis by (simp add: CreateSession rows_step_same)
  next
    case (Inr r)
    obtain s d' where r: "r = (s, d')" by (cases r)
    have "admits v now d s" "d' = set_demo (db_demo_sessions d @ [s]) d"
      using create_sessionD [OF Inr [unfolded r]] by (auto simp: admits_def)
    then show ?thesis by (auto simp: CreateSession Inr r)
  qed
next
  case (ResolveSession token)
  show ?thesis
  proof (cases "get_active_demo_session (sv_token_hash v token) now d")
    case None
    then show ?thesis by (simp add: ResolveSession resolve_session_def rows_step_same)
  next
    case (Some s)
    then have s: "s \<in> set (db_demo_sessions d)"
      by (auto simp: get_active_demo_session_def dest: select_one_SomeD)
    have same: "t = s" if "t \<in> set (db_demo_sessions d)" "ds_id t = ds_id s" for t
      using assms s that by (auto simp: distinct_map dest: inj_onD)
    show ?thesis
      by (auto simp: ResolveSession resolve_session_def Some touch_demo_session_def
          intro!: rows_step_update dest!: same intro: row_touch)
  qed
next
  case (EndSession sid)
  then show ?thesis by (auto simp: end_demo_session_sessions intro!: rows_step_update intro: row_end)
next
  case (ImportData sid)
  then show ?thesis by (auto simp: import_demo_row_def intro!: rows_step_update intro: row_import)
next
  case ExpireSessions
  then show ?thesis by (auto simp: expire_demo_sessions_sessions intro!: rows_step_update intro: row_expire)
next
  case (AdvanceEpoch sid ws version epoch)
  then show ?thesis
    by (auto simp: advance_sessions epoch_matches_def intro!: rows_step_update intro: row_advance)
qed

section \<open>The constraints of the table\<close>

text \<open>
  What the schema demands of a row (the expiry order, a non-negative epoch, the closed set of
  states) and what the code adds: a session is closed exactly when its state says so, its
  absolute expiry is two hours after its creation and its idle expiry half an hour after it was
  last seen, cut at the absolute one.
\<close>

definition row_ok :: "demo_session \<Rightarrow> bool" where
  "row_ok s \<longleftrightarrow> ds_idle_expires_at s \<le> ds_absolute_expires_at s \<and> 0 \<le> ds_chat_epoch s
     \<and> (ds_status s = Active \<longleftrightarrow> ds_ended_at s = None)
     \<and> ds_absolute_expires_at s = ds_created_at s + absolute_ttl
     \<and> ds_idle_expires_at s = min (ds_last_seen_at s + idle_ttl) (ds_absolute_expires_at s)"

definition sessions_ok :: "db \<Rightarrow> bool" where
  "sessions_ok d \<longleftrightarrow> (\<forall>s \<in> set (db_demo_sessions d). row_ok s)
     \<and> distinct (map ds_id (db_demo_sessions d)) \<and> distinct (map ds_token_hash (db_demo_sessions d))"

lemma row_step_ok: "row_step now s t \<Longrightarrow> row_ok s \<Longrightarrow> row_ok t"
  by (erule row_stepE) (auto simp: row_ok_def is_live_def is_open_def overdue_def)

lemma new_session_ok: "row_ok (new_session v q version now)"
  by (simp add: row_ok_def new_session_def idle_ttl_def absolute_ttl_def minutes_def)

lemma list_all2_frame:
  "list_all2 P xs ys \<Longrightarrow> (\<And>x y. P x y \<Longrightarrow> g y = g x) \<Longrightarrow> map g ys = map g xs"
  by (induction rule: list_all2_induct) auto

lemma list_all2_carry:
  "list_all2 P xs ys \<Longrightarrow> \<forall>x \<in> set xs. Q x \<Longrightarrow> (\<And>x y. P x y \<Longrightarrow> Q x \<Longrightarrow> R y) \<Longrightarrow> \<forall>y \<in> set ys. R y"
  by (induction rule: list_all2_induct) auto

lemma session_step_ok:
  assumes "sessions_ok d"
  shows "sessions_ok (session_step v e d)"
proof -
  obtain now x where e: "e = (now, x)" by (cases e)
  have dist: "distinct (map ds_id (db_demo_sessions d))" using assms by (simp add: sessions_ok_def)
  from session_step_rows [OF dist, of now v x] show ?thesis
  proof
    assume rows: "list_all2 (row_step now) (db_demo_sessions d) (db_demo_sessions (session_step v (now, x) d))"
    then show ?thesis
      using assms list_all2_frame [OF rows, of ds_id] list_all2_frame [OF rows, of ds_token_hash]
        list_all2_carry [OF rows, of row_ok row_ok]
      by (simp add: sessions_ok_def e row_step_frame row_step_ok)
  next
    assume "\<exists>s. admits v now d s \<and> session_step v (now, x) d = set_demo (db_demo_sessions d @ [s]) d"
    then show ?thesis using assms by (auto simp: sessions_ok_def e admits_def new_session_ok)
  qed
qed

text \<open>The table only grows, rows keep their identity, epochs never fall, closed rows stay closed.\<close>

definition row_le :: "demo_session \<Rightarrow> demo_session \<Rightarrow> bool" where
  "row_le s t \<longleftrightarrow> ds_id t = ds_id s \<and> ds_token_hash t = ds_token_hash s
     \<and> ds_dataset_version t = ds_dataset_version s \<and> ds_absolute_expires_at t = ds_absolute_expires_at s
     \<and> ds_chat_epoch s \<le> ds_chat_epoch t \<and> (ds_imported_at s \<noteq> None \<longrightarrow> ds_imported_at t = ds_imported_at s)
     \<and> (\<not> is_open s \<longrightarrow> \<not> is_open t \<and> ds_status t = ds_status s \<and> ds_ended_at t = ds_ended_at s)"

definition table_le :: "db \<Rightarrow> db \<Rightarrow> bool" where
  "table_le d d' \<longleftrightarrow> (\<exists>us vs. db_demo_sessions d' = us @ vs \<and> list_all2 row_le (db_demo_sessions d) us)"

lemma row_le_refl: "row_le s s"
  by (simp add: row_le_def)

lemma row_le_trans: "row_le s t \<Longrightarrow> row_le t u \<Longrightarrow> row_le s u"
  by (auto simp: row_le_def)

lemma row_step_le: "row_step now s t \<Longrightarrow> row_le s t"
  by (erule row_stepE) (auto simp: row_le_def is_live_def is_open_def overdue_def)

lemma table_le_refl: "table_le d d"
  unfolding table_le_def by (intro exI [of _ "db_demo_sessions d"] exI [of _ "[]"]) (simp add: list_all2_same row_le_refl)

lemma table_le_trans:
  assumes "table_le d e" and "table_le e f"
  shows "table_le d f"
proof -
  obtain us vs where e: "db_demo_sessions e = us @ vs" and us: "list_all2 row_le (db_demo_sessions d) us"
    using assms(1) by (auto simp: table_le_def)
  obtain ws zs where f: "db_demo_sessions f = ws @ zs" and "list_all2 row_le (us @ vs) ws"
    using assms(2) by (auto simp: table_le_def e)
  then obtain ps qs where "ws = ps @ qs" "list_all2 row_le us ps"
    by (auto simp: list_all2_append1)
  moreover have "list_all2 row_le (db_demo_sessions d) ps"
    by (rule list_all2_trans [OF row_le_trans us]) (use \<open>list_all2 row_le us ps\<close> in auto)
  ultimately show ?thesis using f by (auto simp: table_le_def)
qed

lemma session_step_le:
  assumes "sessions_ok d"
  shows "table_le d (session_step v e d)"
proof -
  obtain now x where e: "e = (now, x)" by (cases e)
  have dist: "distinct (map ds_id (db_demo_sessions d))" using assms by (simp add: sessions_ok_def)
  from session_step_rows [OF dist, of now v x] show ?thesis
  proof
    assume "list_all2 (row_step now) (db_demo_sessions d) (db_demo_sessions (session_step v (now, x) d))"
    then have "list_all2 row_le (db_demo_sessions d) (db_demo_sessions (session_step v (now, x) d))"
      by (rule list_all2_mono) (rule row_step_le)
    then show ?thesis by (auto simp: table_le_def e)
  next
    assume "\<exists>s. admits v now d s \<and> session_step v (now, x) d = set_demo (db_demo_sessions d @ [s]) d"
    then obtain s where "session_step v (now, x) d = set_demo (db_demo_sessions d @ [s]) d" by blast
    then show ?thesis unfolding table_le_def e
      by (intro exI [of _ "db_demo_sessions d"] exI [of _ "[s]"]) (simp add: list_all2_same row_le_refl)
  qed
qed

interpretation viewer: ordered_machine "session_step v" sessions_ok table_le for v
  by unfold_locales (auto intro: session_step_ok session_step_le table_le_refl table_le_trans)

lemma live_recent:
  "row_ok s \<Longrightarrow> is_live now s \<Longrightarrow> now < ds_created_at s + minutes 120 \<and> now < ds_last_seen_at s + minutes 30"
  by (simp add: row_ok_def is_live_def idle_ttl_def absolute_ttl_def min_def split: if_splits)

lemma empty_sessions_ok: "sessions_ok empty_db"
  by (simp add: sessions_ok_def empty_db_def)

section \<open>Closed for good\<close>

definition gone_at :: "time \<Rightarrow> uuid \<Rightarrow> db \<Rightarrow> bool" where
  "gone_at t sid d \<longleftrightarrow> sid \<in> ds_id ` set (db_demo_sessions d)
     \<and> (\<forall>s \<in> set (db_demo_sessions d). ds_id s = sid \<longrightarrow> \<not> is_live t s)"

lemma live_antimono: "is_live t' s \<Longrightarrow> t \<le> t' \<Longrightarrow> is_live t s"
  by (auto simp: is_live_def)

lemma row_step_gone: "row_step now s t \<Longrightarrow> \<not> is_live u s \<Longrightarrow> u \<le> now \<Longrightarrow> \<not> is_live u t"
  by (erule row_stepE) (auto simp: is_live_def is_open_def overdue_def)

lemma session_step_gone:
  assumes "sessions_ok d" and gone: "gone_at t sid d" and "t \<le> now"
  shows "gone_at t sid (session_step v (now, x) d)"
proof -
  have dist: "distinct (map ds_id (db_demo_sessions d))" using assms by (simp add: sessions_ok_def)
  from session_step_rows [OF dist, of now v x] show ?thesis
  proof
    assume rows: "list_all2 (row_step now) (db_demo_sessions d) (db_demo_sessions (session_step v (now, x) d))"
    have "set (map ds_id (db_demo_sessions (session_step v (now, x) d))) = set (map ds_id (db_demo_sessions d))"
      using list_all2_frame [OF rows, of ds_id] by (simp add: row_step_frame)
    moreover have "\<forall>s \<in> set (db_demo_sessions (session_step v (now, x) d)). ds_id s = sid \<longrightarrow> \<not> is_live t s"
      by (rule list_all2_carry [OF rows, where Q = "\<lambda>s. ds_id s = sid \<longrightarrow> \<not> is_live t s"])
        (use gone \<open>t \<le> now\<close> in \<open>auto simp: gone_at_def row_step_frame dest: row_step_gone\<close>)
    ultimately show ?thesis using gone by (simp add: gone_at_def)
  next
    assume "\<exists>s. admits v now d s \<and> session_step v (now, x) d = set_demo (db_demo_sessions d @ [s]) d"
    then show ?thesis using gone by (auto simp: gone_at_def admits_def)
  qed
qed

lemma run_gone:
  "sessions_ok d \<Longrightarrow> gone_at t sid d \<Longrightarrow> \<forall>(now, x) \<in> set es. t \<le> now \<Longrightarrow> gone_at t sid (fold (session_step v) es d)"
proof (induction es arbitrary: d)
  case Nil
  then show ?case by simp
next
  case (Cons e es)
  obtain now x where e: "e = (now, x)" by (cases e)
  have "gone_at t sid (session_step v e d)" using Cons.prems by (auto simp: e intro: session_step_gone)
  then show ?case using Cons.IH Cons.prems session_step_ok by auto
qed

section \<open>Admissions\<close>

text \<open>The sessions of one source created in the hour up to \<open>t\<close>.\<close>

definition admitted_in :: "digest \<Rightarrow> time \<Rightarrow> db \<Rightarrow> nat" where
  "admitted_in source t d = length (filter (\<lambda>s. ds_source_hash s = source
     \<and> t - admission_window \<le> ds_created_at s \<and> ds_created_at s \<le> t) (db_demo_sessions d))"

definition admissions_ok :: "demo_service \<Rightarrow> db \<Rightarrow> bool" where
  "admissions_ok v d \<longleftrightarrow> sessions_ok d \<and> (\<forall>source t. int (admitted_in source t d) \<le> max 0 (sv_limit v))"

lemma list_all2_filter_length:
  "list_all2 P xs ys \<Longrightarrow> (\<And>x y. P x y \<Longrightarrow> Q y = Q x) \<Longrightarrow> length (filter Q ys) = length (filter Q xs)"
  by (induction rule: list_all2_induct) auto

lemma length_filter_mono: "(\<And>x. x \<in> set xs \<Longrightarrow> P x \<Longrightarrow> Q x) \<Longrightarrow> length (filter P xs) \<le> length (filter Q xs)"
  by (induction xs) auto

lemma window_counted:
  assumes "now \<le> t"
  shows "admitted_in source t d \<le> count_sessions_for_source source (now - admission_window) d"
  unfolding admitted_in_def count_sessions_for_source_def
  by (rule length_filter_mono) (use assms in auto)

lemma session_step_admissions:
  assumes "admissions_ok v d"
  shows "admissions_ok v (session_step v e d)"
proof -
  obtain now x where e: "e = (now, x)" by (cases e)
  have ok: "sessions_ok d" using assms by (simp add: admissions_ok_def)
  have dist: "distinct (map ds_id (db_demo_sessions d))" using ok by (simp add: sessions_ok_def)
  have "int (admitted_in source t (session_step v e d)) \<le> max 0 (sv_limit v)" for source t
    using session_step_rows [OF dist, of now v x]
  proof
    assume rows: "list_all2 (row_step now) (db_demo_sessions d) (db_demo_sessions (session_step v (now, x) d))"
    have "admitted_in source t (session_step v e d) = admitted_in source t d"
      unfolding admitted_in_def e by (rule list_all2_filter_length [OF rows]) (simp add: row_step_frame)
    then show ?thesis using assms by (simp add: admissions_ok_def)
  next
    assume "\<exists>s. admits v now d s \<and> session_step v (now, x) d = set_demo (db_demo_sessions d @ [s]) d"
    then obtain s where s: "admits v now d s" and step: "session_step v e d = set_demo (db_demo_sessions d @ [s]) d"
      by (auto simp: e)
    have now: "ds_created_at s = now" using s by (auto simp: admits_def new_session_def)
    show ?thesis
    proof (cases "source = ds_source_hash s \<and> now \<le> t \<and> t - admission_window \<le> now")
      case True
      then have "admitted_in source t (session_step v e d) = Suc (admitted_in source t d)"
        by (simp add: admitted_in_def step now)
      moreover have "admitted_in source t d \<le> count_sessions_for_source source (now - admission_window) d"
        using True by (intro window_counted) simp
      ultimately show ?thesis using s True by (auto simp: admits_def)
    next
      case False
      then have "admitted_in source t (session_step v e d) = admitted_in source t d"
        by (auto simp: admitted_in_def step now)
      then show ?thesis using assms by (simp add: admissions_ok_def)
    qed
  qed
  then show ?thesis using session_step_ok [OF ok] by (simp add: admissions_ok_def)
qed

interpretation admissions: guarded_machine "session_step v" "admissions_ok v" for v
  by unfold_locales (rule session_step_admissions)

lemma empty_admissions_ok: "admissions_ok v empty_db"
  by (simp add: admissions_ok_def empty_sessions_ok admitted_in_def) (simp add: empty_db_def)

section \<open>Properties\<close>

text \<open>A service, two visitors and a history, for the witnesses.\<close>

definition sample_service :: demo_service where
  "sample_service = \<lparr>sv_workspace = ''demo'', sv_token_hash = (\<lambda>s. ''h'' @ s), sv_release = Some ''v1'',
     sv_release_valid = None, sv_forecast_of = None, sv_bridge_of = None, sv_limit = 15\<rparr>"

definition sample_request :: "string \<Rightarrow> session_request" where
  "sample_request s = \<lparr>rq_id = s, rq_token = s, rq_csrf = ''c'', rq_source = ''here''\<rparr>"

definition sample_history :: "(time \<times> session_event) list" where
  "sample_history = [(0, CreateSession (sample_request ''a'')), (0, CreateSession (sample_request ''b'')),
     (minutes 1, ResolveSession ''a''), (minutes 2, AdvanceEpoch ''a'' ''demo'' ''v1'' 0),
     (minutes 3, ImportData ''a''), (minutes 30, ExpireSessions)]"

text \<open>C36: whatever is requested, the rows keep the constraints of the schema (unique identifiers and
  tokens, idle expiry not after absolute expiry, non-negative epoch, closed exactly when ended), a
  session that is live was created less than two hours and seen less than half an hour ago, and
  no row disappears, changes its release or moves its epoch back.\<close>

theorem session_rows_sound:
  assumes "sessions_ok d"
  shows "sessions_ok (fold (session_step v) es d) \<and> table_le d (fold (session_step v) es d)
    \<and> (\<forall>s \<in> set (db_demo_sessions (fold (session_step v) es d)). \<forall>now. is_live now s
        \<longrightarrow> now < ds_created_at s + minutes 120 \<and> now < ds_last_seen_at s + minutes 30)"
proof (intro conjI ballI allI impI)
  show ok: "sessions_ok (fold (session_step v) es d)" by (rule viewer.run_inv [OF assms])
  show "table_le d (fold (session_step v) es d)" by (rule viewer.run_below [OF assms])
  fix s now assume "s \<in> set (db_demo_sessions (fold (session_step v) es d))" "is_live now s"
  with ok live_recent [of s now] show "now < ds_created_at s + minutes 120" "now < ds_last_seen_at s + minutes 30"
    by (simp_all add: sessions_ok_def)
qed

theorem session_rows_sound_witness:
  "sessions_ok empty_db \<and> sessions_ok (fold (session_step sample_service) sample_history empty_db)
    \<and> map ds_status (db_demo_sessions (fold (session_step sample_service) sample_history empty_db)) = [Active, Expired]
    \<and> map ds_chat_epoch (db_demo_sessions (fold (session_step sample_service) sample_history empty_db)) = [1, 0]"
proof (intro conjI)
  show "sessions_ok empty_db" by (rule empty_sessions_ok)
  show "sessions_ok (fold (session_step sample_service) sample_history empty_db)"
    using session_rows_sound [OF empty_sessions_ok, of sample_service sample_history] by blast
  show "map ds_status (db_demo_sessions (fold (session_step sample_service) sample_history empty_db)) = [Active, Expired]"
    by code_simp
  show "map ds_chat_epoch (db_demo_sessions (fold (session_step sample_service) sample_history empty_db)) = [1, 0]"
    by code_simp
qed

text \<open>C35: a session that is not live at some time (ended, expired, or past one of its expiry times,
  swept or not) is never live again: no later request, a renewal included, makes any token resolve
  to it or its chat epoch lockable.\<close>

theorem session_never_revived:
  assumes "sessions_ok d" and "s \<in> set (db_demo_sessions d)" and "\<not> is_live t s"
    and "\<forall>(now, x) \<in> set es. t \<le> now" and "t \<le> now'"
  shows "(\<forall>token s'. get_active_demo_session token now' (fold (session_step v) es d) = Some s' \<longrightarrow> ds_id s' \<noteq> ds_id s)
    \<and> \<not> lock_demo_chat_epoch (ds_id s) ws version epoch now' (fold (session_step v) es d)"
proof -
  have "gone_at t (ds_id s) d"
    using assms(1-3) by (auto simp: gone_at_def sessions_ok_def distinct_map dest: inj_onD)
  then have "gone_at t (ds_id s) (fold (session_step v) es d)"
    using assms by (intro run_gone) auto
  then show ?thesis using assms(5)
    by (auto simp: gone_at_def get_active_demo_session_def lock_demo_chat_epoch_def epoch_matches_def
        select_one_None_iff dest!: select_one_SomeD dest: live_antimono)
qed

theorem session_never_revived_witness:
  "\<not> lock_demo_chat_epoch ''b'' ''demo'' ''v1'' 0 (minutes 32)
      (fold (session_step sample_service) [(minutes 31, ResolveSession ''b''), (minutes 32, ExpireSessions)]
        (fold (session_step sample_service) (take 3 sample_history) empty_db))"
proof -
  let ?d = "fold (session_step sample_service) (take 3 sample_history) empty_db"
  let ?s = "db_demo_sessions ?d ! 1"
  have "sessions_ok ?d" by (rule viewer.run_inv [OF empty_sessions_ok])
  moreover have "?s \<in> set (db_demo_sessions ?d)" by (rule nth_mem) code_simp
  moreover have "\<not> is_live (minutes 31) ?s" by code_simp
  moreover have "ds_id ?s = ''b''" by code_simp
  ultimately show ?thesis
    using session_never_revived [of ?d ?s "minutes 31" "[(minutes 31, ResolveSession ''b''), (minutes 32, ExpireSessions)]"
        "minutes 32" sample_service "''demo''" "''v1''" 0]
    by (simp add: minutes_def)
qed

text \<open>Ending a session deletes its sandbox overlays and its chat turns, except the turns that an
  operator saved or an action revision names, closes the row, and touches nothing that belongs
  to anyone else.\<close>

theorem session_end_forgets:
  assumes "end_demo_session sid now d = (True, d')"
  shows "db_overlays d' = filter (\<lambda>v. ov_session v \<noteq> sid) (db_overlays d)
    \<and> db_turns d' = filter (\<lambda>t. tr_actor t \<noteq> ByDemo sid \<or> tr_id t \<in> set (db_saved_turns d)
        \<or> (\<exists>r \<in> set (db_revisions d). ac_chat_turn (rv_content r) = Some (tr_id t))) (db_turns d)
    \<and> (\<forall>s \<in> set (db_demo_sessions d'). ds_id s = sid \<longrightarrow> \<not> is_open s)
    \<and> filter (\<lambda>s. ds_id s \<noteq> sid) (db_demo_sessions d') = filter (\<lambda>s. ds_id s \<noteq> sid) (db_demo_sessions d)
    \<and> (db_cards d', db_revisions d', db_decisions d', db_exports d', db_outcomes d', db_saved_turns d', db_operator_sessions d')
      = (db_cards d, db_revisions d, db_decisions d, db_exports d, db_outcomes d, db_saved_turns d, db_operator_sessions d)"
proof -
  have d': "d' = forget_sessions [sid] (set_demo (update_where (\<lambda>s. ds_id s = sid \<and> is_open s)
      (\<lambda>s. s\<lparr>ds_status := Ended, ds_ended_at := Some now\<rparr>) (db_demo_sessions d)) d)"
    using assms by (auto simp: end_demo_session_def update_demo_def split: option.splits)
  have others: "filter (\<lambda>s. ds_id s \<noteq> sid) (update_where (\<lambda>s. ds_id s = sid \<and> is_open s)
      (\<lambda>s. s\<lparr>ds_status := Ended, ds_ended_at := Some now\<rparr>) ss) = filter (\<lambda>s. ds_id s \<noteq> sid) ss" for ss
    by (induction ss) (auto simp: update_where_def)
  have closed: "\<forall>s \<in> set (db_demo_sessions d'). ds_id s = sid \<longrightarrow> \<not> is_open s"
  proof (intro ballI impI)
    fix t assume t: "t \<in> set (db_demo_sessions d')" "ds_id t = sid"
    from t(1) obtain r where r: "t = (if ds_id r = sid \<and> is_open r
        then r\<lparr>ds_status := Ended, ds_ended_at := Some now\<rparr> else r)"
      unfolding d' sessions_forget sessions_set_demo update_where_mem by blast
    show "\<not> is_open t"
    proof (cases "ds_id r = sid \<and> is_open r")
      case True
      then show ?thesis using r by (simp add: is_open_def)
    next
      case False
      then show ?thesis using r t(2) by auto
    qed
  qed
  have kept: "db_turns d' = filter (\<lambda>t. \<not> ephemeral d [ByDemo sid] t) (db_turns d)"
    by (simp add: d' forget_sessions_def delete_ephemeral_chat_def delete_session_overlays_def set_demo_def
        delete_where_def ephemeral_def turn_saved_def turn_is_authority_def)
  have pred: "(\<lambda>t. \<not> ephemeral d [ByDemo sid] t) = (\<lambda>t. tr_actor t \<noteq> ByDemo sid \<or> tr_id t \<in> set (db_saved_turns d)
      \<or> (\<exists>r \<in> set (db_revisions d). ac_chat_turn (rv_content r) = Some (tr_id t)))"
    by (auto simp: fun_eq_iff ephemeral_def turn_saved_def turn_is_authority_def list_ex_iff)
  have rest: "db_overlays d' = filter (\<lambda>v. ov_session v \<noteq> sid) (db_overlays d)"
    "db_cards d' = db_cards d" "db_revisions d' = db_revisions d" "db_decisions d' = db_decisions d"
    "db_exports d' = db_exports d" "db_outcomes d' = db_outcomes d" "db_saved_turns d' = db_saved_turns d"
    "db_operator_sessions d' = db_operator_sessions d"
    by (simp_all add: d' forget_sessions_def delete_ephemeral_chat_def delete_session_overlays_def set_demo_def
        delete_where_def)
  have "filter (\<lambda>s. ds_id s \<noteq> sid) (db_demo_sessions d') = filter (\<lambda>s. ds_id s \<noteq> sid) (db_demo_sessions d)"
    by (simp add: d' others)
  with kept closed rest show ?thesis unfolding pred by blast
qed

theorem session_end_forgets_witness:
  "\<exists>d'. end_demo_session ''a'' 5 (fold (session_step sample_service) (take 3 sample_history) empty_db
      \<lparr>db_turns := [\<lparr>tr_id = ''t1'', tr_actor = ByDemo ''a''\<rparr>, \<lparr>tr_id = ''t2'', tr_actor = ByDemo ''a''\<rparr>],
        db_saved_turns := [''t2'']\<rparr>) = (True, d') \<and> map tr_id (db_turns d') = [''t2'']"
proof -
  let ?d = "fold (session_step sample_service) (take 3 sample_history) empty_db
      \<lparr>db_turns := [\<lparr>tr_id = ''t1'', tr_actor = ByDemo ''a''\<rparr>, \<lparr>tr_id = ''t2'', tr_actor = ByDemo ''a''\<rparr>],
        db_saved_turns := [''t2'']\<rparr>"
  obtain b d' where d': "end_demo_session ''a'' 5 ?d = (b, d')" by fastforce
  have "fst (end_demo_session ''a'' 5 ?d) = True" by code_simp
  then have "end_demo_session ''a'' 5 ?d = (True, d')" using d' by simp
  moreover from session_end_forgets [OF this]
  have "map tr_id (db_turns d') = map tr_id (filter (\<lambda>t. tr_actor t \<noteq> ByDemo ''a'' \<or> tr_id t \<in> {''t2''}
      \<or> (\<exists>r \<in> set (db_revisions ?d). ac_chat_turn (rv_content r) = Some (tr_id t))) (db_turns ?d))" by simp
  moreover have "db_revisions ?d = []" by code_simp
  ultimately show ?thesis by auto
qed

text \<open>C37: admissions are bounded: however requests interleave and whatever the clock does, no source
  ever has more sessions created within any one hour than the limit of the service.\<close>

theorem session_admissions_bounded:
  "int (admitted_in source t (fold (session_step v) es empty_db)) \<le> max 0 (sv_limit v)"
  using admissions.run_inv [OF empty_admissions_ok, of v es] by (simp add: admissions_ok_def)

end
