(* ===== verification/Operators.thy ===== *)
theory Operators
  imports Sessions
begin

text \<open>
  The single operator: accounts and their bootstrap (\<open>src/repositories/operators.py\<close>,
  \<open>src/services/foundation_bootstrap_service.py\<close>), operator sessions
  (\<open>src/repositories/sessions.py\<close>), login with its budget of failed attempts
  (\<open>src/services/operator_auth_service.py\<close>) and the rotation of the password
  (\<open>src/services/operator_password_rotation_service.py\<close>). The password verifier, the keyed hash
  of a token and the fingerprint of a stored hash are parameters; tokens, identifiers and times
  are arguments.
\<close>

section \<open>Accounts\<close>

definition get_active_operator :: "string \<Rightarrow> db \<Rightarrow> operator_account option" where
  "get_active_operator ws d = select_one (\<lambda>a. oa_workspace a = ws \<and> oa_active a) (db_accounts d)"

text \<open>The verifier runs in every case, on a fallback hash when there is no such account.\<close>

definition authenticate :: "(string \<Rightarrow> bool) \<Rightarrow> string \<Rightarrow> string \<Rightarrow> string \<Rightarrow> db \<Rightarrow> operator_account option" where
  "authenticate verifier fallback ws user d =
     (let row = select_one (\<lambda>a. oa_workspace a = ws \<and> oa_login a = user \<and> oa_active a) (db_accounts d);
          hash = (case row of None \<Rightarrow> fallback | Some a \<Rightarrow> oa_password_hash a);
          verified = verifier hash
      in if row = None \<or> \<not> verified then None else row)"

section \<open>Operator sessions\<close>

definition op_live :: "time \<Rightarrow> operator_session \<Rightarrow> bool" where
  "op_live now s \<longleftrightarrow> os_revoked_at s = None \<and> now < os_idle_expires_at s \<and> now < os_absolute_expires_at s"

definition set_op :: "operator_session list \<Rightarrow> db \<Rightarrow> db" where
  "set_op ss d = d\<lparr>db_operator_sessions := ss\<rparr>"

definition insert_operator_session :: "operator_session \<Rightarrow> db \<Rightarrow> session_error + db" where
  "insert_operator_session s d =
     (if list_ex (\<lambda>r. os_id r = os_id s \<or> os_token_hash r = os_token_hash s) (db_operator_sessions d)
      then Inl IntegrityError else Inr (set_op (db_operator_sessions d @ [s]) d))"

definition get_active_operator_session :: "digest \<Rightarrow> time \<Rightarrow> db \<Rightarrow> operator_session option" where
  "get_active_operator_session token now d =
     select_one (\<lambda>s. os_token_hash s = token \<and> op_live now s) (db_operator_sessions d)"

definition touch_operator_session :: "uuid \<Rightarrow> time \<Rightarrow> time \<Rightarrow> db \<Rightarrow> operator_session option \<times> db" where
  "touch_operator_session sid now idle d =
     (let p = (\<lambda>s. os_id s = sid \<and> op_live now s);
          f = (\<lambda>s. s\<lparr>os_last_seen_at := now, os_idle_expires_at := idle\<rparr>)
      in (map_option f (select_one p (db_operator_sessions d)),
          set_op (update_where p f (db_operator_sessions d)) d))"

definition operator_csrf_matches :: "uuid \<Rightarrow> digest \<Rightarrow> db \<Rightarrow> bool" where
  "operator_csrf_matches sid candidate d =
     (case select_one (\<lambda>s. os_id s = sid \<and> os_revoked_at s = None) (db_operator_sessions d) of
        None \<Rightarrow> False | Some s \<Rightarrow> os_csrf_hash s = candidate)"

definition revoke_where :: "(operator_session \<Rightarrow> bool) \<Rightarrow> time \<Rightarrow> db \<Rightarrow> db" where
  "revoke_where p now d =
     set_op (update_where (\<lambda>s. p s \<and> os_revoked_at s = None) (\<lambda>s. s\<lparr>os_revoked_at := Some now\<rparr>)
       (db_operator_sessions d)) d"

definition revoke_operator_session :: "uuid \<Rightarrow> time \<Rightarrow> db \<Rightarrow> bool \<times> db" where
  "revoke_operator_session sid now d =
     (let changed = list_ex (\<lambda>s. os_id s = sid \<and> os_revoked_at s = None) (db_operator_sessions d);
          d' = revoke_where (\<lambda>s. os_id s = sid) now d
      in (changed, if changed then snd (delete_ephemeral_chat [ByOperator sid] d') else d'))"

text \<open>Every unrevoked session of one operator; the result counts sessions and deleted turns.\<close>

definition revoke_active_for_operator :: "uuid \<Rightarrow> time \<Rightarrow> db \<Rightarrow> (nat \<times> nat) \<times> db" where
  "revoke_active_for_operator op now d =
     (let ids = map os_id (filter (\<lambda>s. os_operator s = op \<and> os_revoked_at s = None) (db_operator_sessions d))
      in if ids = [] then ((0, 0), d)
         else let d' = revoke_where (\<lambda>s. os_id s \<in> set ids) now d;
                  revoked = map os_id (filter (\<lambda>s. os_id s \<in> set ids \<and> os_revoked_at s = None) (db_operator_sessions d))
              in case delete_ephemeral_chat (map ByOperator revoked) d' of
                   (deleted, d'') \<Rightarrow> ((length revoked, deleted), d''))"

section \<open>Failed attempts\<close>

definition failed_attempt_window :: time where
  "failed_attempt_window = minutes 5"

definition max_failed_attempts :: nat where
  "max_failed_attempts = 5"

type_synonym attempts = "string \<rightharpoonup> time list"

definition attempts_of :: "attempts \<Rightarrow> string \<Rightarrow> time list" where
  "attempts_of m source = (case m source of None \<Rightarrow> [] | Some ts \<Rightarrow> ts)"

definition recent_attempts :: "time \<Rightarrow> time list \<Rightarrow> time list" where
  "recent_attempts now ts = filter (\<lambda>t. now - failed_attempt_window < t) ts"

text \<open>The three critical sections on the table of attempts.\<close>

definition ensure_attempt_allowed :: "string \<Rightarrow> time \<Rightarrow> attempts \<Rightarrow> bool \<times> attempts" where
  "ensure_attempt_allowed source now m =
     (let ts = recent_attempts now (attempts_of m source)
      in (length ts < max_failed_attempts, m(source \<mapsto> ts)))"

definition record_failed_attempt :: "string \<Rightarrow> time \<Rightarrow> attempts \<Rightarrow> attempts" where
  "record_failed_attempt source now m = m(source \<mapsto> attempts_of m source @ [now])"

definition clear_failed_attempts :: "string \<Rightarrow> attempts \<Rightarrow> attempts" where
  "clear_failed_attempts source m = m(source := None)"

section \<open>Login, reauthentication, resolution\<close>

record auth_service =
  au_workspace :: string
  au_token_hash :: "string \<Rightarrow> digest"
  au_verify :: "string \<Rightarrow> string \<Rightarrow> bool"
  au_fallback :: string

record auth_state =
  st_db :: db
  st_attempts :: attempts

datatype auth_error = AuthenticationFailed | AuthenticationRateLimited | StorageFailed session_error

record login_request =
  lq_login :: string
  lq_password :: string
  lq_source :: string
  lq_id :: uuid
  lq_token :: string
  lq_csrf :: string

definition new_operator_session :: "auth_service \<Rightarrow> login_request \<Rightarrow> operator_account \<Rightarrow> time \<Rightarrow> operator_session" where
  "new_operator_session v q a now =
     \<lparr>os_id = lq_id q, os_workspace = oa_workspace a, os_operator = oa_id a,
      os_token_hash = au_token_hash v (lq_token q), os_csrf_hash = au_token_hash v (lq_csrf q),
      os_created_at = now, os_last_seen_at = now, os_idle_expires_at = now + idle_ttl,
      os_absolute_expires_at = now + absolute_ttl, os_revoked_at = None\<rparr>"

definition login :: "auth_service \<Rightarrow> login_request \<Rightarrow> time \<Rightarrow> auth_state
    \<Rightarrow> (auth_error + operator_session) \<times> auth_state" where
  "login v q now st =
     (case ensure_attempt_allowed (lq_source q) now (st_attempts st) of (allowed, m) \<Rightarrow>
        if \<not> allowed then (Inl AuthenticationRateLimited, st\<lparr>st_attempts := m\<rparr>)
        else case authenticate (\<lambda>h. au_verify v h (lq_password q)) (au_fallback v) (au_workspace v)
                    (lq_login q) (st_db st) of
          None \<Rightarrow> (Inl AuthenticationFailed, st\<lparr>st_attempts := record_failed_attempt (lq_source q) now m\<rparr>)
        | Some a \<Rightarrow>
            (let s = new_operator_session v q a now
             in case insert_operator_session s (st_db st) of
                  Inl e \<Rightarrow> (Inl (StorageFailed e), st\<lparr>st_attempts := m\<rparr>)
                | Inr d \<Rightarrow> (Inr s, \<lparr>st_db = d, st_attempts = clear_failed_attempts (lq_source q) m\<rparr>)))"

definition reauthenticate :: "auth_service \<Rightarrow> operator_account \<Rightarrow> string \<Rightarrow> string \<Rightarrow> time \<Rightarrow> auth_state
    \<Rightarrow> (auth_error + bool) \<times> auth_state" where
  "reauthenticate v who password source now st =
     (case ensure_attempt_allowed source now (st_attempts st) of (allowed, m) \<Rightarrow>
        if \<not> allowed then (Inl AuthenticationRateLimited, st\<lparr>st_attempts := m\<rparr>)
        else case authenticate (\<lambda>h. au_verify v h password) (au_fallback v) (oa_workspace who)
                    (oa_login who) (st_db st) of
          None \<Rightarrow> (Inr False, st\<lparr>st_attempts := record_failed_attempt source now m\<rparr>)
        | Some a \<Rightarrow>
            if oa_id a \<noteq> oa_id who
            then (Inr False, st\<lparr>st_attempts := record_failed_attempt source now m\<rparr>)
            else (Inr True, st\<lparr>st_attempts := clear_failed_attempts source m\<rparr>))"

text \<open>A session resolves only while its operator is the active one of its workspace.\<close>

definition resolve_operator :: "auth_service \<Rightarrow> string \<Rightarrow> time \<Rightarrow> db \<Rightarrow> operator_session option \<times> db" where
  "resolve_operator v token now d =
     (case get_active_operator_session (au_token_hash v token) now d of
        None \<Rightarrow> (None, d)
      | Some s \<Rightarrow> (case get_active_operator (os_workspace s) d of
            None \<Rightarrow> (None, d)
          | Some a \<Rightarrow> if oa_id a \<noteq> os_operator s then (None, d)
              else touch_operator_session (os_id s) now (min (now + idle_ttl) (os_absolute_expires_at s)) d))"

section \<open>Rotation of the password\<close>

datatype rotation_status = Rotated | AlreadyRotated | ExpectedHashMismatch

definition rotate_password_row :: "(string \<Rightarrow> digest) \<Rightarrow> string \<Rightarrow> string \<Rightarrow> digest \<Rightarrow> string \<Rightarrow> db
    \<Rightarrow> (uuid \<times> rotation_status) option \<times> db" where
  "rotate_password_row fingerprint ws user expected replacement d =
     (case select_one (\<lambda>a. oa_workspace a = ws \<and> oa_login a = user \<and> oa_active a) (db_accounts d) of
        None \<Rightarrow> (None, d)
      | Some a \<Rightarrow>
          if oa_password_hash a = replacement then (Some (oa_id a, AlreadyRotated), d)
          else if fingerprint (oa_password_hash a) \<noteq> expected then (Some (oa_id a, ExpectedHashMismatch), d)
          else (Some (oa_id a, Rotated),
                d\<lparr>db_accounts := update_where (\<lambda>r. oa_id r = oa_id a \<and> oa_active r)
                    (\<lambda>r. r\<lparr>oa_password_hash := replacement\<rparr>) (db_accounts d)\<rparr>))"

datatype rotation_error = RotationInvalid string | RotationAuthorityMissing | RotationConflict

definition is_sha256 :: "string \<Rightarrow> bool" where
  "is_sha256 s \<longleftrightarrow> length s = 64 \<and> list_all (\<lambda>c. c \<in> set ''0123456789abcdef'') s"

definition rotate_password :: "(string \<Rightarrow> digest) \<Rightarrow> string \<Rightarrow> string \<Rightarrow> digest \<Rightarrow> string \<Rightarrow> time \<Rightarrow> db
    \<Rightarrow> rotation_error + ((rotation_status \<times> nat \<times> nat) \<times> db)" where
  "rotate_password fingerprint ws user expected replacement now d =
     (if \<not> is_sha256 expected then Inl (RotationInvalid ''expected_hash_fingerprint_invalid'')
      else if replacement = [] then Inl (RotationInvalid ''replacement_password_hash_missing'')
      else case rotate_password_row fingerprint ws user expected replacement d of
        (None, _) \<Rightarrow> Inl RotationAuthorityMissing
      | (Some (_, ExpectedHashMismatch), _) \<Rightarrow> Inl RotationConflict
      | (Some (_, AlreadyRotated), d') \<Rightarrow> Inr ((AlreadyRotated, 0, 0), d')
      | (Some (op, Rotated), d') \<Rightarrow>
          (case revoke_active_for_operator op now d' of ((n, k), d'') \<Rightarrow> Inr ((Rotated, n, k), d'')))"

section \<open>Bootstrap of the foundation\<close>

record foundation =
  fo_workspace :: string
  fo_login :: string
  fo_password_hash :: string
  fo_operator_id :: uuid

record authority =
  ay_kind :: "string option"
  ay_count :: nat
  ay_operator :: "operator_account option"
  ay_credential_matches :: bool

definition foundation_authority :: "foundation \<Rightarrow> db \<Rightarrow> authority" where
  "foundation_authority f d =
     (let row = get_active_operator (fo_workspace f) d
      in \<lparr>ay_kind = map_of (db_workspaces d) (fo_workspace f),
          ay_count = length (filter (\<lambda>a. oa_workspace a = fo_workspace f) (db_accounts d)),
          ay_operator = row,
          ay_credential_matches = (case row of None \<Rightarrow> False | Some a \<Rightarrow> oa_password_hash a = fo_password_hash f)\<rparr>)"

definition demo_kind :: string where
  "demo_kind = ''single_operator_demo''"

definition foundation_matches :: "foundation \<Rightarrow> authority \<Rightarrow> bool" where
  "foundation_matches f y \<longleftrightarrow> ay_kind y = Some demo_kind \<and> ay_count y = 1
     \<and> (case ay_operator y of None \<Rightarrow> False
        | Some a \<Rightarrow> oa_id a = fo_operator_id f \<and> oa_workspace a = fo_workspace f
            \<and> oa_login a = fo_login f \<and> oa_active a)
     \<and> ay_credential_matches y"

datatype bootstrap_error = FoundationBootstrapConflict | AccountExists

definition create_workspace :: "string \<Rightarrow> db \<Rightarrow> db" where
  "create_workspace ws d = d\<lparr>db_workspaces := db_workspaces d @ [(ws, demo_kind)]\<rparr>"

definition create_operator :: "foundation \<Rightarrow> db \<Rightarrow> bootstrap_error + db" where
  "create_operator f d =
     (if list_ex (\<lambda>a. oa_id a = fo_operator_id f) (db_accounts d) then Inl AccountExists
      else Inr (d\<lparr>db_accounts := db_accounts d @ [\<lparr>oa_id = fo_operator_id f, oa_workspace = fo_workspace f,
             oa_login = fo_login f, oa_password_hash = fo_password_hash f, oa_active = True\<rparr>]\<rparr>))"

text \<open>The transaction; the two flags are the locals of the method, which survive an exception.\<close>

definition bootstrap_body :: "foundation \<Rightarrow> db \<Rightarrow> (bool \<times> bool) \<times> (bootstrap_error + (unit \<times> db))" where
  "bootstrap_body f d =
     (let kind = ay_kind (foundation_authority f d) in
      if kind \<noteq> None \<and> kind \<noteq> Some demo_kind then ((False, False), Inl FoundationBootstrapConflict)
      else let created = (kind = None);
               d1 = (if created then create_workspace (fo_workspace f) d else d);
               y = foundation_authority f d1
           in case ay_operator y of
                None \<Rightarrow>
                  if ay_count y \<noteq> 0 then ((created, False), Inl FoundationBootstrapConflict)
                  else (case create_operator f d1 of
                          Inl e \<Rightarrow> ((created, False), Inl e)
                        | Inr d2 \<Rightarrow> ((created, True), Inr ((), d2)))
              | Some _ \<Rightarrow>
                  if foundation_matches f y then ((created, False), Inr ((), d1))
                  else ((created, False), Inl FoundationBootstrapConflict))"

record bootstrap_result =
  br_operator :: uuid
  br_workspace_created :: bool
  br_operator_created :: bool

text \<open>After an exception of any kind the authority is read again; the bootstrap has succeeded when
  it is the configured one.\<close>

definition bootstrap :: "foundation \<Rightarrow> fault \<Rightarrow> db \<Rightarrow> (bootstrap_error, bootstrap_result) outcome \<times> db" where
  "bootstrap f flt d =
     (let flags = fst (bootstrap_body f d);
          r = \<lparr>br_operator = fo_operator_id f, br_workspace_created = fst flags, br_operator_created = snd flags\<rparr>
      in case run_uow flt (\<lambda>d. snd (bootstrap_body f d)) d of
           (Returned _, d') \<Rightarrow> (Returned r, d')
         | (Raised e, d') \<Rightarrow> if foundation_matches f (foundation_authority f d') then (Returned r, d') else (Raised e, d')
         | (ConnectionLost, d') \<Rightarrow>
             if foundation_matches f (foundation_authority f d') then (Returned r, d') else (ConnectionLost, d'))"

definition bootstrap_ready :: "foundation \<Rightarrow> db \<Rightarrow> bool" where
  "bootstrap_ready f d = foundation_matches f (foundation_authority f d)"

section \<open>Histories\<close>

datatype auth_event =
    Login login_request
  | Reauthenticate operator_account string string
  | Resolve string
  | Logout uuid

datatype verdict = CheckFailed string | CheckPassed string | NoCheck

definition auth_step :: "auth_service \<Rightarrow> time \<Rightarrow> auth_event \<Rightarrow> auth_state \<Rightarrow> verdict \<times> auth_state" where
  "auth_step v now e st = (case e of
     Login q \<Rightarrow> (case login v q now st of
         (Inl AuthenticationFailed, st') \<Rightarrow> (CheckFailed (lq_source q), st')
       | (Inl _, st') \<Rightarrow> (NoCheck, st')
       | (Inr _, st') \<Rightarrow> (CheckPassed (lq_source q), st'))
   | Reauthenticate who password source \<Rightarrow> (case reauthenticate v who password source now st of
         (Inl _, st') \<Rightarrow> (NoCheck, st')
       | (Inr b, st') \<Rightarrow> (if b then CheckPassed source else CheckFailed source, st'))
   | Resolve token \<Rightarrow> (NoCheck, st\<lparr>st_db := snd (resolve_operator v token now (st_db st))\<rparr>)
   | Logout sid \<Rightarrow> (NoCheck, st\<lparr>st_db := snd (revoke_operator_session sid now (st_db st))\<rparr>))"

text \<open>The failed password checks of a source since its last success, with their times.\<close>

definition note_verdict :: "time \<Rightarrow> verdict \<Rightarrow> (string \<Rightarrow> time list) \<Rightarrow> string \<Rightarrow> time list" where
  "note_verdict now x g = (case x of
     CheckFailed source \<Rightarrow> g(source := g source @ [now])
   | CheckPassed source \<Rightarrow> g(source := [])
   | NoCheck \<Rightarrow> g)"

fun auth_run :: "auth_service \<Rightarrow> (time \<times> auth_event) list \<Rightarrow> (string \<Rightarrow> time list) \<Rightarrow> auth_state
    \<Rightarrow> (string \<Rightarrow> time list) \<times> auth_state" where
  "auth_run v [] g st = (g, st)"
| "auth_run v ((now, e) # es) g st =
     (case auth_step v now e st of (x, st') \<Rightarrow> auth_run v es (note_verdict now x g) st')"

definition in_window :: "time \<Rightarrow> time list \<Rightarrow> time list" where
  "in_window t ts = filter (\<lambda>x. t - failed_attempt_window < x \<and> x \<le> t) ts"

text \<open>The table of attempts agrees with the log on what still counts.\<close>

definition budget_inv :: "time \<Rightarrow> (string \<Rightarrow> time list) \<Rightarrow> attempts \<Rightarrow> bool" where
  "budget_inv now g m \<longleftrightarrow> (\<forall>source. recent_attempts now (g source) = recent_attempts now (attempts_of m source)
     \<and> (\<forall>t. length (in_window t (g source)) \<le> max_failed_attempts))"

lemma recent_recent: "t \<le> now \<Longrightarrow> recent_attempts now (recent_attempts t ts) = recent_attempts now ts"
  by (induction ts) (auto simp: recent_attempts_def)

lemma recent_antimono:
  "recent_attempts t xs = recent_attempts t ys \<Longrightarrow> t \<le> now \<Longrightarrow> recent_attempts now xs = recent_attempts now ys"
  by (metis recent_recent)

lemma budget_later: "budget_inv t g m \<Longrightarrow> t \<le> now \<Longrightarrow> budget_inv now g m"
  by (auto simp: budget_inv_def intro: recent_antimono)

lemma attempts_of_simps [simp]:
  "attempts_of (m(source \<mapsto> ts)) s = (if s = source then ts else attempts_of m s)"
  "attempts_of (m(source := None)) s = (if s = source then [] else attempts_of m s)"
  by (simp_all add: attempts_of_def)

lemma recent_append [simp]: "recent_attempts now (xs @ ys) = recent_attempts now xs @ recent_attempts now ys"
  by (simp add: recent_attempts_def)

lemma window_extend:
  assumes "length (recent_attempts now ts) < max_failed_attempts"
    and "\<forall>t. length (in_window t ts) \<le> max_failed_attempts"
  shows "length (in_window t (ts @ [now])) \<le> max_failed_attempts"
proof (cases "t - failed_attempt_window < now \<and> now \<le> t")
  case True
  have "length (in_window t ts) \<le> length (recent_attempts now ts)"
    unfolding in_window_def recent_attempts_def by (rule length_filter_mono) (use True in auto)
  then show ?thesis using assms(1) True by (simp add: in_window_def)
next
  case False
  then have "in_window t (ts @ [now]) = in_window t ts" by (auto simp: in_window_def)
  then show ?thesis using assms(2) by simp
qed

lemma budget_ensure:
  "budget_inv now g m \<Longrightarrow> budget_inv now g (snd (ensure_attempt_allowed source now m))"
  by (auto simp: budget_inv_def ensure_attempt_allowed_def Let_def recent_recent)

lemma budget_record:
  assumes "budget_inv now g m" and "fst (ensure_attempt_allowed source now m)"
  shows "budget_inv now (g(source := g source @ [now]))
    (record_failed_attempt source now (snd (ensure_attempt_allowed source now m)))"
  using assms
  by (auto simp: budget_inv_def ensure_attempt_allowed_def Let_def record_failed_attempt_def recent_recent
      intro!: window_extend)

lemma budget_clear:
  assumes "budget_inv now g m"
  shows "budget_inv now (g(source := [])) (clear_failed_attempts source (snd (ensure_attempt_allowed source now m)))"
  using assms
  by (auto simp: budget_inv_def ensure_attempt_allowed_def Let_def clear_failed_attempts_def in_window_def)

lemma auth_step_budget:
  assumes "budget_inv now g (st_attempts st)" and "auth_step v now e st = (x, st')"
  shows "budget_inv now (note_verdict now x g) (st_attempts st')"
proof (cases e)
  case (Login q)
  then show ?thesis using assms budget_ensure [OF assms(1), of "lq_source q"]
      budget_record [OF assms(1), of "lq_source q"] budget_clear [OF assms(1), of "lq_source q"]
    by (auto simp: auth_step_def login_def note_verdict_def Let_def
        split: prod.splits option.splits sum.splits if_splits auth_error.splits)
next
  case (Reauthenticate who password source)
  then show ?thesis using assms budget_ensure [OF assms(1), of source]
      budget_record [OF assms(1), of source] budget_clear [OF assms(1), of source]
    by (auto simp: auth_step_def reauthenticate_def note_verdict_def
        split: prod.splits option.splits sum.splits if_splits)
next
  case (Resolve token)
  then show ?thesis using assms by (auto simp: auth_step_def note_verdict_def)
next
  case (Logout sid)
  then show ?thesis using assms by (auto simp: auth_step_def note_verdict_def)
qed

lemma auth_run_budget:
  "budget_inv t g (st_attempts st) \<Longrightarrow> sorted (t # map fst es) \<Longrightarrow> auth_run v es g st = (g', st')
   \<Longrightarrow> \<forall>u. length (in_window u (g' source)) \<le> max_failed_attempts"
proof (induction es arbitrary: t g st)
  case Nil
  then show ?case by (simp add: budget_inv_def)
next
  case (Cons e es)
  obtain now x where e: "e = (now, x)" by (cases e)
  obtain y st1 where y: "auth_step v now x st = (y, st1)" by (cases "auth_step v now x st")
  have "budget_inv now g (st_attempts st)" using Cons.prems(1,2) by (auto simp: e intro: budget_later)
  then have "budget_inv now (note_verdict now y g) (st_attempts st1)" using y by (rule auth_step_budget)
  then show ?case using Cons.IH [of now] Cons.prems(2,3) y by (simp add: e)
qed

section \<open>The life of an operator session\<close>

inductive op_row_step :: "time \<Rightarrow> operator_session \<Rightarrow> operator_session \<Rightarrow> bool" for now :: time where
  op_keep: "op_row_step now s s"
| op_touch: "op_live now s \<Longrightarrow> op_row_step now s
     (s\<lparr>os_last_seen_at := now, os_idle_expires_at := min (now + idle_ttl) (os_absolute_expires_at s)\<rparr>)"
| op_revoke: "os_revoked_at s = None \<Longrightarrow> op_row_step now s (s\<lparr>os_revoked_at := Some now\<rparr>)"

inductive_cases op_row_stepE: "op_row_step now s t"

definition op_row_ok :: "operator_session \<Rightarrow> bool" where
  "op_row_ok s \<longleftrightarrow> os_idle_expires_at s \<le> os_absolute_expires_at s
     \<and> os_absolute_expires_at s = os_created_at s + absolute_ttl
     \<and> os_idle_expires_at s = min (os_last_seen_at s + idle_ttl) (os_absolute_expires_at s)"

definition operators_ok :: "auth_state \<Rightarrow> bool" where
  "operators_ok st \<longleftrightarrow> (\<forall>s \<in> set (db_operator_sessions (st_db st)). op_row_ok s)
     \<and> distinct (map os_id (db_operator_sessions (st_db st)))
     \<and> distinct (map os_token_hash (db_operator_sessions (st_db st)))"

lemma op_rows_update:
  "(\<And>s. s \<in> set ss \<Longrightarrow> p s \<Longrightarrow> op_row_step now s (f s)) \<Longrightarrow> list_all2 (op_row_step now) ss (update_where p f ss)"
  by (induction ss) (auto simp: update_where_def op_keep)

lemma op_rows_same: "list_all2 (op_row_step now) ss ss"
  by (simp add: list_all2_same op_keep)

lemma op_row_frame:
  assumes "op_row_step now s t"
  shows "os_id t = os_id s" "os_token_hash t = os_token_hash s"
  using assms by (auto elim: op_row_stepE)

lemma set_op_sessions [simp]: "db_operator_sessions (set_op ss d) = ss"
  by (simp add: set_op_def)

lemma ephemeral_sessions [simp]:
  "db_operator_sessions (snd (delete_ephemeral_chat as d)) = db_operator_sessions d"
  by (simp add: delete_ephemeral_chat_def)

lemma revoke_operator_sessions:
  "db_operator_sessions (snd (revoke_operator_session sid now d)) = update_where
     (\<lambda>s. os_id s = sid \<and> os_revoked_at s = None) (\<lambda>s. s\<lparr>os_revoked_at := Some now\<rparr>) (db_operator_sessions d)"
  by (simp add: revoke_operator_session_def revoke_where_def Let_def)

lemma resolve_rows:
  assumes "distinct (map os_id (db_operator_sessions d))"
  shows "list_all2 (op_row_step now) (db_operator_sessions d) (db_operator_sessions (snd (resolve_operator v token now d)))"
proof (cases "get_active_operator_session (au_token_hash v token) now d")
  case None
  then show ?thesis by (simp add: resolve_operator_def op_rows_same)
next
  case (Some s)
  then have s: "s \<in> set (db_operator_sessions d)"
    by (auto simp: get_active_operator_session_def dest: select_one_SomeD)
  have same: "t = s" if "t \<in> set (db_operator_sessions d)" "os_id t = os_id s" for t
    using assms s that by (auto simp: distinct_map dest: inj_onD)
  show ?thesis
    by (auto simp: resolve_operator_def Some touch_operator_session_def Let_def op_rows_same
        split: option.splits intro!: op_rows_update dest!: same intro: op_touch)
qed

text \<open>A login appends a fresh session; everything else moves the table row by row.\<close>

definition op_admits :: "auth_service \<Rightarrow> time \<Rightarrow> db \<Rightarrow> operator_session \<Rightarrow> bool" where
  "op_admits v now d s \<longleftrightarrow> (\<exists>q a. s = new_operator_session v q a now)
     \<and> os_id s \<notin> os_id ` set (db_operator_sessions d)
     \<and> os_token_hash s \<notin> os_token_hash ` set (db_operator_sessions d)"

lemma auth_step_sessions:
  assumes "distinct (map os_id (db_operator_sessions (st_db st)))" and "auth_step v now e st = (x, st')"
  shows "list_all2 (op_row_step now) (db_operator_sessions (st_db st)) (db_operator_sessions (st_db st'))
    \<or> (\<exists>s. op_admits v now (st_db st) s \<and> db_operator_sessions (st_db st') = db_operator_sessions (st_db st) @ [s])"
proof (cases e)
  case (Login q)
  show ?thesis
  proof (cases "db_operator_sessions (st_db st') = db_operator_sessions (st_db st)")
    case True
    then show ?thesis by (simp add: op_rows_same)
  next
    case False
    then obtain a where "db_operator_sessions (st_db st') = db_operator_sessions (st_db st) @ [new_operator_session v q a now]"
      "\<not> list_ex (\<lambda>r. os_id r = os_id (new_operator_session v q a now)
          \<or> os_token_hash r = os_token_hash (new_operator_session v q a now)) (db_operator_sessions (st_db st))"
      using assms(2) by (auto simp: Login auth_step_def login_def Let_def insert_operator_session_def
          split: prod.splits option.splits sum.splits if_splits auth_error.splits)
    then show ?thesis by (fastforce simp: list_ex_iff op_admits_def)
  qed
next
  case (Reauthenticate who password source)
  then have "st_db st' = st_db st" using assms(2)
    by (auto simp: auth_step_def reauthenticate_def split: prod.splits option.splits sum.splits if_splits)
  then show ?thesis by (simp add: op_rows_same)
next
  case (Resolve token)
  then show ?thesis using assms resolve_rows [of "st_db st" now v token] by (auto simp: auth_step_def)
next
  case (Logout sid)
  then show ?thesis using assms(2)
    by (auto simp: auth_step_def revoke_operator_sessions intro!: op_rows_update intro: op_revoke)
qed

lemma op_row_step_ok: "op_row_step now s t \<Longrightarrow> op_row_ok s \<Longrightarrow> op_row_ok t"
  by (erule op_row_stepE) (auto simp: op_row_ok_def op_live_def)

lemma new_operator_session_ok: "op_row_ok (new_operator_session v q a now)"
  by (simp add: op_row_ok_def new_operator_session_def idle_ttl_def absolute_ttl_def minutes_def)

lemma auth_step_ok:
  assumes "operators_ok st"
  shows "operators_ok (snd (auth_step v now e st))"
proof -
  obtain x st' where st': "auth_step v now e st = (x, st')" by (cases "auth_step v now e st")
  have dist: "distinct (map os_id (db_operator_sessions (st_db st)))" using assms by (simp add: operators_ok_def)
  from auth_step_sessions [OF dist st'] show ?thesis
  proof
    assume rows: "list_all2 (op_row_step now) (db_operator_sessions (st_db st)) (db_operator_sessions (st_db st'))"
    show ?thesis
      using assms list_all2_frame [OF rows, of os_id] list_all2_frame [OF rows, of os_token_hash]
        list_all2_carry [OF rows, of op_row_ok op_row_ok]
      by (simp add: operators_ok_def st' op_row_frame op_row_step_ok)
  next
    assume "\<exists>s. op_admits v now (st_db st) s \<and> db_operator_sessions (st_db st') = db_operator_sessions (st_db st) @ [s]"
    then show ?thesis using assms by (auto simp: operators_ok_def op_admits_def st' new_operator_session_ok)
  qed
qed

interpretation operators: guarded_machine "\<lambda>(now, e) st. snd (auth_step v now e st)" operators_ok for v
  by unfold_locales (auto intro: auth_step_ok)

lemma auth_run_fold: "snd (auth_run v es g st) = fold (\<lambda>(now, e) st. snd (auth_step v now e st)) es st"
  by (induction es arbitrary: g st) (auto split: prod.splits)

definition revoked :: "uuid \<Rightarrow> auth_state \<Rightarrow> bool" where
  "revoked sid st \<longleftrightarrow> sid \<in> os_id ` set (db_operator_sessions (st_db st))
     \<and> (\<forall>s \<in> set (db_operator_sessions (st_db st)). os_id s = sid \<longrightarrow> os_revoked_at s \<noteq> None)"

lemma op_row_step_revoked: "op_row_step now s t \<Longrightarrow> os_revoked_at s \<noteq> None \<Longrightarrow> os_revoked_at t \<noteq> None"
  by (erule op_row_stepE) auto

lemma auth_step_revoked:
  assumes "operators_ok st" and gone: "revoked sid st"
  shows "revoked sid (snd (auth_step v now e st))"
proof -
  obtain x st' where st': "auth_step v now e st = (x, st')" by (cases "auth_step v now e st")
  have dist: "distinct (map os_id (db_operator_sessions (st_db st)))" using assms by (simp add: operators_ok_def)
  from auth_step_sessions [OF dist st'] show ?thesis
  proof
    assume rows: "list_all2 (op_row_step now) (db_operator_sessions (st_db st)) (db_operator_sessions (st_db st'))"
    have "os_id ` set (db_operator_sessions (st_db st')) = os_id ` set (db_operator_sessions (st_db st))"
      using list_all2_frame [OF rows, of os_id] op_row_frame(1) by (metis list.set_map)
    moreover have "\<forall>s \<in> set (db_operator_sessions (st_db st')). os_id s = sid \<longrightarrow> os_revoked_at s \<noteq> None"
      by (rule list_all2_carry [OF rows, where Q = "\<lambda>s. os_id s = sid \<longrightarrow> os_revoked_at s \<noteq> None"])
        (use gone in \<open>auto simp: revoked_def op_row_frame dest!: op_row_step_revoked\<close>)
    ultimately show ?thesis using gone by (simp add: revoked_def st')
  next
    assume "\<exists>s. op_admits v now (st_db st) s \<and> db_operator_sessions (st_db st') = db_operator_sessions (st_db st) @ [s]"
    then show ?thesis using gone by (auto simp: revoked_def op_admits_def st')
  qed
qed

interpretation revocation: guarded_machine "\<lambda>(now, e) st. snd (auth_step v now e st)"
  "\<lambda>st. operators_ok st \<and> revoked sid st" for v sid
  by unfold_locales (auto intro: auth_step_ok auth_step_revoked)

lemma revoked_not_resolved:
  assumes "revoked sid st" and "fst (resolve_operator v token now (st_db st)) = Some s"
  shows "os_id s \<noteq> sid"
  using assms by (auto simp: resolve_operator_def revoked_def touch_operator_session_def Let_def op_live_def
      split: option.splits if_splits dest!: select_one_SomeD)

section \<open>Properties\<close>

definition sample_account :: operator_account where
  "sample_account = \<lparr>oa_id = ''op'', oa_workspace = ''demo'', oa_login = ''ann'', oa_password_hash = ''#secret'', oa_active = True\<rparr>"

definition sample_auth :: auth_service where
  "sample_auth = \<lparr>au_workspace = ''demo'', au_token_hash = (\<lambda>t. ''h'' @ t), au_verify = (\<lambda>h p. h = ''#'' @ p), au_fallback = []\<rparr>"

definition sample_state :: auth_state where
  "sample_state = \<lparr>st_db = empty_db\<lparr>db_accounts := [sample_account]\<rparr>, st_attempts = Map.empty\<rparr>"

definition sample_login :: "string \<Rightarrow> string \<Rightarrow> login_request" where
  "sample_login pw tok = \<lparr>lq_login = ''ann'', lq_password = pw, lq_source = ''here'', lq_id = tok, lq_token = tok, lq_csrf = ''c''\<rparr>"



text \<open>The budget is checked and charged in two critical sections with the password check between
  them, so it holds for one request at a time only: with four failures counted, two concurrent
  logins both pass the check and the source ends with six.\<close>

theorem login_budget_race:
  assumes "length (recent_attempts now (attempts_of m source)) = 4"
  shows "fst (ensure_attempt_allowed source now m)
    \<and> fst (ensure_attempt_allowed source now (snd (ensure_attempt_allowed source now m)))
    \<and> length (recent_attempts now (attempts_of
        (record_failed_attempt source now (record_failed_attempt source now
          (snd (ensure_attempt_allowed source now (snd (ensure_attempt_allowed source now m)))))) source)) = 6"
  using assms
  by (simp add: ensure_attempt_allowed_def record_failed_attempt_def Let_def max_failed_attempts_def recent_recent)
    (simp add: recent_attempts_def failed_attempt_window_def minutes_def)

theorem login_budget_race_witness:
  "length (recent_attempts 9 (attempts_of (record_failed_attempt ''here'' 9 (record_failed_attempt ''here'' 9
      (snd (ensure_attempt_allowed ''here'' 9 (snd (ensure_attempt_allowed ''here'' 9 [''here'' \<mapsto> [1, 2, 3, 4]])))))) ''here'')) = 6"
proof -
  have "length (recent_attempts 9 (attempts_of [''here'' \<mapsto> [1, 2, 3, 4]] ''here'')) = 4" by code_simp
  from login_budget_race [OF this] show ?thesis by blast
qed

text \<open>A session that was logged out never resolves again, whatever follows; and a session that
  resolves was live, belongs to the active operator of its workspace, and is renewed by half an
  hour, never past its absolute expiry.\<close>

theorem operator_session_closed:
  assumes "operators_ok st" and "sid \<in> os_id ` set (db_operator_sessions (st_db st))"
    and "after = auth_run v es g (snd (auth_step v now (Logout sid) st))"
  shows "(\<forall>s. fst (resolve_operator v token now' (st_db (snd after))) = Some s \<longrightarrow> os_id s \<noteq> sid)
    \<and> (\<forall>s d. fst (resolve_operator v token now' d) = Some s \<longrightarrow>
        (\<exists>r a. r \<in> set (db_operator_sessions d) \<and> op_live now' r \<and> os_token_hash r = au_token_hash v token
          \<and> get_active_operator (os_workspace r) d = Some a \<and> oa_id a = os_operator r
          \<and> os_idle_expires_at s = min (now' + idle_ttl) (os_absolute_expires_at r)))"
proof (intro conjI allI impI)
  let ?st = "snd (auth_step v now (Logout sid) st)"
  have "map os_id (db_operator_sessions (st_db ?st)) = map os_id (db_operator_sessions (st_db st))"
    by (simp add: auth_step_def revoke_operator_sessions update_where_keys)
  then have "os_id ` set (db_operator_sessions (st_db ?st)) = os_id ` set (db_operator_sessions (st_db st))"
    by (metis list.set_map)
  then have "revoked sid ?st" using assms(2)
    by (auto simp: revoked_def auth_step_def revoke_operator_sessions update_where_mem)
  then have "revoked sid (snd after)"
    using revocation.run_inv [of ?st sid v es] auth_step_ok [OF assms(1)] by (simp add: assms(3) auth_run_fold)
  fix s assume "fst (resolve_operator v token now' (st_db (snd after))) = Some s"
  with \<open>revoked sid (snd after)\<close> show "os_id s \<noteq> sid" by (rule revoked_not_resolved)
next
  fix s d assume "fst (resolve_operator v token now' d) = Some s"
  then show "\<exists>r a. r \<in> set (db_operator_sessions d) \<and> op_live now' r \<and> os_token_hash r = au_token_hash v token
          \<and> get_active_operator (os_workspace r) d = Some a \<and> oa_id a = os_operator r
          \<and> os_idle_expires_at s = min (now' + idle_ttl) (os_absolute_expires_at r)"
    by (fastforce simp: resolve_operator_def touch_operator_session_def get_active_operator_session_def Let_def
        split: option.splits if_splits dest!: select_one_SomeD)
qed

definition sample_logged_in :: auth_state where
  "sample_logged_in = snd (auth_step sample_auth 0 (Login (sample_login ''secret'' ''t'')) sample_state)"

theorem operator_session_closed_witness:
  "map os_id (db_operator_sessions (st_db sample_logged_in)) = [''t'']
    \<and> fst (resolve_operator sample_auth ''t'' 5 (st_db sample_logged_in)) \<noteq> None
    \<and> map_option os_id (fst (resolve_operator sample_auth ''t'' 5 (st_db (snd (auth_run sample_auth [(4, Resolve ''t'')] (\<lambda>_. [])
        (snd (auth_step sample_auth 3 (Logout ''t'') sample_logged_in))))))) \<noteq> Some ''t''"
proof (intro conjI)
  show ids: "map os_id (db_operator_sessions (st_db sample_logged_in)) = [''t'']" by code_simp
  show "fst (resolve_operator sample_auth ''t'' 5 (st_db sample_logged_in)) \<noteq> None" by code_simp
  have ok: "operators_ok sample_logged_in"
    unfolding sample_logged_in_def
    by (rule auth_step_ok) (simp add: operators_ok_def sample_state_def empty_db_def)
  have "''t'' \<in> set (map os_id (db_operator_sessions (st_db sample_logged_in)))" unfolding ids by simp
  then have "''t'' \<in> os_id ` set (db_operator_sessions (st_db sample_logged_in))" by simp
  note mem = this
  have "os_id s \<noteq> ''t''" if "fst (resolve_operator sample_auth ''t'' 5 (st_db (snd (auth_run sample_auth [(4, Resolve ''t'')] (\<lambda>_. [])
        (snd (auth_step sample_auth 3 (Logout ''t'') sample_logged_in)))))) = Some s" for s
    using operator_session_closed [OF ok mem refl, of sample_auth "''t''" 5] that by blast
  then show "map_option os_id (fst (resolve_operator sample_auth ''t'' 5 (st_db (snd (auth_run sample_auth [(4, Resolve ''t'')] (\<lambda>_. [])
        (snd (auth_step sample_auth 3 (Logout ''t'') sample_logged_in))))))) \<noteq> Some ''t''"
    by (auto simp: map_option_eq_Some)
qed

lemma revoke_active_spec:
  assumes "revoke_active_for_operator op now d = ((n, k), d')" and dist: "distinct (map os_id (db_operator_sessions d))"
  shows "(\<forall>s \<in> set (db_operator_sessions d'). os_operator s = op \<longrightarrow> os_revoked_at s \<noteq> None)"
    and "n = length (filter (\<lambda>s. os_operator s = op \<and> os_revoked_at s = None) (db_operator_sessions d))"
    and "db_accounts d' = db_accounts d"
proof -
  define ids where "ids = map os_id (filter (\<lambda>s. os_operator s = op \<and> os_revoked_at s = None) (db_operator_sessions d))"
  have mine: "os_id s \<in> set ids \<longleftrightarrow> os_operator s = op \<and> os_revoked_at s = None" if "s \<in> set (db_operator_sessions d)" for s
    using that dist by (auto simp: ids_def distinct_map dest: inj_onD)
  have filt: "filter (\<lambda>s. os_id s \<in> set ids \<and> os_revoked_at s = None) (db_operator_sessions d)
      = filter (\<lambda>s. os_operator s = op \<and> os_revoked_at s = None) (db_operator_sessions d)"
    by (rule filter_cong) (auto simp: mine)
  have d': "db_operator_sessions d' = update_where (\<lambda>s. os_id s \<in> set ids \<and> os_revoked_at s = None)
        (\<lambda>s. s\<lparr>os_revoked_at := Some now\<rparr>) (db_operator_sessions d) \<or> ids = [] \<and> d' = d"
    and n: "n = length ids" and acc: "db_accounts d' = db_accounts d"
    using assms(1) unfolding revoke_active_for_operator_def Let_def ids_def [symmetric] filt
    by (auto simp: revoke_where_def set_op_def delete_ephemeral_chat_def split: if_splits)
  show "\<forall>s \<in> set (db_operator_sessions d'). os_operator s = op \<longrightarrow> os_revoked_at s \<noteq> None"
    using d'
  proof
    assume "ids = [] \<and> d' = d"
    then show ?thesis using mine by auto
  next
    assume d': "db_operator_sessions d' = update_where (\<lambda>s. os_id s \<in> set ids \<and> os_revoked_at s = None)
        (\<lambda>s. s\<lparr>os_revoked_at := Some now\<rparr>) (db_operator_sessions d)"
    show ?thesis unfolding d' ball_update_where using mine by auto
  qed
  show "n = length (filter (\<lambda>s. os_operator s = op \<and> os_revoked_at s = None) (db_operator_sessions d))"
    by (simp add: n ids_def)
  show "db_accounts d' = db_accounts d" by (rule acc)
qed

text \<open>C40: a rotation of the password takes effect at once and cuts every access given under the old
  one: the stored hash was the expected one and is replaced in that account only, no session of
  the operator is left unrevoked, and the same request again changes nothing.\<close>

theorem rotation_revokes:
  assumes "rotate_password fp ws user expected replacement now d = Inr ((Rotated, n, k), d')"
    and "distinct (map oa_id (db_accounts d))"
    and "distinct (map os_id (db_operator_sessions d))"
  shows "\<exists>a \<in> set (db_accounts d). oa_active a \<and> oa_workspace a = ws \<and> oa_login a = user
    \<and> fp (oa_password_hash a) = expected
    \<and> db_accounts d' = map (\<lambda>r. if r = a then a\<lparr>oa_password_hash := replacement\<rparr> else r) (db_accounts d)
    \<and> (\<forall>s \<in> set (db_operator_sessions d'). os_operator s = oa_id a \<longrightarrow> os_revoked_at s \<noteq> None)
    \<and> n = length (filter (\<lambda>s. os_operator s = oa_id a \<and> os_revoked_at s = None) (db_operator_sessions d))
    \<and> rotate_password fp ws user expected replacement now' d' = Inr ((AlreadyRotated, 0, 0), d')"
proof -
  let ?p = "\<lambda>a. oa_workspace a = ws \<and> oa_login a = user \<and> oa_active a"
  from assms(1) obtain op d1 where ok: "is_sha256 expected" "replacement \<noteq> []"
    and row: "rotate_password_row fp ws user expected replacement d = (Some (op, Rotated), d1)"
    and rev: "revoke_active_for_operator op now d1 = ((n, k), d')"
    by (auto simp: rotate_password_def split: if_splits prod.splits option.splits rotation_status.splits)
  from row obtain a where a: "select_one ?p (db_accounts d) = Some a" "oa_password_hash a \<noteq> replacement"
      "fp (oa_password_hash a) = expected" "op = oa_id a"
    and d1: "d1 = d\<lparr>db_accounts := update_where (\<lambda>r. oa_id r = oa_id a \<and> oa_active r)
                    (\<lambda>r. r\<lparr>oa_password_hash := replacement\<rparr>) (db_accounts d)\<rparr>"
    by (auto simp: rotate_password_row_def split: option.splits if_splits)
  have mem: "a \<in> set (db_accounts d)" "?p a" using select_one_SomeD [OF a(1)] by auto
  let ?f = "\<lambda>r. if r = a then a\<lparr>oa_password_hash := replacement\<rparr> else r"
  have same: "r = a" if "r \<in> set (db_accounts d)" "oa_id r = oa_id a" for r
    using assms(2) mem(1) that by (auto simp: distinct_map dest: inj_onD)
  have accounts: "db_accounts d1 = map ?f (db_accounts d)"
    using mem(2) by (auto simp: d1 update_where_def dest: same)
  have dist: "distinct (map os_id (db_operator_sessions d1))" using assms(3) by (simp add: d1)
  note spec = revoke_active_spec [OF rev dist]
  have "select_one ?p (db_accounts d') = Some (?f a)"
    unfolding spec(3) accounts using mem(2) by (subst select_one_map) (auto simp: a(1))
  then have "rotate_password fp ws user expected replacement now' d' = Inr ((AlreadyRotated, 0, 0), d')"
    using ok by (simp add: rotate_password_def rotate_password_row_def)
  with mem a spec accounts show ?thesis by (intro bexI [of _ a]) (simp_all add: d1)
qed

definition sample_fingerprint :: "string \<Rightarrow> digest" where
  "sample_fingerprint h = replicate 64 (CHR ''a'')"

theorem rotation_revokes_witness:
  "\<exists>n k d'. rotate_password sample_fingerprint ''demo'' ''ann'' (replicate 64 (CHR ''a'')) ''#new'' 7 (st_db sample_logged_in)
      = Inr ((Rotated, n, k), d') \<and> n = 1
    \<and> filter (\<lambda>s. os_operator s = ''op'' \<and> os_revoked_at s = None) (db_operator_sessions d') = []"
proof -
  let ?r = "rotate_password sample_fingerprint ''demo'' ''ann'' (replicate 64 (CHR ''a'')) ''#new'' 7 (st_db sample_logged_in)"
  have "case ?r of Inl _ \<Rightarrow> False | Inr ((x, n, k), d') \<Rightarrow> x = Rotated \<and> n = 1" by code_simp
  then obtain k d' where r: "?r = Inr ((Rotated, 1, k), d')" by (auto split: sum.splits prod.splits)
  have acc: "db_accounts (st_db sample_logged_in) = [sample_account]" by code_simp
  have "map os_id (db_operator_sessions (st_db sample_logged_in)) = [''t'']" by code_simp
  then have "\<exists>a \<in> set (db_accounts (st_db sample_logged_in)).
      \<forall>s \<in> set (db_operator_sessions d'). os_operator s = oa_id a \<longrightarrow> os_revoked_at s \<noteq> None"
    using rotation_revokes [OF r] unfolding acc by auto
  then have "\<forall>s \<in> set (db_operator_sessions d'). os_operator s = ''op'' \<longrightarrow> os_revoked_at s \<noteq> None"
    unfolding acc by (simp add: sample_account_def)
  then have "filter (\<lambda>s. os_operator s = ''op'' \<and> os_revoked_at s = None) (db_operator_sessions d') = []"
    by (auto simp: filter_empty_conv)
  with r show ?thesis by blast
qed

lemma get_active_append:
  "get_active_operator ws (d\<lparr>db_accounts := db_accounts d @ [a]\<rparr>) = (case get_active_operator ws d of
     None \<Rightarrow> if oa_workspace a = ws \<and> oa_active a then Some a else None | Some b \<Rightarrow> Some b)"
  by (simp add: get_active_operator_def select_one_append select_one_single split: option.split)

lemma bootstrap_body_ready:
  assumes "snd (bootstrap_body f d) = Inr (u, d')"
  shows "bootstrap_ready f d'"
proof -
  define k where "k = ay_kind (foundation_authority f d)"
  define d1 where "d1 = (if k = None then create_workspace (fo_workspace f) d else d)"
  have kind: "k = None \<or> k = Some demo_kind" using assms
    by (auto simp: bootstrap_body_def k_def Let_def split: if_splits)
  have k1: "ay_kind (foundation_authority f d1) = Some demo_kind" using kind
    by (auto simp: d1_def k_def foundation_authority_def create_workspace_def Let_def map_add_def)
  let ?y = "foundation_authority f d1"
  from assms kind have body: "(case ay_operator ?y of
       None \<Rightarrow> ay_count ?y = 0 \<and> create_operator f d1 = Inr d'
     | Some _ \<Rightarrow> foundation_matches f ?y \<and> d' = d1)"
    by (auto simp: bootstrap_body_def k_def [symmetric] d1_def [symmetric] Let_def
        split: option.splits if_splits sum.splits)
  show ?thesis
  proof (cases "ay_operator ?y")
    case None
    then have none: "get_active_operator (fo_workspace f) d1 = None" and count: "ay_count ?y = 0"
      and d': "d' = d1\<lparr>db_accounts := db_accounts d1 @ [\<lparr>oa_id = fo_operator_id f, oa_workspace = fo_workspace f,
             oa_login = fo_login f, oa_password_hash = fo_password_hash f, oa_active = True\<rparr>]\<rparr>"
      using body by (auto simp: foundation_authority_def create_operator_def Let_def split: if_splits)
    have "get_active_operator (fo_workspace f) d' = Some \<lparr>oa_id = fo_operator_id f, oa_workspace = fo_workspace f,
             oa_login = fo_login f, oa_password_hash = fo_password_hash f, oa_active = True\<rparr>"
      unfolding d' get_active_append none by simp
    moreover have "db_workspaces d' = db_workspaces d1"
      and "length (filter (\<lambda>a. oa_workspace a = fo_workspace f) (db_accounts d')) = 1"
      using count by (simp_all add: d' foundation_authority_def Let_def)
    ultimately show ?thesis using k1
      by (simp add: bootstrap_ready_def foundation_matches_def foundation_authority_def Let_def)
  next
    case (Some a)
    then show ?thesis using body by (simp add: bootstrap_ready_def)
  qed
qed

lemma bootstrap_ready_stays:
  assumes "bootstrap_ready f d"
  shows "bootstrap_body f d = ((False, False), Inr ((), d))"
proof -
  have "ay_kind (foundation_authority f d) = Some demo_kind"
    and "ay_operator (foundation_authority f d) \<noteq> None"
    using assms by (auto simp: bootstrap_ready_def foundation_matches_def split: option.splits)
  then show ?thesis using assms
    by (auto simp: bootstrap_body_def Let_def bootstrap_ready_def)
qed

text \<open>The bootstrap takes effect exactly once: when it returns, whether or not the connection was
  lost on the way, the workspace has exactly the one configured operator, and running it again
  under any fault returns without creating anything; when it fails, nothing was changed.\<close>

theorem bootstrap_exactly_once:
  "(\<forall>r d'. bootstrap f flt d = (Returned r, d') \<longrightarrow> bootstrap_ready f d'
      \<and> (\<forall>again. bootstrap f again d' = (Returned \<lparr>br_operator = fo_operator_id f,
            br_workspace_created = False, br_operator_created = False\<rparr>, d')))
    \<and> (\<forall>d'. (\<exists>e. bootstrap f flt d = (Raised e, d')) \<or> bootstrap f flt d = (ConnectionLost, d') \<longrightarrow> d' = d)"
proof (intro conjI allI impI)
  fix r d' assume run: "bootstrap f flt d = (Returned r, d')"
  then show ready: "bootstrap_ready f d'"
    by (auto simp: bootstrap_def run_uow_def Let_def bootstrap_ready_def [symmetric] dest: bootstrap_body_ready
        split: sum.splits fault.splits if_splits prod.splits)
  fix again
  show "bootstrap f again d' = (Returned \<lparr>br_operator = fo_operator_id f,
            br_workspace_created = False, br_operator_created = False\<rparr>, d')"
    using bootstrap_ready_stays [OF ready] ready
    by (cases again) (simp_all add: bootstrap_def run_uow_def bootstrap_ready_def)
next
  fix d' assume "(\<exists>e. bootstrap f flt d = (Raised e, d')) \<or> bootstrap f flt d = (ConnectionLost, d')"
  then show "d' = d"
    by (auto simp: bootstrap_def run_uow_def Let_def bootstrap_ready_def [symmetric] dest: bootstrap_body_ready
        split: sum.splits fault.splits if_splits prod.splits)
qed

definition sample_foundation :: foundation where
  "sample_foundation = \<lparr>fo_workspace = ''demo'', fo_login = ''ann'', fo_password_hash = ''#secret'', fo_operator_id = ''op''\<rparr>"

theorem bootstrap_exactly_once_witness:
  "bootstrap_ready sample_foundation (snd (bootstrap sample_foundation LostAfterCommit empty_db))
    \<and> snd (bootstrap sample_foundation NoFault (snd (bootstrap sample_foundation LostAfterCommit empty_db)))
      = snd (bootstrap sample_foundation LostAfterCommit empty_db)"
proof -
  have "case fst (bootstrap sample_foundation LostAfterCommit empty_db) of Returned r \<Rightarrow> br_operator_created r | _ \<Rightarrow> False"
    by code_simp
  then obtain r where "fst (bootstrap sample_foundation LostAfterCommit empty_db) = Returned r"
    by (auto split: outcome.splits)
  then obtain d' where d': "bootstrap sample_foundation LostAfterCommit empty_db = (Returned r, d')"
    by (cases "bootstrap sample_foundation LostAfterCommit empty_db") simp
  with bootstrap_exactly_once [of sample_foundation LostAfterCommit empty_db] show ?thesis by simp
qed

end
