(* ===== verification/PyJson.thy ===== *)
theory PyJson
  imports Schema
begin

text \<open>
  What the program uses of JSON values in Python: \<open>Mapping.get\<close>, \<open>json.dumps\<close> with compact
  separators, \<open>str\<close> and equality of values. A JSON object is an association list with
  distinct keys in insertion order; numbers are integers, because the program writes decimals as
  text (\<open>canonical_value\<close>); text is ASCII.
\<close>

text \<open>\<open>Mapping.get\<close>: a missing key is \<open>None\<close>.\<close>

definition jget :: "(string \<times> json) list \<Rightarrow> string \<Rightarrow> json" where
  "jget fs k = (case map_of fs k of None \<Rightarrow> JNull | Some x \<Rightarrow> x)"

definition jget_or :: "(string \<times> json) list \<Rightarrow> string \<Rightarrow> json \<Rightarrow> json" where
  "jget_or fs k x = (case map_of fs k of None \<Rightarrow> x | Some y \<Rightarrow> y)"

fun joined :: "string \<Rightarrow> string list \<Rightarrow> string" where
  "joined sep [] = []"
| "joined sep [s] = s"
| "joined sep (s # t # ss) = s @ sep @ joined sep (t # ss)"

definition hex_digit :: "nat \<Rightarrow> char" where
  "hex_digit n = ''0123456789abcdef'' ! n"

text \<open>\<open>json.dumps\<close>\<close>

definition json_char :: "char \<Rightarrow> string" where
  "json_char c = (let n = (of_char c :: nat) in
     if n = 34 then [CHR 92, c]
     else if n = 92 then [CHR 92, CHR 92]
     else if n = 8 then [CHR 92, CHR ''b''] else if n = 9 then [CHR 92, CHR ''t'']
     else if n = 10 then [CHR 92, CHR ''n''] else if n = 12 then [CHR 92, CHR ''f'']
     else if n = 13 then [CHR 92, CHR ''r'']
     else if n < 32 then [CHR 92, CHR ''u'', CHR ''0'', CHR ''0'', hex_digit (n div 16), hex_digit (n mod 16)]
     else [c])"

definition json_string :: "string \<Rightarrow> string" where
  "json_string s = CHR 34 # concat (map json_char s) @ [CHR 34]"

fun json_dump :: "json \<Rightarrow> string" where
  "json_dump JNull = ''null''"
| "json_dump (JBool b) = (if b then ''true'' else ''false'')"
| "json_dump (JInt i) = show_int i"
| "json_dump (JStr s) = json_string s"
| "json_dump (JList xs) = ''['' @ joined '','' (map json_dump xs) @ '']''"
| "json_dump (JObj fs) = ''{'' @ joined '','' (map (\<lambda>(k, x). json_string k @ '':'' @ json_dump x) fs) @ ''}''"

text \<open>\<open>repr\<close> and \<open>str\<close>: a string is its own text, and quoted inside a container.\<close>

definition repr_string :: "string \<Rightarrow> string" where
  "repr_string s =
     (let q = (if CHR 39 \<in> set s \<and> CHR 34 \<notin> set s then CHR 34 else CHR 39) in
      q # concat (map (\<lambda>c. let n = (of_char c :: nat) in
        if c = q \<or> n = 92 then [CHR 92, c]
        else if n = 9 then [CHR 92, CHR ''t''] else if n = 10 then [CHR 92, CHR ''n'']
        else if n = 13 then [CHR 92, CHR ''r'']
        else if n < 32 \<or> n = 127 then [CHR 92, CHR ''x'', hex_digit (n div 16), hex_digit (n mod 16)]
        else [c]) s) @ [q])"

fun json_repr :: "json \<Rightarrow> string" where
  "json_repr JNull = ''None''"
| "json_repr (JBool b) = (if b then ''True'' else ''False'')"
| "json_repr (JInt i) = show_int i"
| "json_repr (JStr s) = repr_string s"
| "json_repr (JList xs) = ''['' @ joined '', '' (map json_repr xs) @ '']''"
| "json_repr (JObj fs) = ''{'' @ joined '', '' (map (\<lambda>(k, x). repr_string k @ '': '' @ json_repr x) fs) @ ''}''"

definition json_text :: "json \<Rightarrow> string" where
  "json_text v = (case v of JStr s \<Rightarrow> s | _ \<Rightarrow> json_repr v)"

text \<open>Equality: dicts are compared as maps, and \<open>True == 1\<close>.\<close>

definition json_number :: "json \<Rightarrow> int option" where
  "json_number v = (case v of JBool b \<Rightarrow> Some (if b then 1 else 0) | JInt i \<Rightarrow> Some i | _ \<Rightarrow> None)"

fun json_eq :: "json \<Rightarrow> json \<Rightarrow> bool" where
  "json_eq (JObj fs) (JObj gs) \<longleftrightarrow> length fs = length gs
     \<and> list_all (\<lambda>(k, x). case map_of gs k of None \<Rightarrow> False | Some y \<Rightarrow> json_eq x y) fs"
| "json_eq (JList xs) (JList ys) \<longleftrightarrow> list_all2 json_eq xs ys"
| "json_eq (JStr s) (JStr t) \<longleftrightarrow> s = t"
| "json_eq JNull JNull \<longleftrightarrow> True"
| "json_eq x y \<longleftrightarrow> json_number x \<noteq> None \<and> json_number x = json_number y"

lemma json_eq_JStr [simp]: "json_eq x (JStr s) \<longleftrightarrow> x = JStr s"
  by (cases x) (auto simp: json_number_def)

end
