(* ===== verification/Lifecycle.thy ===== *)
theory Lifecycle
  imports PyJson
begin

text \<open>
  The state machine of an action card (\<open>src/actions/state_machine.py\<close>), the assembly of a card
  from its rows (\<open>ActionRepository.get\<close>), the scope of a card, and the checks of what a request
  says (the validation functions at the end of \<open>src/services/action_service.py\<close>).
\<close>

section \<open>Errors\<close>

datatype action_error =
    ActionNotFound
  | ActionInvalid string
  | ActionRevisionConflict
  | ActionScopeConflict
  | ActionIdempotencyConflict
  | ActionUnavailable string
  | ActionTransitionInvalid action_status action_command
  | Unexpected string

section \<open>The state machine\<close>

fun transitions :: "action_status \<Rightarrow> (action_command \<times> action_status) list" where
  "transitions New = [(Review, Reviewed)]"
| "transitions Reviewed = [(Adjust, Reviewed), (Approve, Approved), (Dismiss, Dismissed)]"
| "transitions Approved = [(Export, Approved), (RecordOutcome, Approved)]"
| "transitions Dismissed = []"

definition can_apply :: "action_status \<Rightarrow> action_command \<Rightarrow> bool" where
  "can_apply s c \<longleftrightarrow> map_of (transitions s) c \<noteq> None"

definition apply_command :: "action_status \<Rightarrow> action_command \<Rightarrow> action_error + action_status" where
  "apply_command s c = (case map_of (transitions s) c of None \<Rightarrow> Inl (ActionTransitionInvalid s c) | Some t \<Rightarrow> Inr t)"

text \<open>The same machine as a step relation, for inversion.\<close>

inductive moves :: "action_status \<Rightarrow> action_command \<Rightarrow> action_status \<Rightarrow> bool" where
  review: "moves New Review Reviewed"
| adjust: "moves Reviewed Adjust Reviewed"
| approve: "moves Reviewed Approve Approved"
| dismiss: "moves Reviewed Dismiss Dismissed"
| export: "moves Approved Export Approved"
| outcome: "moves Approved RecordOutcome Approved"

code_pred moves .

inductive_cases moves_fromE: "moves s c t"
inductive_simps moves_New [simp]: "moves New c t"
inductive_simps moves_Reviewed [simp]: "moves Reviewed c t"
inductive_simps moves_Approved [simp]: "moves Approved c t"
inductive_simps moves_Dismissed [simp]: "moves Dismissed c t"

lemma apply_command_iff: "apply_command s c = Inr t \<longleftrightarrow> moves s c t"
  by (cases s; cases c) (auto simp: apply_command_def)

lemma can_apply_iff: "can_apply s c \<longleftrightarrow> (\<exists>t. apply_command s c = Inr t)"
  by (auto simp: can_apply_def apply_command_def split: option.splits)

lemma moves_function: "moves s c t \<Longrightarrow> moves s c u \<Longrightarrow> t = u"
  by (simp add: apply_command_iff [symmetric])

text \<open>A log of commands, replayed from the start.\<close>

inductive runs :: "action_status \<Rightarrow> action_command list \<Rightarrow> action_status \<Rightarrow> bool" where
  runs_nil: "runs s [] s"
| runs_snoc: "runs s cs t \<Longrightarrow> moves t c u \<Longrightarrow> runs s (cs @ [c]) u"

lemma runs_append: "runs t cs' u \<Longrightarrow> runs s cs t \<Longrightarrow> runs s (cs @ cs') u"
  by (induction rule: runs.induct) (auto simp: append_assoc [symmetric] intro: runs_snoc simp del: append_assoc)

inductive_cases runs_snocE: "runs s (cs @ [c]) u"

lemma runs_nilD: "runs s [] t \<Longrightarrow> t = s"
  by (erule runs.cases) auto

text \<open>The commands that decide, as against those that only record.\<close>

definition is_decision :: "action_command \<Rightarrow> bool" where
  "is_decision c \<longleftrightarrow> c \<in> {Review, Adjust, Approve, Dismiss}"

definition decision_status :: "action_command \<Rightarrow> action_status" where
  "decision_status c = (case c of Review \<Rightarrow> Reviewed | Adjust \<Rightarrow> Reviewed | Approve \<Rightarrow> Approved
     | Dismiss \<Rightarrow> Dismissed | Export \<Rightarrow> Approved | RecordOutcome \<Rightarrow> Approved)"

lemma moves_target: "moves s c t \<Longrightarrow> t = decision_status c"
  by (erule moves_fromE) (auto simp: decision_status_def)

definition terminal :: "action_status \<Rightarrow> bool" where
  "terminal s \<longleftrightarrow> s \<in> {Approved, Dismissed}"

section \<open>Cards\<close>

record action_card =
  ca_row :: card_row
  ca_revisions :: "revision_row list"
  ca_decisions :: "decision_row list"
  ca_exports :: "export_row list"
  ca_outcomes :: "outcome_row list"

definition before :: "time option \<Rightarrow> time \<Rightarrow> bool" where
  "before limit t = (case limit of None \<Rightarrow> True | Some b \<Rightarrow> t < b)"

definition children :: "db \<Rightarrow> time option \<Rightarrow> card_row \<Rightarrow> action_card" where
  "children d b r =
     \<lparr>ca_row = r,
      ca_revisions = sort_key rv_number (filter (\<lambda>x. rv_action x = cr_id r) (db_revisions d)),
      ca_decisions = sort_key dr_ordinal (filter (\<lambda>x. dr_action x = cr_id r) (db_decisions d)),
      ca_exports = sort_key (\<lambda>x. (er_created_at x, er_id x))
        (filter (\<lambda>x. er_action x = cr_id r \<and> before b (er_created_at x)) (db_exports d)),
      ca_outcomes = sort_key or_outcome_revision
        (filter (\<lambda>x. or_action x = cr_id r \<and> before b (or_created_at x)) (db_outcomes d))\<rparr>"

definition get_card :: "string \<Rightarrow> uuid \<Rightarrow> time option \<Rightarrow> db \<Rightarrow> action_card option" where
  "get_card ws aid b d =
     map_option (children d b) (select_one (\<lambda>r. cr_workspace r = ws \<and> cr_id r = aid) (db_cards d))"

definition list_for_version :: "string \<Rightarrow> uuid \<Rightarrow> db \<Rightarrow> action_card list" where
  "list_for_version ws version d = map (children d None)
     (sort_key (\<lambda>r. (cr_created_at r, cr_id r))
       (filter (\<lambda>r. cr_workspace r = ws \<and> cr_dataset_version r = version) (db_cards d)))"

text \<open>What a viewer whose session was created at \<open>t\<close> may see: cards approved before, with the exports
  and outcomes recorded before.\<close>

definition list_public_for_session :: "string \<Rightarrow> uuid \<Rightarrow> time \<Rightarrow> db \<Rightarrow> action_card list" where
  "list_public_for_session ws version t d = map (children d (Some t))
     (sort_key (\<lambda>r. (cr_created_at r, cr_id r))
       (filter (\<lambda>r. cr_workspace r = ws \<and> cr_dataset_version r = version \<and> cr_status r = Approved
           \<and> (case cr_terminal_at r of None \<Rightarrow> False | Some x \<Rightarrow> x < t)) (db_cards d)))"

definition current_revision_of :: "action_card \<Rightarrow> revision_row option" where
  "current_revision_of c = find (\<lambda>r. rv_number r = cr_current_revision (ca_row c)) (ca_revisions c)"

definition card_matches_scope :: "action_card \<Rightarrow> (string \<times> json) list \<Rightarrow> bool" where
  "card_matches_scope c scope = (case current_revision_of c of
     None \<Rightarrow> False
   | Some r \<Rightarrow> json_eq (jget (ac_scope (rv_content r)) ''currency'') (jget scope ''currency'')
       \<and> json_eq (jget (ac_scope (rv_content r)) ''store_id'') (jget scope ''store_id''))"

text \<open>The responses a replay gives: the card as it was after the operation.\<close>

definition create_response :: "action_card \<Rightarrow> action_card" where
  "create_response c =
     \<lparr>ca_row = (ca_row c)\<lparr>cr_status := New, cr_current_revision := 1,
        cr_updated_at := cr_created_at (ca_row c), cr_terminal_at := None\<rparr>,
      ca_revisions = take 1 (ca_revisions c), ca_decisions = [], ca_exports = [], ca_outcomes = []\<rparr>"

fun index_of :: "('a \<Rightarrow> bool) \<Rightarrow> 'a list \<Rightarrow> nat option" where
  "index_of p [] = None"
| "index_of p (x # xs) = (if p x then Some 0 else map_option Suc (index_of p xs))"

definition decision_response :: "action_card \<Rightarrow> uuid \<Rightarrow> action_error + action_card" where
  "decision_response c did =
     (case index_of (\<lambda>x. dr_id x = did) (ca_decisions c) of
        None \<Rightarrow> Inl (ActionUnavailable ''decision_response_missing'')
      | Some i \<Rightarrow>
          (let x = ca_decisions c ! i; status = decision_status (dr_command x) in
           Inr \<lparr>ca_row = (ca_row c)\<lparr>cr_status := status, cr_current_revision := dr_revision x,
                  cr_updated_at := dr_created_at x,
                  cr_terminal_at := (if status \<in> {Approved, Dismissed} then Some (dr_created_at x) else None)\<rparr>,
                ca_revisions = filter (\<lambda>r. rv_number r \<le> dr_revision x) (ca_revisions c),
                ca_decisions = take (Suc i) (ca_decisions c), ca_exports = [], ca_outcomes = []\<rparr>))"

section \<open>What a request may say\<close>

text \<open>\<open>SAFE_TEXT\<close> on ASCII text: one to a thousand word characters, blanks and listed marks.\<close>

definition safe_char :: "char \<Rightarrow> bool" where
  "safe_char c = (let n = (of_char c :: nat) in
     (48 \<le> n \<and> n \<le> 57) \<or> (65 \<le> n \<and> n \<le> 90) \<or> (97 \<le> n \<and> n \<le> 122) \<or> n = 95
     \<or> n \<in> {32, 46, 44, 58, 59, 47, 40, 41, 39, 38, 43, 37, 45})"

definition safe_text :: "string \<Rightarrow> bool" where
  "safe_text s \<longleftrightarrow> 1 \<le> length s \<and> length s \<le> 1000 \<and> list_all safe_char s"

definition starts_with :: "string \<Rightarrow> string \<Rightarrow> bool" where
  "starts_with p s \<longleftrightarrow> take (length p) s = p"

text \<open>
  \<open>_flatten_synthetic_values\<close>: nested mappings and sequences become one record with dotted
  field names; a value inside a container whose name ends in \<open>_ids\<close> gets the singular name
  appended. \<open>show_nat\<close> is \<open>str\<close> of an index.
\<close>

fun split_at :: "char \<Rightarrow> string \<Rightarrow> string list" where
  "split_at c [] = [[]]"
| "split_at c (x # xs) = (if x = c then [] # split_at c xs
     else (case split_at c xs of [] \<Rightarrow> [[x]] | p # ps \<Rightarrow> (x # p) # ps))"

definition ends_with :: "string \<Rightarrow> string \<Rightarrow> bool" where
  "ends_with p s \<longleftrightarrow> length p \<le> length s \<and> drop (length s - length p) s = p"

definition field_name :: "string \<Rightarrow> string" where
  "field_name prefix =
     (let field = (if prefix = [] then ''value'' else prefix) in
      case find (\<lambda>p. ends_with ''_ids'' (map lower_char p)) (rev (split_at (CHR ''.'') field)) of
        None \<Rightarrow> field
      | Some p \<Rightarrow> field @ ''.'' @ butlast p)"

definition extend :: "string \<Rightarrow> string \<Rightarrow> string" where
  "extend prefix k = (if prefix = [] then k else prefix @ ''.'' @ k)"

fun flatten :: "json \<Rightarrow> string \<Rightarrow> (string \<times> json) list"
  and flatten_list :: "json list \<Rightarrow> nat \<Rightarrow> string \<Rightarrow> (string \<times> json) list"
  and flatten_obj :: "(string \<times> json) list \<Rightarrow> string \<Rightarrow> (string \<times> json) list" where
  "flatten (JObj fs) p = flatten_obj fs p"
| "flatten (JList xs) p = flatten_list xs 0 p"
| "flatten JNull p = [(field_name p, JNull)]"
| "flatten (JBool b) p = [(field_name p, JBool b)]"
| "flatten (JInt i) p = [(field_name p, JInt i)]"
| "flatten (JStr s) p = [(field_name p, JStr s)]"
| "flatten_list [] n p = []"
| "flatten_list (x # xs) n p = flatten x (extend p (digits_of n)) @ flatten_list xs (Suc n) p"
| "flatten_obj [] p = []"
| "flatten_obj ((k, x) # fs) p = flatten x (extend p k) @ flatten_obj fs p"

definition json_opt :: "string option \<Rightarrow> json" where
  "json_opt v = (case v of None \<Rightarrow> JNull | Some s \<Rightarrow> JStr s)"

definition json_impact :: "(string \<times> string) list \<Rightarrow> json" where
  "json_impact m = JObj (map (\<lambda>(k, v). (k, JStr v)) m)"

text \<open>\<open>boundary\<close> stands for \<open>validate_synthetic_records\<close> of the flattened record.\<close>

type_synonym boundary = "(string \<times> json) list \<Rightarrow> bool"

definition validate_synthetic :: "boundary \<Rightarrow> json \<Rightarrow> action_error + unit" where
  "validate_synthetic bd j = ensure (bd (flatten j [])) (ActionInvalid ''synthetic_boundary_invalid'')"

definition validate_reason :: "boundary \<Rightarrow> string \<Rightarrow> action_error + unit" where
  "validate_reason bd reason =
     ebind (ensure (safe_text reason) (ActionInvalid ''reason_invalid'')) (\<lambda>_.
       validate_synthetic bd (JObj [(''reason'', JStr reason)]))"

fun check_facts :: "boundary \<Rightarrow> string list \<Rightarrow> fact_ref list \<Rightarrow> action_error + unit" where
  "check_facts bd seen [] = Inr ()"
| "check_facts bd seen (f # fs) =
     ebind (ensure (fr_alias f \<notin> set seen \<and> fr_alias f \<noteq> [] \<and> length (fr_alias f) \<le> 200)
       (ActionInvalid ''fact_alias_invalid'')) (\<lambda>_.
     ebind (ensure (fr_source_ref f \<noteq> [] \<and> length (fr_source_ref f) \<le> 500)
       (ActionInvalid ''fact_source_invalid'')) (\<lambda>_.
     ebind (validate_synthetic bd (JObj [(''alias'', JStr (fr_alias f)), (''source_ref'', JStr (fr_source_ref f)),
       (''value'', json_opt (fr_value f))])) (\<lambda>_.
       check_facts bd (fr_alias f # seen) fs)))"

definition validate_facts :: "boundary \<Rightarrow> fact_ref list \<Rightarrow> action_error + unit" where
  "validate_facts bd fs =
     ebind (ensure (fs \<noteq> [] \<and> length fs \<le> 100) (ActionInvalid ''facts_invalid'')) (\<lambda>_. check_facts bd [] fs)"

definition nonnegative_number :: "literal option \<Rightarrow> bool" where
  "nonnegative_number v = (case v of None \<Rightarrow> True | Some NonFinite \<Rightarrow> False | Some (Finite x) \<Rightarrow> 0 \<le> x)"

definition finite_number :: "literal option \<Rightarrow> bool" where
  "finite_number v \<longleftrightarrow> v \<noteq> Some NonFinite"

definition validate_source :: "boundary \<Rightarrow> action_source \<Rightarrow> fact_ref list \<Rightarrow> action_error + unit" where
  "validate_source bd s fs =
     ebind (ensure (ac_period_start s \<le> ac_period_end s) (ActionInvalid ''period_invalid'')) (\<lambda>_.
     ebind (ensure (jget (ac_scope s) ''currency'' = JStr ''BRL'') (ActionInvalid ''scope_currency_invalid'')) (\<lambda>_.
     ebind (ensure (starts_with ''SYNTH-'' (ac_target s)) (ActionInvalid ''target_invalid'')) (\<lambda>_.
     ebind (ensure (nonnegative_number (ac_quantity s)) (ActionInvalid ''quantity_invalid'')) (\<lambda>_.
     ebind (ensure (nonnegative_number (ac_budget s)) (ActionInvalid ''budget_invalid'')) (\<lambda>_.
     ebind (ensure (finite_number (ac_threshold s)) (ActionInvalid ''threshold_invalid'')) (\<lambda>_.
     ebind (ensure (safe_text (ac_suggestion s) \<and> safe_text (ac_target s)) (ActionInvalid ''source_text_invalid'')) (\<lambda>_.
     ebind (validate_synthetic bd (JObj [(''suggestion'', JStr (ac_suggestion s)), (''target'', JStr (ac_target s)),
         (''scope'', JObj (ac_scope s)), (''expected_impact'', json_impact (ac_expected_impact s)),
         (''limitations'', JStr (joined '';'' (ac_limitations s)))])) (\<lambda>_.
       validate_facts bd fs))))))))"

record action_adjustment =
  aj_suggestion :: "string option"
  aj_target :: "string option"
  aj_quantity :: "literal option"
  aj_budget :: "literal option"
  aj_action_date :: "date option"
  aj_threshold :: "literal option"
  aj_expected_impact :: "(string \<times> string) list option"
  aj_confidence :: "certainty option"
  aj_limitations :: "string list option"

definition empty_adjustment :: action_adjustment where
  "empty_adjustment = \<lparr>aj_suggestion = None, aj_target = None, aj_quantity = None, aj_budget = None,
     aj_action_date = None, aj_threshold = None, aj_expected_impact = None, aj_confidence = None, aj_limitations = None\<rparr>"

definition validate_adjustment :: "boundary \<Rightarrow> action_adjustment \<Rightarrow> action_error + unit" where
  "validate_adjustment bd a =
     ebind (ensure (case aj_suggestion a of None \<Rightarrow> True | Some s \<Rightarrow> s \<noteq> [] \<and> safe_text s)
       (ActionInvalid ''adjustment_suggestion_invalid'')) (\<lambda>_.
     ebind (ensure (case aj_target a of None \<Rightarrow> True | Some s \<Rightarrow> starts_with ''SYNTH-'' s \<and> safe_text s)
       (ActionInvalid ''adjustment_target_invalid'')) (\<lambda>_.
     ebind (ensure (nonnegative_number (aj_quantity a)) (ActionInvalid ''adjustment_quantity_invalid'')) (\<lambda>_.
     ebind (ensure (nonnegative_number (aj_budget a)) (ActionInvalid ''adjustment_budget_brl_invalid'')) (\<lambda>_.
     ebind (ensure (finite_number (aj_threshold a)) (ActionInvalid ''adjustment_threshold_invalid'')) (\<lambda>_.
       validate_synthetic bd (JObj [(''suggestion'', json_opt (aj_suggestion a)), (''target'', json_opt (aj_target a)),
         (''expected_impact'', (case aj_expected_impact a of None \<Rightarrow> JNull | Some m \<Rightarrow> json_impact m)),
         (''limitations'', (case aj_limitations a of None \<Rightarrow> JNull | Some ls \<Rightarrow> JList (map JStr ls)))]))))))"

definition or_else :: "string option \<Rightarrow> string \<Rightarrow> string" where
  "or_else v s = (case v of None \<Rightarrow> s | Some t \<Rightarrow> if t = [] then s else t)"

definition or_keep :: "'a option \<Rightarrow> 'a option \<Rightarrow> 'a option" where
  "or_keep v w = (case v of None \<Rightarrow> w | Some x \<Rightarrow> Some x)"

definition or_default :: "'a option \<Rightarrow> 'a \<Rightarrow> 'a" where
  "or_default v w = (case v of None \<Rightarrow> w | Some x \<Rightarrow> x)"

definition adjusted_content :: "action_content \<Rightarrow> action_adjustment \<Rightarrow> action_content" where
  "adjusted_content c a = c\<lparr>
     ac_suggestion := or_else (aj_suggestion a) (ac_suggestion c),
     ac_target := or_else (aj_target a) (ac_target c),
     ac_quantity := or_keep (aj_quantity a) (ac_quantity c),
     ac_budget := or_keep (aj_budget a) (ac_budget c),
     ac_action_date := or_keep (aj_action_date a) (ac_action_date c),
     ac_threshold := or_keep (aj_threshold a) (ac_threshold c),
     ac_expected_impact := or_default (aj_expected_impact a) (ac_expected_impact c),
     ac_confidence := or_default (aj_confidence a) (ac_confidence c),
     ac_limitations := or_default (aj_limitations a) (ac_limitations c)\<rparr>"

end
