(* ===== verification/Actions.thy ===== *)
theory Actions
  imports Lifecycle Sessions "HOL-Library.Sublist"
begin

text \<open>
  The action service (\<open>src/services/action_service.py\<close>) on the tables of action cards
  (\<open>src/repositories/actions.py\<close>): drafts, decisions, outcomes and exports, each a transaction with
  an idempotency key whose receipt is the inserted row itself. Every operation first looks its key
  up (a replay), then compares the revision, then asks the state machine; when the connection is
  lost around the commit, the authority is read again. The hash of a key, the digest of a request,
  \<open>uuid5\<close>, the synthetic boundary, the datasets, the source authority and the stored export are
  fields of the environment.
\<close>

section \<open>Environment and requests\<close>

datatype action_request =
    CreateRequest action_source "fact_ref list"
  | DecisionRequest uuid int action_command string "action_adjustment option"
  | ExportRequest uuid int string
  | OutcomeRequest uuid int date "(string \<times> string) list" "fact_ref list" conclusion string
  | OverlayRequest uuid int uuid int action_command "(string \<times> json) list" string

record action_env =
  ae_workspace :: string
  ae_key_hash :: "string \<Rightarrow> digest"
  ae_digest :: "action_request \<Rightarrow> digest"
  ae_uuid5 :: "string \<Rightarrow> uuid"
  ae_boundary :: boundary
  ae_version_complete :: "uuid \<Rightarrow> bool"
  ae_authority :: "action_source \<Rightarrow> fact_ref list \<Rightarrow> action_error + unit"
  ae_storage_ok :: "export_row \<Rightarrow> bool"
  ae_catalog :: "uuid \<Rightarrow> string list option"

text \<open>\<open>_key_hash\<close>: keys are 1 to 128 ASCII characters.\<close>

definition key_hash :: "action_env \<Rightarrow> string \<Rightarrow> action_error + digest" where
  "key_hash env key =
     (if 1 \<le> length key \<and> length key \<le> 128 \<and> list_all (\<lambda>c. (of_char c :: nat) < 128) key
      then Inr (ae_key_hash env key) else Inl (ActionInvalid ''idempotency_key_invalid''))"

text \<open>The errors that pass the handlers unchanged; any other exception makes them read the authority.\<close>

definition passes_decision :: "action_error \<Rightarrow> bool" where
  "passes_decision e = (case e of ActionUnavailable _ \<Rightarrow> False | Unexpected _ \<Rightarrow> False | ActionScopeConflict \<Rightarrow> False | _ \<Rightarrow> True)"

definition passes_create :: "action_error \<Rightarrow> bool" where
  "passes_create e = (case e of ActionIdempotencyConflict \<Rightarrow> True | ActionInvalid _ \<Rightarrow> True | _ \<Rightarrow> False)"

text \<open>
  The shape of the handlers: the transaction runs; on an exception that is not one of the
  service's own the authority decides, and only without one is the exception raised again.
\<close>

definition with_authority :: "(action_error \<Rightarrow> bool) \<Rightarrow> (action_error, 'a) outcome \<times> db \<Rightarrow> (db \<Rightarrow> action_error + 'a option)
    \<Rightarrow> (action_error, 'a) outcome \<times> db" where
  "with_authority passes r auth =
     (case r of (out, d) \<Rightarrow>
        if (case out of Returned _ \<Rightarrow> True | Raised e \<Rightarrow> passes e | ConnectionLost \<Rightarrow> False) then (out, d)
        else (case auth d of
                Inl e \<Rightarrow> (Raised e, d)
              | Inr (Some a) \<Rightarrow> (Returned a, d)
              | Inr None \<Rightarrow> (out, d)))"

section \<open>Statements on action tables\<close>

definition find_create :: "string \<Rightarrow> digest \<Rightarrow> db \<Rightarrow> card_row option" where
  "find_create ws kh d = select_one (\<lambda>r. cr_workspace r = ws \<and> cr_key_hash r = kh) (db_cards d)"

definition find_decision :: "uuid \<Rightarrow> digest \<Rightarrow> db \<Rightarrow> decision_row option" where
  "find_decision aid kh d = select_one (\<lambda>r. dr_action r = aid \<and> dr_key_hash r = kh) (db_decisions d)"

definition find_outcome :: "uuid \<Rightarrow> digest \<Rightarrow> db \<Rightarrow> outcome_row option" where
  "find_outcome aid kh d = select_one (\<lambda>r. or_action r = aid \<and> or_key_hash r = kh) (db_outcomes d)"

definition find_export :: "uuid \<Rightarrow> digest \<Rightarrow> db \<Rightarrow> export_row option" where
  "find_export aid kh d = select_one (\<lambda>r. er_action r = aid \<and> er_key_hash r = kh) (db_exports d)"

definition insert_revision :: "revision_row \<Rightarrow> db \<Rightarrow> action_error + db" where
  "insert_revision r d =
     (if list_ex (\<lambda>x. rv_id x = rv_id r \<or> rv_action x = rv_action r \<and> rv_number x = rv_number r) (db_revisions d)
      then Inl (Unexpected ''IntegrityError'') else Inr (d\<lparr>db_revisions := db_revisions d @ [r]\<rparr>))"

definition insert_card :: "card_row \<Rightarrow> db \<Rightarrow> action_error + db" where
  "insert_card r d =
     (if list_ex (\<lambda>x. cr_id x = cr_id r \<or> cr_workspace x = cr_workspace r \<and> cr_key_hash x = cr_key_hash r) (db_cards d)
      then Inl (Unexpected ''IntegrityError'') else Inr (d\<lparr>db_cards := db_cards d @ [r]\<rparr>))"

definition insert_decision :: "decision_row \<Rightarrow> db \<Rightarrow> action_error + db" where
  "insert_decision r d =
     (if list_ex (\<lambda>x. dr_id x = dr_id r \<or> dr_action x = dr_action r
           \<and> (dr_ordinal x = dr_ordinal r \<or> dr_key_hash x = dr_key_hash r)) (db_decisions d)
      then Inl (Unexpected ''IntegrityError'') else Inr (d\<lparr>db_decisions := db_decisions d @ [r]\<rparr>))"

definition insert_outcome :: "outcome_row \<Rightarrow> db \<Rightarrow> action_error + db" where
  "insert_outcome r d =
     (if list_ex (\<lambda>x. or_id x = or_id r \<or> or_action x = or_action r
           \<and> (or_outcome_revision x = or_outcome_revision r \<or> or_key_hash x = or_key_hash r)) (db_outcomes d)
      then Inl (Unexpected ''IntegrityError'') else Inr (d\<lparr>db_outcomes := db_outcomes d @ [r]\<rparr>))"

definition insert_export :: "export_row \<Rightarrow> db \<Rightarrow> action_error + db" where
  "insert_export r d =
     (if list_ex (\<lambda>x. er_id x = er_id r \<or> er_action x = er_action r \<and> er_key_hash x = er_key_hash r) (db_exports d)
      then Inl (Unexpected ''IntegrityError'') else Inr (d\<lparr>db_exports := db_exports d @ [r]\<rparr>))"

definition next_outcome_revision :: "uuid \<Rightarrow> db \<Rightarrow> int" where
  "next_outcome_revision aid d = foldr max (map or_outcome_revision (filter (\<lambda>r. or_action r = aid) (db_outcomes d))) 0 + 1"

section \<open>Drafts\<close>

definition new_card :: "action_env \<Rightarrow> uuid \<Rightarrow> action_source \<Rightarrow> digest \<Rightarrow> digest \<Rightarrow> time \<Rightarrow> card_row" where
  "new_card env aid s kh rh now =
     \<lparr>cr_id = aid, cr_workspace = ae_workspace env, cr_dataset_version = as_dataset_version s,
      cr_source_type = as_source_type s, cr_status = New, cr_current_revision = 1, cr_key_hash = kh,
      cr_request_hash = rh, cr_created_at = now, cr_updated_at = now, cr_terminal_at = None\<rparr>"

definition first_revision :: "action_env \<Rightarrow> uuid \<Rightarrow> action_source \<Rightarrow> fact_ref list \<Rightarrow> time \<Rightarrow> revision_row" where
  "first_revision env aid s fs now =
     \<lparr>rv_id = ae_uuid5 env (''revision:'' @ aid @ '':1''), rv_action = aid, rv_number = 1,
      rv_content = action_content.truncate s, rv_facts = fs, rv_created_at = now\<rparr>"

definition create_rows :: "action_env \<Rightarrow> uuid \<Rightarrow> action_source \<Rightarrow> fact_ref list \<Rightarrow> digest \<Rightarrow> digest \<Rightarrow> time \<Rightarrow> db
    \<Rightarrow> action_error + db" where
  "create_rows env aid s fs kh rh now d =
     ebind (insert_card (new_card env aid s kh rh now) d) (insert_revision (first_revision env aid s fs now))"

definition create_id :: "action_env \<Rightarrow> digest \<Rightarrow> uuid" where
  "create_id env kh = ae_uuid5 env (ae_workspace env @ '':create:'' @ kh)"

definition create_authority :: "action_env \<Rightarrow> digest \<Rightarrow> digest \<Rightarrow> db \<Rightarrow> action_error + action_card option" where
  "create_authority env kh rh d =
     (case find_create (ae_workspace env) kh d of
        None \<Rightarrow> Inr None
      | Some r \<Rightarrow> if cr_request_hash r \<noteq> rh then Inl ActionIdempotencyConflict
                  else Inr (map_option create_response (get_card (ae_workspace env) (cr_id r) None d)))"

text \<open>The body returns a response for a replay and nothing for a new card, which is then read.\<close>

definition create_body :: "action_env \<Rightarrow> action_source \<Rightarrow> fact_ref list \<Rightarrow> digest \<Rightarrow> digest \<Rightarrow> time \<Rightarrow> db
    \<Rightarrow> action_error + (action_card option \<times> db)" where
  "create_body env s fs kh rh now d =
     ebind (create_authority env kh rh d) (\<lambda>replay.
       case replay of
         Some c \<Rightarrow> Inr (Some c, d)
       | None \<Rightarrow>
           ebind (ensure (ae_version_complete env (as_dataset_version s)) (ActionInvalid ''dataset_version_invalid'')) (\<lambda>_.
           ebind (ae_authority env s fs) (\<lambda>_.
           ebind (create_rows env (create_id env kh) s fs kh rh now d) (\<lambda>d'. Inr (None, d')))))"

definition read_back :: "action_env \<Rightarrow> uuid \<Rightarrow> (action_error, action_card option) outcome \<times> db
    \<Rightarrow> (action_error, action_card) outcome \<times> db" where
  "read_back env aid r =
     (case r of (out, d) \<Rightarrow>
        (case out of
           Returned (Some c) \<Rightarrow> Returned c
         | Returned None \<Rightarrow> (case get_card (ae_workspace env) aid None d of None \<Rightarrow> Raised ActionNotFound | Some c \<Rightarrow> Returned c)
         | Raised e \<Rightarrow> Raised e
         | ConnectionLost \<Rightarrow> ConnectionLost, d))"

definition create_checks :: "action_env \<Rightarrow> action_source \<Rightarrow> fact_ref list \<Rightarrow> string \<Rightarrow> action_error + digest" where
  "create_checks env s fs key = ebind (validate_source (ae_boundary env) s fs) (\<lambda>_. key_hash env key)"

definition create_draft :: "action_env \<Rightarrow> action_source \<Rightarrow> fact_ref list \<Rightarrow> string \<Rightarrow> time \<Rightarrow> fault \<Rightarrow> db
    \<Rightarrow> (action_error, action_card) outcome \<times> db" where
  "create_draft env s fs key now flt d =
     (case create_checks env s fs key of
        Inl e \<Rightarrow> (Raised e, d)
      | Inr kh \<Rightarrow>
          let rh = ae_digest env (CreateRequest s fs) in
          with_authority passes_create (read_back env (create_id env kh) (run_uow flt (create_body env s fs kh rh now) d))
            (create_authority env kh rh))"

section \<open>Decisions\<close>

definition adjusted_revision :: "action_env \<Rightarrow> uuid \<Rightarrow> revision_row \<Rightarrow> action_adjustment \<Rightarrow> time \<Rightarrow> revision_row" where
  "adjusted_revision env aid cur a now =
     \<lparr>rv_id = ae_uuid5 env (''revision:'' @ aid @ '':'' @ show_int (rv_number cur + 1)), rv_action = aid,
      rv_number = rv_number cur + 1, rv_content = adjusted_content (rv_content cur) a, rv_facts = rv_facts cur,
      rv_created_at = now\<rparr>"

text \<open>\<open>apply_decision\<close>: the card row moves only when its revision is still the expected one. A new
  revision is stored under the number after the expected one.\<close>

definition apply_decision :: "uuid \<Rightarrow> int \<Rightarrow> action_status \<Rightarrow> decision_row \<Rightarrow> revision_row option \<Rightarrow> db
    \<Rightarrow> action_error + (bool \<times> db)" where
  "apply_decision aid expected next x nr d =
     (let now = dr_created_at x;
          number = expected + (if nr = None then 0 else 1);
          p = (\<lambda>r. cr_id r = aid \<and> cr_current_revision r = expected);
          f = (\<lambda>r. r\<lparr>cr_status := next, cr_current_revision := number, cr_updated_at := now,
                 cr_terminal_at := (if next \<in> {Approved, Dismissed} then Some now else None)\<rparr>)
      in if \<not> list_ex p (db_cards d) then Inr (False, d)
         else let d1 = d\<lparr>db_cards := update_where p f (db_cards d)\<rparr> in
           ebind (case nr of None \<Rightarrow> Inr d1 | Some r \<Rightarrow> insert_revision (r\<lparr>rv_number := number\<rparr>) d1) (\<lambda>d2.
           ebind (insert_decision (x\<lparr>dr_revision := number\<rparr>) d2) (\<lambda>d3. Inr (True, d3))))"

definition decision_authority :: "action_env \<Rightarrow> uuid \<Rightarrow> digest \<Rightarrow> digest \<Rightarrow> db \<Rightarrow> action_error + action_card option" where
  "decision_authority env aid kh rh d =
     (case (find_decision aid kh d, get_card (ae_workspace env) aid None d) of
        (Some x, Some c) \<Rightarrow> if dr_request_hash x \<noteq> rh then Inl ActionIdempotencyConflict
                            else ebind (decision_response c (dr_id x)) (\<lambda>r. Inr (Some r))
      | _ \<Rightarrow> Inr None)"

definition decision_body :: "action_env \<Rightarrow> uuid \<Rightarrow> int \<Rightarrow> action_command \<Rightarrow> string \<Rightarrow> action_adjustment option
    \<Rightarrow> digest \<Rightarrow> digest \<Rightarrow> time \<Rightarrow> db \<Rightarrow> action_error + (action_card option \<times> db)" where
  "decision_body env aid rn cmd reason adj kh rh now d =
     (case get_card (ae_workspace env) aid None d of
        None \<Rightarrow> Inl ActionNotFound
      | Some c \<Rightarrow>
          (case find_decision aid kh d of
             Some x \<Rightarrow> if dr_request_hash x \<noteq> rh then Inl ActionIdempotencyConflict
                       else ebind (decision_response c (dr_id x)) (\<lambda>r. Inr (Some r, d))
           | None \<Rightarrow>
               if cr_current_revision (ca_row c) \<noteq> rn then Inl ActionRevisionConflict
               else ebind (apply_command (cr_status (ca_row c)) cmd) (\<lambda>next.
                    ebind (if adj \<noteq> None \<and> ca_revisions c = [] then Inl (Unexpected ''IndexError'') else Inr ()) (\<lambda>_.
                    ebind (apply_decision aid rn next
                        \<lparr>dr_id = ae_uuid5 env (''decision:'' @ aid @ '':'' @ kh), dr_action = aid, dr_revision = rn,
                         dr_ordinal = int (length (ca_decisions c)) + 1, dr_command = cmd, dr_reason = reason,
                         dr_key_hash = kh, dr_request_hash = rh, dr_created_at = now\<rparr>
                        (map_option (\<lambda>a. adjusted_revision env aid (last (ca_revisions c)) a now) adj) d) (\<lambda>(changed, d').
                      if changed then Inr (None, d') else Inl ActionRevisionConflict)))))"

text \<open>\<open>_decision\<close>; the four public operations differ in the command and in the adjustment.\<close>

definition decision_checks :: "action_env \<Rightarrow> int \<Rightarrow> string \<Rightarrow> action_adjustment option \<Rightarrow> string \<Rightarrow> action_error + digest" where
  "decision_checks env rn reason adj key =
     ebind (validate_reason (ae_boundary env) reason) (\<lambda>_.
     ebind (case adj of None \<Rightarrow> Inr () | Some a \<Rightarrow> validate_adjustment (ae_boundary env) a) (\<lambda>_.
     ebind (ensure (1 \<le> rn) (ActionInvalid ''action_authority_invalid'')) (\<lambda>_. key_hash env key)))"

definition decide :: "action_env \<Rightarrow> uuid \<Rightarrow> int \<Rightarrow> action_command \<Rightarrow> string \<Rightarrow> action_adjustment option \<Rightarrow> string
    \<Rightarrow> time \<Rightarrow> fault \<Rightarrow> db \<Rightarrow> (action_error, action_card) outcome \<times> db" where
  "decide env aid rn cmd reason adj key now flt d =
     (case decision_checks env rn reason adj key of
        Inl e \<Rightarrow> (Raised e, d)
      | Inr kh \<Rightarrow>
          let rh = ae_digest env (DecisionRequest aid rn cmd reason adj) in
          with_authority passes_decision (read_back env aid (run_uow flt (decision_body env aid rn cmd reason adj kh rh now) d))
            (decision_authority env aid kh rh))"

definition review_action :: "action_env \<Rightarrow> uuid \<Rightarrow> int \<Rightarrow> string \<Rightarrow> string \<Rightarrow> time \<Rightarrow> fault \<Rightarrow> db \<Rightarrow> (action_error, action_card) outcome \<times> db" where
  "review_action env aid rn reason key = decide env aid rn Review reason None key"

definition approve_action :: "action_env \<Rightarrow> uuid \<Rightarrow> int \<Rightarrow> string \<Rightarrow> string \<Rightarrow> time \<Rightarrow> fault \<Rightarrow> db \<Rightarrow> (action_error, action_card) outcome \<times> db" where
  "approve_action env aid rn reason key = decide env aid rn Approve reason None key"

definition dismiss_action :: "action_env \<Rightarrow> uuid \<Rightarrow> int \<Rightarrow> string \<Rightarrow> string \<Rightarrow> time \<Rightarrow> fault \<Rightarrow> db \<Rightarrow> (action_error, action_card) outcome \<times> db" where
  "dismiss_action env aid rn reason key = decide env aid rn Dismiss reason None key"

definition adjust_action :: "action_env \<Rightarrow> uuid \<Rightarrow> int \<Rightarrow> action_adjustment \<Rightarrow> string \<Rightarrow> string \<Rightarrow> time \<Rightarrow> fault \<Rightarrow> db
    \<Rightarrow> (action_error, action_card) outcome \<times> db" where
  "adjust_action env aid rn a reason key now flt d =
     (if a = empty_adjustment then (Raised (ActionInvalid ''adjustment_empty''), d)
      else decide env aid rn Adjust reason (Some a) key now flt d)"

section \<open>Outcomes and exports\<close>

definition original_source :: "action_card \<Rightarrow> action_source" where
  "original_source c = action_content.extend (rv_content (hd (ca_revisions c)))
     (action_source.fields (cr_source_type (ca_row c)) (cr_dataset_version (ca_row c)))"

record outcome_request =
  oq_review_date :: date
  oq_result :: "(string \<times> string) list"
  oq_evidence :: "fact_ref list"
  oq_conclusion :: conclusion
  oq_reason :: string

definition outcome_authority :: "uuid \<Rightarrow> digest \<Rightarrow> digest \<Rightarrow> db \<Rightarrow> action_error + outcome_row option" where
  "outcome_authority aid kh rh d =
     (case find_outcome aid kh d of
        None \<Rightarrow> Inr None
      | Some x \<Rightarrow> if or_request_hash x \<noteq> rh then Inl ActionIdempotencyConflict else Inr (Some x))"

definition outcome_body :: "action_env \<Rightarrow> uuid \<Rightarrow> int \<Rightarrow> outcome_request \<Rightarrow> digest \<Rightarrow> digest \<Rightarrow> time \<Rightarrow> db
    \<Rightarrow> action_error + (outcome_row \<times> db)" where
  "outcome_body env aid rn q kh rh now d =
     (case get_card (ae_workspace env) aid None d of
        None \<Rightarrow> Inl ActionNotFound
      | Some c \<Rightarrow>
          ebind (outcome_authority aid kh rh d) (\<lambda>replay.
            case replay of
              Some x \<Rightarrow> Inr (x, d)
            | None \<Rightarrow>
                if cr_current_revision (ca_row c) \<noteq> rn then Inl ActionRevisionConflict
                else if ca_revisions c = [] then Inl (Unexpected ''IndexError'')
                else if oq_evidence q \<noteq> rv_facts (last (ca_revisions c)) then Inl (ActionInvalid ''outcome_evidence_invalid'')
                else ebind (ae_authority env (original_source c) (oq_evidence q)) (\<lambda>_.
                     ebind (apply_command (cr_status (ca_row c)) RecordOutcome) (\<lambda>_.
                       let x = \<lparr>or_id = ae_uuid5 env (''outcome:'' @ aid @ '':'' @ kh), or_action = aid, or_revision = rn,
                             or_outcome_revision = next_outcome_revision aid d, or_review_date = oq_review_date q,
                             or_result = oq_result q, or_evidence = oq_evidence q, or_conclusion = oq_conclusion q,
                             or_reason = oq_reason q, or_key_hash = kh, or_request_hash = rh, or_created_at = now\<rparr>
                       in ebind (insert_outcome x d) (\<lambda>d'. Inr (x, d'))))))"

definition outcome_checks :: "action_env \<Rightarrow> outcome_request \<Rightarrow> string \<Rightarrow> action_error + digest" where
  "outcome_checks env q key =
     ebind (validate_reason (ae_boundary env) (oq_reason q)) (\<lambda>_.
     ebind (validate_facts (ae_boundary env) (oq_evidence q)) (\<lambda>_.
     ebind (validate_synthetic (ae_boundary env) (json_impact (oq_result q))) (\<lambda>_. key_hash env key)))"

definition record_outcome :: "action_env \<Rightarrow> uuid \<Rightarrow> int \<Rightarrow> outcome_request \<Rightarrow> string \<Rightarrow> time \<Rightarrow> fault \<Rightarrow> db
    \<Rightarrow> (action_error, outcome_row) outcome \<times> db" where
  "record_outcome env aid rn q key now flt d =
     (case outcome_checks env q key of
        Inl e \<Rightarrow> (Raised e, d)
      | Inr kh \<Rightarrow>
          let rh = ae_digest env (OutcomeRequest aid rn (oq_review_date q) (oq_result q) (oq_evidence q)
                     (oq_conclusion q) (oq_reason q)) in
          with_authority passes_decision (run_uow flt (outcome_body env aid rn q kh rh now) d)
            (outcome_authority aid kh rh))"

text \<open>
  An export: the checks run on a plain connection, then the workbook is built and stored
  (\<open>stored\<close>: the identifier and digest of the stored object, or the exception on the way), and the
  row is inserted. After any exception the authority is an export of this key and revision whose
  stored object is intact.
\<close>

definition export_check :: "action_env \<Rightarrow> uuid \<Rightarrow> int \<Rightarrow> digest \<Rightarrow> digest \<Rightarrow> db \<Rightarrow> action_error + export_row option" where
  "export_check env aid rn kh rh d =
     (case find_export aid kh d of
        Some x \<Rightarrow> if er_request_hash x \<noteq> rh then Inl ActionIdempotencyConflict else Inr (Some x)
      | None \<Rightarrow>
          (case get_card (ae_workspace env) aid None d of
             None \<Rightarrow> Inl ActionNotFound
           | Some c \<Rightarrow>
               if cr_current_revision (ca_row c) \<noteq> rn then Inl ActionRevisionConflict
               else ebind (apply_command (cr_status (ca_row c)) Export) (\<lambda>_. Inr None)))"

definition export_authority :: "action_env \<Rightarrow> uuid \<Rightarrow> int \<Rightarrow> digest \<Rightarrow> db \<Rightarrow> action_error + export_row option" where
  "export_authority env aid rn kh d = Inr
     (case find_export aid kh d of
        None \<Rightarrow> None
      | Some x \<Rightarrow> if er_revision x = rn \<and> ae_storage_ok env x then Some x else None)"

definition new_export :: "action_env \<Rightarrow> uuid \<Rightarrow> int \<Rightarrow> uuid \<times> digest \<Rightarrow> digest \<Rightarrow> digest \<Rightarrow> time \<Rightarrow> export_row" where
  "new_export env aid rn stored kh rh now =
     \<lparr>er_id = ae_uuid5 env (''export:'' @ aid @ '':'' @ kh), er_action = aid, er_revision = rn,
      er_storage_object = Some (fst stored), er_sha256 = snd stored, er_key_hash = kh, er_request_hash = rh, er_created_at = now\<rparr>"

definition export_body :: "action_env \<Rightarrow> uuid \<Rightarrow> int \<Rightarrow> action_error + (uuid \<times> digest) \<Rightarrow> digest \<Rightarrow> digest \<Rightarrow> time \<Rightarrow> db
    \<Rightarrow> action_error + (export_row \<times> db)" where
  "export_body env aid rn stored kh rh now d =
     ebind stored (\<lambda>obj. let x = new_export env aid rn obj kh rh now in ebind (insert_export x d) (\<lambda>d'. Inr (x, d')))"

definition export_action :: "action_env \<Rightarrow> uuid \<Rightarrow> int \<Rightarrow> string \<Rightarrow> string \<Rightarrow> action_error + (uuid \<times> digest) \<Rightarrow> time
    \<Rightarrow> fault \<Rightarrow> db \<Rightarrow> (action_error, export_row) outcome \<times> db" where
  "export_action env aid rn format key stored now flt d =
     (case ebind (ensure (format = ''xlsx'') (ActionInvalid ''export_format_invalid'')) (\<lambda>_. key_hash env key) of
        Inl e \<Rightarrow> (Raised e, d)
      | Inr kh \<Rightarrow>
          let rh = ae_digest env (ExportRequest aid rn format) in
          case export_check env aid rn kh rh d of
            Inl e \<Rightarrow> (Raised e, d)
          | Inr (Some x) \<Rightarrow> (Returned x, d)
          | Inr None \<Rightarrow> with_authority (\<lambda>_. False) (run_uow flt (export_body env aid rn stored kh rh now) d)
              (export_authority env aid rn kh))"

section \<open>Histories\<close>

datatype action_event =
    CreateDraft action_source "fact_ref list" string
  | Decide uuid int action_command string "action_adjustment option" string
  | Outcome uuid int outcome_request string
  | ExportCard uuid int string "action_error + (uuid \<times> digest)"

text \<open>The four public decision operations.\<close>

definition well_formed_decision :: "action_command \<Rightarrow> action_adjustment option \<Rightarrow> bool" where
  "well_formed_decision cmd adj \<longleftrightarrow> (case adj of None \<Rightarrow> cmd \<in> {Review, Approve, Dismiss} | Some a \<Rightarrow> cmd = Adjust \<and> a \<noteq> empty_adjustment)"

fun action_step :: "action_env \<Rightarrow> time \<times> fault \<times> action_event \<Rightarrow> db \<Rightarrow> db" where
  "action_step env (now, flt, CreateDraft s fs key) d = snd (create_draft env s fs key now flt d)"
| "action_step env (now, flt, Decide aid rn cmd reason adj key) d =
     (if well_formed_decision cmd adj then snd (decide env aid rn cmd reason adj key now flt d) else d)"
| "action_step env (now, flt, Outcome aid rn q key) d = snd (record_outcome env aid rn q key now flt d)"
| "action_step env (now, flt, ExportCard aid rn key stored) d = snd (export_action env aid rn ''xlsx'' key stored now flt d)"

section \<open>What a transaction changes\<close>

definition decs :: "uuid \<Rightarrow> db \<Rightarrow> decision_row list" where
  "decs aid d = filter (\<lambda>x. dr_action x = aid) (db_decisions d)"

definition revs :: "uuid \<Rightarrow> db \<Rightarrow> revision_row list" where
  "revs aid d = filter (\<lambda>x. rv_action x = aid) (db_revisions d)"

definition outs :: "uuid \<Rightarrow> db \<Rightarrow> outcome_row list" where
  "outs aid d = filter (\<lambda>x. or_action x = aid) (db_outcomes d)"

definition exps :: "uuid \<Rightarrow> db \<Rightarrow> export_row list" where
  "exps aid d = filter (\<lambda>x. er_action x = aid) (db_exports d)"

lemma with_authority_db [simp]: "snd (with_authority p r auth) = snd r"
  by (auto simp: with_authority_def split: prod.splits sum.splits option.splits)

lemma read_back_db [simp]: "snd (read_back env aid r) = snd r"
  by (auto simp: read_back_def split: prod.splits)

lemma get_cardD:
  assumes "get_card ws aid b d = Some c"
  shows "ca_row c \<in> set (db_cards d)" "cr_id (ca_row c) = aid" "cr_workspace (ca_row c) = ws" "c = children d b (ca_row c)"
  using assms by (auto simp: get_card_def children_def dest!: select_one_SomeD)

text \<open>The card row and its position are moved by one update; the decision and the new revision are appended.\<close>

definition move_card :: "uuid \<Rightarrow> int \<Rightarrow> int \<Rightarrow> action_status \<Rightarrow> time \<Rightarrow> card_row \<Rightarrow> card_row" where
  "move_card aid expected number nxt now r =
     (if cr_id r = aid \<and> cr_current_revision r = expected
      then r\<lparr>cr_status := nxt, cr_current_revision := number, cr_updated_at := now,
             cr_terminal_at := (if nxt \<in> {Approved, Dismissed} then Some now else None)\<rparr>
      else r)"

definition decided :: "uuid \<Rightarrow> int \<Rightarrow> action_status \<Rightarrow> decision_row \<Rightarrow> revision_row option \<Rightarrow> db \<Rightarrow> db" where
  "decided aid expected nxt x nr d =
     d\<lparr>db_cards := map (move_card aid expected (dr_revision x) nxt (dr_created_at x)) (db_cards d),
       db_revisions := db_revisions d @ (case nr of None \<Rightarrow> [] | Some r \<Rightarrow> [r]),
       db_decisions := db_decisions d @ [x]\<rparr>"

lemma apply_decisionD:
  assumes "apply_decision aid expected nxt x nr d = Inr (True, d')"
  shows "d' = decided aid expected nxt (x\<lparr>dr_revision := expected + (if nr = None then 0 else 1)\<rparr>)
            (map_option (\<lambda>r. r\<lparr>rv_number := expected + 1\<rparr>) nr) d"
    and "\<forall>y \<in> set (db_decisions d). dr_id y \<noteq> dr_id x \<and> (dr_action y = dr_action x
            \<longrightarrow> dr_ordinal y \<noteq> dr_ordinal x \<and> dr_key_hash y \<noteq> dr_key_hash x)"
  using assms
  by (auto simp: apply_decision_def Let_def ebind_eq_Inr insert_revision_def insert_decision_def decided_def
      move_card_def update_where_def list_ex_iff split: if_splits option.splits)

text \<open>A decision that is not a replay.\<close>

lemma decision_bodyD:
  assumes "decision_body env aid rn cmd reason adj kh rh now d = Inr (None, d')"
  shows "\<exists>c nxt x. get_card (ae_workspace env) aid None d = Some c \<and> cr_current_revision (ca_row c) = rn
    \<and> moves (cr_status (ca_row c)) cmd nxt \<and> find_decision aid kh d = None
    \<and> x = \<lparr>dr_id = ae_uuid5 env (''decision:'' @ aid @ '':'' @ kh), dr_action = aid,
             dr_revision = rn + (if adj = None then 0 else 1),
             dr_ordinal = int (length (ca_decisions c)) + 1, dr_command = cmd, dr_reason = reason,
             dr_key_hash = kh, dr_request_hash = rh, dr_created_at = now\<rparr>
    \<and> (\<forall>y \<in> set (db_decisions d). dr_id y \<noteq> dr_id x)
    \<and> d' = decided aid rn nxt x (map_option (\<lambda>a. (adjusted_revision env aid (last (ca_revisions c)) a now)
            \<lparr>rv_number := rn + 1\<rparr>) adj) d"
proof -
  from assms obtain c where c: "get_card (ae_workspace env) aid None d = Some c"
    by (auto simp: decision_body_def split: option.splits)
  from assms c have fresh: "find_decision aid kh d = None" and rn: "cr_current_revision (ca_row c) = rn"
    by (auto simp: decision_body_def ebind_eq_Inr split: option.splits if_splits)
  from assms c fresh rn obtain nxt where nxt: "apply_command (cr_status (ca_row c)) cmd = Inr nxt"
    and app: "apply_decision aid rn nxt
        \<lparr>dr_id = ae_uuid5 env (''decision:'' @ aid @ '':'' @ kh), dr_action = aid, dr_revision = rn,
         dr_ordinal = int (length (ca_decisions c)) + 1, dr_command = cmd, dr_reason = reason,
         dr_key_hash = kh, dr_request_hash = rh, dr_created_at = now\<rparr>
        (map_option (\<lambda>a. adjusted_revision env aid (last (ca_revisions c)) a now) adj) d = Inr (True, d')"
    by (auto simp: decision_body_def ebind_eq_Inr split: if_splits prod.splits)
  show ?thesis
    using apply_decisionD [OF app] c rn nxt fresh
    by (intro exI [of _ c] exI [of _ nxt] exI conjI refl)
      (auto simp: apply_command_iff option.map_comp o_def)
qed

lemma decision_body_replay: "decision_body env aid rn cmd reason adj kh rh now d = Inr (Some c, d') \<Longrightarrow> d' = d"
  by (auto simp: decision_body_def ebind_eq_Inr split: option.splits if_splits)

lemma decide_db:
  "snd (decide env aid rn cmd reason adj key now flt d) = d
   \<or> (\<exists>kh. decision_body env aid rn cmd reason adj kh (ae_digest env (DecisionRequest aid rn cmd reason adj)) now d
        = Inr (None, snd (decide env aid rn cmd reason adj key now flt d)) \<and> key_hash env key = Inr kh)"
proof -
  have "snd (run_uow flt (decision_body env aid rn cmd reason adj kh rh now) d) = d
    \<or> decision_body env aid rn cmd reason adj kh rh now d
        = Inr (None, snd (run_uow flt (decision_body env aid rn cmd reason adj kh rh now) d))" for kh rh
    using run_uow_state [of flt "decision_body env aid rn cmd reason adj kh rh now" d]
    by (metis decision_body_replay option.exhaust)
  then show ?thesis
    by (auto simp: decide_def decision_checks_def Let_def ebind_eq_Inr split: sum.splits)
qed

lemma find_create_card:
  assumes "find_create ws kh d = Some r"
  shows "get_card ws (cr_id r) None d \<noteq> None"
  using select_one_SomeD [OF assms [unfolded find_create_def]]
  by (auto simp: get_card_def select_one_None_iff)

lemma create_bodyD:
  assumes "create_body env s fs kh rh now d = Inr (None, d')"
  shows "find_create (ae_workspace env) kh d = None" "ae_authority env s fs = Inr ()"
    "create_rows env (create_id env kh) s fs kh rh now d = Inr d'"
  using assms find_create_card [of "ae_workspace env" kh d]
  by (auto simp: create_body_def create_authority_def ebind_eq_Inr split: option.splits if_splits)

section \<open>The card is the replay of its log\<close>

definition adjusts :: "action_command list \<Rightarrow> int" where
  "adjusts cs = int (length (filter (\<lambda>c. c = Adjust) cs))"

definition upto_int :: "nat \<Rightarrow> int list" where
  "upto_int n = map int [1..<Suc n]"

lemma upto_int_Suc: "upto_int (Suc n) = upto_int n @ [int n + 1]"
  by (simp add: upto_int_def)

lemma upto_int_0 [simp]: "upto_int 0 = []"
  by (simp add: upto_int_def)

lemma upto_int_length [simp]: "length (upto_int n) = n"
  by (simp add: upto_int_def)

lemma upto_int_sorted [simp]: "sorted (upto_int n)"
  unfolding upto_int_def by (simp add: sorted_map del: upt_Suc)

lemma sorted_by_numbers: "map f xs = upto_int (length xs) \<Longrightarrow> sort_key f xs = xs"
  by (simp add: sort_key_id_if_sorted)

text \<open>
  The invariant of a card: its status is what the state machine makes of the decisions in their
  order; ordinals, revisions and outcomes are numbered from one without gaps; each decision is
  at the revision that the adjustments up to it produced; the times are those of the last
  decision; exports and outcomes exist for approved cards only.
\<close>

definition log_inv :: "decision_row list \<Rightarrow> bool" where
  "log_inv ls \<longleftrightarrow> map dr_ordinal ls = upto_int (length ls) \<and> distinct (map dr_key_hash ls)
     \<and> (\<forall>x \<in> set ls. is_decision (dr_command x))
     \<and> (\<forall>i < length ls. dr_revision (ls ! i) = 1 + adjusts (map dr_command (take (Suc i) ls)))"

definition times_inv :: "decision_row list \<Rightarrow> card_row \<Rightarrow> bool" where
  "times_inv ls r \<longleftrightarrow>
     (if ls = [] then cr_updated_at r = cr_created_at r \<and> cr_terminal_at r = None
      else cr_updated_at r = dr_created_at (last ls)
        \<and> cr_terminal_at r = (if terminal (cr_status r) then Some (dr_created_at (last ls)) else None))"

definition card_inv :: "db \<Rightarrow> card_row \<Rightarrow> bool" where
  "card_inv d r \<longleftrightarrow>
     (let ls = decs (cr_id r) d; rs = revs (cr_id r) d; os = outs (cr_id r) d in
      runs New (map dr_command ls) (cr_status r) \<and> log_inv ls \<and> times_inv ls r
      \<and> map rv_number rs = upto_int (length rs) \<and> cr_current_revision r = int (length rs)
      \<and> int (length rs) = 1 + adjusts (map dr_command ls)
      \<and> map or_outcome_revision os = upto_int (length os)
      \<and> (cr_status r \<noteq> Approved \<longrightarrow> os = [] \<and> exps (cr_id r) d = []))"

definition owned :: "db \<Rightarrow> uuid set \<Rightarrow> bool" where
  "owned d ids \<longleftrightarrow> dr_action ` set (db_decisions d) \<subseteq> ids \<and> rv_action ` set (db_revisions d) \<subseteq> ids
     \<and> or_action ` set (db_outcomes d) \<subseteq> ids \<and> er_action ` set (db_exports d) \<subseteq> ids"

definition actions_ok :: "db \<Rightarrow> bool" where
  "actions_ok d \<longleftrightarrow> distinct (map cr_id (db_cards d)) \<and> (\<forall>r \<in> set (db_cards d). card_inv d r)
     \<and> owned d (cr_id ` set (db_cards d)) \<and> distinct (map dr_id (db_decisions d))"

lemma card_inv_cong:
  "decs (cr_id r) d' = decs (cr_id r) d \<Longrightarrow> revs (cr_id r) d' = revs (cr_id r) d \<Longrightarrow> outs (cr_id r) d' = outs (cr_id r) d
   \<Longrightarrow> exps (cr_id r) d' = exps (cr_id r) d \<Longrightarrow> card_inv d' r = card_inv d r"
  by (simp add: card_inv_def)

lemma children_ordered:
  assumes "card_inv d r"
  shows "ca_revisions (children d b r) = revs (cr_id r) d" "ca_decisions (children d b r) = decs (cr_id r) d"
    "ca_row (children d b r) = r"
  using assms sorted_by_numbers [of rv_number "revs (cr_id r) d"] sorted_by_numbers [of dr_ordinal "decs (cr_id r) d"]
  by (simp_all add: children_def card_inv_def log_inv_def Let_def) (simp_all add: revs_def decs_def)

lemma move_card_id [simp]: "cr_id (move_card aid e n s t r) = cr_id r"
  by (simp add: move_card_def)

lemma decided_simps [simp]:
  "db_cards (decided aid e s x nr d) = map (move_card aid e (dr_revision x) s (dr_created_at x)) (db_cards d)"
  "decs a (decided aid e s x nr d) = decs a d @ (if dr_action x = a then [x] else [])"
  "revs a (decided aid e s x nr d) = revs a d @ (case nr of None \<Rightarrow> [] | Some r \<Rightarrow> if rv_action r = a then [r] else [])"
  "outs a (decided aid e s x nr d) = outs a d"
  "exps a (decided aid e s x nr d) = exps a d"
  by (simp_all add: decided_def decs_def revs_def outs_def exps_def split: option.split)

lemma log_inv_snoc:
  assumes "log_inv ls" and "dr_ordinal x = int (length ls) + 1" and "dr_key_hash x \<notin> dr_key_hash ` set ls"
    and "dr_revision x = 1 + adjusts (map dr_command (ls @ [x]))" and "is_decision (dr_command x)"
  shows "log_inv (ls @ [x])"
  using assms by (auto simp: log_inv_def upto_int_Suc nth_append less_Suc_eq)

lemma decided_inv:
  assumes ok: "actions_ok d" and r: "r \<in> set (db_cards d)" and aid: "cr_id r = aid" and cur: "cr_current_revision r = rn"
    and step: "moves (cr_status r) (dr_command x) nxt"
    and x: "dr_action x = aid" "dr_ordinal x = int (length (decs aid d)) + 1"
      "dr_revision x = rn + (if nr = None then 0 else 1)" "dr_id x \<notin> dr_id ` set (db_decisions d)"
      "dr_key_hash x \<notin> dr_key_hash ` set (decs aid d)"
    and nr: "nr = None \<longleftrightarrow> dr_command x \<noteq> Adjust" "\<And>y. nr = Some y \<Longrightarrow> rv_action y = aid \<and> rv_number y = rn + 1"
    and dec: "is_decision (dr_command x)"
  shows "actions_ok (decided aid rn nxt x nr d)"
proof -
  let ?d = "decided aid rn nxt x nr d"
  let ?m = "move_card aid rn (dr_revision x) nxt (dr_created_at x)"
  have inv: "card_inv d r" and dist: "distinct (map cr_id (db_cards d))" using ok r by (auto simp: actions_ok_def)
  have notapp: "cr_status r \<noteq> Approved" using step dec by (auto simp: is_decision_def)
  have ends: "revs aid ?d = revs aid d @ (case nr of None \<Rightarrow> [] | Some y \<Rightarrow> [y])"
    using nr(2) by (simp split: option.split)
  have "card_inv ?d (?m r)"
  proof -
    have runs: "runs New (map dr_command (decs aid d @ [x])) nxt"
      using inv step by (auto simp: card_inv_def Let_def aid intro: runs_snoc)
    have len: "int (length (revs aid ?d)) = 1 + adjusts (map dr_command (decs aid d @ [x]))"
      using inv nr(1) unfolding ends by (cases nr) (auto simp: card_inv_def Let_def aid adjusts_def)
    have curn: "rn = int (length (revs aid d))" using inv cur aid by (simp add: card_inv_def Let_def)
    have rev: "dr_revision x = int (length (revs aid ?d))"
      unfolding ends using curn x(3) by (simp split: option.split)
    have numbers: "map rv_number (revs aid ?d) = upto_int (length (revs aid ?d))"
      unfolding ends using inv nr(2) curn by (cases nr) (auto simp: card_inv_def Let_def aid upto_int_Suc)
    have log: "log_inv (decs aid d @ [x])"
      by (rule log_inv_snoc) (use inv x len rev dec in \<open>auto simp: card_inv_def Let_def aid\<close>)
    show ?thesis using runs len rev numbers log notapp inv x(1)
      by (auto simp: card_inv_def Let_def aid move_card_def cur times_inv_def terminal_def)
  qed
  moreover have "card_inv ?d (?m s)" if s: "s \<in> set (db_cards d)" "s \<noteq> r" for s
  proof -
    have "cr_id s \<noteq> aid" using s r aid dist by (auto simp: distinct_map dest: inj_onD)
    then have m: "?m s = s" and same: "cr_id s \<noteq> dr_action x" by (auto simp: move_card_def x(1))
    have "card_inv ?d s = card_inv d s"
      by (rule card_inv_cong) (use same nr(2) \<open>cr_id s \<noteq> aid\<close> in \<open>auto split: option.split\<close>)
    then show ?thesis using s ok by (simp add: m actions_ok_def)
  qed
  ultimately have "\<forall>s \<in> set (db_cards ?d). card_inv ?d s" by auto
  moreover have "distinct (map cr_id (db_cards ?d))" using dist by (simp add: o_def)
  moreover have "owned ?d (cr_id ` set (db_cards ?d))"
    using ok r aid x(1) nr(2) by (auto simp: actions_ok_def owned_def decided_def image_image split: option.splits)
  moreover have "distinct (map dr_id (db_decisions ?d))" using ok x(4) by (auto simp: actions_ok_def decided_def)
  ultimately show ?thesis unfolding actions_ok_def by blast
qed

lemma find_decision_None: "find_decision aid kh d = None \<longleftrightarrow> kh \<notin> dr_key_hash ` set (decs aid d)"
  by (auto simp: find_decision_def select_one_None_iff decs_def)

lemma decide_ok:
  assumes ok: "actions_ok d" and wf: "well_formed_decision cmd adj"
  shows "actions_ok (snd (decide env aid rn cmd reason adj key now flt d))"
proof -
  let ?rh = "ae_digest env (DecisionRequest aid rn cmd reason adj)"
  let ?d = "snd (decide env aid rn cmd reason adj key now flt d)"
  from decide_db [of env aid rn cmd reason adj key now flt d] show ?thesis
  proof (elim disjE exE conjE)
    assume "?d = d"
    then show ?thesis using ok by simp
  next
    fix kh assume "decision_body env aid rn cmd reason adj kh ?rh now d = Inr (None, ?d)"
    from decision_bodyD [OF this] obtain c nxt x where c: "get_card (ae_workspace env) aid None d = Some c"
      and cur: "cr_current_revision (ca_row c) = rn" and mv: "moves (cr_status (ca_row c)) cmd nxt"
      and fresh: "find_decision aid kh d = None" and ids: "\<forall>y \<in> set (db_decisions d). dr_id y \<noteq> dr_id x"
      and x: "x = \<lparr>dr_id = ae_uuid5 env (''decision:'' @ aid @ '':'' @ kh), dr_action = aid,
             dr_revision = rn + (if adj = None then 0 else 1),
             dr_ordinal = int (length (ca_decisions c)) + 1, dr_command = cmd, dr_reason = reason,
             dr_key_hash = kh, dr_request_hash = ?rh, dr_created_at = now\<rparr>"
      and d': "?d = decided aid rn nxt x (map_option (\<lambda>a. (adjusted_revision env aid (last (ca_revisions c)) a now)
            \<lparr>rv_number := rn + 1\<rparr>) adj) d"
      by blast
    note card = get_cardD [OF c]
    have "ca_decisions c = decs aid d"
      using card children_ordered(2) [of d "ca_row c" None] ok by (auto simp: actions_ok_def)
    then show ?thesis unfolding d'
      by (intro decided_inv [OF ok card(1,2) cur])
        (use mv wf ids fresh in \<open>auto simp: x find_decision_None well_formed_decision_def is_decision_def
          adjusted_revision_def split: option.splits\<close>)
  qed
qed

section \<open>Every request keeps the invariant\<close>

lemma create_rowsD:
  assumes "create_rows env aid s fs kh rh now d = Inr d'"
  shows "d' = d\<lparr>db_cards := db_cards d @ [new_card env aid s kh rh now],
            db_revisions := db_revisions d @ [first_revision env aid s fs now]\<rparr>"
    and "aid \<notin> cr_id ` set (db_cards d)"
  using assms
  by (auto simp: create_rows_def insert_card_def insert_revision_def ebind_eq_Inr list_ex_iff new_card_def split: if_splits)

lemma create_draft_db:
  "snd (create_draft env s fs key now flt d) = d
   \<or> (\<exists>kh. create_body env s fs kh (ae_digest env (CreateRequest s fs)) now d
        = Inr (None, snd (create_draft env s fs key now flt d)) \<and> key_hash env key = Inr kh)"
proof -
  have replay: "create_body env s fs kh rh now d = Inr (Some c, d') \<Longrightarrow> d' = d" for kh rh c d'
    by (auto simp: create_body_def ebind_eq_Inr split: option.splits)
  have "snd (run_uow flt (create_body env s fs kh rh now) d) = d
    \<or> create_body env s fs kh rh now d = Inr (None, snd (run_uow flt (create_body env s fs kh rh now) d))" for kh rh
    using run_uow_state [of flt "create_body env s fs kh rh now" d] by (metis replay option.exhaust)
  then show ?thesis by (auto simp: create_draft_def create_checks_def Let_def ebind_eq_Inr split: sum.splits)
qed

lemma owned_empty:
  assumes "owned d ids" and "a \<notin> ids"
  shows "decs a d = []" "revs a d = []" "outs a d = []" "exps a d = []"
  using assms by (auto simp: owned_def decs_def revs_def outs_def exps_def filter_empty_conv)

lemma create_draft_ok:
  assumes ok: "actions_ok d"
  shows "actions_ok (snd (create_draft env s fs key now flt d))"
proof -
  let ?d = "snd (create_draft env s fs key now flt d)"
  from create_draft_db [of env s fs key now flt d] show ?thesis
  proof (elim disjE exE conjE)
    assume "?d = d"
    then show ?thesis using ok by simp
  next
    fix kh assume "create_body env s fs kh (ae_digest env (CreateRequest s fs)) now d = Inr (None, ?d)"
    note rows = create_rowsD [OF create_bodyD(3) [OF this]]
    define r where "r = new_card env (create_id env kh) s kh (ae_digest env (CreateRequest s fs)) now"
    define v where "v = first_revision env (create_id env kh) s fs now"
    have r: "cr_id r = create_id env kh" "cr_status r = New" "cr_current_revision r = 1"
        "cr_updated_at r = cr_created_at r" "cr_terminal_at r = None"
      and v: "rv_action v = create_id env kh" "rv_number v = 1"
      by (simp_all add: r_def v_def new_card_def first_revision_def)
    have d': "?d = d\<lparr>db_cards := db_cards d @ [r], db_revisions := db_revisions d @ [v]\<rparr>"
      and fresh: "create_id env kh \<notin> cr_id ` set (db_cards d)" using rows by (simp_all add: r_def v_def)
    have sub: "decs a ?d = decs a d" "outs a ?d = outs a d" "exps a ?d = exps a d"
      "revs a ?d = revs a d @ (if rv_action v = a then [v] else [])" for a
      by (simp_all add: d' decs_def revs_def outs_def exps_def)
    have own: "owned d (cr_id ` set (db_cards d))" using ok by (simp add: actions_ok_def)
    have "card_inv ?d r"
      using owned_empty [OF own fresh] r v
      by (simp add: card_inv_def sub Let_def times_inv_def log_inv_def adjusts_def runs_nil upto_int_def)
    moreover have "card_inv ?d s" if "s \<in> set (db_cards d)" for s
    proof -
      have "cr_id s \<noteq> create_id env kh" using that fresh imageI [of s _ cr_id] by metis
      then have "card_inv ?d s = card_inv d s" by (intro card_inv_cong) (simp_all add: sub v(1))
      then show ?thesis using that ok by (simp add: actions_ok_def)
    qed
    ultimately have "\<forall>s \<in> set (db_cards ?d). card_inv ?d s" by (simp add: d')
    moreover have "owned ?d (cr_id ` set (db_cards ?d))" using own r(1) v(1) by (auto simp: owned_def d')
    moreover have "distinct (map cr_id (db_cards ?d))" using ok fresh r(1) by (simp add: actions_ok_def d')
    moreover have "distinct (map dr_id (db_decisions ?d))" using ok by (simp add: actions_ok_def d')
    ultimately show ?thesis unfolding actions_ok_def by blast
  qed
qed

text \<open>Recording appends one row that belongs to an approved card.\<close>

lemma foldr_max: "foldr max xs (a :: int) = Max (insert a (set xs))"
  by (induction xs) (auto simp: insert_commute max.commute)

lemma next_outcome:
  assumes "map or_outcome_revision (outs aid d) = upto_int n"
  shows "next_outcome_revision aid d = int n + 1"
proof -
  have "Max (insert 0 (set (upto_int n))) = int n"
    by (rule Max_eqI) (auto simp: upto_int_def)
  then show ?thesis using assms by (simp add: next_outcome_revision_def foldr_max outs_def)
qed

lemma outcome_bodyD:
  assumes "outcome_body env aid rn q kh rh now d = Inr (x, d')"
  shows "d' = d \<and> find_outcome aid kh d = Some x \<and> or_request_hash x = rh
    \<or> (\<exists>c. get_card (ae_workspace env) aid None d = Some c \<and> cr_status (ca_row c) = Approved
        \<and> cr_current_revision (ca_row c) = rn \<and> ca_revisions c \<noteq> [] \<and> oq_evidence q = rv_facts (last (ca_revisions c))
        \<and> ae_authority env (original_source c) (oq_evidence q) = Inr () \<and> find_outcome aid kh d = None
        \<and> or_action x = aid \<and> or_revision x = rn \<and> or_outcome_revision x = next_outcome_revision aid d
        \<and> or_evidence x = oq_evidence q \<and> or_key_hash x = kh \<and> or_request_hash x = rh \<and> or_created_at x = now
        \<and> d' = d\<lparr>db_outcomes := db_outcomes d @ [x]\<rparr>)"
proof -
  from assms obtain c where c: "get_card (ae_workspace env) aid None d = Some c"
    by (auto simp: outcome_body_def split: option.splits)
  have "cr_status (ca_row c) = Approved" if "apply_command (cr_status (ca_row c)) RecordOutcome = Inr s" for s
    using that by (simp add: apply_command_iff) (auto elim: moves_fromE)
  then show ?thesis using assms c
    by (auto simp: outcome_body_def outcome_authority_def ebind_eq_Inr Let_def insert_outcome_def
        split: option.splits if_splits)
qed

lemma record_outcome_db:
  "snd (record_outcome env aid rn q key now flt d) = d
   \<or> (\<exists>kh rh x. outcome_body env aid rn q kh rh now d = Inr (x, snd (record_outcome env aid rn q key now flt d)))"
proof -
  have "snd (run_uow flt (outcome_body env aid rn q kh rh now) d) = d
    \<or> (\<exists>x. outcome_body env aid rn q kh rh now d = Inr (x, snd (run_uow flt (outcome_body env aid rn q kh rh now) d)))"
    for kh rh
    using run_uow_state [of flt "outcome_body env aid rn q kh rh now" d] by blast
  then show ?thesis by (fastforce simp: record_outcome_def Let_def split: sum.splits)
qed

lemma record_ok:
  assumes ok: "actions_ok d" and r: "r \<in> set (db_cards d)" and app: "cr_status r = Approved"
    and d': "d' = d\<lparr>db_outcomes := db_outcomes d @ xs, db_exports := db_exports d @ ys\<rparr>"
    and xs: "xs = [] \<or> (\<exists>x. xs = [x] \<and> or_action x = cr_id r \<and> or_outcome_revision x = int (length (outs (cr_id r) d)) + 1)"
    and ys: "\<forall>y \<in> set ys. er_action y = cr_id r"
  shows "actions_ok d'"
proof -
  have sub: "decs a d' = decs a d" "revs a d' = revs a d" "outs a d' = outs a d @ filter (\<lambda>x. or_action x = a) xs"
      "exps a d' = exps a d @ filter (\<lambda>y. er_action y = a) ys" for a
    by (simp_all add: d' decs_def revs_def outs_def exps_def)
  have "card_inv d' s" if s: "s \<in> set (db_cards d)" for s
  proof (cases "cr_id s = cr_id r")
    case True
    then have "s = r" using s r ok by (auto simp: actions_ok_def distinct_map dest: inj_onD)
    then show ?thesis using ok r xs app by (auto simp: actions_ok_def card_inv_def sub Let_def upto_int_Suc)
  next
    case False
    then have "card_inv d' s = card_inv d s" by (intro card_inv_cong) (use xs ys in \<open>auto simp: sub filter_empty_conv\<close>)
    then show ?thesis using ok s by (simp add: actions_ok_def)
  qed
  then show ?thesis using ok r xs ys by (auto simp: actions_ok_def d' owned_def)
qed

lemma record_outcome_ok:
  assumes ok: "actions_ok d"
  shows "actions_ok (snd (record_outcome env aid rn q key now flt d))"
proof -
  let ?d = "snd (record_outcome env aid rn q key now flt d)"
  from record_outcome_db [of env aid rn q key now flt d] show ?thesis
  proof (elim disjE exE)
    assume "?d = d"
    then show ?thesis using ok by simp
  next
    fix kh rh x assume "outcome_body env aid rn q kh rh now d = Inr (x, ?d)"
    from outcome_bodyD [OF this] show ?thesis
    proof (elim disjE exE conjE)
      assume "?d = d"
      then show ?thesis using ok by simp
    next
      fix c assume c: "get_card (ae_workspace env) aid None d = Some c" and app: "cr_status (ca_row c) = Approved"
        and x: "or_action x = aid" "or_outcome_revision x = next_outcome_revision aid d"
        and d': "?d = d\<lparr>db_outcomes := db_outcomes d @ [x]\<rparr>"
      note card = get_cardD [OF c]
      have "map or_outcome_revision (outs aid d) = upto_int (length (outs aid d))"
        using ok card(1,2) by (auto simp: actions_ok_def card_inv_def Let_def)
      from next_outcome [OF this] show ?thesis
        by (intro record_ok [OF ok card(1) app, where xs = "[x]" and ys = "[]"]) (simp_all add: d' x card(2))
    qed
  qed
qed

lemma export_action_db:
  "snd (export_action env aid rn f key stored now flt d) = d
   \<or> (\<exists>x c. get_card (ae_workspace env) aid None d = Some c \<and> cr_status (ca_row c) = Approved
       \<and> cr_current_revision (ca_row c) = rn \<and> er_action x = aid \<and> er_revision x = rn \<and> er_created_at x = now
       \<and> snd (export_action env aid rn f key stored now flt d) = d\<lparr>db_exports := db_exports d @ [x]\<rparr>)"
proof -
  have app: "s = Approved" if "apply_command s Export = Inr t" for s t
    using that by (simp add: apply_command_iff) (auto elim: moves_fromE)
  have body: "er_action y = aid \<and> er_revision y = rn \<and> er_created_at y = now \<and> d' = d\<lparr>db_exports := db_exports d @ [y]\<rparr>"
    if "export_body env aid rn stored kh rh now d = Inr (y, d')" for kh rh y d'
    using that by (auto simp: export_body_def ebind_eq_Inr Let_def insert_export_def new_export_def split: if_splits)
  have "snd (run_uow flt (export_body env aid rn stored kh rh now) d) = d
    \<or> (\<exists>x. er_action x = aid \<and> er_revision x = rn \<and> er_created_at x = now
        \<and> snd (run_uow flt (export_body env aid rn stored kh rh now) d) = d\<lparr>db_exports := db_exports d @ [x]\<rparr>)" for kh rh
    using run_uow_state [of flt "export_body env aid rn stored kh rh now" d] body by blast
  then show ?thesis
    by (auto simp: export_action_def export_check_def Let_def ebind_eq_Inr dest: app
        split: sum.splits option.splits if_splits)
qed

lemma export_action_ok:
  assumes ok: "actions_ok d"
  shows "actions_ok (snd (export_action env aid rn f key stored now flt d))"
proof -
  let ?d = "snd (export_action env aid rn f key stored now flt d)"
  from export_action_db [of env aid rn f key stored now flt d] show ?thesis
  proof (elim disjE exE conjE)
    assume "?d = d"
    then show ?thesis using ok by simp
  next
    fix x c assume c: "get_card (ae_workspace env) aid None d = Some c" and app: "cr_status (ca_row c) = Approved"
      and x: "er_action x = aid" and d': "?d = d\<lparr>db_exports := db_exports d @ [x]\<rparr>"
    note card = get_cardD [OF c]
    show ?thesis
      by (rule record_ok [OF ok card(1) app, where xs = "[]" and ys = "[x]"]) (simp_all add: d' x card(2))
  qed
qed

lemma action_step_ok: "actions_ok d \<Longrightarrow> actions_ok (action_step env e d)"
  by (cases "(env, e, d)" rule: action_step.cases)
    (simp_all add: create_draft_ok decide_ok record_outcome_ok export_action_ok)

section \<open>Nothing is rewritten\<close>

text \<open>The tables below a card only grow, and the identity of a card is fixed at its creation.\<close>

definition same_card :: "card_row \<Rightarrow> card_row \<Rightarrow> bool" where
  "same_card r s \<longleftrightarrow> cr_id s = cr_id r \<and> cr_workspace s = cr_workspace r \<and> cr_created_at s = cr_created_at r
    \<and> cr_dataset_version s = cr_dataset_version r \<and> cr_source_type s = cr_source_type r
    \<and> cr_key_hash s = cr_key_hash r \<and> cr_request_hash s = cr_request_hash r"

definition actions_le :: "db \<Rightarrow> db \<Rightarrow> bool" where
  "actions_le d d' \<longleftrightarrow> prefix (db_decisions d) (db_decisions d') \<and> prefix (db_revisions d) (db_revisions d')
     \<and> prefix (db_outcomes d) (db_outcomes d') \<and> prefix (db_exports d) (db_exports d')
     \<and> (\<exists>us. prefix us (db_cards d') \<and> list_all2 same_card (db_cards d) us)"

lemma same_card_refl: "same_card r r"
  by (simp add: same_card_def)

lemma same_card_eq:
  "same_card r s \<Longrightarrow> cr_status s = cr_status r \<Longrightarrow> cr_current_revision s = cr_current_revision r
   \<Longrightarrow> cr_updated_at s = cr_updated_at r \<Longrightarrow> cr_terminal_at s = cr_terminal_at r \<Longrightarrow> s = r"
  by (cases r; cases s) (simp add: same_card_def)

lemma same_card_trans: "same_card r s \<Longrightarrow> same_card s t \<Longrightarrow> same_card r t"
  by (simp add: same_card_def)

lemma actions_le_refl: "actions_le d d"
  by (auto simp: actions_le_def list_all2_same same_card_refl intro!: exI [of _ "db_cards d"])

lemma actions_le_trans:
  assumes "actions_le d e" and "actions_le e f"
  shows "actions_le d f"
proof -
  obtain us where us: "prefix us (db_cards e)" "list_all2 same_card (db_cards d) us"
    using assms(1) by (auto simp: actions_le_def)
  obtain ws where ws: "prefix ws (db_cards f)" "list_all2 same_card (db_cards e) ws"
    using assms(2) by (auto simp: actions_le_def)
  obtain vs where "db_cards e = us @ vs" using us(1) by (auto simp: prefix_def)
  then obtain ps qs where ps: "ws = ps @ qs" "list_all2 same_card us ps"
    using ws(2) by (auto simp: list_all2_append1)
  have "list_all2 same_card (db_cards d) ps"
    by (rule list_all2_trans [OF same_card_trans us(2) ps(2)])
  moreover have "prefix ps (db_cards f)" using ws(1) ps(1) by (auto simp: prefix_def)
  ultimately show ?thesis using assms by (auto simp: actions_le_def intro: prefix_order.trans)
qed

lemma decided_le: "actions_le d (decided aid e s x nr d)"
  by (auto simp: actions_le_def decided_def list_all2_map2 list_all2_same same_card_def move_card_def
      intro!: exI [of _ "map (move_card aid e (dr_revision x) s (dr_created_at x)) (db_cards d)"])

lemma append_le:
  "actions_le d (d\<lparr>db_cards := db_cards d @ rs, db_revisions := db_revisions d @ vs\<rparr>)"
  "actions_le d (d\<lparr>db_outcomes := db_outcomes d @ xs\<rparr>)"
  "actions_le d (d\<lparr>db_exports := db_exports d @ ys\<rparr>)"
  by (auto simp: actions_le_def list_all2_same same_card_refl intro!: exI [of _ "db_cards d"])

lemma action_step_le: "actions_le d (action_step env e d)"
proof (cases "(env, e, d)" rule: action_step.cases)
  case (1 env' now flt s fs key d')
  then show ?thesis
    using create_draft_db [of env s fs key now flt d]
    by (auto simp: actions_le_refl dest!: create_bodyD(3) create_rowsD(1) intro: append_le)
next
  case (2 env' now flt aid rn cmd reason adj key d')
  then show ?thesis
    using decide_db [of env aid rn cmd reason adj key now flt d]
    by (auto simp: actions_le_refl dest!: decision_bodyD intro: decided_le)
next
  case (3 env' now flt aid rn q key d')
  then show ?thesis
    using record_outcome_db [of env aid rn q key now flt d]
    by (auto simp: actions_le_refl dest!: outcome_bodyD intro: append_le)
next
  case (4 env' now flt aid rn key stored d')
  then show ?thesis
    using export_action_db [of env aid rn "''xlsx''" key stored now flt d]
    by (auto simp: actions_le_refl intro: append_le)
qed

interpretation cards: ordered_machine "action_step env" actions_ok actions_le for env
  by unfold_locales (auto intro: action_step_ok action_step_le actions_le_refl actions_le_trans)

section \<open>The shape of a log\<close>

text \<open>Status and revision determine the whole log: a review, the adjustments, at most one verdict.\<close>

fun expected_log :: "action_status \<Rightarrow> nat \<Rightarrow> action_command list" where
  "expected_log New n = []"
| "expected_log Reviewed n = Review # replicate n Adjust"
| "expected_log Approved n = Review # replicate n Adjust @ [Approve]"
| "expected_log Dismissed n = Review # replicate n Adjust @ [Dismiss]"

lemma runs_shape:
  "runs s cs t \<Longrightarrow> s = New \<Longrightarrow> \<forall>c \<in> set cs. is_decision c \<Longrightarrow> cs = expected_log t (nat (adjusts cs))"
proof (induction rule: runs.induct)
  case (runs_nil s)
  then show ?case by simp
next
  case (runs_snoc s cs t c u)
  then have cs: "cs = expected_log t (nat (adjusts cs))" and c: "is_decision c" by simp_all
  have adj: "nat (adjusts (cs @ [c])) = (if c = Adjust then Suc (nat (adjusts cs)) else nat (adjusts cs))"
    by (simp add: adjusts_def nat_add_distrib)
  obtain n where n: "nat (adjusts cs) = n" by blast
  have "n = 0" if "t = New" using cs n that by (simp add: adjusts_def)
  then have "expected_log t n @ [c] = expected_log u (if c = Adjust then Suc n else n)"
    using runs_snoc.hyps(2) c by (cases t) (auto simp: is_decision_def replicate_append_same)
  then show ?case using cs adj n by simp
qed

lemma card_log:
  assumes "card_inv d r"
  shows "map dr_command (decs (cr_id r) d) = expected_log (cr_status r) (nat (cr_current_revision r - 1))"
  using assms runs_shape [of New "map dr_command (decs (cr_id r) d)" "cr_status r"]
  by (auto simp: card_inv_def Let_def log_inv_def)

section \<open>Replays\<close>

lemma prefix_filter: "prefix xs ys \<Longrightarrow> prefix (filter p xs) (filter p ys)"
  by (auto simp: prefix_def)

lemma actions_le_lists:
  assumes "actions_le d d'"
  shows "prefix (decs a d) (decs a d')" "prefix (revs a d) (revs a d')"
  using assms by (simp_all add: actions_le_def decs_def revs_def prefix_filter)

lemma select_one_prefix: "prefix xs ys \<Longrightarrow> select_one p xs = Some x \<Longrightarrow> select_one p ys = Some x"
  by (auto simp: prefix_def select_one_append)

lemma get_card_later:
  assumes "actions_le d d'" and "actions_ok d'" and "get_card ws aid b d = Some c"
  shows "\<exists>c'. get_card ws aid b d' = Some c' \<and> same_card (ca_row c) (ca_row c')"
proof -
  note card = get_cardD [OF assms(3)]
  obtain us where us: "prefix us (db_cards d')" "list_all2 same_card (db_cards d) us"
    using assms(1) by (auto simp: actions_le_def)
  obtain i where i: "i < length (db_cards d)" "db_cards d ! i = ca_row c" using card(1) by (auto simp: in_set_conv_nth)
  have same: "same_card (ca_row c) (us ! i)" using us(2) i by (auto simp: list_all2_conv_all_nth)
  have "us ! i \<in> set (db_cards d')" using us i by (auto simp: prefix_def list_all2_lengthD dest: list_all2_lengthD)
  moreover have "distinct (map cr_id (db_cards d'))" using assms(2) by (simp add: actions_ok_def)
  ultimately have "select_one (\<lambda>r. cr_workspace r = ws \<and> cr_id r = aid) (db_cards d') = Some (us ! i)"
    using same card(2,3) by (intro select_one_unique [where k = cr_id]) (auto simp: same_card_def)
  then show ?thesis using same by (simp add: get_card_def children_def)
qed

lemma index_of_append: "index_of p (xs @ ys) = (case index_of p xs of Some i \<Rightarrow> Some i
    | None \<Rightarrow> map_option ((+) (length xs)) (index_of p ys))"
proof (induction xs)
  case Nil
  show ?case by (cases "index_of p ys") simp_all
next
  case (Cons x xs)
  then show ?case by (cases "index_of p ys") (auto split: option.split)
qed

lemma index_of_SomeD: "index_of p xs = Some i \<Longrightarrow> i < length xs \<and> p (xs ! i)"
  by (induction xs arbitrary: i) (auto split: if_splits)

lemma adjusts_take_le: "adjusts (map dr_command (take n ls)) \<le> adjusts (map dr_command ls)"
proof -
  have "length (filter p (take n ls)) \<le> length (filter p ls)" for p
    by (metis append_take_drop_id filter_append le_add1 length_append)
  then show ?thesis by (simp add: adjusts_def filter_map o_def)
qed

lemma filter_numbers:
  assumes "map f xs = upto_int (length xs)" and "m \<le> int (length xs)" and "xs = ys @ zs" and "m \<le> int (length ys)"
  shows "filter (\<lambda>x. f x \<le> m) xs = filter (\<lambda>x. f x \<le> m) ys"
proof -
  have "f z > int (length ys)" if "z \<in> set zs" for z
  proof -
    from that obtain j where j: "j < length zs" "zs ! j = z" by (auto simp: in_set_conv_nth)
    have "map f xs ! (length ys + j) = int (length ys + j) + 1"
      unfolding assms(1) upto_int_def using j by (simp add: assms(3) del: upt_Suc)
    then show ?thesis using j by (simp add: assms(3) nth_append)
  qed
  then have "filter (\<lambda>x. f x \<le> m) zs = []" using assms(4) by (fastforce simp: filter_empty_conv)
  then show ?thesis using assms(3) by simp
qed

text \<open>A response never changes once its decision is in the log.\<close>

lemma response_stable:
  assumes ok: "actions_ok d" "actions_ok d'" and le: "actions_le d d'"
    and c: "get_card ws aid None d = Some c" and resp: "decision_response c did = Inr r"
  shows "\<exists>c'. get_card ws aid None d' = Some c' \<and> decision_response c' did = Inr r"
proof -
  obtain c' where c': "get_card ws aid None d' = Some c'" and same: "same_card (ca_row c) (ca_row c')"
    using get_card_later [OF le ok(2) c] by blast
  note card = get_cardD [OF c] and card' = get_cardD [OF c']
  have inv: "card_inv d (ca_row c)" "card_inv d' (ca_row c')" using ok card(1) card'(1) by (auto simp: actions_ok_def)
  have ls: "ca_decisions c = decs aid d" "ca_revisions c = revs aid d"
    and ls': "ca_decisions c' = decs aid d'" "ca_revisions c' = revs aid d'"
    using children_ordered [OF inv(1), of None] children_ordered [OF inv(2), of None] card(2,4) card'(2,4) by metis+
  obtain xs where xs: "decs aid d' = decs aid d @ xs" using actions_le_lists(1) [OF le] by (auto simp: prefix_def)
  obtain vs where vs: "revs aid d' = revs aid d @ vs" using actions_le_lists(2) [OF le] by (auto simp: prefix_def)
  obtain i where i: "index_of (\<lambda>x. dr_id x = did) (decs aid d) = Some i"
    using resp by (auto simp: decision_response_def ls split: option.splits)
  then have i': "index_of (\<lambda>x. dr_id x = did) (decs aid d @ xs) = Some i" by (simp add: index_of_append)
  have len: "i < length (decs aid d)" using index_of_SomeD [OF i] by simp
  have "dr_revision (decs aid d ! i) = 1 + adjusts (map dr_command (take (Suc i) (decs aid d)))"
    and "int (length (revs aid d)) = 1 + adjusts (map dr_command (decs aid d))"
    using inv(1) len card(2) by (auto simp: card_inv_def log_inv_def Let_def)
  then have bound: "dr_revision (decs aid d ! i) \<le> int (length (revs aid d))"
    using adjusts_take_le [of "Suc i" "decs aid d"] by simp
  have "map rv_number (revs aid d') = upto_int (length (revs aid d'))"
    using inv(2) card'(2) by (auto simp: card_inv_def Let_def)
  then have "filter (\<lambda>x. rv_number x \<le> dr_revision (decs aid d ! i)) (revs aid d')
      = filter (\<lambda>x. rv_number x \<le> dr_revision (decs aid d ! i)) (revs aid d)"
    by (rule filter_numbers [OF _ _ vs]) (use bound vs in auto)
  moreover have "(ca_row c')\<lparr>cr_status := a, cr_current_revision := b, cr_updated_at := e, cr_terminal_at := f\<rparr>
      = (ca_row c)\<lparr>cr_status := a, cr_current_revision := b, cr_updated_at := e, cr_terminal_at := f\<rparr>" for a b e f
    by (rule same_card_eq) (use same in \<open>simp_all add: same_card_def\<close>)
  ultimately have "decision_response c' did = decision_response c did"
    using len by (simp add: decision_response_def ls ls' i i' xs nth_append Let_def)
  then show ?thesis using c' resp by auto
qed

end
