(* ===== verification/CardHistory.thy ===== *)
theory CardHistory
  imports Actions
begin

text \<open>
  What the history of an action card promises: a request with an idempotency key takes effect
  once and keeps its answer (the interpretations of \<open>replaying\<close>), the card is the replay of its
  log of decisions, a verdict closes the card, and outcomes rest on the facts of the approved
  revision.
\<close>

text \<open>A handler returns what its transaction returned, or what the authority says.\<close>

lemma handled:
  assumes "with_authority p (read_back env aid (run_uow flt body d)) auth = (Returned a, d')"
  shows "body d = Inr (Some a, d') \<or> body d = Inr (None, d') \<and> get_card (ae_workspace env) aid None d' = Some a
    \<or> auth d' = Inr (Some a)"
proof (cases "body d")
  case (Inl e)
  then show ?thesis using assms by (auto simp: with_authority_def read_back_def run_uow_def split: if_splits sum.splits option.splits)
next
  case (Inr r)
  then obtain y u where "body d = Inr (y, u)" by (cases r) auto
  then show ?thesis using assms
    by (cases flt; cases y)
      (auto simp: with_authority_def read_back_def run_uow_def split: if_splits sum.splits option.splits)
qed

section \<open>Answers of decisions\<close>

type_synonym decision_request = "uuid \<times> int \<times> action_command \<times> string \<times> action_adjustment option \<times> string"

fun decision_request :: "action_env \<Rightarrow> decision_request \<Rightarrow> time \<times> fault \<Rightarrow> db \<Rightarrow> (action_error, action_card) outcome \<times> db" where
  "decision_request env (aid, rn, cmd, reason, adj, key) (now, flt) d =
     (if well_formed_decision cmd adj then decide env aid rn cmd reason adj key now flt d
      else (Raised (ActionInvalid ''adjustment_empty''), d))"

fun decision_answer :: "action_env \<Rightarrow> decision_request \<Rightarrow> db \<Rightarrow> action_card option" where
  "decision_answer env (aid, rn, cmd, reason, adj, key) d =
     (if \<not> well_formed_decision cmd adj then None else
      case decision_checks env rn reason adj key of
        Inl _ \<Rightarrow> None
      | Inr kh \<Rightarrow> (case decision_authority env aid kh (ae_digest env (DecisionRequest aid rn cmd reason adj)) d of
                    Inr (Some c) \<Rightarrow> Some c | _ \<Rightarrow> None))"

lemma decision_authority_Some:
  "decision_authority env aid kh rh d = Inr (Some r) \<longleftrightarrow>
     (\<exists>x c. find_decision aid kh d = Some x \<and> get_card (ae_workspace env) aid None d = Some c
        \<and> dr_request_hash x = rh \<and> decision_response c (dr_id x) = Inr r)"
  by (auto simp: decision_authority_def ebind_eq_Inr split: option.splits)

text \<open>With its decision in the log a request is a replay.\<close>

lemma decision_body_answer:
  assumes "decision_authority env aid kh rh d = Inr (Some r)"
  shows "decision_body env aid rn cmd reason adj kh rh now d = Inr (Some r, d)"
  using assms by (auto simp: decision_authority_Some decision_body_def)

lemma index_of_snoc: "\<forall>y \<in> set xs. \<not> p y \<Longrightarrow> p x \<Longrightarrow> index_of p (xs @ [x]) = Some (length xs)"
  by (induction xs) auto

lemma numbers_bound:
  assumes "map f xs = upto_int (length xs)" and "x \<in> set xs"
  shows "f x \<le> int (length xs)"
proof -
  have "f x \<in> set (upto_int (length xs))" using imageI [OF assms(2), of f] by (simp flip: assms(1))
  then show ?thesis by (auto simp: upto_int_def)
qed

lemma card_row_same:
  "cr_status r = a \<Longrightarrow> cr_current_revision r = b \<Longrightarrow> cr_updated_at r = e \<Longrightarrow> cr_terminal_at r = f
   \<Longrightarrow> r\<lparr>cr_status := a, cr_current_revision := b, cr_updated_at := e, cr_terminal_at := f\<rparr> = r"
  by (cases r) simp

text \<open>The last decision of a card gives its status and its revision.\<close>

lemma last_decision:
  assumes ok: "actions_ok d" and c: "get_card ws aid None d = Some c" and ls: "decs aid d = ls @ [x]"
  shows "cr_status (ca_row c) = decision_status (dr_command x)" "cr_current_revision (ca_row c) = dr_revision x"
proof -
  note card = get_cardD [OF c]
  have inv: "card_inv d (ca_row c)" using ok card(1) by (auto simp: actions_ok_def)
  have "runs New (map dr_command ls @ [dr_command x]) (cr_status (ca_row c))"
    using inv by (simp add: card_inv_def Let_def card(2) ls)
  then show "cr_status (ca_row c) = decision_status (dr_command x)" by (rule runs_snocE) (rule moves_target)
  show "cr_current_revision (ca_row c) = dr_revision x"
    using inv by (auto simp: card_inv_def Let_def card(2) ls log_inv_def nth_append)
qed

text \<open>The response to the last decision of a card is the card.\<close>

lemma last_response:
  assumes ok: "actions_ok d" and c: "get_card ws aid None d = Some c"
    and ls: "decs aid d = ls @ [x]" and none: "outs aid d = []" "exps aid d = []"
  shows "decision_response c (dr_id x) = Inr c"
proof -
  note card = get_cardD [OF c]
  have inv: "card_inv d (ca_row c)" using ok card(1) by (auto simp: actions_ok_def)
  note parts = children_ordered [OF inv, of None, folded card(4), unfolded card(2)]
  have ex: "ca_exports c = []" "ca_outcomes c = []"
    using none by (subst card(4), simp add: children_def outs_def exps_def card(2) filter_empty_conv before_def)+
  have "distinct (map dr_id (decs aid d))" using ok by (auto simp: actions_ok_def decs_def distinct_map_filter)
  then have idx: "index_of (\<lambda>y. dr_id y = dr_id x) (ls @ [x]) = Some (length ls)"
    by (intro index_of_snoc) (auto simp: ls image_iff)
  note st = last_decision(1) [OF ok c ls] and rev = last_decision(2) [OF ok c ls]
  have "rv_number y \<le> dr_revision x" if "y \<in> set (revs aid d)" for y
    using numbers_bound [OF _ that] inv rev card(2) by (auto simp: card_inv_def Let_def)
  then have "filter (\<lambda>y. rv_number y \<le> dr_revision x) (revs aid d) = revs aid d" by simp
  moreover have "cr_updated_at (ca_row c) = dr_created_at x"
    "cr_terminal_at (ca_row c) = (if cr_status (ca_row c) \<in> {Approved, Dismissed} then Some (dr_created_at x) else None)"
    using inv by (simp_all add: card_inv_def Let_def times_inv_def card(2) ls terminal_def)
  ultimately have "decision_response c (dr_id x) = Inr \<lparr>ca_row = ca_row c, ca_revisions = ca_revisions c,
      ca_decisions = ca_decisions c, ca_exports = ca_exports c, ca_outcomes = ca_outcomes c\<rparr>"
    using idx parts ls ex by (simp add: decision_response_def card_row_same st [symmetric] rev Let_def)
  then show ?thesis by simp
qed

lemma fresh_decision:
  assumes "decision_body env aid rn cmd reason adj kh rh now d = Inr (None, d')"
  shows "\<exists>c nxt x nr. get_card (ae_workspace env) aid None d = Some c \<and> cr_current_revision (ca_row c) = rn
    \<and> moves (cr_status (ca_row c)) cmd nxt \<and> find_decision aid kh d = None
    \<and> dr_action x = aid \<and> dr_key_hash x = kh \<and> dr_request_hash x = rh \<and> dr_command x = cmd
    \<and> dr_revision x = rn + (if adj = None then 0 else 1) \<and> d' = decided aid rn nxt x nr d"
proof -
  from decision_bodyD [OF assms] obtain c nxt x where
    1: "get_card (ae_workspace env) aid None d = Some c" "cr_current_revision (ca_row c) = rn"
      "moves (cr_status (ca_row c)) cmd nxt" "find_decision aid kh d = None" and
    x: "x = \<lparr>dr_id = ae_uuid5 env (''decision:'' @ aid @ '':'' @ kh), dr_action = aid,
             dr_revision = rn + (if adj = None then 0 else 1),
             dr_ordinal = int (length (ca_decisions c)) + 1, dr_command = cmd, dr_reason = reason,
             dr_key_hash = kh, dr_request_hash = rh, dr_created_at = now\<rparr>" and
    d': "d' = decided aid rn nxt x (map_option (\<lambda>a. (adjusted_revision env aid (last (ca_revisions c)) a now)
            \<lparr>rv_number := rn + 1\<rparr>) adj) d"
    by blast
  have "dr_action x = aid \<and> dr_key_hash x = kh \<and> dr_request_hash x = rh \<and> dr_command x = cmd
    \<and> dr_revision x = rn + (if adj = None then 0 else 1)" by (simp add: x)
  then show ?thesis using 1 d' by blast
qed

lemma decision_answer_fresh:
  assumes ok: "actions_ok d" and wf: "well_formed_decision cmd adj"
    and body: "decision_body env aid rn cmd reason adj kh rh now d = Inr (None, d')" and ok': "actions_ok d'"
  shows "\<exists>c. get_card (ae_workspace env) aid None d' = Some c \<and> decision_authority env aid kh rh d' = Inr (Some c)"
proof -
  obtain c nxt x nr where c: "get_card (ae_workspace env) aid None d = Some c"
    and mv: "moves (cr_status (ca_row c)) cmd nxt" and fresh: "find_decision aid kh d = None"
    and x: "dr_action x = aid" "dr_key_hash x = kh" "dr_request_hash x = rh" and d': "d' = decided aid rn nxt x nr d"
    using fresh_decision [OF body] by blast
  note card = get_cardD [OF c]
  have inv: "card_inv d (ca_row c)" using ok card(1) by (auto simp: actions_ok_def)
  have "is_decision cmd" using wf by (auto simp: well_formed_decision_def is_decision_def split: option.splits)
  then have "cr_status (ca_row c) \<noteq> Approved" using mv by (auto simp: is_decision_def)
  then have none: "outs aid d' = []" "exps aid d' = []" using inv by (auto simp: d' card_inv_def Let_def card(2))
  have ls: "decs aid d' = decs aid d @ [x]" using x(1) by (simp add: d')
  have "actions_le d d'" by (simp add: d' decided_le)
  then obtain c' where c': "get_card (ae_workspace env) aid None d' = Some c'" using get_card_later ok' c by blast
  have "find_decision aid kh d' = Some x"
    using fresh x by (simp add: d' decided_def find_decision_def select_one_append select_one_single)
  then show ?thesis using c' x(3) last_response [OF ok' c' ls none] by (auto simp: decision_authority_Some)
qed

lemma decision_request_answer:
  assumes ok: "actions_ok d" and req: "decision_request env q k d = (Returned a, d')"
  shows "decision_answer env q d' = Some a"
proof -
  obtain aid rn cmd reason adj key where q: "q = (aid, rn, cmd, reason, adj, key)" by (cases q) auto
  obtain now flt where k: "k = (now, flt)" by (cases k)
  let ?rh = "ae_digest env (DecisionRequest aid rn cmd reason adj)"
  have wf: "well_formed_decision cmd adj" and dec: "decide env aid rn cmd reason adj key now flt d = (Returned a, d')"
    using req by (auto simp: q k split: if_splits)
  from dec obtain kh where kh: "decision_checks env rn reason adj key = Inr kh"
    by (auto simp: decide_def split: sum.splits)
  let ?u = "run_uow flt (decision_body env aid rn cmd reason adj kh ?rh now) d"
  have w: "with_authority passes_decision (read_back env aid ?u) (decision_authority env aid kh ?rh) = (Returned a, d')"
    using dec by (simp add: decide_def kh Let_def)
  have ok': "actions_ok d'" using decide_ok [OF _ wf, of d env aid rn reason key now flt] ok dec by simp
  from handled [OF w] have "decision_authority env aid kh ?rh d' = Inr (Some a)"
  proof (elim disjE conjE)
    assume "decision_body env aid rn cmd reason adj kh ?rh now d = Inr (Some a, d')"
    then show ?thesis
      by (auto simp: decision_body_def decision_authority_Some ebind_eq_Inr split: option.splits if_splits)
  next
    assume body: "decision_body env aid rn cmd reason adj kh ?rh now d = Inr (None, d')"
      and a: "get_card (ae_workspace env) aid None d' = Some a"
    show ?thesis using decision_answer_fresh [OF ok wf body ok'] a by auto
  qed
  then show ?thesis using wf kh by (simp add: q)
qed

lemma decision_answer_below:
  assumes "actions_ok d" and "actions_ok d'" and le: "actions_le d d'" and ans: "decision_answer env q d = Some a"
  shows "decision_answer env q d' = Some a"
proof -
  obtain aid rn cmd reason adj key where q: "q = (aid, rn, cmd, reason, adj, key)" by (cases q) auto
  let ?rh = "ae_digest env (DecisionRequest aid rn cmd reason adj)"
  obtain kh where kh: "decision_checks env rn reason adj key = Inr kh" and wf: "well_formed_decision cmd adj"
    and auth: "decision_authority env aid kh ?rh d = Inr (Some a)"
    using ans by (auto simp: q split: sum.splits option.splits if_splits)
  then obtain x c where x: "find_decision aid kh d = Some x" "dr_request_hash x = ?rh"
    and c: "get_card (ae_workspace env) aid None d = Some c" "decision_response c (dr_id x) = Inr a"
    by (auto simp: decision_authority_Some)
  have "find_decision aid kh d' = Some x"
    using x(1) le by (auto simp: find_decision_def actions_le_def intro: select_one_prefix)
  then have "decision_authority env aid kh ?rh d' = Inr (Some a)"
    using response_stable [OF assms(1-3) c] x(2) by (auto simp: decision_authority_Some)
  then show ?thesis using kh wf by (simp add: q)
qed

lemma decision_answer_request:
  assumes "decision_answer env q d = Some a"
  shows "decision_request env q k d = (Returned a, d)"
proof -
  obtain aid rn cmd reason adj key where q: "q = (aid, rn, cmd, reason, adj, key)" by (cases q) auto
  obtain now flt where k: "k = (now, flt)" by (cases k)
  let ?rh = "ae_digest env (DecisionRequest aid rn cmd reason adj)"
  obtain kh where kh: "decision_checks env rn reason adj key = Inr kh" and wf: "well_formed_decision cmd adj"
    and auth: "decision_authority env aid kh ?rh d = Inr (Some a)"
    using assms by (auto simp: q split: sum.splits option.splits if_splits)
  show ?thesis using wf auth decision_body_answer [OF auth]
    by (auto simp: q k decide_def kh run_uow_def with_authority_def read_back_def Let_def split: fault.split)
qed

lemma decision_request_ok: "actions_ok d \<Longrightarrow> actions_ok (snd (decision_request env q k d))"
  by (cases "(env, q, k, d)" rule: decision_request.cases) (auto simp: decide_ok)

interpretation decisions: replaying "action_step env" actions_ok actions_le "decision_request env" "decision_answer env" for env
  by unfold_locales (auto intro: decision_request_ok decision_request_answer decision_answer_below decision_answer_request)

section \<open>Answers of drafts\<close>

type_synonym draft_request = "action_source \<times> fact_ref list \<times> string"

fun draft_request :: "action_env \<Rightarrow> draft_request \<Rightarrow> time \<times> fault \<Rightarrow> db \<Rightarrow> (action_error, action_card) outcome \<times> db" where
  "draft_request env (s, fs, key) (now, flt) d = create_draft env s fs key now flt d"

fun draft_answer :: "action_env \<Rightarrow> draft_request \<Rightarrow> db \<Rightarrow> action_card option" where
  "draft_answer env (s, fs, key) d =
     (case create_checks env s fs key of
        Inl _ \<Rightarrow> None
      | Inr kh \<Rightarrow> (case create_authority env kh (ae_digest env (CreateRequest s fs)) d of Inr (Some c) \<Rightarrow> Some c | _ \<Rightarrow> None))"

lemma create_authority_Some:
  "create_authority env kh rh d = Inr (Some c) \<longleftrightarrow>
     (\<exists>r b. find_create (ae_workspace env) kh d = Some r \<and> cr_request_hash r = rh
        \<and> get_card (ae_workspace env) (cr_id r) None d = Some b \<and> c = create_response b)"
  by (auto simp: create_authority_def split: option.splits)

lemma create_answer_fresh:
  assumes ok: "actions_ok d" and body: "create_body env s fs kh rh now d = Inr (None, d')"
  shows "\<exists>c. get_card (ae_workspace env) (create_id env kh) None d' = Some c \<and> create_authority env kh rh d' = Inr (Some c)"
proof -
  note fresh = create_bodyD(1) [OF body] and rows = create_rowsD [OF create_bodyD(3) [OF body]]
  define r where "r = new_card env (create_id env kh) s kh rh now"
  define v where "v = first_revision env (create_id env kh) s fs now"
  have r: "cr_id r = create_id env kh" "cr_workspace r = ae_workspace env" "cr_key_hash r = kh" "cr_request_hash r = rh"
      "cr_status r = New" "cr_current_revision r = 1" "cr_updated_at r = cr_created_at r" "cr_terminal_at r = None"
    and v: "rv_action v = create_id env kh" by (simp_all add: r_def v_def new_card_def first_revision_def)
  have d': "d' = d\<lparr>db_cards := db_cards d @ [r], db_revisions := db_revisions d @ [v]\<rparr>" using rows(1) by (simp add: r_def v_def)
  note none = owned_empty [OF _ rows(2), of d, unfolded decs_def revs_def outs_def exps_def]
  have own: "owned d (cr_id ` set (db_cards d))" using ok by (simp add: actions_ok_def)
  have kids: "children d' None r = \<lparr>ca_row = r, ca_revisions = [v], ca_decisions = [], ca_exports = [], ca_outcomes = []\<rparr>"
    using none [OF own] by (simp add: children_def d' r(1) v before_def)
  have "select_one (\<lambda>x. cr_workspace x = ae_workspace env \<and> cr_id x = create_id env kh) (db_cards d) = None"
    using rows(2) unfolding select_one_None_iff by (metis imageI)
  then have card: "get_card (ae_workspace env) (create_id env kh) None d' = Some (children d' None r)"
    by (simp add: get_card_def d' select_one_append select_one_single r)
  have "create_response (children d' None r) = children d' None r"
    by (simp add: create_response_def kids card_row_same r)
  moreover have "find_create (ae_workspace env) kh d' = Some r"
    using fresh by (simp add: find_create_def d' select_one_append select_one_single r)
  ultimately show ?thesis using card r by (auto simp: create_authority_Some)
qed

lemma draft_request_answer:
  assumes ok: "actions_ok d" and req: "draft_request env q k d = (Returned a, d')"
  shows "draft_answer env q d' = Some a"
proof -
  obtain s fs key where q: "q = (s, fs, key)" by (cases q) auto
  obtain now flt where k: "k = (now, flt)" by (cases k)
  let ?rh = "ae_digest env (CreateRequest s fs)"
  obtain kh where kh: "create_checks env s fs key = Inr kh" using req by (auto simp: q k create_draft_def split: sum.splits)
  have w: "with_authority passes_create (read_back env (create_id env kh) (run_uow flt (create_body env s fs kh ?rh now) d))
      (create_authority env kh ?rh) = (Returned a, d')"
    using req by (simp add: q k create_draft_def kh Let_def)
  from handled [OF w] have "create_authority env kh ?rh d' = Inr (Some a)"
  proof (elim disjE conjE)
    assume "create_body env s fs kh ?rh now d = Inr (Some a, d')"
    then show ?thesis by (auto simp: create_body_def ebind_eq_Inr split: option.splits)
  next
    assume body: "create_body env s fs kh ?rh now d = Inr (None, d')"
      and a: "get_card (ae_workspace env) (create_id env kh) None d' = Some a"
    show ?thesis using create_answer_fresh [OF ok body] a by auto
  qed
  then show ?thesis using kh by (simp add: q)
qed

lemma select_one_related:
  assumes "list_all2 R xs ys" and "\<And>x y. R x y \<Longrightarrow> p x \<longleftrightarrow> p y" and "select_one p xs = Some x"
  shows "\<exists>y. select_one p ys = Some y \<and> R x y"
  using assms(1,3) by (induction rule: list_all2_induct) (auto simp: select_one_def assms(2) split: if_splits)

lemma take_prefix: "prefix xs ys \<Longrightarrow> n \<le> length xs \<Longrightarrow> take n ys = take n xs"
  by (auto simp: prefix_def)

lemma draft_answer_below:
  assumes ok: "actions_ok d" "actions_ok d'" and le: "actions_le d d'" and ans: "draft_answer env q d = Some a"
  shows "draft_answer env q d' = Some a"
proof -
  obtain s fs key where q: "q = (s, fs, key)" by (cases q) auto
  let ?rh = "ae_digest env (CreateRequest s fs)" and ?ws = "ae_workspace env"
  obtain kh where kh: "create_checks env s fs key = Inr kh" and auth: "create_authority env kh ?rh d = Inr (Some a)"
    using ans by (auto simp: q split: sum.splits option.splits)
  then obtain r b where r: "find_create ?ws kh d = Some r" "cr_request_hash r = ?rh"
    and b: "get_card ?ws (cr_id r) None d = Some b" and a: "a = create_response b"
    by (auto simp: create_authority_Some)
  obtain us where us: "prefix us (db_cards d')" "list_all2 same_card (db_cards d) us" using le by (auto simp: actions_le_def)
  obtain r' where r': "select_one (\<lambda>r. cr_workspace r = ?ws \<and> cr_key_hash r = kh) us = Some r'" "same_card r r'"
    using select_one_related [OF us(2) _ r(1) [unfolded find_create_def]] by (auto simp: same_card_def)
  have find: "find_create ?ws kh d' = Some r'" using select_one_prefix [OF us(1) r'(1)] by (simp add: find_create_def)
  obtain b' where b': "get_card ?ws (cr_id r) None d' = Some b'" and same: "same_card (ca_row b) (ca_row b')"
    using get_card_later [OF le ok(2) b] by blast
  note card = get_cardD [OF b] and card' = get_cardD [OF b']
  have inv: "card_inv d (ca_row b)" "card_inv d' (ca_row b')" using ok card(1) card'(1) by (auto simp: actions_ok_def)
  have "ca_revisions b = revs (cr_id r) d" "ca_revisions b' = revs (cr_id r) d'"
    using children_ordered(1) [OF inv(1), of None] children_ordered(1) [OF inv(2), of None] card(2,4) card'(2,4) by metis+
  moreover have "1 \<le> length (revs (cr_id r) d)" using inv(1) card(2) by (simp add: card_inv_def Let_def adjusts_def)
  ultimately have "take 1 (ca_revisions b') = take 1 (ca_revisions b)"
    using take_prefix [OF actions_le_lists(2) [OF le]] by simp
  moreover have "(ca_row b')\<lparr>cr_status := New, cr_current_revision := 1, cr_updated_at := cr_created_at (ca_row b'), cr_terminal_at := None\<rparr>
      = (ca_row b)\<lparr>cr_status := New, cr_current_revision := 1, cr_updated_at := cr_created_at (ca_row b), cr_terminal_at := None\<rparr>"
    by (rule same_card_eq) (use same in \<open>simp_all add: same_card_def\<close>)
  ultimately have "create_response b' = create_response b" by (simp add: create_response_def)
  then have "create_authority env kh ?rh d' = Inr (Some a)"
    using find r(2) r'(2) b' a by (auto simp: create_authority_Some same_card_def)
  then show ?thesis using kh by (simp add: q)
qed

lemma draft_answer_request:
  assumes "draft_answer env q d = Some a"
  shows "draft_request env q k d = (Returned a, d)"
proof -
  obtain s fs key where q: "q = (s, fs, key)" by (cases q) auto
  obtain now flt where k: "k = (now, flt)" by (cases k)
  let ?rh = "ae_digest env (CreateRequest s fs)"
  obtain kh where kh: "create_checks env s fs key = Inr kh" and auth: "create_authority env kh ?rh d = Inr (Some a)"
    using assms by (auto simp: q split: sum.splits option.splits)
  then show ?thesis
    by (auto simp: q k create_draft_def create_body_def run_uow_def with_authority_def read_back_def Let_def split: fault.split)
qed

lemma draft_request_ok: "actions_ok d \<Longrightarrow> actions_ok (snd (draft_request env q k d))"
  by (cases "(env, q, k, d)" rule: draft_request.cases) (auto simp: create_draft_ok)

interpretation drafts: replaying "action_step env" actions_ok actions_le "draft_request env" "draft_answer env" for env
  by unfold_locales (auto intro: draft_request_ok draft_request_answer draft_answer_below draft_answer_request)

section \<open>Answers of outcomes\<close>

type_synonym outcome_request' = "uuid \<times> int \<times> outcome_request \<times> string"

fun outcome_op :: "action_env \<Rightarrow> outcome_request' \<Rightarrow> time \<times> fault \<Rightarrow> db \<Rightarrow> (action_error, outcome_row) outcome \<times> db" where
  "outcome_op env (aid, rn, q, key) (now, flt) d = record_outcome env aid rn q key now flt d"

definition outcome_hash :: "action_env \<Rightarrow> uuid \<Rightarrow> int \<Rightarrow> outcome_request \<Rightarrow> digest" where
  "outcome_hash env aid rn q = ae_digest env (OutcomeRequest aid rn (oq_review_date q) (oq_result q) (oq_evidence q)
     (oq_conclusion q) (oq_reason q))"

fun outcome_answer :: "action_env \<Rightarrow> outcome_request' \<Rightarrow> db \<Rightarrow> outcome_row option" where
  "outcome_answer env (aid, rn, q, key) d =
     (case outcome_checks env q key of
        Inl _ \<Rightarrow> None
      | Inr kh \<Rightarrow> (case find_outcome aid kh d of
           None \<Rightarrow> None
         | Some x \<Rightarrow> if or_request_hash x = outcome_hash env aid rn q \<and> get_card (ae_workspace env) aid None d \<noteq> None
                     then Some x else None))"

lemma outcome_answer_Some:
  "outcome_answer env (aid, rn, q, key) d = Some x \<longleftrightarrow>
     (\<exists>kh. outcome_checks env q key = Inr kh \<and> find_outcome aid kh d = Some x
        \<and> or_request_hash x = outcome_hash env aid rn q \<and> get_card (ae_workspace env) aid None d \<noteq> None)"
  by (auto split: sum.splits option.splits)

lemma get_card_present:
  "actions_le d d' \<Longrightarrow> actions_ok d' \<Longrightarrow> get_card ws aid None d \<noteq> None \<Longrightarrow> get_card ws aid None d' \<noteq> None"
  using get_card_later by fastforce

lemma outcome_found:
  assumes "outcome_body env aid rn q kh rh now d = Inr (x, d')"
  shows "find_outcome aid kh d' = Some x \<and> or_request_hash x = rh \<and> get_card (ae_workspace env) aid None d \<noteq> None \<and> actions_le d d'"
proof -
  have "get_card (ae_workspace env) aid None d \<noteq> None" using assms by (auto simp: outcome_body_def split: option.splits)
  then show ?thesis using outcome_bodyD [OF assms]
    by (auto simp: find_outcome_def select_one_append select_one_single actions_le_refl append_le)
qed

lemma outcome_op_ok: "actions_ok d \<Longrightarrow> actions_ok (snd (outcome_op env q k d))"
  by (cases "(env, q, k, d)" rule: outcome_op.cases) (auto simp: record_outcome_ok)

lemma outcome_op_answer:
  assumes ok: "actions_ok d" and req: "outcome_op env q k d = (Returned a, d')"
  shows "outcome_answer env q d' = Some a"
proof -
  obtain aid rn p key where q: "q = (aid, rn, p, key)" by (cases q) auto
  obtain now flt where k: "k = (now, flt)" by (cases k)
  let ?rh = "outcome_hash env aid rn p"
  obtain kh where kh: "outcome_checks env p key = Inr kh" using req by (auto simp: q k record_outcome_def split: sum.splits)
  let ?u = "run_uow flt (outcome_body env aid rn p kh ?rh now) d"
  have w: "with_authority passes_decision ?u (outcome_authority aid kh ?rh) = (Returned a, d')"
    using req by (simp add: q k record_outcome_def kh Let_def outcome_hash_def)
  have ok': "actions_ok d'" using outcome_op_ok [OF ok, of env q k] req by simp
  consider "outcome_body env aid rn p kh ?rh now d = Inr (a, d')"
    | e where "outcome_body env aid rn p kh ?rh now d = Inl e" "d' = d" "\<not> passes_decision e" "outcome_authority aid kh ?rh d = Inr (Some a)"
    | x u where "outcome_body env aid rn p kh ?rh now d = Inr (x, u)" "d' = d \<or> d' = u" "outcome_authority aid kh ?rh d' = Inr (Some a)"
    using w by (cases "outcome_body env aid rn p kh ?rh now d"; cases flt)
      (auto simp: with_authority_def run_uow_def split: if_splits sum.splits option.splits)
  then show ?thesis
  proof cases
    case 1
    then show ?thesis using outcome_found [OF 1] get_card_present ok' by (simp only: q outcome_answer_Some) (use kh in blast)
  next
    case 2
    then have "get_card (ae_workspace env) aid None d \<noteq> None"
      by (auto simp: outcome_body_def passes_decision_def split: option.splits)
    then show ?thesis unfolding q outcome_answer_Some
      using 2 kh by (auto simp: outcome_authority_def split: option.splits if_splits)
  next
    case 3
    have "get_card (ae_workspace env) aid None d' \<noteq> None"
      using outcome_found [OF 3(1)] 3(2) get_card_present ok' by blast
    then show ?thesis unfolding q outcome_answer_Some
      using 3 kh by (auto simp: outcome_authority_def split: option.splits if_splits)
  qed
qed

lemma outcome_answer_below:
  assumes "actions_ok d'" and le: "actions_le d d'" and "outcome_answer env q d = Some a"
  shows "outcome_answer env q d' = Some a"
proof -
  obtain aid rn p key where q: "q = (aid, rn, p, key)" by (cases q) auto
  show ?thesis using assms get_card_present [OF le] unfolding q outcome_answer_Some
    by (auto simp: find_outcome_def actions_le_def intro: select_one_prefix)
qed

lemma outcome_answer_op:
  assumes "outcome_answer env q d = Some a"
  shows "outcome_op env q k d = (Returned a, d)"
proof -
  obtain aid rn p key where q: "q = (aid, rn, p, key)" by (cases q) auto
  obtain now flt where k: "k = (now, flt)" by (cases k)
  obtain kh where kh: "outcome_checks env p key = Inr kh" and x: "find_outcome aid kh d = Some a"
    "or_request_hash a = outcome_hash env aid rn p" and c: "get_card (ae_workspace env) aid None d \<noteq> None"
    using assms unfolding q outcome_answer_Some by blast
  then obtain c where c: "get_card (ae_workspace env) aid None d = Some c" by auto
  have auth: "outcome_authority aid kh (outcome_hash env aid rn p) d = Inr (Some a)" using x by (simp add: outcome_authority_def)
  then have "outcome_body env aid rn p kh (outcome_hash env aid rn p) now d = Inr (a, d)" by (simp add: outcome_body_def c)
  then show ?thesis using auth
    by (cases flt) (simp_all add: q k record_outcome_def kh Let_def run_uow_def with_authority_def flip: outcome_hash_def)
qed

interpretation outcomes: replaying "action_step env" actions_ok actions_le "outcome_op env" "outcome_answer env" for env
  by unfold_locales (auto intro: outcome_op_ok outcome_op_answer outcome_answer_below outcome_answer_op)

section \<open>Answers of exports\<close>

type_synonym export_request = "uuid \<times> int \<times> string"

text \<open>What the workbook and the store make of it is part of the circumstances of an export.\<close>

fun export_op :: "action_env \<Rightarrow> export_request \<Rightarrow> (action_error + (uuid \<times> digest)) \<times> time \<times> fault \<Rightarrow> db
    \<Rightarrow> (action_error, export_row) outcome \<times> db" where
  "export_op env (aid, rn, key) (stored, now, flt) d = export_action env aid rn ''xlsx'' key stored now flt d"

fun export_answer :: "action_env \<Rightarrow> export_request \<Rightarrow> db \<Rightarrow> export_row option" where
  "export_answer env (aid, rn, key) d =
     (case key_hash env key of
        Inl _ \<Rightarrow> None
      | Inr kh \<Rightarrow> (case find_export aid kh d of
           None \<Rightarrow> None
         | Some x \<Rightarrow> if er_request_hash x = ae_digest env (ExportRequest aid rn ''xlsx'') then Some x else None))"

lemma export_op_ok: "actions_ok d \<Longrightarrow> actions_ok (snd (export_op env q k d))"
  by (cases "(env, q, k, d)" rule: export_op.cases) (auto simp: export_action_ok)

lemma export_op_answer:
  assumes req: "export_op env q k d = (Returned a, d')"
  shows "export_answer env q d' = Some a"
proof -
  obtain aid rn key where q: "q = (aid, rn, key)" by (cases q) auto
  obtain stored now flt where k: "k = (stored, now, flt)" by (cases k) auto
  let ?rh = "ae_digest env (ExportRequest aid rn ''xlsx'')"
  obtain kh where kh: "key_hash env key = Inr kh" using req by (auto simp: q k export_action_def split: sum.splits)
  obtain r where r: "export_check env aid rn kh ?rh d = Inr r"
    using req by (auto simp: q k export_action_def kh Let_def split: sum.splits)
  show ?thesis
  proof (cases r)
    case (Some x)
    then have "find_export aid kh d = Some x" "er_request_hash x = ?rh"
      using r by (auto simp: export_check_def ebind_eq_Inr split: option.splits if_splits)
    then show ?thesis using req r Some by (simp add: q k export_action_def kh Let_def)
  next
    case None
    then have fresh: "find_export aid kh d = None" using r by (auto simp: export_check_def split: option.splits if_splits)
    have found: "find_export aid kh u = Some x \<and> er_request_hash x = ?rh"
      if "export_body env aid rn stored kh ?rh now d = Inr (x, u)" for x u
      using that fresh
      by (auto simp: export_body_def ebind_eq_Inr Let_def insert_export_def find_export_def select_one_append
          select_one_single new_export_def split: if_splits)
    have "with_authority (\<lambda>_. False) (run_uow flt (export_body env aid rn stored kh ?rh now) d)
        (export_authority env aid rn kh) = (Returned a, d')"
      using req r None by (simp add: q k export_action_def kh Let_def)
    then have "find_export aid kh d' = Some a \<and> er_request_hash a = ?rh"
      using found fresh
      by (cases flt) (auto simp: with_authority_def run_uow_def export_authority_def
          split: if_splits sum.splits option.splits prod.splits outcome.splits)
    then show ?thesis by (simp add: q kh)
  qed
qed

lemma export_answer_below:
  assumes "actions_le d d'" and "export_answer env q d = Some a"
  shows "export_answer env q d' = Some a"
proof -
  obtain aid rn key where q: "q = (aid, rn, key)" by (cases q) auto
  obtain kh where kh: "key_hash env key = Inr kh" and x: "find_export aid kh d = Some a"
    "er_request_hash a = ae_digest env (ExportRequest aid rn ''xlsx'')"
    using assms(2) by (auto simp: q split: sum.splits option.splits if_splits)
  have "find_export aid kh d' = Some a"
    using x(1) assms(1) by (auto simp: find_export_def actions_le_def intro: select_one_prefix)
  then show ?thesis using kh x(2) by (simp add: q)
qed

lemma export_answer_op:
  assumes "export_answer env q d = Some a"
  shows "export_op env q k d = (Returned a, d)"
proof -
  obtain aid rn key where q: "q = (aid, rn, key)" by (cases q) auto
  obtain stored now flt where k: "k = (stored, now, flt)" by (cases k) auto
  show ?thesis using assms
    by (auto simp: q k export_action_def export_check_def Let_def ebind_def ensure_def split: sum.splits option.splits if_splits)
qed

interpretation exports: replaying "action_step env" actions_ok actions_le "export_op env" "export_answer env" for env
  by unfold_locales (auto intro: export_op_ok export_op_answer export_answer_below export_answer_op)

section \<open>What a viewer sees is fixed when the session starts\<close>

definition shown :: "string \<Rightarrow> uuid \<Rightarrow> time \<Rightarrow> card_row \<Rightarrow> bool" where
  "shown ws version t r \<longleftrightarrow> cr_workspace r = ws \<and> cr_dataset_version r = version \<and> cr_status r = Approved
     \<and> (case cr_terminal_at r of None \<Rightarrow> False | Some x \<Rightarrow> x < t)"

lemma shown_same:
  assumes "filter (shown ws v t) (db_cards d') = filter (shown ws v t) (db_cards d)"
    and "\<And>r. r \<in> set (db_cards d) \<Longrightarrow> shown ws v t r \<Longrightarrow> children d' (Some t) r = children d (Some t) r"
  shows "list_public_for_session ws v t d' = list_public_for_session ws v t d"
  using assms by (auto simp: list_public_for_session_def shown_def [abs_def])

lemma filter_map_same: "\<forall>x \<in> set xs. f x = x \<or> \<not> p x \<and> \<not> p (f x) \<Longrightarrow> filter p (map f xs) = filter p xs"
  by (induction xs) auto

lemma children_same:
  assumes "\<And>x. rv_action x = cr_id r \<Longrightarrow> x \<notin> set vs" and "\<And>x. dr_action x = cr_id r \<Longrightarrow> x \<notin> set xs"
    and "\<And>x. er_action x = cr_id r \<Longrightarrow> before b (er_created_at x) \<Longrightarrow> x \<notin> set es"
    and "\<And>x. or_action x = cr_id r \<Longrightarrow> before b (or_created_at x) \<Longrightarrow> x \<notin> set os"
    and "db_revisions d' = db_revisions d @ vs" "db_decisions d' = db_decisions d @ xs"
      "db_exports d' = db_exports d @ es" "db_outcomes d' = db_outcomes d @ os"
  shows "children d' b r = children d b r"
proof -
  have "filter (\<lambda>x. rv_action x = cr_id r) vs = []" "filter (\<lambda>x. dr_action x = cr_id r) xs = []"
    "filter (\<lambda>x. er_action x = cr_id r \<and> before b (er_created_at x)) es = []"
    "filter (\<lambda>x. or_action x = cr_id r \<and> before b (or_created_at x)) os = []"
    using assms(1-4) by (auto simp: filter_empty_conv)
  then show ?thesis using assms(5-8) by (simp add: children_def)
qed

lemma decided_shown:
  assumes ok: "actions_ok d" and r: "r \<in> set (db_cards d)" "cr_id r = aid" and step: "cr_status r \<noteq> Approved"
    and x: "dr_action x = aid" "t \<le> dr_created_at x" and nr: "\<And>y. nr = Some y \<Longrightarrow> rv_action y = aid"
  shows "list_public_for_session ws v t (decided aid rn nxt x nr d) = list_public_for_session ws v t d"
proof (rule shown_same)
  have uniq: "s = r" if "s \<in> set (db_cards d)" "cr_id s = aid" for s
    using that r ok by (auto simp: actions_ok_def distinct_map dest: inj_onD)
  have "move_card aid rn n nxt c s = s \<or> \<not> shown ws v t s \<and> \<not> shown ws v t (move_card aid rn n nxt c s)"
    if "s \<in> set (db_cards d)" "t \<le> c" for s n c
    using uniq [OF that(1)] that(2) step by (auto simp: move_card_def shown_def)
  then show "filter (shown ws v t) (db_cards (decided aid rn nxt x nr d)) = filter (shown ws v t) (db_cards d)"
    using x(2) by (simp only: decided_simps) (intro filter_map_same, blast)
  fix s assume s: "s \<in> set (db_cards d)" "shown ws v t s"
  then have "cr_id s \<noteq> aid" using uniq step by (auto simp: shown_def)
  then show "children (decided aid rn nxt x nr d) (Some t) s = children d (Some t) s"
    using x(1) nr by (intro children_same [where vs = "case nr of None \<Rightarrow> [] | Some y \<Rightarrow> [y]" and xs = "[x]" and es = "[]" and os = "[]"])
      (auto simp: decided_def split: option.splits)
qed

lemma action_step_shown:
  assumes ok: "actions_ok d" and late: "t \<le> fst e"
  shows "list_public_for_session ws v t (action_step env e d) = list_public_for_session ws v t d"
proof (cases "(env, e, d)" rule: action_step.cases)
  case (1 env' now flt s fs key d')
  let ?d = "snd (create_draft env s fs key now flt d)"
  have "list_public_for_session ws v t ?d = list_public_for_session ws v t d"
    if body: "create_body env s fs kh (ae_digest env (CreateRequest s fs)) now d = Inr (None, ?d)" for kh
  proof (rule shown_same)
    note rows = create_rowsD [OF create_bodyD(3) [OF body]]
    show "filter (shown ws v t) (db_cards ?d) = filter (shown ws v t) (db_cards d)"
      by (subst rows(1)) (simp add: shown_def new_card_def)
    fix r assume "r \<in> set (db_cards d)"
    then have "cr_id r \<noteq> create_id env kh" using rows(2) by (metis imageI)
    then show "children ?d (Some t) r = children d (Some t) r" unfolding rows(1)
      by (intro children_same [where vs = "[first_revision env (create_id env kh) s fs now]" and xs = "[]" and es = "[]" and os = "[]"])
        (auto simp: first_revision_def)
  qed
  then show ?thesis using create_draft_db [of env s fs key now flt d] 1 by auto
next
  case (2 env' now flt aid rn cmd reason adj key d')
  let ?d = "snd (decide env aid rn cmd reason adj key now flt d)"
  have "list_public_for_session ws v t ?d = list_public_for_session ws v t d"
    if wf: "well_formed_decision cmd adj"
      and body: "decision_body env aid rn cmd reason adj kh (ae_digest env (DecisionRequest aid rn cmd reason adj)) now d = Inr (None, ?d)" for kh
  proof -
    from decision_bodyD [OF body] obtain c nxt x where c: "get_card (ae_workspace env) aid None d = Some c"
      and mv: "moves (cr_status (ca_row c)) cmd nxt"
      and x: "x = \<lparr>dr_id = ae_uuid5 env (''decision:'' @ aid @ '':'' @ kh), dr_action = aid,
             dr_revision = rn + (if adj = None then 0 else 1),
             dr_ordinal = int (length (ca_decisions c)) + 1, dr_command = cmd, dr_reason = reason,
             dr_key_hash = kh, dr_request_hash = ae_digest env (DecisionRequest aid rn cmd reason adj), dr_created_at = now\<rparr>"
      and d': "?d = decided aid rn nxt x (map_option (\<lambda>a. (adjusted_revision env aid (last (ca_revisions c)) a now)
            \<lparr>rv_number := rn + 1\<rparr>) adj) d"
      by blast
    have "cr_status (ca_row c) \<noteq> Approved"
      using mv wf by (auto simp: well_formed_decision_def split: option.splits)
    then show ?thesis unfolding d'
      by (intro decided_shown [OF ok get_cardD(1,2) [OF c]]) (use late 2 in \<open>auto simp: x adjusted_revision_def\<close>)
  qed
  then show ?thesis using decide_db [of env aid rn cmd reason adj key now flt d] 2 by auto
next
  case (3 env' now flt aid rn q key d')
  let ?d = "snd (record_outcome env aid rn q key now flt d)"
  have "list_public_for_session ws v t ?d = list_public_for_session ws v t d"
    if body: "outcome_body env aid rn q kh rh now d = Inr (x, ?d)" for kh rh x
    using outcome_bodyD [OF body]
  proof (elim disjE exE conjE)
    assume x: "or_created_at x = now" and d': "?d = d\<lparr>db_outcomes := db_outcomes d @ [x]\<rparr>"
    show ?thesis unfolding d'
      by (rule shown_same) (simp, rule children_same [where vs = "[]" and xs = "[]" and es = "[]" and os = "[x]"],
        use x late 3 in \<open>auto simp: before_def\<close>)
  qed simp
  then show ?thesis using record_outcome_db [of env aid rn q key now flt d] 3 by auto
next
  case (4 env' now flt aid rn key stored d')
  let ?d = "snd (export_action env aid rn ''xlsx'' key stored now flt d)"
  have "list_public_for_session ws v t (d\<lparr>db_exports := db_exports d @ [x]\<rparr>) = list_public_for_session ws v t d"
    if "er_created_at x = now" for x
    by (rule shown_same) (simp, rule children_same [where vs = "[]" and xs = "[]" and es = "[x]" and os = "[]"],
      use that late 4 in \<open>auto simp: before_def\<close>)
  then show ?thesis using export_action_db [of env aid rn "''xlsx''" key stored now flt d] 4 by auto
qed

lemma shown_frozen:
  "actions_ok d \<Longrightarrow> \<forall>e \<in> set es. t \<le> fst e
   \<Longrightarrow> list_public_for_session ws v t (fold (action_step env) es d) = list_public_for_session ws v t d"
  by (induction es arbitrary: d) (simp_all add: action_step_ok action_step_shown)

section \<open>A verdict closes the card\<close>

lemma decided_prefix:
  assumes "actions_le d d'" and "decs aid d = ls"
  shows "\<exists>xs. decs aid d' = ls @ xs"
  using actions_le_lists(1) [OF assms(1), of aid] assms(2) by (auto simp: prefix_def)

lemma runs_stuck: "runs s cs t \<Longrightarrow> s \<in> {Approved, Dismissed} \<Longrightarrow> \<forall>c \<in> set cs. is_decision c \<Longrightarrow> cs = [] \<and> t = s"
  by (induction rule: runs.induct) (auto simp: is_decision_def)

lemma runs_split: "runs s cs t \<Longrightarrow> cs = as @ bs \<Longrightarrow> \<exists>m. runs s as m \<and> runs m bs t"
proof (induction arbitrary: bs rule: runs.induct)
  case (runs_nil s)
  then show ?case by (auto intro: runs.intros)
next
  case (runs_snoc s cs t c u)
  show ?case
  proof (cases bs rule: rev_cases)
    case Nil
    then show ?thesis using runs_snoc by (auto intro: runs.intros)
  next
    case (snoc bs' x)
    then show ?thesis using runs_snoc by (auto intro: runs.runs_snoc)
  qed
qed

lemma runs_function: "runs s cs t \<Longrightarrow> runs s cs u \<Longrightarrow> t = u"
proof (induction arbitrary: u rule: runs.induct)
  case (runs_nil s)
  then show ?case by (auto dest: runs_nilD)
next
  case (runs_snoc s cs t c u)
  then show ?case by (metis moves_function runs_snocE)
qed

text \<open>A later state of a card that was closed, or whose revision has moved on.\<close>

lemma closed_later:
  assumes ok: "actions_ok d" "actions_ok d'" and le: "actions_le d d'"
    and c: "get_card ws aid None d = Some c" and c': "get_card ws aid None d' = Some c'"
  shows "cr_current_revision (ca_row c) \<le> cr_current_revision (ca_row c')"
    and "cr_status (ca_row c) \<in> {Approved, Dismissed} \<Longrightarrow> cr_status (ca_row c') = cr_status (ca_row c)"
proof -
  note card = get_cardD [OF c] and card' = get_cardD [OF c']
  have inv: "card_inv d (ca_row c)" "card_inv d' (ca_row c')" using ok card(1) card'(1) by (auto simp: actions_ok_def)
  have "length (revs aid d) \<le> length (revs aid d')" using actions_le_lists(2) [OF le] by (rule prefix_length_le)
  then show "cr_current_revision (ca_row c) \<le> cr_current_revision (ca_row c')"
    using inv card(2) card'(2) by (simp add: card_inv_def Let_def)
  assume closed: "cr_status (ca_row c) \<in> {Approved, Dismissed}"
  obtain xs where xs: "decs aid d' = decs aid d @ xs" using decided_prefix [OF le refl] by blast
  have all: "runs New (map dr_command (decs aid d) @ map dr_command xs) (cr_status (ca_row c'))"
    and first: "runs New (map dr_command (decs aid d)) (cr_status (ca_row c))"
    and dec: "\<forall>c \<in> set (map dr_command xs). is_decision c"
    using inv card(2) card'(2) xs by (auto simp: card_inv_def Let_def log_inv_def)
  from runs_split [OF all refl] obtain m where m: "runs New (map dr_command (decs aid d)) m"
      "runs m (map dr_command xs) (cr_status (ca_row c'))" by blast
  have "m = cr_status (ca_row c)" using runs_function m(1) first by blast
  then show "cr_status (ca_row c') = cr_status (ca_row c)" using runs_stuck [OF m(2) _ dec] closed by simp
qed

section \<open>The facts of a card\<close>

text \<open>
  The facts a draft was accepted with stay: an adjustment copies them into the new revision, and an
  outcome must repeat them.
\<close>

definition evidence_with :: "action_env \<Rightarrow> db \<Rightarrow> card_row \<Rightarrow> fact_ref list \<Rightarrow> bool" where
  "evidence_with env d r fs \<longleftrightarrow>
     (let vs = revs (cr_id r) d in
      vs \<noteq> [] \<and> (\<forall>v \<in> set vs. rv_facts v = fs)
      \<and> ae_authority env (action_content.extend (rv_content (hd vs)) (action_source.fields (cr_source_type r) (cr_dataset_version r))) fs = Inr ()
      \<and> (\<forall>x \<in> set (outs (cr_id r) d). or_evidence x = fs \<and> or_revision x = cr_current_revision r))"

definition evidence_ok :: "action_env \<Rightarrow> db \<Rightarrow> card_row \<Rightarrow> bool" where
  "evidence_ok env d r \<longleftrightarrow> (\<exists>fs. evidence_with env d r fs)"

definition evidence_inv :: "action_env \<Rightarrow> db \<Rightarrow> bool" where
  "evidence_inv env d \<longleftrightarrow> actions_ok d \<and> (\<forall>r \<in> set (db_cards d). evidence_ok env d r)"

lemma evidence_ok_cong:
  "cr_id r' = cr_id r \<Longrightarrow> cr_source_type r' = cr_source_type r \<Longrightarrow> cr_dataset_version r' = cr_dataset_version r
   \<Longrightarrow> cr_current_revision r' = cr_current_revision r \<Longrightarrow> revs (cr_id r) d' = revs (cr_id r) d
   \<Longrightarrow> outs (cr_id r) d' = outs (cr_id r) d \<Longrightarrow> evidence_ok env d' r' = evidence_ok env d r"
  by (simp add: evidence_ok_def evidence_with_def)

lemma same_row: "actions_ok d \<Longrightarrow> r \<in> set (db_cards d) \<Longrightarrow> s \<in> set (db_cards d) \<Longrightarrow> cr_id r = cr_id s \<Longrightarrow> r = s"
  by (auto simp: actions_ok_def distinct_map dest: inj_onD)

lemma evidence_create:
  assumes ev: "evidence_inv env d" and body: "create_body env s fs kh rh now d = Inr (None, d')"
  shows "\<forall>r \<in> set (db_cards d'). evidence_ok env d' r"
proof -
  note rows = create_rowsD [OF create_bodyD(3) [OF body]]
  define v where "v = first_revision env (create_id env kh) s fs now"
  define r where "r = new_card env (create_id env kh) s kh rh now"
  have v: "rv_action v = create_id env kh" "rv_facts v = fs" "rv_content v = action_content.truncate s"
    and r: "cr_id r = create_id env kh" "cr_source_type r = as_source_type s" "cr_dataset_version r = as_dataset_version s"
    by (simp_all add: v_def first_revision_def r_def new_card_def)
  have d': "d' = d\<lparr>db_cards := db_cards d @ [r], db_revisions := db_revisions d @ [v]\<rparr>" using rows(1) by (simp add: v_def r_def)
  have sub: "outs a d' = outs a d" "revs a d' = revs a d @ (if rv_action v = a then [v] else [])" for a
    by (simp_all add: d' revs_def outs_def)
  have src: "action_content.extend (action_content.truncate s) (action_source.fields (as_source_type s) (as_dataset_version s)) = s"
    by (cases s) (simp add: action_content.defs action_source.defs)
  have own: "owned d (cr_id ` set (db_cards d))" using ev by (simp add: evidence_inv_def actions_ok_def)
  have "evidence_with env d' r fs"
    using owned_empty [OF own rows(2)] create_bodyD(2) [OF body] by (simp add: evidence_with_def sub r v src Let_def)
  then have "evidence_ok env d' r" by (auto simp: evidence_ok_def)
  moreover have "evidence_ok env d' s" if "s \<in> set (db_cards d)" for s
  proof -
    have "cr_id s \<noteq> create_id env kh" using that rows(2) by (metis imageI)
    then have "evidence_ok env d' s = evidence_ok env d s" by (intro evidence_ok_cong) (auto simp: sub v)
    then show ?thesis using that ev by (simp add: evidence_inv_def)
  qed
  ultimately show ?thesis by (simp add: d')
qed

lemma evidence_decide:
  assumes ev: "evidence_inv env d" and wf: "well_formed_decision cmd adj"
    and body: "decision_body env aid rn cmd reason adj kh rh now d = Inr (None, d')"
  shows "\<forall>r \<in> set (db_cards d'). evidence_ok env d' r"
proof -
  obtain c nxt x nr where c: "get_card (ae_workspace env) aid None d = Some c"
    and mv: "moves (cr_status (ca_row c)) cmd nxt" and x: "dr_action x = aid"
    and nr: "nr = map_option (\<lambda>a. (adjusted_revision env aid (last (ca_revisions c)) a now)\<lparr>rv_number := rn + 1\<rparr>) adj"
    and d': "d' = decided aid rn nxt x nr d"
  proof -
    from decision_bodyD [OF body] obtain c nxt x where "get_card (ae_workspace env) aid None d = Some c"
      "moves (cr_status (ca_row c)) cmd nxt"
      and x: "x = \<lparr>dr_id = ae_uuid5 env (''decision:'' @ aid @ '':'' @ kh), dr_action = aid,
             dr_revision = rn + (if adj = None then 0 else 1),
             dr_ordinal = int (length (ca_decisions c)) + 1, dr_command = cmd, dr_reason = reason,
             dr_key_hash = kh, dr_request_hash = rh, dr_created_at = now\<rparr>"
      and "d' = decided aid rn nxt x (map_option (\<lambda>a. (adjusted_revision env aid (last (ca_revisions c)) a now)
            \<lparr>rv_number := rn + 1\<rparr>) adj) d" by blast
    moreover have "dr_action x = aid" by (simp add: x)
    ultimately show thesis using that by blast
  qed
  note card = get_cardD [OF c]
  have ok: "actions_ok d" and evs: "\<forall>r \<in> set (db_cards d). evidence_ok env d r" using ev by (auto simp: evidence_inv_def)
  have inv: "card_inv d (ca_row c)" using ok card(1) by (auto simp: actions_ok_def)
  have notapp: "cr_status (ca_row c) \<noteq> Approved" using mv wf by (auto simp: well_formed_decision_def split: option.splits)
  then have none: "outs aid d = []" using inv card(2) by (auto simp: card_inv_def Let_def)
  have rs: "ca_revisions c = revs aid d" using children_ordered(1) [OF inv, of None] card(2,4) by metis
  obtain fs where fs: "evidence_with env d (ca_row c) fs" using evs card(1) by (auto simp: evidence_ok_def)
  then have nonempty: "revs aid d \<noteq> []" and "rv_facts (last (revs aid d)) = fs"
    by (auto simp: evidence_with_def Let_def card(2))
  then have facts: "rv_facts y = fs \<and> rv_action y = aid" if "nr = Some y" for y
    using that rs by (auto simp: nr adjusted_revision_def)
  have "evidence_ok env d' (move_card aid rn n nxt t r)" if r: "r \<in> set (db_cards d)" for r n t
  proof (cases "cr_id r = aid")
    case True
    have r: "r = ca_row c" by (rule same_row [OF ok r card(1)]) (simp add: True card(2))
    have ids: "cr_id (move_card aid rn n nxt t r) = aid" "cr_source_type (move_card aid rn n nxt t r) = cr_source_type (ca_row c)"
      "cr_dataset_version (move_card aid rn n nxt t r) = cr_dataset_version (ca_row c)"
      by (simp_all add: move_card_def r card(2))
    have "revs aid d' = revs aid d @ (case nr of None \<Rightarrow> [] | Some y \<Rightarrow> [y])" "outs aid d' = []"
      using facts none by (simp_all add: d' split: option.split)
    then have "evidence_with env d' (move_card aid rn n nxt t r) fs"
      using fs facts nonempty unfolding evidence_with_def ids card(2) by (cases nr) (simp_all add: Let_def)
    then show ?thesis by (auto simp: evidence_ok_def)
  next
    case False
    have "evidence_ok env d' r = evidence_ok env d r"
      by (rule evidence_ok_cong) (use False facts x in \<open>auto simp: d' split: option.split\<close>)
    then show ?thesis using evs r False by (simp add: move_card_def)
  qed
  then show ?thesis by (auto simp: d')
qed

lemma evidence_outcome:
  assumes ev: "evidence_inv env d" and body: "outcome_body env aid rn q kh rh now d = Inr (x, d')"
  shows "\<forall>r \<in> set (db_cards d'). evidence_ok env d' r"
proof -
  have ok: "actions_ok d" and evs: "\<forall>r \<in> set (db_cards d). evidence_ok env d r" using ev by (auto simp: evidence_inv_def)
  from outcome_bodyD [OF body] show ?thesis
  proof (elim disjE exE conjE)
    assume "d' = d"
    then show ?thesis using evs by simp
  next
    fix c assume c: "get_card (ae_workspace env) aid None d = Some c" and cur: "cr_current_revision (ca_row c) = rn"
      and ev: "oq_evidence q = rv_facts (last (ca_revisions c))" and x: "or_action x = aid" "or_revision x = rn" "or_evidence x = oq_evidence q"
      and d': "d' = d\<lparr>db_outcomes := db_outcomes d @ [x]\<rparr>"
    note card = get_cardD [OF c]
    have inv: "card_inv d (ca_row c)" using ok card(1) by (auto simp: actions_ok_def)
    have rs: "ca_revisions c = revs aid d" using children_ordered(1) [OF inv, of None] card(2,4) by metis
    have sub: "revs a d' = revs a d" "outs a d' = outs a d @ (if a = aid then [x] else [])" for a
      by (auto simp: d' revs_def outs_def x(1))
    have "evidence_ok env d' r" if r: "r \<in> set (db_cards d)" for r
    proof (cases "cr_id r = aid")
      case True
      have r': "r = ca_row c" by (rule same_row [OF ok r card(1)]) (simp add: True card(2))
      obtain fs where fs: "evidence_with env d (ca_row c) fs" using evs card(1) by (auto simp: evidence_ok_def)
      then have "rv_facts (last (revs aid d)) = fs" by (auto simp: evidence_with_def Let_def card(2))
      then have "evidence_with env d' (ca_row c) fs"
        using fs ev x cur rs unfolding evidence_with_def card(2) by (simp add: Let_def sub)
      then show ?thesis by (auto simp: evidence_ok_def r')
    next
      case False
      have "evidence_ok env d' r = evidence_ok env d r" by (rule evidence_ok_cong) (use False in \<open>auto simp: sub\<close>)
      then show ?thesis using evs r by simp
    qed
    then show ?thesis by (simp add: d')
  qed
qed

lemma action_step_evidence:
  assumes ev: "evidence_inv env d"
  shows "evidence_inv env (action_step env e d)"
proof -
  have ok: "actions_ok d" and evs: "\<forall>r \<in> set (db_cards d). evidence_ok env d r" using ev by (auto simp: evidence_inv_def)
  have "\<forall>r \<in> set (db_cards (action_step env e d)). evidence_ok env (action_step env e d) r"
  proof (cases "(env, e, d)" rule: action_step.cases)
    case (1 env' now flt s fs key d')
    then show ?thesis using create_draft_db [of env s fs key now flt d] evidence_create [OF ev] evs by auto
  next
    case (2 env' now flt aid rn cmd reason adj key d')
    then show ?thesis using decide_db [of env aid rn cmd reason adj key now flt d] evidence_decide [OF ev] evs by auto
  next
    case (3 env' now flt aid rn q key d')
    then show ?thesis using record_outcome_db [of env aid rn q key now flt d] evidence_outcome [OF ev] evs by fastforce
  next
    case (4 env' now flt aid rn key stored d')
    have "evidence_ok env (d\<lparr>db_exports := db_exports d @ [x]\<rparr>) r = evidence_ok env d r" for x r
      by (rule evidence_ok_cong) (simp_all add: revs_def outs_def)
    then show ?thesis using export_action_db [of env aid rn "''xlsx''" key stored now flt d] evs 4 by auto
  qed
  then show ?thesis using action_step_ok [OF ok] by (simp add: evidence_inv_def)
qed

interpretation evidence: guarded_machine "action_step env" "evidence_inv env" for env
  by unfold_locales (rule action_step_evidence)

end
