(* ===== verification/ActionCards.thy ===== *)
theory ActionCards
  imports CardHistory
begin

text \<open>
  What the action service promises of a card: the branches of a decision, requests that take
  effect once, rival decisions, the facts a card rests on, and the snapshot a viewer sees.
\<close>

section \<open>A decision that is accepted\<close>

lemma apply_decisionI:
  assumes "r \<in> set (db_cards d)" and "cr_id r = aid" and "cr_current_revision r = rn"
    and "\<And>y v. nr = Some y \<Longrightarrow> v \<in> set (db_revisions d) \<Longrightarrow>
      rv_id v \<noteq> rv_id y \<and> (rv_action v = rv_action y \<longrightarrow> rv_number v \<noteq> rn + 1)"
    and "\<And>y. y \<in> set (db_decisions d) \<Longrightarrow>
      dr_id y \<noteq> dr_id x \<and> (dr_action y = dr_action x \<longrightarrow> dr_ordinal y \<noteq> dr_ordinal x \<and> dr_key_hash y \<noteq> dr_key_hash x)"
  shows "\<exists>d'. apply_decision aid rn nxt x nr d = Inr (True, d')"
  using assms
  by (cases nr) (auto simp: apply_decision_def Let_def ebind_def insert_revision_def insert_decision_def list_ex_iff)

lemma decision_body_accepts:
  assumes ok: "actions_ok d" and c: "get_card (ae_workspace env) aid None d = Some c"
    and fresh: "find_decision aid kh d = None" and cur: "cr_current_revision (ca_row c) = rn"
    and mv: "moves (cr_status (ca_row c)) cmd nxt"
    and ids: "ae_uuid5 env (''decision:'' @ aid @ '':'' @ kh) \<notin> dr_id ` set (db_decisions d)"
      "ae_uuid5 env (''revision:'' @ aid @ '':'' @ show_int (rn + 1)) \<notin> rv_id ` set (db_revisions d)"
  shows "\<exists>d'. decision_body env aid rn cmd reason adj kh rh now d = Inr (None, d')"
proof -
  note card = get_cardD [OF c]
  have inv: "card_inv d (ca_row c)" using ok card(1) by (auto simp: actions_ok_def)
  have rs: "ca_revisions c = revs aid d" "ca_decisions c = decs aid d"
    using children_ordered [OF inv, of None] card(2,4) by metis+
  have nums: "map rv_number (revs aid d) = upto_int (length (revs aid d))" "map dr_ordinal (decs aid d) = upto_int (length (decs aid d))"
    and len: "rn = int (length (revs aid d))" and some: "1 \<le> length (revs aid d)"
    using inv card(2) cur by (auto simp: card_inv_def Let_def log_inv_def adjusts_def)
  have "map rv_number (revs aid d) ! (length (revs aid d) - 1) = int (length (revs aid d))"
    unfolding nums(1) upto_int_def using some by (simp del: upt_Suc)
  then have last: "rv_number (last (revs aid d)) = rn" using some len by (subst last_conv_nth) auto
  let ?x = "\<lparr>dr_id = ae_uuid5 env (''decision:'' @ aid @ '':'' @ kh), dr_action = aid, dr_revision = rn,
         dr_ordinal = int (length (ca_decisions c)) + 1, dr_command = cmd, dr_reason = reason,
         dr_key_hash = kh, dr_request_hash = rh, dr_created_at = now\<rparr>"
  let ?nr = "map_option (\<lambda>a. adjusted_revision env aid (last (ca_revisions c)) a now) adj"
  have "\<exists>d'. apply_decision aid rn nxt ?x ?nr d = Inr (True, d')"
  proof (rule apply_decisionI [OF card(1,2) cur])
    fix y v assume y: "?nr = Some y" and v: "v \<in> set (db_revisions d)"
    have yy: "rv_id y = ae_uuid5 env (''revision:'' @ aid @ '':'' @ show_int (rn + 1))" "rv_action y = aid"
      using y last rs by (auto simp: adjusted_revision_def)
    have "rv_number v \<le> rn" if "rv_action v = aid"
      using numbers_bound [OF nums(1), of v] v that len by (simp add: revs_def)
    moreover have "rv_id v \<noteq> rv_id y" unfolding yy(1) using ids(2) v by (metis imageI)
    ultimately show "rv_id v \<noteq> rv_id y \<and> (rv_action v = rv_action y \<longrightarrow> rv_number v \<noteq> rn + 1)" using yy(2) by auto
  next
    fix y assume y: "y \<in> set (db_decisions d)"
    have "dr_ordinal y \<le> int (length (decs aid d)) \<and> dr_key_hash y \<noteq> kh" if "dr_action y = aid"
      using numbers_bound [OF nums(2), of y] y that fresh by (auto simp: find_decision_None decs_def)
    moreover have "dr_id y \<noteq> ae_uuid5 env (''decision:'' @ aid @ '':'' @ kh)" using ids(1) y by (metis imageI)
    ultimately show "dr_id y \<noteq> dr_id ?x \<and> (dr_action y = dr_action ?x \<longrightarrow> dr_ordinal y \<noteq> dr_ordinal ?x \<and> dr_key_hash y \<noteq> dr_key_hash ?x)"
      using rs(2) by auto
  qed
  then obtain d' where d': "apply_decision aid rn nxt ?x ?nr d = Inr (True, d')" by blast
  have "ca_revisions c \<noteq> []" using some rs by auto
  then show ?thesis
    using c fresh cur mv d' by (auto simp: decision_body_def ebind_def simp flip: apply_command_iff)
qed

section \<open>Histories from an empty database\<close>

definition history :: "action_env \<Rightarrow> (time \<times> fault \<times> action_event) list \<Rightarrow> db" where
  "history env es = fold (action_step env) es empty_db"

lemma empty_evidence: "evidence_inv env empty_db"
  by (simp add: evidence_inv_def actions_ok_def owned_def empty_db_def)

lemma history_evidence: "evidence_inv env (history env es)"
  unfolding history_def by (rule evidence.run_inv [OF empty_evidence])

lemma history_ok: "actions_ok (history env es)"
  using history_evidence by (simp add: evidence_inv_def)

lemma card_parts:
  assumes "actions_ok d" and "get_card ws aid None d = Some c"
  shows "card_inv d (ca_row c)" "ca_revisions c = revs aid d" "ca_decisions c = decs aid d"
    "set (ca_outcomes c) = set (outs aid d)" "set (ca_exports c) = set (exps aid d)"
proof -
  note card = get_cardD [OF assms(2)]
  show inv: "card_inv d (ca_row c)" using assms(1) card(1) by (auto simp: actions_ok_def)
  show "ca_revisions c = revs aid d" "ca_decisions c = decs aid d"
    using children_ordered [OF inv, of None] card(2,4) by metis+
  show "set (ca_outcomes c) = set (outs aid d)" "set (ca_exports c) = set (exps aid d)"
    by (subst card(4), simp add: children_def outs_def exps_def card(2) before_def)+
qed

text \<open>A small world: the key is its own hash, a digest names the kind of the request.\<close>

definition sample_env :: action_env where
  "sample_env = \<lparr>ae_workspace = ''demo'', ae_key_hash = (\<lambda>k. k),
     ae_digest = (\<lambda>r. case r of CreateRequest _ _ \<Rightarrow> ''create'' | DecisionRequest _ _ c _ _ \<Rightarrow>
         (case c of Review \<Rightarrow> ''review'' | Adjust \<Rightarrow> ''adjust'' | Approve \<Rightarrow> ''approve'' | _ \<Rightarrow> ''other'')
       | ExportRequest _ _ _ \<Rightarrow> ''export'' | OutcomeRequest _ _ _ _ _ _ _ \<Rightarrow> ''outcome'' | OverlayRequest _ _ _ _ _ _ _ \<Rightarrow> ''overlay''),
     ae_uuid5 = (\<lambda>s. s), ae_boundary = (\<lambda>_. True), ae_version_complete = (\<lambda>v. v = ''v1''),
     ae_authority = (\<lambda>_ _. Inr ()), ae_storage_ok = (\<lambda>_. True), ae_catalog = (\<lambda>_. Some [''store-1''])\<rparr>"

definition sample_source :: action_source where
  "sample_source = \<lparr>ac_suggestion = ''Reorder'', ac_target = ''SYNTH-SKU'', ac_period_start = 0, ac_period_end = 6,
     ac_scope = [(''currency'', JStr ''BRL'')], ac_quantity = Some (Finite 12), ac_budget = None, ac_action_date = None,
     ac_threshold = None, ac_expected_impact = [], ac_confidence = Medium, ac_limitations = [], ac_analysis_run = None,
     ac_forecast = None, ac_bridge = None, ac_chat_turn = None, ac_chat_tool = None, ac_answer_version = None,
     as_source_type = DeterministicRule, as_dataset_version = ''v1''\<rparr>"

definition sample_facts :: "fact_ref list" where
  "sample_facts = [\<lparr>fr_alias = ''stock'', fr_state = Measured, fr_source_ref = ''inventory:1'', fr_value = Some ''3''\<rparr>]"

definition sample_card :: uuid where
  "sample_card = create_id sample_env ''k0''"

definition sample_events :: "(time \<times> fault \<times> action_event) list" where
  "sample_events =
     [(1, LostAfterCommit, CreateDraft sample_source sample_facts ''k0''),
      (2, NoFault, Decide sample_card 1 Review ''ok'' None ''k1''),
      (3, NoFault, Decide sample_card 1 Adjust ''less'' (Some (empty_adjustment\<lparr>aj_quantity := Some (Finite 8)\<rparr>)) ''k2'')]"

definition approval :: "time \<times> fault \<times> action_event" where
  "approval = (4, NoFault, Decide sample_card 2 Approve ''go'' None ''k3'')"

section \<open>Properties\<close>

text \<open>C2: a card is the replay of its log of decisions: after any history its status and its revision
  determine the commands of the log (a review, the adjustments, at most one verdict), decisions
  and revisions are numbered from one without gaps, the current revision is the last one, the
  card has a time of verdict exactly when it has a verdict, and only approved cards have exports
  or outcomes.\<close>

theorem card_is_its_log:
  assumes "get_card ws aid None (history env es) = Some c"
  shows "map dr_command (ca_decisions c) = expected_log (cr_status (ca_row c)) (nat (cr_current_revision (ca_row c) - 1))
    \<and> map dr_ordinal (ca_decisions c) = map int [1..<Suc (length (ca_decisions c))]
    \<and> map rv_number (ca_revisions c) = map int [1..<Suc (length (ca_revisions c))]
    \<and> cr_current_revision (ca_row c) = int (length (ca_revisions c))
    \<and> (cr_terminal_at (ca_row c) \<noteq> None \<longleftrightarrow> cr_status (ca_row c) \<in> {Approved, Dismissed})
    \<and> (cr_status (ca_row c) \<noteq> Approved \<longrightarrow> ca_exports c = [] \<and> ca_outcomes c = [])"
proof -
  note parts = card_parts [OF history_ok assms] and card = get_cardD [OF assms]
  have log: "map dr_command (decs aid (history env es))
      = expected_log (cr_status (ca_row c)) (nat (cr_current_revision (ca_row c) - 1))"
    using card_log [OF parts(1)] card(2) by simp
  have times: "times_inv (decs aid (history env es)) (ca_row c)" using parts(1) card(2) by (simp add: card_inv_def Let_def)
  have "cr_terminal_at (ca_row c) \<noteq> None \<longleftrightarrow> cr_status (ca_row c) \<in> {Approved, Dismissed}"
  proof (cases "decs aid (history env es) = []")
    case True
    then have "cr_status (ca_row c) = New" using log by (cases "cr_status (ca_row c)") simp_all
    then show ?thesis using True times by (simp add: times_inv_def)
  next
    case False
    then show ?thesis using times by (simp add: times_inv_def terminal_def)
  qed
  moreover have "cr_status (ca_row c) \<noteq> Approved \<longrightarrow> ca_exports c = [] \<and> ca_outcomes c = []"
    using parts(1) card(2) by (auto simp: card_inv_def Let_def simp flip: set_empty simp: parts(4,5))
  moreover have "map dr_ordinal (ca_decisions c) = map int [1..<Suc (length (ca_decisions c))]"
    "map rv_number (ca_revisions c) = map int [1..<Suc (length (ca_revisions c))]"
    "cr_current_revision (ca_row c) = int (length (ca_revisions c))"
    using parts(1) card(2) unfolding parts(2,3) upto_int_def [symmetric] by (simp_all add: card_inv_def Let_def log_inv_def)
  ultimately show ?thesis using log unfolding parts(3) by blast
qed

theorem card_is_its_log_witness:
  "\<exists>c. get_card ''demo'' sample_card None (history sample_env sample_events) = Some c
    \<and> map dr_command (ca_decisions c) = [Review, Adjust]"
proof -
  let ?g = "get_card ''demo'' sample_card None (history sample_env sample_events)"
  have "?g \<noteq> None" by code_simp
  then obtain c where c: "?g = Some c" by blast
  have "(case ?g of None \<Rightarrow> False | Some c \<Rightarrow> cr_status (ca_row c) = Reviewed \<and> cr_current_revision (ca_row c) = 2)" by code_simp
  then have "cr_status (ca_row c) = Reviewed" "cr_current_revision (ca_row c) = 2" by (simp_all add: c)
  then show ?thesis using card_is_its_log [OF c] c by auto
qed

text \<open>C3: a decision request with an idempotency key takes effect once: after it returned, the same
  request at any later time, with a lost connection or without, changes nothing and returns the
  same card, whatever other requests came between.\<close>

theorem decide_exactly_once:
  assumes "well_formed_decision cmd adj"
    and "decide env aid rn cmd reason adj key now flt (history env es) = (Returned c, d)"
  shows "decide env aid rn cmd reason adj key now' flt' (fold (action_step env) es' d)
    = (Returned c, fold (action_step env) es' d)"
  using decisions.exactly_once [OF history_ok, where q = "(aid, rn, cmd, reason, adj, key)" and c = "(now, flt)" and c' = "(now', flt')"] assms
  by simp

theorem decide_exactly_once_witness:
  "\<exists>c d. decide sample_env sample_card 2 Approve ''go'' None ''k3'' 4 LostAfterCommit (history sample_env sample_events) = (Returned c, d)
    \<and> decide sample_env sample_card 2 Approve ''go'' None ''k3'' 9 NoFault
        (fold (action_step sample_env) [(5, NoFault, ExportCard sample_card 2 ''k4'' (Inr (''obj'', ''sha'')))] d)
      = (Returned c, fold (action_step sample_env) [(5, NoFault, ExportCard sample_card 2 ''k4'' (Inr (''obj'', ''sha'')))] d)"
proof -
  let ?r = "decide sample_env sample_card 2 Approve ''go'' None ''k3'' 4 LostAfterCommit (history sample_env sample_events)"
  have "(case fst ?r of Returned c \<Rightarrow> True | _ \<Rightarrow> False)" by code_simp
  then obtain c d where r: "?r = (Returned c, d)" by (cases ?r) (auto split: outcome.splits)
  have wf: "well_formed_decision Approve None" by (simp add: well_formed_decision_def)
  show ?thesis using r decide_exactly_once [OF wf r] by blast
qed

text \<open>The same for drafts: one key creates one card, and a repeated request returns the card as it
  was created, whatever has been decided about it since.\<close>

theorem create_exactly_once:
  assumes "create_draft env s fs key now flt (history env es) = (Returned c, d)"
  shows "create_draft env s fs key now' flt' (fold (action_step env) es' d) = (Returned c, fold (action_step env) es' d)"
  using drafts.exactly_once [OF history_ok, where q = "(s, fs, key)" and c = "(now, flt)" and c' = "(now', flt')"] assms
  by simp

theorem create_exactly_once_witness:
  "\<exists>c d. create_draft sample_env sample_source sample_facts ''k9'' 1 NoFault (history sample_env sample_events) = (Returned c, d)
    \<and> create_draft sample_env sample_source sample_facts ''k9'' 7 LostBeforeCommit (fold (action_step sample_env) [approval] d)
      = (Returned c, fold (action_step sample_env) [approval] d)"
proof -
  let ?r = "create_draft sample_env sample_source sample_facts ''k9'' 1 NoFault (history sample_env sample_events)"
  have "(case fst ?r of Returned c \<Rightarrow> True | _ \<Rightarrow> False)" by code_simp
  then obtain c d where r: "?r = (Returned c, d)" by (cases ?r) (auto split: outcome.splits)
  show ?thesis using r create_exactly_once [OF r] by blast
qed

text \<open>C4: after a decision other than a review took effect at a revision, no other decision at that
  revision ever takes effect: the revision has moved on, or the card has its verdict.\<close>

theorem decision_excludes_rivals:
  assumes "well_formed_decision cmd adj" and "cmd \<noteq> Review" and "well_formed_decision cmd' adj'"
    and "snd (decide env aid rn cmd reason adj key now flt (history env es)) = d" and "d \<noteq> history env es"
  shows "snd (decide env aid rn cmd' reason' adj' key' now' flt' (fold (action_step env) es' d)) = fold (action_step env) es' d"
proof (rule ccontr)
  let ?d0 = "history env es" and ?d2 = "fold (action_step env) es' d"
  assume "snd (decide env aid rn cmd' reason' adj' key' now' flt' ?d2) \<noteq> ?d2"
  then obtain kh' d3 where body': "decision_body env aid rn cmd' reason' adj' kh'
      (ae_digest env (DecisionRequest aid rn cmd' reason' adj')) now' ?d2 = Inr (None, d3)"
    using decide_db [of env aid rn cmd' reason' adj' key' now' flt' ?d2] by auto
  obtain kh where body: "decision_body env aid rn cmd reason adj kh
      (ae_digest env (DecisionRequest aid rn cmd reason adj)) now ?d0 = Inr (None, d)"
    using decide_db [of env aid rn cmd reason adj key now flt ?d0] assms(4,5) by auto
  have ok: "actions_ok d" using decide_ok [OF history_ok assms(1), of env aid rn reason key now flt env es] assms(4) by simp
  have ok2: "actions_ok ?d2" and le2: "actions_le d ?d2" by (rule cards.run_inv [OF ok], rule cards.run_below [OF ok])
  obtain c0 nxt x nr where c0: "get_card (ae_workspace env) aid None ?d0 = Some c0" and x: "dr_action x = aid"
    "dr_command x = cmd" "dr_revision x = rn + (if adj = None then 0 else 1)" and d: "d = decided aid rn nxt x nr ?d0"
    using fresh_decision [OF body] by blast
  obtain c where c: "get_card (ae_workspace env) aid None d = Some c"
    using get_card_later [OF decided_le [of _ aid rn nxt x nr] ok [unfolded d] c0] unfolding d by blast
  have "decs aid d = decs aid ?d0 @ [x]" using x(1) by (simp add: d)
  note last = last_decision [OF ok c this, unfolded x(2,3)]
  obtain c2 nxt' where c2: "get_card (ae_workspace env) aid None ?d2 = Some c2"
    and rn: "cr_current_revision (ca_row c2) = rn" and mv: "moves (cr_status (ca_row c2)) cmd' nxt'"
    using fresh_decision [OF body'] by blast
  note later = closed_later [OF ok ok2 le2 c c2]
  show False
  proof (cases "cmd = Adjust")
    case True
    then have "adj \<noteq> None" using assms(1) by (auto simp: well_formed_decision_def split: option.splits)
    then show False using later(1) last(2) rn by auto
  next
    case False
    then have "cr_status (ca_row c) \<in> {Approved, Dismissed}"
      using assms(1,2) last(1) by (auto simp: well_formed_decision_def decision_status_def split: option.splits)
    moreover from this have "cr_status (ca_row c2) = cr_status (ca_row c)" by (rule later(2))
    ultimately show False using mv assms(3) by (auto simp: well_formed_decision_def split: option.splits)
  qed
qed

theorem decision_excludes_rivals_witness:
  "let d = snd (decide sample_env sample_card 2 Approve ''go'' None ''k3'' 4 NoFault (history sample_env sample_events))
   in snd (decide sample_env sample_card 2 Dismiss ''no'' None ''k7'' 5 NoFault (fold (action_step sample_env) [] d))
      = fold (action_step sample_env) [] d"
proof -
  let ?d = "snd (decide sample_env sample_card 2 Approve ''go'' None ''k3'' 4 NoFault (history sample_env sample_events))"
  have "map dr_command (db_decisions ?d) = [Review, Adjust, Approve]"
    and "map dr_command (db_decisions (history sample_env sample_events)) = [Review, Adjust]" by code_simp+
  then have "?d \<noteq> history sample_env sample_events" by auto
  then show ?thesis unfolding Let_def
    by (intro decision_excludes_rivals [OF _ _ _ refl]) (simp_all add: well_formed_decision_def)
qed

text \<open>C33: what a decision does when it is neither a replay nor cut off: a stale revision and a command
  the status does not allow are refused without a change; otherwise the card that is returned and
  stored has the next status, one more decision, and one more revision exactly for an adjustment.
  The generated identifiers are assumed to be new.\<close>

theorem decision_branches:
  assumes c: "get_card (ae_workspace env) aid None (history env es) = Some c"
    and checks: "decision_checks env rn reason adj key = Inr kh" and wf: "well_formed_decision cmd adj"
    and fresh: "kh \<notin> dr_key_hash ` set (ca_decisions c)"
    and ids: "ae_uuid5 env (''decision:'' @ aid @ '':'' @ kh) \<notin> dr_id ` set (db_decisions (history env es))"
      "ae_uuid5 env (''revision:'' @ aid @ '':'' @ show_int (rn + 1)) \<notin> rv_id ` set (db_revisions (history env es))"
  shows "case decide env aid rn cmd reason adj key now NoFault (history env es) of (out, d) \<Rightarrow>
    (if cr_current_revision (ca_row c) \<noteq> rn then out = Raised ActionRevisionConflict \<and> d = history env es
     else if \<not> can_apply (cr_status (ca_row c)) cmd
     then out = Raised (ActionTransitionInvalid (cr_status (ca_row c)) cmd) \<and> d = history env es
     else \<exists>c' x. out = Returned c' \<and> get_card (ae_workspace env) aid None d = Some c'
       \<and> moves (cr_status (ca_row c)) cmd (cr_status (ca_row c'))
       \<and> ca_decisions c' = ca_decisions c @ [x] \<and> dr_command x = cmd \<and> dr_key_hash x = kh
       \<and> length (ca_revisions c') = length (ca_revisions c) + (if cmd = Adjust then 1 else 0))"
proof -
  let ?d = "history env es" and ?rh = "ae_digest env (DecisionRequest aid rn cmd reason adj)"
  note parts = card_parts [OF history_ok c]
  have new: "find_decision aid kh ?d = None" using fresh by (simp add: find_decision_None parts(3))
  have run: "decide env aid rn cmd reason adj key now NoFault ?d
      = with_authority passes_decision (read_back env aid (run_uow NoFault (decision_body env aid rn cmd reason adj kh ?rh now) ?d))
          (decision_authority env aid kh ?rh)"
    by (simp add: decide_def checks Let_def)
  consider (stale) "cr_current_revision (ca_row c) \<noteq> rn"
    | (refused) "cr_current_revision (ca_row c) = rn" "\<not> can_apply (cr_status (ca_row c)) cmd"
    | (accepted) nxt where "cr_current_revision (ca_row c) = rn" "moves (cr_status (ca_row c)) cmd nxt"
    by (auto simp: can_apply_iff apply_command_iff)
  then show ?thesis
  proof cases
    case stale
    then show ?thesis
      by (simp add: run run_uow_def decision_body_def c new read_back_def with_authority_def passes_decision_def)
  next
    case refused
    then have "apply_command (cr_status (ca_row c)) cmd = Inl (ActionTransitionInvalid (cr_status (ca_row c)) cmd)"
      by (auto simp: can_apply_def apply_command_def)
    then show ?thesis using refused
      by (simp add: run run_uow_def decision_body_def c new read_back_def with_authority_def passes_decision_def ebind_def)
  next
    case accepted
    obtain d' where body: "decision_body env aid rn cmd reason adj kh ?rh now ?d = Inr (None, d')"
      using decision_body_accepts [OF history_ok c new accepted ids] by blast
    obtain nxt' x nr where mv: "moves (cr_status (ca_row c)) cmd nxt'" and x: "dr_action x = aid" "dr_key_hash x = kh"
      "dr_command x = cmd" "dr_revision x = rn + (if adj = None then 0 else 1)" and d': "d' = decided aid rn nxt' x nr ?d"
      using fresh_decision [OF body] c by auto
    have ok': "actions_ok d'"
      using decide_ok [OF history_ok wf, of env aid rn reason key now NoFault env es]
      by (simp add: run run_uow_def body)
    obtain c' where c': "get_card (ae_workspace env) aid None d' = Some c'"
      using get_card_later [OF decided_le [of _ aid rn nxt' x nr] ok' [unfolded d'] c] unfolding d' by blast
    note parts' = card_parts [OF ok' c'] and card' = get_cardD [OF c'] and card = get_cardD [OF c]
    have ls: "decs aid d' = decs aid ?d @ [x]" using x(1) by (simp add: d')
    have "cr_status (ca_row c') = nxt'" using last_decision(1) [OF ok' c' ls] moves_target [OF mv] x(3) by simp
    moreover have "int (length (revs aid d')) = int (length (revs aid ?d)) + (if cmd = Adjust then 1 else 0)"
      using last_decision(2) [OF ok' c' ls] parts(1) parts'(1) card(2) card'(2) accepted(1) x(4) wf
      by (auto simp: card_inv_def Let_def well_formed_decision_def split: option.splits)
    moreover have "can_apply (cr_status (ca_row c)) cmd" using accepted by (auto simp: can_apply_iff apply_command_iff)
    ultimately show ?thesis
      using accepted(1) mv c' ls parts(2,3) parts'(2,3) x
      by (simp add: run run_uow_def body read_back_def with_authority_def split: if_splits)
  qed
qed

theorem decision_branches_witness:
  "\<exists>c. get_card ''demo'' sample_card None (history sample_env sample_events) = Some c
    \<and> (case decide sample_env sample_card 2 Approve ''go'' None ''k3'' 4 NoFault (history sample_env sample_events) of (out, d) \<Rightarrow>
        \<exists>c' x. out = Returned c' \<and> cr_status (ca_row c') = Approved \<and> ca_decisions c' = ca_decisions c @ [x])"
proof -
  let ?g = "get_card ''demo'' sample_card None (history sample_env sample_events)"
  have "(case ?g of None \<Rightarrow> False | Some c \<Rightarrow> cr_status (ca_row c) = Reviewed \<and> cr_current_revision (ca_row c) = 2
      \<and> ''k3'' \<notin> dr_key_hash ` set (ca_decisions c))" by code_simp
  then obtain c where c: "?g = Some c" "cr_status (ca_row c) = Reviewed" "cr_current_revision (ca_row c) = 2"
    "''k3'' \<notin> dr_key_hash ` set (ca_decisions c)" by (auto split: option.splits)
  have ws: "ae_workspace sample_env = ''demo''" by (simp add: sample_env_def)
  have checks: "decision_checks sample_env 2 ''go'' None ''k3'' = Inr ''k3''" by code_simp
  have ids: "ae_uuid5 sample_env (''decision:'' @ sample_card @ '':'' @ ''k3'') \<notin> dr_id ` set (db_decisions (history sample_env sample_events))"
    "ae_uuid5 sample_env (''revision:'' @ sample_card @ '':'' @ show_int (2 + 1)) \<notin> rv_id ` set (db_revisions (history sample_env sample_events))"
    by code_simp+
  have wf: "well_formed_decision Approve None" by (simp add: well_formed_decision_def)
  note this = decision_branches [OF c(1) [folded ws] checks wf c(4) ids, of 4]
  then show ?thesis using c by (fastforce simp: can_apply_def)
qed

text \<open>C26: the facts of a card are fixed when it is drafted: the source authority accepted them together
  with the source the first revision states, every adjusted revision keeps them, and every outcome
  repeats them and belongs to the revision that was approved.\<close>

theorem card_rests_on_its_facts:
  assumes "get_card ws aid None (history env es) = Some c"
  shows "ca_revisions c \<noteq> [] \<and> (\<exists>fs. ae_authority env (original_source c) fs = Inr ()
    \<and> (\<forall>v \<in> set (ca_revisions c). rv_facts v = fs)
    \<and> (\<forall>x \<in> set (ca_outcomes c). or_evidence x = fs \<and> or_revision x = cr_current_revision (ca_row c)))"
proof -
  note parts = card_parts [OF history_ok assms] and card = get_cardD [OF assms]
  have "evidence_ok env (history env es) (ca_row c)"
    using history_evidence [of env es] card(1) by (simp add: evidence_inv_def)
  then obtain fs where "evidence_with env (history env es) (ca_row c) fs" by (auto simp: evidence_ok_def)
  then show ?thesis using parts(2,4)
    by (auto simp: evidence_with_def Let_def original_source_def card(2))
qed

theorem card_rests_on_its_facts_witness:
  "\<exists>c. get_card ''demo'' sample_card None (history sample_env sample_events) = Some c
    \<and> map rv_number (ca_revisions c) = [1, 2] \<and> rv_facts (ca_revisions c ! 1) = rv_facts (ca_revisions c ! 0)"
proof -
  let ?g = "get_card ''demo'' sample_card None (history sample_env sample_events)"
  have "(case ?g of None \<Rightarrow> False | Some c \<Rightarrow> map rv_number (ca_revisions c) = [1, 2])" by code_simp
  then obtain c where c: "?g = Some c" "map rv_number (ca_revisions c) = [1, 2]" by (auto split: option.splits)
  from c(2) have "length (ca_revisions c) = 2" by (metis length_map length_Cons list.size(3) One_nat_def Suc_1)
  then have "ca_revisions c ! 0 \<in> set (ca_revisions c)" "ca_revisions c ! 1 \<in> set (ca_revisions c)" by simp_all
  then show ?thesis using card_rests_on_its_facts [OF c(1)] c by metis
qed

text \<open>C8: what a viewer sees of the cards is fixed when the session starts: later requests, the ones
  that approve further cards, export them or record outcomes included, do not change it.\<close>

theorem viewer_sees_snapshot:
  assumes "\<forall>e \<in> set es'. t \<le> fst e"
  shows "list_public_for_session ws version t (history env (es @ es')) = list_public_for_session ws version t (history env es)"
  using shown_frozen [OF history_ok assms] by (simp add: history_def)

theorem viewer_sees_snapshot_witness:
  "list_public_for_session ''demo'' ''v1'' 4 (history sample_env (sample_events @ [approval]))
    = list_public_for_session ''demo'' ''v1'' 4 (history sample_env sample_events)"
  by (rule viewer_sees_snapshot) (simp add: approval_def)

end
