(* ===== verification/Sandbox.thy ===== *)
theory Sandbox
  imports ActionCards
begin

text \<open>
  The sandbox of a viewer (\<open>simulate\<close>, \<open>overlays\<close> and \<open>reset_simulation\<close> of
  \<open>src/services/action_service.py\<close>, the overlay statements of \<open>src/repositories/actions.py\<close>) and
  the scope of a request (\<open>_scope_for_version\<close>, \<open>StoreScopeResolver.resolve\<close>). A viewer replays the
  state machine on an approved card in a log of overlays of their own.
\<close>

section \<open>Scopes\<close>

datatype store_scope = AllStores "string list" | SingleStore string

definition resolve_stores :: "string list option \<Rightarrow> string list option \<Rightarrow> store_scope option" where
  "resolve_stores catalog requested =
     (case catalog of
        None \<Rightarrow> None
      | Some ids \<Rightarrow>
          (case requested of
             None \<Rightarrow> Some (AllStores ids)
           | Some [] \<Rightarrow> Some (AllStores ids)
           | Some [i] \<Rightarrow> if i = [] \<or> i \<noteq> strip i \<or> i \<notin> set ids then None else Some (SingleStore i)
           | Some _ \<Rightarrow> None))"

type_synonym scope = "(string \<times> json) list"

definition scope_for_version :: "action_env \<Rightarrow> uuid \<Rightarrow> scope option \<Rightarrow> action_error + scope" where
  "scope_for_version env version scope =
     (let value = (case scope of None \<Rightarrow> [(''currency'', JStr ''BRL'')] | Some [] \<Rightarrow> [(''currency'', JStr ''BRL'')] | Some v \<Rightarrow> v);
          catalog = ae_catalog env version in
      if jget value ''currency'' \<noteq> JStr ''BRL'' then Inl (ActionInvalid ''scope_currency_invalid'')
      else (case jget value ''store_id'' of
          JNull \<Rightarrow> (case resolve_stores catalog None of
             None \<Rightarrow> Inl (ActionInvalid ''scope_store_invalid'')
           | Some _ \<Rightarrow> Inr [(''currency'', JStr ''BRL'')])
        | JStr i \<Rightarrow> if strip i = [] then Inl (ActionInvalid ''scope_store_invalid'')
             else (case resolve_stores catalog (Some [i]) of
                None \<Rightarrow> Inl (ActionInvalid ''scope_store_invalid'')
              | Some _ \<Rightarrow> Inr [(''currency'', JStr ''BRL''), (''store_id'', JStr i)])
        | _ \<Rightarrow> Inl (ActionInvalid ''scope_store_invalid'')))"

definition require_scope :: "action_env \<Rightarrow> uuid \<Rightarrow> uuid \<Rightarrow> scope option \<Rightarrow> db \<Rightarrow> action_error + action_card" where
  "require_scope env aid version scope d =
     ebind (scope_for_version env version scope) (\<lambda>normal.
       case get_card (ae_workspace env) aid None d of
         None \<Rightarrow> Inl ActionNotFound
       | Some c \<Rightarrow> if cr_dataset_version (ca_row c) \<noteq> version \<or> \<not> card_matches_scope c normal
                   then Inl ActionScopeConflict else Inr c)"

definition list_cards :: "action_env \<Rightarrow> uuid \<Rightarrow> scope option \<Rightarrow> db \<Rightarrow> action_error + action_card list" where
  "list_cards env version scope d =
     ebind (scope_for_version env version scope) (\<lambda>normal.
       Inr (filter (\<lambda>c. card_matches_scope c normal) (list_for_version (ae_workspace env) version d)))"

text \<open>The cards a query reads in its own transaction: a viewer's when the session is given.\<close>

definition read_for_query :: "action_env \<Rightarrow> uuid \<Rightarrow> time option \<Rightarrow> scope option \<Rightarrow> db \<Rightarrow> action_error + action_card list" where
  "read_for_query env version session_created scope d =
     ebind (scope_for_version env version scope) (\<lambda>normal.
       Inr (filter (\<lambda>c. card_matches_scope c normal)
         (case session_created of
            Some t \<Rightarrow> list_public_for_session (ae_workspace env) version t d
          | None \<Rightarrow> list_for_version (ae_workspace env) version d)))"

section \<open>The adjustment of an overlay\<close>

definition overlay_number :: "string \<Rightarrow> scope \<Rightarrow> action_error + unit" where
  "overlay_number field adj =
     (if jget adj field = JNull then Inr ()
      else let s = json_text (jget adj field) in
        ensure (length s \<le> 64 \<and> (case parse_decimal s of Some (Finite x) \<Rightarrow> 0 \<le> x | _ \<Rightarrow> False))
         (ActionInvalid (''overlay_'' @ field @ ''_invalid'')))"

definition validate_overlay_adjustment :: "boundary \<Rightarrow> scope \<Rightarrow> action_error + unit" where
  "validate_overlay_adjustment bd adj =
     ebind (ensure (adj \<noteq> [] \<and> length adj \<le> 2 \<and> list_all (\<lambda>(k, _). k \<in> {''quantity'', ''budget_brl''}) adj
         \<and> length (json_dump (JObj adj)) \<le> 16384) (ActionInvalid ''overlay_adjustment_invalid'')) (\<lambda>_.
     ebind (overlay_number ''quantity'' adj) (\<lambda>_.
     ebind (overlay_number ''budget_brl'' adj) (\<lambda>_.
       validate_synthetic bd (JObj [(''adjustment'', JObj adj)]))))"

section \<open>Statements\<close>

definition list_overlays :: "uuid \<Rightarrow> uuid \<Rightarrow> db \<Rightarrow> overlay_row list" where
  "list_overlays sid aid d = sort_key ov_revision (filter (\<lambda>v. ov_session v = sid \<and> ov_action v = aid) (db_overlays d))"

definition find_overlay :: "uuid \<Rightarrow> digest \<Rightarrow> db \<Rightarrow> overlay_row option" where
  "find_overlay sid kh d = select_one (\<lambda>v. ov_session v = sid \<and> ov_key_hash v = kh) (db_overlays d)"

definition add_overlay :: "overlay_row \<Rightarrow> db \<Rightarrow> action_error + db" where
  "add_overlay v d =
     (if list_ex (\<lambda>w. ov_id w = ov_id v \<or> ov_session w = ov_session v
           \<and> (ov_key_hash w = ov_key_hash v \<or> ov_action w = ov_action v \<and> ov_revision w = ov_revision v)) (db_overlays d)
      then Inl (Unexpected ''IntegrityError'') else Inr (d\<lparr>db_overlays := db_overlays d @ [v]\<rparr>))"

definition delete_overlays :: "uuid \<Rightarrow> uuid list option \<Rightarrow> db \<Rightarrow> nat \<times> db" where
  "delete_overlays sid aids d =
     (if aids = Some [] then (0, d)
      else let p = (\<lambda>v. ov_session v = sid \<and> (case aids of None \<Rightarrow> True | Some ids \<Rightarrow> ov_action v \<in> set ids)) in
        (length (filter p (db_overlays d)), d\<lparr>db_overlays := delete_where p (db_overlays d)\<rparr>))"

text \<open>The join of the session with the card, as one condition on a pair of rows.\<close>

definition eligible_pair :: "uuid \<Rightarrow> uuid \<Rightarrow> time \<Rightarrow> demo_session \<Rightarrow> card_row \<Rightarrow> bool" where
  "eligible_pair sid aid now s r \<longleftrightarrow>
     cr_workspace r = ds_workspace s \<and> ds_dataset_version s = Some (cr_dataset_version r)
     \<and> ds_id s = sid \<and> is_live now s \<and> cr_id r = aid \<and> cr_status r = Approved
     \<and> (case cr_terminal_at r of None \<Rightarrow> False | Some t \<Rightarrow> t < ds_created_at s)"

definition viewer_template_eligible :: "uuid \<Rightarrow> uuid \<Rightarrow> time \<Rightarrow> db \<Rightarrow> bool" where
  "viewer_template_eligible sid aid now d \<longleftrightarrow>
     list_ex (\<lambda>s. list_ex (eligible_pair sid aid now s) (db_cards d)) (db_demo_sessions d)"

section \<open>Simulation\<close>

record simulation =
  sm_session :: uuid
  sm_epoch :: int
  sm_version :: uuid
  sm_action :: uuid
  sm_base :: int
  sm_command :: action_command
  sm_adjustment :: scope
  sm_reason :: string

definition passes_overlay :: "action_error \<Rightarrow> bool" where
  "passes_overlay e = (case e of ActionNotFound \<Rightarrow> True | ActionInvalid _ \<Rightarrow> True | ActionIdempotencyConflict \<Rightarrow> True
     | ActionTransitionInvalid _ _ \<Rightarrow> True | _ \<Rightarrow> False)"

definition simulation_checks :: "action_env \<Rightarrow> simulation \<Rightarrow> string \<Rightarrow> action_error + digest" where
  "simulation_checks env q key =
     ebind (validate_reason (ae_boundary env) (sm_reason q)) (\<lambda>_.
     ebind (ensure (is_decision (sm_command q)) (ActionInvalid ''overlay_command_invalid'')) (\<lambda>_.
     ebind (ensure (sm_command q = Adjust \<or> sm_adjustment q = []) (ActionInvalid ''overlay_adjustment_invalid'')) (\<lambda>_.
     ebind (if sm_command q = Adjust then validate_overlay_adjustment (ae_boundary env) (sm_adjustment q) else Inr ()) (\<lambda>_.
       key_hash env key))))"

definition new_overlay :: "action_env \<Rightarrow> simulation \<Rightarrow> nat \<Rightarrow> action_status \<Rightarrow> digest \<Rightarrow> digest \<Rightarrow> time \<Rightarrow> overlay_row" where
  "new_overlay env q n st kh rh now =
     \<lparr>ov_id = ae_uuid5 env (''overlay:'' @ sm_session q @ '':'' @ kh), ov_session = sm_session q, ov_action = sm_action q,
      ov_base_revision = sm_base q, ov_revision = int n + 1, ov_command = sm_command q, ov_status = st,
      ov_adjustment = sm_adjustment q, ov_reason = sm_reason q, ov_key_hash = kh, ov_request_hash = rh, ov_created_at = now\<rparr>"

definition simulate_body :: "action_env \<Rightarrow> simulation \<Rightarrow> digest \<Rightarrow> digest \<Rightarrow> time \<Rightarrow> db \<Rightarrow> action_error + (overlay_row \<times> db)" where
  "simulate_body env q kh rh now d =
     (if \<not> lock_demo_chat_epoch (sm_session q) (ae_workspace env) (sm_version q) (sm_epoch q) now d then Inl ActionNotFound
      else (case get_card (ae_workspace env) (sm_action q) None d of
          None \<Rightarrow> Inl ActionNotFound
        | Some c \<Rightarrow>
            if cr_dataset_version (ca_row c) \<noteq> sm_version q \<or> cr_current_revision (ca_row c) \<noteq> sm_base q
               \<or> \<not> viewer_template_eligible (sm_session q) (sm_action q) now d then Inl ActionNotFound
            else (case find_overlay (sm_session q) kh d of
                Some v \<Rightarrow> if ov_request_hash v \<noteq> rh then Inl ActionIdempotencyConflict else Inr (v, d)
              | None \<Rightarrow>
                  let log = list_overlays (sm_session q) (sm_action q) d;
                      current = (if log = [] then New else ov_status (last log)) in
                  ebind (apply_command current (sm_command q)) (\<lambda>nxt.
                    let v = new_overlay env q (length log) nxt kh rh now in
                    ebind (add_overlay v d) (\<lambda>d'. Inr (v, d'))))))"

definition overlay_authority :: "uuid \<Rightarrow> digest \<Rightarrow> digest \<Rightarrow> db \<Rightarrow> action_error + overlay_row option" where
  "overlay_authority sid kh rh d =
     (case find_overlay sid kh d of
        None \<Rightarrow> Inr None
      | Some v \<Rightarrow> if ov_request_hash v \<noteq> rh then Inl ActionIdempotencyConflict else Inr (Some v))"

definition simulation_hash :: "action_env \<Rightarrow> simulation \<Rightarrow> digest" where
  "simulation_hash env q = ae_digest env (OverlayRequest (sm_session q) (sm_epoch q) (sm_action q) (sm_base q)
     (sm_command q) (sm_adjustment q) (sm_reason q))"

definition simulate :: "action_env \<Rightarrow> simulation \<Rightarrow> string \<Rightarrow> time \<Rightarrow> fault \<Rightarrow> db \<Rightarrow> (action_error, overlay_row) outcome \<times> db" where
  "simulate env q key now flt d =
     (case simulation_checks env q key of
        Inl e \<Rightarrow> (Raised e, d)
      | Inr kh \<Rightarrow> with_authority passes_overlay (run_uow flt (simulate_body env q kh (simulation_hash env q) now) d)
          (overlay_authority (sm_session q) kh (simulation_hash env q)))"

definition reset_body :: "action_env \<Rightarrow> uuid \<Rightarrow> int \<Rightarrow> uuid \<Rightarrow> scope option \<Rightarrow> time \<Rightarrow> db \<Rightarrow> action_error + (nat \<times> db)" where
  "reset_body env sid epoch version scope now d =
     (if \<not> lock_demo_chat_epoch sid (ae_workspace env) version epoch now d then Inl ActionNotFound
      else (case scope of
          None \<Rightarrow> Inr (delete_overlays sid None d)
        | Some _ \<Rightarrow> ebind (list_cards env version scope d) (\<lambda>cards.
            Inr (delete_overlays sid (Some (map (\<lambda>c. cr_id (ca_row c)) cards)) d))))"

definition reset_simulation :: "action_env \<Rightarrow> uuid \<Rightarrow> int \<Rightarrow> uuid \<Rightarrow> scope option \<Rightarrow> time \<Rightarrow> fault \<Rightarrow> db
    \<Rightarrow> (action_error, nat) outcome \<times> db" where
  "reset_simulation env sid epoch version scope now flt d = run_uow flt (reset_body env sid epoch version scope now) d"

section \<open>The world of the two services\<close>

text \<open>Requests of viewers, of the operator and of the sandbox, on one database.\<close>

datatype world_event =
    OnSessions session_event
  | OnActions fault action_event
  | Simulate simulation string fault
  | Reset uuid int uuid "scope option" fault

fun world_step :: "demo_service \<Rightarrow> action_env \<Rightarrow> time \<times> world_event \<Rightarrow> db \<Rightarrow> db" where
  "world_step v env (now, OnSessions e) d = session_step v (now, e) d"
| "world_step v env (now, OnActions flt e) d = action_step env (now, flt, e) d"
| "world_step v env (now, Simulate q key flt) d = snd (simulate env q key now flt d)"
| "world_step v env (now, Reset sid epoch version scope flt) d = snd (reset_simulation env sid epoch version scope now flt d)"

section \<open>What simulations change\<close>

lemma simulate_bodyD:
  assumes "simulate_body env q kh rh now d = Inr (v, d')"
  shows "lock_demo_chat_epoch (sm_session q) (ae_workspace env) (sm_version q) (sm_epoch q) now d"
    "viewer_template_eligible (sm_session q) (sm_action q) now d"
    "\<exists>c. get_card (ae_workspace env) (sm_action q) None d = Some c \<and> cr_current_revision (ca_row c) = sm_base q
       \<and> cr_dataset_version (ca_row c) = sm_version q"
    "d' = d \<and> find_overlay (sm_session q) kh d = Some v \<and> ov_request_hash v = rh
     \<or> (let log = list_overlays (sm_session q) (sm_action q) d in
        \<exists>nxt. moves (if log = [] then New else ov_status (last log)) (sm_command q) nxt
        \<and> v = new_overlay env q (length log) nxt kh rh now \<and> d' = d\<lparr>db_overlays := db_overlays d @ [v]\<rparr>)"
proof -
  show lock: "lock_demo_chat_epoch (sm_session q) (ae_workspace env) (sm_version q) (sm_epoch q) now d"
    using assms by (cases "lock_demo_chat_epoch (sm_session q) (ae_workspace env) (sm_version q) (sm_epoch q) now d")
      (simp_all add: simulate_body_def)
  obtain c where c: "get_card (ae_workspace env) (sm_action q) None d = Some c"
    using assms lock by (cases "get_card (ae_workspace env) (sm_action q) None d") (simp_all add: simulate_body_def)
  have cond: "cr_dataset_version (ca_row c) = sm_version q \<and> cr_current_revision (ca_row c) = sm_base q
      \<and> viewer_template_eligible (sm_session q) (sm_action q) now d"
    using assms lock c by (auto simp: simulate_body_def split: if_splits)
  then show "viewer_template_eligible (sm_session q) (sm_action q) now d" by simp
  show "\<exists>c. get_card (ae_workspace env) (sm_action q) None d = Some c \<and> cr_current_revision (ca_row c) = sm_base q
       \<and> cr_dataset_version (ca_row c) = sm_version q"
    using c cond by simp
  show "d' = d \<and> find_overlay (sm_session q) kh d = Some v \<and> ov_request_hash v = rh
     \<or> (let log = list_overlays (sm_session q) (sm_action q) d in
        \<exists>nxt. moves (if log = [] then New else ov_status (last log)) (sm_command q) nxt
        \<and> v = new_overlay env q (length log) nxt kh rh now \<and> d' = d\<lparr>db_overlays := db_overlays d @ [v]\<rparr>)"
  proof (cases "find_overlay (sm_session q) kh d")
    case (Some w)
    then show ?thesis using assms lock c cond by (simp add: simulate_body_def split: if_splits)
  next
    case None
    let ?log = "list_overlays (sm_session q) (sm_action q) d"
    obtain nxt where nxt: "apply_command (if ?log = [] then New else ov_status (last ?log)) (sm_command q) = Inr nxt"
      and add: "ebind (add_overlay (new_overlay env q (length ?log) nxt kh rh now) d)
        (\<lambda>d'. Inr (new_overlay env q (length ?log) nxt kh rh now, d')) = Inr (v, d')"
      using assms lock c cond None by (simp add: simulate_body_def Let_def ebind_eq_Inr) blast
    have "v = new_overlay env q (length ?log) nxt kh rh now" "d' = d\<lparr>db_overlays := db_overlays d @ [v]\<rparr>"
      using add by (auto simp: ebind_eq_Inr add_overlay_def split: if_splits)
    then show ?thesis using nxt unfolding Let_def apply_command_iff by blast
  qed
qed

lemma simulate_db:
  "snd (simulate env q key now flt d) = d
   \<or> (\<exists>kh v. simulate_body env q kh (simulation_hash env q) now d = Inr (v, snd (simulate env q key now flt d))
        \<and> simulation_checks env q key = Inr kh)"
proof (cases "simulation_checks env q key")
  case (Inl e)
  then show ?thesis by (simp add: simulate_def)
next
  case (Inr kh)
  let ?b = "simulate_body env q kh (simulation_hash env q) now"
  have eq: "snd (simulate env q key now flt d) = snd (run_uow flt ?b d)" by (simp add: simulate_def Inr)
  from run_uow_state [of flt ?b d] show ?thesis
  proof (elim disjE exE)
    assume "snd (run_uow flt ?b d) = d"
    then show ?thesis unfolding eq by (rule disjI1)
  next
    fix v assume "?b d = Inr (v, snd (run_uow flt ?b d))"
    then show ?thesis unfolding eq Inr by blast
  qed
qed

lemma delete_overlays_db:
  "snd (delete_overlays sid aids d) = d\<lparr>db_overlays := delete_where
     (\<lambda>v. ov_session v = sid \<and> (case aids of None \<Rightarrow> True | Some ids \<Rightarrow> ov_action v \<in> set ids)) (db_overlays d)\<rparr>"
  by (auto simp: delete_overlays_def delete_where_def Let_def)

lemma reset_bodyD:
  assumes "reset_body env sid epoch version scope now d = Inr (n, d')"
  shows "\<exists>p. d' = d\<lparr>db_overlays := delete_where (\<lambda>v. ov_session v = sid \<and> p (ov_action v)) (db_overlays d)\<rparr>"
proof -
  obtain aids where "delete_overlays sid aids d = (n, d')"
    using assms by (auto simp: reset_body_def ebind_eq_Inr split: if_splits option.splits)
  then have "d' = snd (delete_overlays sid aids d)" by simp
  then show ?thesis unfolding delete_overlays_db
    by (intro exI [of _ "\<lambda>a. case aids of None \<Rightarrow> True | Some ids \<Rightarrow> a \<in> set ids"]) simp
qed

lemma reset_db:
  "\<exists>p. snd (reset_simulation env sid epoch version scope now flt d)
     = d\<lparr>db_overlays := delete_where (\<lambda>v. ov_session v = sid \<and> p (ov_action v)) (db_overlays d)\<rparr>"
  using run_uow_state [of flt "reset_body env sid epoch version scope now" d] unfolding reset_simulation_def
proof (elim disjE exE)
  assume "snd (run_uow flt (reset_body env sid epoch version scope now) d) = d"
  then show "\<exists>p. snd (run_uow flt (reset_body env sid epoch version scope now) d)
      = d\<lparr>db_overlays := delete_where (\<lambda>v. ov_session v = sid \<and> p (ov_action v)) (db_overlays d)\<rparr>"
    by (intro exI [of _ "\<lambda>_. False"]) (simp add: delete_where_def)
qed (rule reset_bodyD)

section \<open>The invariant of the sandbox\<close>

definition ovs :: "uuid \<Rightarrow> uuid \<Rightarrow> db \<Rightarrow> overlay_row list" where
  "ovs sid aid d = filter (\<lambda>v. ov_session v = sid \<and> ov_action v = aid) (db_overlays d)"

definition overlay_log :: "overlay_row list \<Rightarrow> bool" where
  "overlay_log os \<longleftrightarrow> map ov_revision os = upto_int (length os) \<and> (\<forall>v \<in> set os. is_decision (ov_command v))
     \<and> (\<forall>i < length os. runs New (map ov_command (take (Suc i) os)) (ov_status (os ! i)))"

text \<open>An overlay belongs to an open session and to a card that was approved before it, at its revision.\<close>

definition overlay_owner :: "demo_session list \<Rightarrow> card_row list \<Rightarrow> overlay_row \<Rightarrow> bool" where
  "overlay_owner ss rs v \<longleftrightarrow> (\<exists>s \<in> set ss. ds_id s = ov_session v \<and> is_open s
     \<and> (\<exists>r \<in> set rs. cr_id r = ov_action v \<and> cr_workspace r = ds_workspace s \<and> ds_dataset_version s = Some (cr_dataset_version r)
          \<and> cr_status r = Approved \<and> cr_current_revision r = ov_base_revision v
          \<and> (case cr_terminal_at r of None \<Rightarrow> False | Some t \<Rightarrow> t < ds_created_at s)))"

definition sandbox_ok :: "db \<Rightarrow> bool" where
  "sandbox_ok d \<longleftrightarrow> sessions_ok d \<and> actions_ok d \<and> (\<forall>v \<in> set (db_overlays d). overlay_owner (db_demo_sessions d) (db_cards d) v)
     \<and> (\<forall>sid aid. overlay_log (ovs sid aid d))"

lemma overlay_log_Nil [simp]: "overlay_log []"
  by (simp add: overlay_log_def)

lemma overlay_log_snoc:
  assumes log: "overlay_log os" and n: "ov_revision v = int (length os) + 1" and dec: "is_decision (ov_command v)"
    and mv: "moves (if os = [] then New else ov_status (last os)) (ov_command v) (ov_status v)"
  shows "overlay_log (os @ [v])"
proof -
  have "runs New (map ov_command os) (if os = [] then New else ov_status (last os))"
  proof (cases os rule: rev_cases)
    case Nil
    then show ?thesis by (simp add: runs_nil)
  next
    case (snoc ps w)
    then show ?thesis using log by (auto simp: overlay_log_def dest!: spec [of _ "length ps"])
  qed
  then have "runs New (map ov_command os @ [ov_command v]) (ov_status v)" using mv by (rule runs_snoc)
  then show ?thesis using log n dec
    by (auto simp: overlay_log_def upto_int_Suc nth_append less_Suc_eq)
qed

lemma ovs_delete:
  "ovs sid aid (d\<lparr>db_overlays := delete_where (\<lambda>v. p (ov_session v) (ov_action v)) (db_overlays d)\<rparr>)
    = (if p sid aid then [] else ovs sid aid d)"
  by (auto simp: ovs_def delete_where_def filter_empty_conv intro!: filter_cong)

lemma list_overlays_ovs: "overlay_log (ovs sid aid d) \<Longrightarrow> list_overlays sid aid d = ovs sid aid d"
  using sorted_by_numbers [of ov_revision "ovs sid aid d"] by (simp add: overlay_log_def list_overlays_def ovs_def)

text \<open>Deleting logs as a whole keeps the invariant.\<close>

lemma sandbox_delete:
  assumes "sandbox_ok d"
  shows "sandbox_ok (d\<lparr>db_overlays := delete_where (\<lambda>v. p (ov_session v) (ov_action v)) (db_overlays d)\<rparr>)"
proof -
  have "actions_ok (d\<lparr>db_overlays := os\<rparr>) = actions_ok d" for os
    by (simp add: actions_ok_def card_inv_def owned_def decs_def revs_def outs_def exps_def)
  moreover have "sessions_ok (d\<lparr>db_overlays := os\<rparr>) = sessions_ok d" for os by (simp add: sessions_ok_def)
  ultimately show ?thesis using assms by (auto simp: sandbox_ok_def ovs_delete)
qed

section \<open>Sessions and the sandbox\<close>

text \<open>A session request leaves the cards alone, and deletes the overlays of the sessions it closes.\<close>

lemma forget_db:
  "forget_sessions ids d = d\<lparr>db_overlays := delete_where (\<lambda>v. ov_session v \<in> set ids) (db_overlays d),
     db_turns := db_turns (forget_sessions ids d)\<rparr>"
  by (simp add: forget_sessions_def delete_ephemeral_chat_def delete_session_overlays_def)

definition same_actions :: "db \<Rightarrow> db \<Rightarrow> bool" where
  "same_actions d d' \<longleftrightarrow> db_cards d' = db_cards d \<and> db_revisions d' = db_revisions d \<and> db_decisions d' = db_decisions d
     \<and> db_exports d' = db_exports d \<and> db_outcomes d' = db_outcomes d"

lemma actions_ok_same: "same_actions d d' \<Longrightarrow> actions_ok d' = actions_ok d"
  by (simp add: same_actions_def actions_ok_def card_inv_def owned_def decs_def revs_def outs_def exps_def)

lemma select_none: "select_one p ss = None \<Longrightarrow> update_where p f ss = ss"
  by (auto simp: select_one_None_iff update_where_def intro: map_idI)

definition closes :: "uuid list \<Rightarrow> db \<Rightarrow> db \<Rightarrow> bool" where
  "closes ids d d' \<longleftrightarrow> same_actions d d'
     \<and> db_overlays d' = delete_where (\<lambda>v. ov_session v \<in> set ids) (db_overlays d)
     \<and> (\<forall>s \<in> set (db_demo_sessions d). is_open s \<longrightarrow> ds_id s \<notin> set ids \<longrightarrow>
          (\<exists>t \<in> set (db_demo_sessions d'). is_open t \<and> ds_id t = ds_id s \<and> ds_workspace t = ds_workspace s
             \<and> ds_dataset_version t = ds_dataset_version s \<and> ds_created_at t = ds_created_at s))"

lemma closes_update:
  assumes "db_demo_sessions d' = update_where p f (db_demo_sessions d)" and "same_actions d d'"
    and "db_overlays d' = delete_where (\<lambda>v. ov_session v \<in> set ids) (db_overlays d)"
    and "\<And>s. s \<in> set (db_demo_sessions d) \<Longrightarrow> p s \<Longrightarrow> is_open s \<Longrightarrow> ds_id s \<notin> set ids \<Longrightarrow> is_open (f s)"
    and "\<And>s. ds_id (f s) = ds_id s \<and> ds_workspace (f s) = ds_workspace s
      \<and> ds_dataset_version (f s) = ds_dataset_version s \<and> ds_created_at (f s) = ds_created_at s"
  shows "closes ids d d'"
  unfolding closes_def
proof (intro conjI ballI impI)
  fix s assume s: "s \<in> set (db_demo_sessions d)" "is_open s" "ds_id s \<notin> set ids"
  show "\<exists>t \<in> set (db_demo_sessions d'). is_open t \<and> ds_id t = ds_id s \<and> ds_workspace t = ds_workspace s
      \<and> ds_dataset_version t = ds_dataset_version s \<and> ds_created_at t = ds_created_at s"
    by (rule bexI [of _ "if p s then f s else s"]) (use assms(1,4,5) s in \<open>auto simp: update_where_def\<close>)
qed (use assms(2,3) in simp_all)

lemma delete_where_nothing [simp]: "delete_where (\<lambda>v. False) rs = rs"
  by (simp add: delete_where_def)

lemma session_step_closes: "\<exists>ids. closes ids d (session_step v (now, e) d)"
proof (cases e)
  case (CreateSession q)
  show ?thesis
  proof (cases "create_session v q now d")
    case (Inl x)
    then show ?thesis by (intro exI [of _ "[]"]) (auto simp: CreateSession closes_def same_actions_def)
  next
    case (Inr r)
    obtain s d' where r: "r = (s, d')" by (cases r)
    show ?thesis using create_sessionD(2) [OF Inr [unfolded r]]
      by (intro exI [of _ "[]"]) (auto simp: CreateSession Inr r closes_def same_actions_def set_demo_def)
  qed
next
  case (ResolveSession token)
  show ?thesis
  proof (cases "get_active_demo_session (sv_token_hash v token) now d")
    case None
    then show ?thesis
      by (intro exI [of _ "[]"]) (auto simp: ResolveSession resolve_session_def closes_def same_actions_def)
  next
    case (Some s)
    have "closes [] d (session_step v (now, e) d)"
      by (rule closes_update [where p = "\<lambda>r. ds_id r = ds_id s \<and> is_live now r" and f = "\<lambda>r. r\<lparr>ds_last_seen_at := now,
            ds_idle_expires_at := min (now + idle_ttl) (ds_absolute_expires_at s)\<rparr>"])
        (simp_all add: ResolveSession resolve_session_def Some touch_demo_session_def same_actions_def set_demo_def is_open_def)
    then show ?thesis by blast
  qed
next
  case (EndSession sid)
  show ?thesis
  proof (cases "select_one (\<lambda>s. ds_id s = sid \<and> is_open s) (db_demo_sessions d)")
    case None
    then have "snd (end_demo_session sid now d) = d"
      by (simp add: end_demo_session_def update_demo_def select_none set_demo_def)
    then show ?thesis by (intro exI [of _ "[]"]) (auto simp: EndSession closes_def same_actions_def)
  next
    case (Some s)
    let ?u = "set_demo (update_where (\<lambda>s. ds_id s = sid \<and> is_open s) (\<lambda>s. s\<lparr>ds_status := Ended, ds_ended_at := Some now\<rparr>)
        (db_demo_sessions d)) d"
    have "snd (end_demo_session sid now d) = forget_sessions [sid] ?u"
      using Some by (simp add: end_demo_session_def update_demo_def)
    then have "closes [sid] d (session_step v (now, e) d)"
      by (intro closes_update [where p = "\<lambda>s. ds_id s = sid \<and> is_open s" and f = "\<lambda>s. s\<lparr>ds_status := Ended, ds_ended_at := Some now\<rparr>"])
        (simp_all add: EndSession, subst forget_db, simp add: same_actions_def set_demo_def, subst forget_db, simp add: set_demo_def)
    then show ?thesis by blast
  qed
next
  case (ImportData sid)
  have "closes [] d (session_step v (now, e) d)"
    by (rule closes_update [where p = "\<lambda>s. ds_id s = sid \<and> is_live now s"
          and f = "\<lambda>s. s\<lparr>ds_imported_at := (case ds_imported_at s of None \<Rightarrow> Some now | Some t \<Rightarrow> Some t)\<rparr>"])
      (simp_all add: ImportData import_demo_row_def same_actions_def set_demo_def is_open_def)
  then show ?thesis by blast
next
  case ExpireSessions
  let ?ids = "map ds_id (filter (overdue now) (db_demo_sessions d))"
  let ?u = "set_demo (update_where (overdue now) (\<lambda>s. s\<lparr>ds_status := Expired, ds_ended_at := Some now\<rparr>) (db_demo_sessions d)) d"
  have db: "db_overlays (session_step v (now, e) d) = delete_where (\<lambda>v. ov_session v \<in> set ?ids) (db_overlays d)
      \<and> same_actions d (session_step v (now, e) d)"
  proof (cases "?ids = []")
    case True
    then have "session_step v (now, e) d = ?u" by (simp add: ExpireSessions expire_demo_sessions_def Let_def)
    then show ?thesis using True by (simp only: list.set) (simp add: same_actions_def set_demo_def)
  next
    case False
    then have "session_step v (now, e) d = forget_sessions ?ids ?u" by (simp add: ExpireSessions expire_demo_sessions_def Let_def)
    then show ?thesis by (simp only:) (subst forget_db, subst forget_db, simp add: same_actions_def set_demo_def)
  qed
  have "closes ?ids d (session_step v (now, e) d)"
    by (rule closes_update [where p = "overdue now" and f = "\<lambda>s. s\<lparr>ds_status := Expired, ds_ended_at := Some now\<rparr>"])
      (use db in \<open>auto simp: ExpireSessions expire_demo_sessions_sessions\<close>)
  then show ?thesis by blast
next
  case (AdvanceEpoch sid ws version epoch)
  have "closes [] d (session_step v (now, e) d)"
    by (rule closes_update [where p = "\<lambda>s. ds_id s = sid \<and> epoch_matches ws version epoch now s"
          and f = "\<lambda>s. s\<lparr>ds_chat_epoch := ds_chat_epoch s + 1\<rparr>"])
      (simp_all add: AdvanceEpoch advance_demo_chat_epoch_def update_demo_def same_actions_def set_demo_def is_open_def)
  then show ?thesis by blast
qed

section \<open>Every request keeps the sandbox\<close>

lemma session_step_sandbox:
  assumes ok: "sandbox_ok d"
  shows "sandbox_ok (session_step v (now, e) d)"
proof -
  let ?d = "session_step v (now, e) d"
  obtain ids where ids: "closes ids d ?d" using session_step_closes by blast
  then have same: "same_actions d ?d" and del: "db_overlays ?d = delete_where (\<lambda>v. ov_session v \<in> set ids) (db_overlays d)"
    and open_rows: "\<forall>s \<in> set (db_demo_sessions d). is_open s \<longrightarrow> ds_id s \<notin> set ids \<longrightarrow>
          (\<exists>t \<in> set (db_demo_sessions ?d). is_open t \<and> ds_id t = ds_id s \<and> ds_workspace t = ds_workspace s
             \<and> ds_dataset_version t = ds_dataset_version s \<and> ds_created_at t = ds_created_at s)"
    unfolding closes_def by blast+
  have "overlay_owner (db_demo_sessions ?d) (db_cards ?d) w" if w: "w \<in> set (db_overlays ?d)" for w
  proof -
    have w': "w \<in> set (db_overlays d)" "ov_session w \<notin> set ids" using w by (simp_all add: del)
    then obtain s r where s: "s \<in> set (db_demo_sessions d)" "ds_id s = ov_session w" "is_open s"
      and r: "r \<in> set (db_cards d)" "cr_id r = ov_action w" "cr_workspace r = ds_workspace s"
        "ds_dataset_version s = Some (cr_dataset_version r)" "cr_status r = Approved" "cr_current_revision r = ov_base_revision w"
        "case cr_terminal_at r of None \<Rightarrow> False | Some t \<Rightarrow> t < ds_created_at s"
      using ok by (auto simp: sandbox_ok_def overlay_owner_def)
    then obtain t where "t \<in> set (db_demo_sessions ?d)" "is_open t" "ds_id t = ds_id s" "ds_workspace t = ds_workspace s"
      "ds_dataset_version t = ds_dataset_version s" "ds_created_at t = ds_created_at s"
      using open_rows w'(2) by metis
    moreover have "r \<in> set (db_cards ?d)" using r(1) same by (simp add: same_actions_def)
    ultimately show ?thesis using s r unfolding overlay_owner_def by metis
  qed
  moreover have "overlay_log (ovs sid aid ?d)" for sid aid
  proof -
    have "ovs sid aid ?d = (if sid \<in> set ids then [] else ovs sid aid d)"
      by (auto simp: ovs_def del delete_where_def filter_empty_conv intro!: filter_cong)
    then show ?thesis using ok by (simp add: sandbox_ok_def)
  qed
  moreover have "sessions_ok ?d" "actions_ok ?d"
    using ok session_step_ok actions_ok_same [OF same] by (simp_all add: sandbox_ok_def)
  ultimately show ?thesis by (simp add: sandbox_ok_def)
qed

text \<open>An action request keeps the rows of approved cards, and knows no overlays and no sessions.\<close>

lemma action_step_frame:
  "db_overlays (action_step env e d) = db_overlays d \<and> db_demo_sessions (action_step env e d) = db_demo_sessions d"
proof (cases "(env, e, d)" rule: action_step.cases)
  case (1 env' now flt s fs key d')
  then show ?thesis using create_draft_db [of env s fs key now flt d]
    by (auto dest!: create_bodyD(3) create_rowsD(1))
next
  case (2 env' now flt aid rn cmd reason adj key d')
  then show ?thesis using decide_db [of env aid rn cmd reason adj key now flt d]
    by (auto dest!: fresh_decision simp: decided_def)
next
  case (3 env' now flt aid rn q key d')
  then show ?thesis using record_outcome_db [of env aid rn q key now flt d] by (auto dest!: outcome_bodyD)
next
  case (4 env' now flt aid rn key stored d')
  then show ?thesis using export_action_db [of env aid rn "''xlsx''" key stored now flt d] by auto
qed

lemma action_step_approved:
  assumes ok: "actions_ok d" and r: "r \<in> set (db_cards d)" "cr_status r = Approved"
  shows "r \<in> set (db_cards (action_step env e d))"
proof (cases "(env, e, d)" rule: action_step.cases)
  case (1 env' now flt s fs key d')
  then show ?thesis using create_draft_db [of env s fs key now flt d] r
    by (auto dest!: create_bodyD(3) create_rowsD(1))
next
  case (2 env' now flt aid rn cmd reason adj key d')
  have "r \<in> set (db_cards u)" if wf: "well_formed_decision cmd adj"
    and body: "decision_body env aid rn cmd reason adj kh rh now d = Inr (None, u)" for kh rh u
  proof -
    obtain c nxt x nr where c: "get_card (ae_workspace env) aid None d = Some c" "moves (cr_status (ca_row c)) cmd nxt"
      and u: "u = decided aid rn nxt x nr d" using fresh_decision [OF body] by blast
    note card = get_cardD [OF c(1)]
    have "cr_status (ca_row c) \<noteq> Approved" using c(2) wf by (auto simp: well_formed_decision_def split: option.splits)
    then have "cr_id r \<noteq> aid" using same_row [OF ok r(1) card(1)] card(2) r(2) by auto
    then have "move_card aid rn n nxt t r = r" for n t by (simp add: move_card_def)
    then show ?thesis using r(1) by (auto simp: u image_iff intro!: bexI [of _ r])
  qed
  then show ?thesis using decide_db [of env aid rn cmd reason adj key now flt d] r 2 by auto
next
  case (3 env' now flt aid rn q key d')
  then show ?thesis using record_outcome_db [of env aid rn q key now flt d] r by (auto dest!: outcome_bodyD)
next
  case (4 env' now flt aid rn key stored d')
  then show ?thesis using export_action_db [of env aid rn "''xlsx''" key stored now flt d] r by auto
qed

lemma action_step_sandbox:
  assumes ok: "sandbox_ok d"
  shows "sandbox_ok (action_step env e d)"
proof -
  let ?d = "action_step env e d"
  have a: "actions_ok d" and o: "\<forall>v \<in> set (db_overlays d). overlay_owner (db_demo_sessions d) (db_cards d) v"
    using ok by (auto simp: sandbox_ok_def)
  have "overlay_owner (db_demo_sessions ?d) (db_cards ?d) v" if "v \<in> set (db_overlays ?d)" for v
    using that o action_step_approved [OF a, of _ env e] unfolding overlay_owner_def by (simp only: action_step_frame) blast
  moreover have "overlay_log (ovs sid aid ?d)" for sid aid using ok by (simp add: sandbox_ok_def ovs_def action_step_frame)
  moreover have "sessions_ok ?d" using ok by (simp add: sandbox_ok_def sessions_ok_def action_step_frame)
  ultimately show ?thesis using action_step_ok [OF a] by (simp add: sandbox_ok_def)
qed

lemma simulate_sandbox:
  assumes ok: "sandbox_ok d"
  shows "sandbox_ok (snd (simulate env q key now flt d))"
proof -
  let ?d = "snd (simulate env q key now flt d)" and ?sid = "sm_session q" and ?aid = "sm_action q"
  from simulate_db [of env q key now flt d] show ?thesis
  proof (elim disjE exE conjE)
    assume "?d = d"
    then show ?thesis using ok by simp
  next
    fix kh v assume body: "simulate_body env q kh (simulation_hash env q) now d = Inr (v, ?d)"
      and checks: "simulation_checks env q key = Inr kh"
    note D = simulate_bodyD [OF body]
    have log: "overlay_log (ovs sid aid d)" for sid aid using ok by (simp add: sandbox_ok_def)
    have dec: "is_decision (sm_command q)" using checks by (auto simp: simulation_checks_def ebind_eq_Inr ensure_def split: if_splits)
    from D(4) show ?thesis
    proof (elim disjE conjE)
      assume "?d = d"
      then show ?thesis using ok by simp
    next
      assume "let log = list_overlays ?sid ?aid d in
        \<exists>nxt. moves (if log = [] then New else ov_status (last log)) (sm_command q) nxt
        \<and> v = new_overlay env q (length log) nxt kh (simulation_hash env q) now \<and> ?d = d\<lparr>db_overlays := db_overlays d @ [v]\<rparr>"
      then obtain nxt where mv: "moves (if ovs ?sid ?aid d = [] then New else ov_status (last (ovs ?sid ?aid d))) (sm_command q) nxt"
        and v: "v = new_overlay env q (length (ovs ?sid ?aid d)) nxt kh (simulation_hash env q) now"
        and d': "?d = d\<lparr>db_overlays := db_overlays d @ [v]\<rparr>"
        unfolding Let_def list_overlays_ovs [OF log] by blast
      have fields: "ov_session v = ?sid" "ov_action v = ?aid" "ov_revision v = int (length (ovs ?sid ?aid d)) + 1"
        "ov_command v = sm_command q" "ov_status v = nxt" "ov_base_revision v = sm_base q" by (simp_all add: v new_overlay_def)
      have app: "overlay_log (ovs ?sid ?aid d @ [v])"
        by (rule overlay_log_snoc [OF log]) (use fields dec mv in simp_all)
      have "overlay_log (ovs sid aid ?d)" for sid aid
        using app log fields by (cases "sid = ?sid \<and> aid = ?aid") (auto simp: d' ovs_def)
      moreover have "overlay_owner (db_demo_sessions d) (db_cards d) v"
      proof -
        obtain s r where s: "s \<in> set (db_demo_sessions d)" and r: "r \<in> set (db_cards d)" and p: "eligible_pair ?sid ?aid now s r"
          using D(2) by (auto simp: viewer_template_eligible_def list_ex_iff)
        obtain c where c: "get_card (ae_workspace env) ?aid None d = Some c" "cr_current_revision (ca_row c) = sm_base q"
          using D(3) by blast
        have "r = ca_row c"
          using same_row [OF _ r get_cardD(1) [OF c(1)]] get_cardD(2) [OF c(1)] p ok by (auto simp: eligible_pair_def sandbox_ok_def)
        then show ?thesis using s r p c(2) fields
          by (auto simp: overlay_owner_def eligible_pair_def is_live_def is_open_def intro!: bexI [of _ s] bexI [of _ r])
      qed
      moreover have "same_actions d ?d" by (simp add: d' same_actions_def)
      ultimately show ?thesis using ok actions_ok_same [of d ?d]
        by (auto simp: sandbox_ok_def d' sessions_ok_def)
    qed
  qed
qed

lemma reset_sandbox:
  assumes "sandbox_ok d"
  shows "sandbox_ok (snd (reset_simulation env sid epoch version scope now flt d))"
proof -
  obtain p where "snd (reset_simulation env sid epoch version scope now flt d)
      = d\<lparr>db_overlays := delete_where (\<lambda>v. ov_session v = sid \<and> p (ov_action v)) (db_overlays d)\<rparr>"
    using reset_db by blast
  then show ?thesis using sandbox_delete [OF assms, of "\<lambda>s a. s = sid \<and> p a"] by simp
qed

lemma world_step_sandbox: "sandbox_ok d \<Longrightarrow> sandbox_ok (world_step v env e d)"
  by (cases "(v, env, e, d)" rule: world_step.cases)
    (simp_all add: session_step_sandbox action_step_sandbox simulate_sandbox reset_sandbox)

interpretation sandbox: guarded_machine "world_step v env" sandbox_ok for v env
  by unfold_locales (rule world_step_sandbox)

section \<open>Properties\<close>

lemma empty_sandbox: "sandbox_ok empty_db"
  by (simp add: sandbox_ok_def sessions_ok_def actions_ok_def owned_def empty_db_def ovs_def)

definition world :: "demo_service \<Rightarrow> action_env \<Rightarrow> (time \<times> world_event) list \<Rightarrow> db" where
  "world v env es = fold (world_step v env) es empty_db"

lemma world_ok: "sandbox_ok (world v env es)"
  unfolding world_def by (rule sandbox.run_inv [OF empty_sandbox])

definition sample_world :: "(time \<times> world_event) list" where
  "sample_world = map (\<lambda>(t, f, e). (t, OnActions f e)) (sample_events @ [approval])
     @ [(10, OnSessions (CreateSession \<lparr>rq_id = ''s1'', rq_token = ''t1'', rq_csrf = ''c1'', rq_source = ''ip''\<rparr>))]"

definition sample_simulation :: "action_command \<Rightarrow> simulation" where
  "sample_simulation c = \<lparr>sm_session = ''s1'', sm_epoch = 0, sm_version = ''v1'', sm_action = sample_card, sm_base = 2,
     sm_command = c, sm_adjustment = [], sm_reason = ''try''\<rparr>"

definition sample_viewers :: demo_service where
  "sample_viewers = \<lparr>sv_workspace = ''demo'', sv_token_hash = (\<lambda>t. t), sv_release = Some ''v1'', sv_release_valid = None,
     sv_forecast_of = None, sv_bridge_of = None, sv_limit = 15\<rparr>"

text \<open>C27: however the requests of viewers, of the operator and of the sandbox interleave, an overlay
  belongs to an open session and to a card of that session's workspace and dataset version that was
  approved before the session began and is still at the revision the overlay was made on; and the
  overlays of a session on a card are numbered from one and replay the state machine of a new card.\<close>

theorem sandbox_sound:
  assumes "v \<in> set (db_overlays (world dv env es))"
  shows "(\<exists>s \<in> set (db_demo_sessions (world dv env es)). ds_id s = ov_session v \<and> ds_ended_at s = None
      \<and> (\<exists>r \<in> set (db_cards (world dv env es)). cr_id r = ov_action v \<and> cr_workspace r = ds_workspace s
          \<and> ds_dataset_version s = Some (cr_dataset_version r) \<and> cr_status r = Approved
          \<and> cr_current_revision r = ov_base_revision v \<and> (\<exists>t. cr_terminal_at r = Some t \<and> t < ds_created_at s)))
    \<and> (let log = list_overlays (ov_session v) (ov_action v) (world dv env es) in
        map ov_revision log = map int [1..<Suc (length log)] \<and> runs New (map ov_command log) (ov_status (last log)))"
proof -
  let ?d = "world dv env es" and ?log = "ovs (ov_session v) (ov_action v) (world dv env es)"
  have log: "overlay_log ?log" and own: "overlay_owner (db_demo_sessions ?d) (db_cards ?d) v"
    using world_ok [of dv env es] assms by (auto simp: sandbox_ok_def)
  have "?log \<noteq> []" using assms by (auto simp: ovs_def filter_empty_conv)
  then obtain n where n: "length ?log = Suc n" by (cases ?log) auto
  have "\<forall>i < length ?log. runs New (map ov_command (take (Suc i) ?log)) (ov_status (?log ! i))"
    using log unfolding overlay_log_def by blast
  moreover have "n < length ?log" using n by simp
  ultimately have "runs New (map ov_command (take (Suc n) ?log)) (ov_status (?log ! n))" by blast
  moreover have "take (Suc n) ?log = ?log" "?log ! n = last ?log" using n \<open>?log \<noteq> []\<close> by (simp_all add: last_conv_nth)
  ultimately have "runs New (map ov_command ?log) (ov_status (last ?log))" by (simp only:)
  moreover have "map ov_revision ?log = map int [1..<Suc (length ?log)]" using log by (simp add: overlay_log_def upto_int_def)
  moreover have "\<exists>s \<in> set (db_demo_sessions ?d). ds_id s = ov_session v \<and> ds_ended_at s = None
      \<and> (\<exists>r \<in> set (db_cards ?d). cr_id r = ov_action v \<and> cr_workspace r = ds_workspace s
          \<and> ds_dataset_version s = Some (cr_dataset_version r) \<and> cr_status r = Approved
          \<and> cr_current_revision r = ov_base_revision v \<and> (\<exists>t. cr_terminal_at r = Some t \<and> t < ds_created_at s))"
    using own by (fastforce simp: overlay_owner_def is_open_def split: option.splits)
  ultimately show ?thesis unfolding Let_def list_overlays_ovs [OF log] by blast
qed

theorem sandbox_sound_witness:
  "\<exists>v \<in> set (db_overlays (world sample_viewers sample_env (sample_world @ [(20, Simulate (sample_simulation Review) ''o1'' NoFault)]))).
     map ov_command (list_overlays (ov_session v) (ov_action v)
       (world sample_viewers sample_env (sample_world @ [(20, Simulate (sample_simulation Review) ''o1'' NoFault)]))) = [Review]
     \<and> ov_status v = Reviewed"
proof -
  let ?d = "world sample_viewers sample_env (sample_world @ [(20, Simulate (sample_simulation Review) ''o1'' NoFault)])"
  have one: "length (db_overlays ?d) = 1"
    and facts: "map ov_command (list_overlays (ov_session (db_overlays ?d ! 0)) (ov_action (db_overlays ?d ! 0)) ?d) = [Review]"
    by code_simp+
  then have v: "db_overlays ?d ! 0 \<in> set (db_overlays ?d)" by simp
  have "map ov_status (list_overlays (ov_session (db_overlays ?d ! 0)) (ov_action (db_overlays ?d ! 0)) ?d) = [ov_status (db_overlays ?d ! 0)]"
    by code_simp
  then have last: "ov_status (last (list_overlays (ov_session (db_overlays ?d ! 0)) (ov_action (db_overlays ?d ! 0)) ?d)) = ov_status (db_overlays ?d ! 0)"
    by (cases "list_overlays (ov_session (db_overlays ?d ! 0)) (ov_action (db_overlays ?d ! 0)) ?d") auto
  have "runs New [Review] (ov_status (db_overlays ?d ! 0))"
    using sandbox_sound [OF v] unfolding Let_def facts last by blast
  then have "ov_status (db_overlays ?d ! 0) = Reviewed"
    by (cases rule: runs.cases) (auto dest: runs_nilD)
  then show ?thesis using facts by (intro bexI [OF _ v] conjI)
qed

text \<open>A simulation or a reset of a viewer changes nothing but that viewer's own overlays: every other
  table, and every overlay of another session, is as it was, whatever the request and the fault.\<close>

theorem sandbox_isolated:
  "(let d' = snd (simulate env q key now flt d) in
      d'\<lparr>db_overlays := db_overlays d\<rparr> = d
      \<and> filter (\<lambda>v. ov_session v \<noteq> sm_session q) (db_overlays d') = filter (\<lambda>v. ov_session v \<noteq> sm_session q) (db_overlays d))
   \<and> (let d' = snd (reset_simulation env sid epoch version scope now flt d) in
      d'\<lparr>db_overlays := db_overlays d\<rparr> = d
      \<and> filter (\<lambda>v. ov_session v \<noteq> sid) (db_overlays d') = filter (\<lambda>v. ov_session v \<noteq> sid) (db_overlays d))"
proof -
  have sim: "u\<lparr>db_overlays := db_overlays d\<rparr> = d
      \<and> filter (\<lambda>v. ov_session v \<noteq> sm_session q) (db_overlays u) = filter (\<lambda>v. ov_session v \<noteq> sm_session q) (db_overlays d)"
    if "u = d \<or> (\<exists>kh v. simulate_body env q kh (simulation_hash env q) now d = Inr (v, u) \<and> P kh)" for u P
    using that by (auto simp: new_overlay_def Let_def dest!: simulate_bodyD(4))
  obtain p where p: "snd (reset_simulation env sid epoch version scope now flt d)
      = d\<lparr>db_overlays := delete_where (\<lambda>v. ov_session v = sid \<and> p (ov_action v)) (db_overlays d)\<rparr>"
    using reset_db by blast
  have "filter (\<lambda>v. ov_session v \<noteq> sid) (delete_where (\<lambda>v. ov_session v = sid \<and> p (ov_action v)) (db_overlays d))
      = filter (\<lambda>v. ov_session v \<noteq> sid) (db_overlays d)"
    by (auto simp: delete_where_def intro!: filter_cong)
  then show ?thesis unfolding Let_def p using sim [OF simulate_db [of env q key now flt d]] by simp
qed

text \<open>The two queries agree: a card can be simulated by a live session exactly when it is on the list
  of public cards that session sees.\<close>

theorem eligible_iff_listed:
  assumes "s \<in> set (db_demo_sessions (world dv env es))" and "is_live now s" and "ds_dataset_version s = Some version"
  shows "viewer_template_eligible (ds_id s) aid now (world dv env es)
    \<longleftrightarrow> aid \<in> (\<lambda>c. cr_id (ca_row c)) ` set (list_public_for_session (ds_workspace s) version (ds_created_at s) (world dv env es))"
proof -
  let ?d = "world dv env es"
  have "t = s" if "t \<in> set (db_demo_sessions ?d)" "ds_id t = ds_id s" for t
    using world_ok [of dv env es] that assms(1) by (auto simp: sandbox_ok_def sessions_ok_def distinct_map dest: inj_onD)
  then have "viewer_template_eligible (ds_id s) aid now ?d \<longleftrightarrow> (\<exists>r \<in> set (db_cards ?d). eligible_pair (ds_id s) aid now s r)"
    using assms(1) by (auto simp: viewer_template_eligible_def list_ex_iff eligible_pair_def)
  also have "\<dots> \<longleftrightarrow> (\<exists>r \<in> set (db_cards ?d). cr_id r = aid \<and> shown (ds_workspace s) version (ds_created_at s) r)"
    using assms(2,3) by (auto simp: eligible_pair_def shown_def)
  also have "\<dots> \<longleftrightarrow> aid \<in> (\<lambda>c. cr_id (ca_row c)) ` set (list_public_for_session (ds_workspace s) version (ds_created_at s) ?d)"
    by (auto simp: list_public_for_session_def shown_def children_def image_iff)
  finally show ?thesis .
qed

theorem eligible_iff_listed_witness:
  "viewer_template_eligible ''s1'' sample_card 20 (world sample_viewers sample_env sample_world)"
proof -
  let ?d = "world sample_viewers sample_env sample_world"
  let ?s = "db_demo_sessions ?d ! 0"
  have "?s \<in> set (db_demo_sessions ?d)" by (rule nth_mem) code_simp
  moreover have "is_live 20 ?s" "ds_dataset_version ?s = Some ''v1''" by code_simp+
  moreover have "ds_id ?s = ''s1''" by code_simp
  moreover have "sample_card \<in> (\<lambda>c. cr_id (ca_row c)) ` set (list_public_for_session (ds_workspace ?s) ''v1'' (ds_created_at ?s) ?d)"
    by code_simp
  ultimately show ?thesis using eligible_iff_listed [of ?s sample_viewers sample_env sample_world 20 "''v1''" sample_card] by simp
qed

end
