(* ===== verification/ActionAuthority.thy ===== *)
theory ActionAuthority
  imports Lifecycle "HOL-Library.AList"
begin

text \<open>
  The source authority of an action (\<open>_validate_source_authority\<close> and its helpers in
  \<open>src/services/action_service.py\<close>): an action is accepted only when every fact it names is
  read back from the run, forecast, bridge or chat turn it claims to come from, and every number
  it states is one of those facts. The rows and stored objects it reads are fields of a record.
\<close>

section \<open>What the authority reads\<close>

record analysis_run =
  ar_id :: uuid
  ar_workspace :: string
  ar_dataset_version :: uuid
  ar_completed :: bool
  ar_kind :: string
  ar_algorithm :: string
  ar_input_hash :: string
  ar_scope :: "(string \<times> json) list"

record stored_object =
  so_workspace :: string
  so_available :: bool
  so_purpose :: string
  so_sha256 :: string
  so_content :: "string option"

text \<open>\<open>open_verified\<close> and reading either give the bytes or raise (\<open>None\<close>).\<close>

record forecast_row =
  fo_id :: uuid
  fo_dataset_version :: uuid
  fo_completed :: bool
  fo_confidence :: "certainty option"
  fo_input :: json
  fo_evidence :: json
  fo_result :: json
  fo_backtest :: json

record bridge_row =
  br_id :: uuid
  br_dataset_version :: uuid
  br_scope :: "(string \<times> json) list"
  br_evidence :: "(string \<times> json) list"

text \<open>\<open>amount_brl\<close> is \<open>Numeric(18, 2)\<close>: the amount in cents.\<close>

record bridge_item =
  bi_driver :: string
  bi_cents :: "int option"
  bi_state :: fact_state

record turn_authority =
  tu_operator :: bool
  tu_dataset_version :: uuid
  tu_answered :: bool
  tu_tool :: "string option"
  tu_schema :: "string option"
  tu_result_hash :: "string option"
  tu_scope :: "(string \<times> json) list"

record tool_run =
  tl_succeeded :: bool
  tl_tool :: string
  tl_result_hash :: "string option"
  tl_summary :: json

record tool_fact =
  tf_ref :: string
  tf_state :: fact_state
  tf_evidence :: "string list"
  tf_value :: "string option"

record draft_spec =
  sp_suggestion :: string
  sp_target :: string
  sp_quantity :: "literal option"
  sp_budget :: "literal option"
  sp_expected_impact :: "(string \<times> string) list"
  sp_confidence :: certainty
  sp_limitations :: "string list"
  sp_fact_refs :: "string list"

record tool_result =
  to_period_start :: date
  to_period_end :: date
  to_currency :: string
  to_stores :: "string list"
  to_facts :: "tool_fact list"
  to_draft :: "draft_spec option"

record authority =
  au_workspace :: string
  au_run :: "uuid \<Rightarrow> analysis_run option"
  au_artifact :: "uuid \<Rightarrow> (string \<times> uuid) option"
  au_stored :: "uuid \<Rightarrow> stored_object option"
  au_json :: "string \<Rightarrow> json option"
  au_sha256 :: "string \<Rightarrow> string"
  au_evidence :: "uuid \<Rightarrow> (string \<times> fact_state) list"
  au_forecast :: "uuid \<Rightarrow> forecast_row option"
  au_bridge :: "uuid \<Rightarrow> bridge_row option"
  au_items :: "uuid \<Rightarrow> bridge_item list"
  au_turn :: "uuid \<Rightarrow> turn_authority option"
  au_tool_run :: "uuid \<Rightarrow> tool_run option"
  au_chat_evidence :: "uuid \<Rightarrow> (string \<times> fact_state \<times> string) list"
  au_tool_result :: "json \<Rightarrow> tool_result option"

section \<open>Paths and values\<close>

text \<open>The element of a list that a path segment names: the one whose first identifier has that text.\<close>

definition item_name :: "(string \<times> json) list \<Rightarrow> string" where
  "item_name fs = json_text (jget_or fs ''sku_id'' (jget_or fs ''driver'' (jget fs ''horizon_days'')))"

definition named_items :: "string \<Rightarrow> json list \<Rightarrow> json list" where
  "named_items seg xs = filter (\<lambda>x. case x of JObj fs \<Rightarrow> item_name fs = seg | _ \<Rightarrow> False) xs"

fun resolve_path :: "json \<Rightarrow> string list \<Rightarrow> action_error + json" where
  "resolve_path v [] = Inr v"
| "resolve_path (JObj fs) (seg # segs) =
     (case map_of fs seg of None \<Rightarrow> Inl (ActionInvalid ''fact_path_invalid'') | Some v \<Rightarrow> resolve_path v segs)"
| "resolve_path (JList xs) (seg # segs) =
     (case named_items seg xs of [v] \<Rightarrow> resolve_path v segs | _ \<Rightarrow> Inl (ActionInvalid ''fact_path_invalid''))"
| "resolve_path _ (seg # segs) = Inl (ActionInvalid ''fact_path_invalid'')"

definition resolve_authority_path :: "json \<Rightarrow> string \<Rightarrow> action_error + json" where
  "resolve_authority_path v path = resolve_path v (split_at (CHR ''.'') path)"

definition fact_value :: "json \<Rightarrow> action_error + string option" where
  "fact_value v = (case v of
     JNull \<Rightarrow> Inr None
   | JList _ \<Rightarrow> Inl (ActionInvalid ''fact_value_not_scalar'')
   | JObj _ \<Rightarrow> Inl (ActionInvalid ''fact_value_not_scalar'')
   | _ \<Rightarrow> Inr (Some (json_text v)))"

section \<open>Numbers and their facts\<close>

type_synonym resolved = "(string \<times> string option) list"

text \<open>\<open>_linked_values_equal\<close> of a fact with a text, and with a decimal: \<open>format(value, 'f')\<close> of a finite
  decimal parses to that decimal, so it is equal to a fact exactly when the fact parses to it.\<close>

definition texts_equal :: "string \<Rightarrow> string option \<Rightarrow> bool" where
  "texts_equal right left \<longleftrightarrow> left = Some right
     \<or> (case left of None \<Rightarrow> False | Some l \<Rightarrow>
          (case (parse_decimal l, parse_decimal right) of (Some (Finite x), Some (Finite y)) \<Rightarrow> x = y | _ \<Rightarrow> False))"

definition decimal_equal :: "dec \<Rightarrow> string option \<Rightarrow> bool" where
  "decimal_equal x left \<longleftrightarrow> (case left of None \<Rightarrow> False | Some l \<Rightarrow> parse_decimal l = Some (Finite x))"

definition has_suffix :: "string list \<Rightarrow> string \<Rightarrow> bool" where
  "has_suffix suffixes alias \<longleftrightarrow> list_ex (\<lambda>s. ends_with (CHR ''.'' # s) alias) suffixes"

definition linked :: "(string option \<Rightarrow> bool) \<Rightarrow> resolved \<Rightarrow> string list \<Rightarrow> bool" where
  "linked eq rs suffixes \<longleftrightarrow> list_ex (\<lambda>(alias, v). eq v \<and> has_suffix suffixes alias) rs"

definition require_linked :: "string \<Rightarrow> bool \<Rightarrow> action_error + unit" where
  "require_linked field ok = ensure ok (ActionInvalid (''action_'' @ field @ ''_unproven''))"

text \<open>A number of an action; the special values were refused before.\<close>

definition number_linked :: "literal option \<Rightarrow> resolved \<Rightarrow> string list \<Rightarrow> bool" where
  "number_linked v rs suffixes = (case v of None \<Rightarrow> True | Some NonFinite \<Rightarrow> False | Some (Finite x) \<Rightarrow> linked (decimal_equal x) rs suffixes)"

text \<open>\<open>split(c, 1)\<close> and \<open>partition\<close>: what stands before and after the first mark.\<close>

definition before_mark :: "char \<Rightarrow> string \<Rightarrow> string" where
  "before_mark c s = takeWhile (\<lambda>x. x \<noteq> c) s"

definition after_mark :: "char \<Rightarrow> string \<Rightarrow> string option" where
  "after_mark c s = (case dropWhile (\<lambda>x. x \<noteq> c) s of [] \<Rightarrow> None | _ # t \<Rightarrow> Some t)"

text \<open>The identifiers after \<open>items\<close> and \<open>skus\<close> in a path.\<close>

fun path_identifiers :: "string list \<Rightarrow> string list" where
  "path_identifiers (p # q # ps) = (if p \<in> {''items'', ''skus''} then [q] else []) @ path_identifiers (q # ps)"
| "path_identifiers ps = []"

definition authority_identifiers :: "string \<Rightarrow> string list" where
  "authority_identifiers alias =
     (case after_mark (CHR '':'') (before_mark (CHR ''|'') alias) of None \<Rightarrow> [] | Some i \<Rightarrow> [i])
     @ (case after_mark (CHR ''|'') alias of None \<Rightarrow> [] | Some path \<Rightarrow> path_identifiers (split_at (CHR ''.'') path))"

fun impact_links :: "resolved \<Rightarrow> (string \<times> string) list \<Rightarrow> action_error + unit" where
  "impact_links rs [] = Inr ()"
| "impact_links rs ((k, v) # m) = ebind (require_linked k (linked (texts_equal v) rs [k])) (\<lambda>_. impact_links rs m)"

definition validate_value_links :: "action_source \<Rightarrow> resolved \<Rightarrow> bool \<Rightarrow> action_error + unit" where
  "validate_value_links s rs require_target =
     ebind (ensure (require_target \<longrightarrow> list_ex (\<lambda>(alias, _). ac_target s \<in> set (authority_identifiers alias)) rs)
       (ActionInvalid ''action_target_unproven'')) (\<lambda>_.
     ebind (require_linked ''quantity'' (number_linked (ac_quantity s) rs
       [''recommended_quantity'', ''recommended_first_order_units'', ''quantity''])) (\<lambda>_.
     ebind (require_linked ''budget'' (number_linked (ac_budget s) rs
       [''budget_brl'', ''amount_brl'', ''planned_daily_ad_brl'', ''cash_required.value''])) (\<lambda>_.
     ebind (require_linked ''action_date'' (case ac_action_date s of None \<Rightarrow> True
       | Some x \<Rightarrow> linked (texts_equal (isoformat x)) rs [''latest_order_date'', ''planned_launch_date'', ''action_date''])) (\<lambda>_.
     ebind (require_linked ''threshold'' (number_linked (ac_threshold s) rs [''threshold'', ''reorder_point_units''])) (\<lambda>_.
       impact_links rs (ac_expected_impact s))))))"

section \<open>Analyses\<close>

definition verified_snapshot :: "authority \<Rightarrow> analysis_run \<Rightarrow> (string \<times> uuid) option \<Rightarrow> stored_object option
    \<Rightarrow> action_error + (string \<times> json) list" where
  "verified_snapshot au run artifact stored =
     (case (artifact, stored) of
        (Some (sha, _), Some st) \<Rightarrow>
          if so_workspace st \<noteq> ar_workspace run \<or> \<not> so_available st \<or> so_purpose st \<noteq> ''evidence'' \<or> so_sha256 st \<noteq> sha
          then Inl (ActionInvalid ''analysis_snapshot_invalid'')
          else (case so_content st of
              None \<Rightarrow> Inl (ActionInvalid ''analysis_snapshot_invalid'')
            | Some content \<Rightarrow>
                (case au_json au content of
                   Some (JObj payload) \<Rightarrow>
                     if au_sha256 au content \<noteq> sha \<or> jget payload ''run_id'' \<noteq> JStr (ar_id run)
                       \<or> jget payload ''dataset_version_id'' \<noteq> JStr (ar_dataset_version run)
                       \<or> jget payload ''analysis_kind'' \<noteq> JStr (ar_kind run)
                       \<or> jget payload ''algorithm_version'' \<noteq> JStr (ar_algorithm run)
                       \<or> jget payload ''input_hash'' \<noteq> JStr (ar_input_hash run)
                       \<or> \<not> json_eq (jget payload ''scope'') (JObj (ar_scope run))
                     then Inl (ActionInvalid ''analysis_snapshot_invalid'') else Inr payload
                 | _ \<Rightarrow> Inl (ActionInvalid ''analysis_snapshot_invalid'')))
      | _ \<Rightarrow> Inl (ActionInvalid ''analysis_snapshot_invalid''))"

definition validate_fact_binding :: "string \<Rightarrow> string \<Rightarrow> action_error + unit" where
  "validate_fact_binding evidence_alias path =
     (let ids = path_identifiers (split_at (CHR ''.'') path) in
      ensure (ids = [] \<or> (case after_mark (CHR '':'') evidence_alias of None \<Rightarrow> False | Some i \<Rightarrow> list_all (\<lambda>j. j = i) ids))
        (ActionInvalid ''analysis_fact_authority_mismatch''))"

fun analysis_facts :: "authority \<Rightarrow> analysis_run \<Rightarrow> (string \<times> json) list \<Rightarrow> fact_ref list \<Rightarrow> action_error + resolved" where
  "analysis_facts au run snapshot [] = Inr []"
| "analysis_facts au run snapshot (f # fs) =
     (case after_mark (CHR ''|'') (fr_alias f) of
        None \<Rightarrow> Inl (ActionInvalid ''analysis_fact_path_invalid'')
      | Some path \<Rightarrow>
          let evidence_alias = before_mark (CHR ''|'') (fr_alias f) in
          ebind (validate_fact_binding evidence_alias path) (\<lambda>_.
          ebind (resolve_authority_path (JObj snapshot) path) (\<lambda>v.
          ebind (fact_value v) (\<lambda>expected.
          ebind (ensure (map_of (rev (au_evidence au (ar_id run))) evidence_alias = Some (fr_state f)
              \<and> fr_source_ref f = ''analysis:'' @ ar_id run @ '':'' @ fr_alias f \<and> fr_value f = expected)
            (ActionInvalid ''analysis_evidence_invalid'')) (\<lambda>_.
          ebind (analysis_facts au run snapshot fs) (\<lambda>rs. Inr ((fr_alias f, expected) # rs)))))))"

definition validate_analysis :: "authority \<Rightarrow> action_source \<Rightarrow> fact_ref list \<Rightarrow> uuid \<Rightarrow> action_error + unit" where
  "validate_analysis au s fs rid =
     (case au_run au rid of
        None \<Rightarrow> Inl (ActionInvalid ''analysis_source_invalid'')
      | Some run \<Rightarrow>
          ebind (ensure (ar_dataset_version run = as_dataset_version s \<and> ar_completed run) (ActionInvalid ''analysis_source_invalid'')) (\<lambda>_.
          ebind (ensure (json_eq (JObj (ac_scope s)) (JObj (ar_scope run))) (ActionInvalid ''analysis_scope_invalid'')) (\<lambda>_.
          ebind (ensure (jget (ar_scope run) ''period_start'' = JStr (isoformat (ac_period_start s))
              \<and> jget (ar_scope run) ''period_end'' = JStr (isoformat (ac_period_end s))) (ActionInvalid ''analysis_period_invalid'')) (\<lambda>_.
          let artifact = au_artifact au (ar_id run);
              stored = (case artifact of None \<Rightarrow> None | Some (_, oid) \<Rightarrow> au_stored au oid) in
          ebind (verified_snapshot au run artifact stored) (\<lambda>snapshot.
          ebind (analysis_facts au run snapshot fs) (\<lambda>rs. validate_value_links s rs True))))))"

section \<open>Forecasts\<close>

fun forecast_facts :: "uuid \<Rightarrow> json \<Rightarrow> fact_ref list \<Rightarrow> action_error + resolved" where
  "forecast_facts fid doc [] = Inr []"
| "forecast_facts fid doc (f # fs) =
     ebind (resolve_authority_path doc (fr_alias f)) (\<lambda>v.
     ebind (fact_value v) (\<lambda>expected.
       let state = (if expected = None then Unknown
                    else if starts_with ''input_snapshot.'' (fr_alias f) then Assumed else Derived) in
       ebind (ensure (fr_source_ref f = ''forecast:'' @ fid @ '':'' @ fr_alias f \<and> fr_state f = state \<and> fr_value f = expected)
         (ActionInvalid ''forecast_evidence_invalid'')) (\<lambda>_.
       ebind (forecast_facts fid doc fs) (\<lambda>rs. Inr ((fr_alias f, expected) # rs)))))"

definition forecast_limitations :: "json list \<Rightarrow> json list \<Rightarrow> string list" where
  "forecast_limitations ls missing =
     ''synthetic_demo_only'' # map json_text ls @ map (\<lambda>m. ''missing_field:'' @ json_text m) missing"

definition forecast_scope :: "action_source \<Rightarrow> (string \<times> json) list" where
  "forecast_scope s = [(''store_id'', JStr ''SYNTH-STORE-01''), (''currency'', JStr ''BRL''),
     (''period_start'', JStr (isoformat (ac_period_start s))), (''period_end'', JStr (isoformat (ac_period_end s)))]"

definition forecast_document :: "forecast_row \<Rightarrow> json" where
  "forecast_document fo = JObj [(''input_snapshot'', fo_input fo), (''evidence'', fo_evidence fo),
     (''result'', fo_result fo), (''backtest'', fo_backtest fo)]"

text \<open>
  The scope of a forecast's action. Launch dates that do not parse and ends past the calendar are
  exceptions of \<open>datetime\<close>, which the caller does not turn into an invalid action.
\<close>

definition forecast_scope_ok :: "action_source \<Rightarrow> forecast_row \<Rightarrow> json \<Rightarrow> json \<Rightarrow> json \<Rightarrow> action_error + unit" where
  "forecast_scope_ok s fo launch_date limitations missing =
     (case parse_iso (json_text launch_date) of
        None \<Rightarrow> Inl (Unexpected ''ValueError'')
      | Some launch \<Rightarrow>
          (case (limitations, missing) of
             (JList ls, JList ms) \<Rightarrow>
               ebind (ensure (ac_target s = ''SYNTH-FORECAST-'' @ fo_id fo
                   \<and> json_eq (JObj (ac_scope s)) (JObj (forecast_scope s)) \<and> fo_confidence fo = Some (ac_confidence s)
                   \<and> set (ac_limitations s) = set (forecast_limitations ls ms)
                   \<and> ac_period_start s = launch \<and> launch \<le> ac_period_end s)
                 (ActionInvalid ''forecast_action_scope_invalid'')) (\<lambda>_.
               (case add_days launch 89 of
                  Inl _ \<Rightarrow> Inl (Unexpected ''OverflowError'')
                | Inr limit \<Rightarrow> ensure (ac_period_end s \<le> limit) (ActionInvalid ''forecast_action_scope_invalid'')))
           | _ \<Rightarrow> Inl (ActionInvalid ''forecast_limitations_invalid'')))"

definition validate_forecast :: "authority \<Rightarrow> action_source \<Rightarrow> fact_ref list \<Rightarrow> uuid \<Rightarrow> action_error + unit" where
  "validate_forecast au s fs fid =
     (case au_forecast au fid of
        None \<Rightarrow> Inl (ActionInvalid ''forecast_source_invalid'')
      | Some fo \<Rightarrow>
          ebind (ensure (fo_dataset_version fo = as_dataset_version s \<and> fo_completed fo) (ActionInvalid ''forecast_source_invalid'')) (\<lambda>_.
          ebind (forecast_facts (fo_id fo) (forecast_document fo) fs) (\<lambda>rs.
            (case fo_input fo of
               JObj input \<Rightarrow>
                 (case (jget input ''candidate'', fo_result fo) of
                    (JObj candidate, JObj result) \<Rightarrow>
                      ebind (forecast_scope_ok s fo (jget candidate ''planned_launch_date'')
                          (jget result ''limitations'') (jget result ''missing_fields'')) (\<lambda>_.
                        validate_value_links s rs False)
                  | _ \<Rightarrow> Inl (ActionInvalid ''forecast_input_invalid''))
             | _ \<Rightarrow> Inl (Unexpected ''AttributeError'')))))"

section \<open>Profit bridges\<close>

text \<open>\<open>format(amount, 'f')\<close> of an amount with two places.\<close>

definition cents_text :: "int \<Rightarrow> string" where
  "cents_text c = (if c < 0 then ''-'' else []) @ show_int (\<bar>c\<bar> div 100) @ ''.'' @ pad 2 (\<bar>c\<bar> mod 100)"

fun bridge_facts :: "bridge_row \<Rightarrow> bridge_item list \<Rightarrow> fact_ref list \<Rightarrow> action_error + resolved" where
  "bridge_facts br items [] = Inr []"
| "bridge_facts br items (f # fs) =
     (case split_at (CHR ''.'') (fr_alias f) of
        [a, driver, b] \<Rightarrow>
          if a \<noteq> ''items'' \<or> b \<noteq> ''amount_brl'' then Inl (ActionInvalid ''bridge_fact_path_invalid'')
          else (case find (\<lambda>i. bi_driver i = driver) (rev items) of
              None \<Rightarrow> Inl (ActionInvalid ''bridge_evidence_invalid'')
            | Some i \<Rightarrow>
                let expected = map_option cents_text (bi_cents i) in
                ebind (ensure (fr_source_ref f = ''profit_bridge:'' @ br_id br @ '':'' @ fr_alias f
                    \<and> fr_state f = bi_state i \<and> fr_value f = expected) (ActionInvalid ''bridge_evidence_invalid'')) (\<lambda>_.
                ebind (bridge_facts br items fs) (\<lambda>rs. Inr ((fr_alias f, expected) # rs))))
      | _ \<Rightarrow> Inl (ActionInvalid ''bridge_fact_path_invalid''))"

definition validate_bridge :: "authority \<Rightarrow> action_source \<Rightarrow> fact_ref list \<Rightarrow> uuid \<Rightarrow> action_error + unit" where
  "validate_bridge au s fs bid =
     (case au_bridge au bid of
        None \<Rightarrow> Inl (ActionInvalid ''bridge_source_invalid'')
      | Some br \<Rightarrow>
          ebind (ensure (br_dataset_version br = as_dataset_version s) (ActionInvalid ''bridge_source_invalid'')) (\<lambda>_.
          ebind (ensure (json_eq (JObj (ac_scope s)) (JObj (br_scope br))) (ActionInvalid ''bridge_scope_invalid'')) (\<lambda>_.
          ebind (ensure (json_eq (jget (br_evidence br) ''current_period'')
              (JList [JStr (isoformat (ac_period_start s)), JStr (isoformat (ac_period_end s))])) (ActionInvalid ''bridge_period_invalid'')) (\<lambda>_.
          ebind (bridge_facts br (au_items au (br_id br)) fs) (\<lambda>rs. validate_value_links s rs False)))))"

section \<open>Chat turns\<close>

definition decimals_equal :: "literal option \<Rightarrow> literal option \<Rightarrow> bool" where
  "decimals_equal v w \<longleftrightarrow> (case (v, w) of (None, None) \<Rightarrow> True | (Some (Finite x), Some (Finite y)) \<Rightarrow> x = y | _ \<Rightarrow> False)"

definition chat_scope :: "tool_result \<Rightarrow> (string \<times> json) list" where
  "chat_scope r = [(''period_start'', JStr (isoformat (to_period_start r))), (''period_end'', JStr (isoformat (to_period_end r))),
     (''currency'', JStr (to_currency r))] @ (case to_stores r of [i] \<Rightarrow> [(''store_id'', JStr i)] | _ \<Rightarrow> [])"

definition draft_matches :: "action_source \<Rightarrow> tool_result \<Rightarrow> draft_spec \<Rightarrow> bool" where
  "draft_matches s r sp \<longleftrightarrow> ac_suggestion s = sp_suggestion sp \<and> ac_target s = sp_target sp
     \<and> ac_period_start s = to_period_start r \<and> ac_period_end s = to_period_end r
     \<and> json_eq (JObj (ac_scope s)) (JObj (chat_scope r))
     \<and> decimals_equal (ac_quantity s) (sp_quantity sp) \<and> decimals_equal (ac_budget s) (sp_budget sp)
     \<and> ac_action_date s = None \<and> ac_threshold s = None
     \<and> json_eq (json_impact (ac_expected_impact s)) (json_impact (sp_expected_impact sp))
     \<and> ac_confidence s = sp_confidence sp \<and> ac_limitations s = sp_limitations sp"

definition chat_fact_ok :: "tool_fact list \<Rightarrow> (string \<times> fact_state \<times> string) list \<Rightarrow> fact_ref \<Rightarrow> bool" where
  "chat_fact_ok tfs rows f \<longleftrightarrow>
     (case (find (\<lambda>t. tf_ref t = fr_alias f) tfs, map_of (rev rows) (fr_alias f)) of
        (Some t, Some (state, ref)) \<Rightarrow> tf_evidence t \<noteq> [] \<and> fr_state f = tf_state t \<and> fr_source_ref f = hd (tf_evidence t)
          \<and> fr_value f = tf_value t \<and> state = tf_state t \<and> ref = hd (tf_evidence t)
      | _ \<Rightarrow> False)"

definition validate_chat :: "authority \<Rightarrow> action_source \<Rightarrow> fact_ref list \<Rightarrow> uuid \<Rightarrow> action_error + unit" where
  "validate_chat au s fs tid =
     (case (au_turn au tid, au_tool_run au tid) of
        (Some tu, Some tn) \<Rightarrow>
          (case tl_summary tn of
             JObj summary \<Rightarrow>
               ebind (ensure (tu_operator tu \<and> tu_dataset_version tu = as_dataset_version s \<and> tu_answered tu
                   \<and> tu_tool tu = ac_chat_tool s \<and> tu_schema tu = ac_answer_version s \<and> tl_succeeded tn
                   \<and> Some (tl_tool tn) = ac_chat_tool s \<and> tl_result_hash tn = tu_result_hash tu)
                 (ActionInvalid ''chat_source_invalid'')) (\<lambda>_.
               (case au_tool_result au (JObj (AList.update ''scope'' (JObj (tu_scope tu)) summary)) of
                  None \<Rightarrow> Inl (ActionInvalid ''chat_result_invalid'')
                | Some r \<Rightarrow>
                    (case to_draft r of
                       None \<Rightarrow> Inl (ActionInvalid ''chat_action_not_eligible'')
                     | Some sp \<Rightarrow>
                         ebind (ensure (draft_matches s r sp) (ActionInvalid ''chat_action_authority_mismatch'')) (\<lambda>_.
                         let tfs = filter (\<lambda>t. tf_ref t \<in> set (sp_fact_refs sp)) (to_facts r) in
                         ebind (ensure (set (map tf_ref tfs) = set (sp_fact_refs sp) \<and> length fs = length (sp_fact_refs sp))
                           (ActionInvalid ''chat_fact_set_invalid'')) (\<lambda>_.
                         ensure (list_all (chat_fact_ok (rev tfs) (au_chat_evidence au tid)) fs) (ActionInvalid ''chat_evidence_invalid''))))))
           | _ \<Rightarrow> Inl (ActionInvalid ''chat_source_invalid''))
      | _ \<Rightarrow> Inl (ActionInvalid ''chat_source_invalid''))"

section \<open>The source of an action\<close>

definition no_chat :: "action_source \<Rightarrow> bool" where
  "no_chat s \<longleftrightarrow> ac_chat_turn s = None \<and> ac_chat_tool s = None \<and> ac_answer_version s = None"

definition validate_kind :: "authority \<Rightarrow> action_source \<Rightarrow> fact_ref list \<Rightarrow> action_error + unit" where
  "validate_kind au s fs =
     (case as_source_type s of
        NewProductForecast \<Rightarrow>
          ensure (ac_forecast s \<noteq> None \<and> ac_analysis_run s = None \<and> ac_bridge s = None \<and> no_chat s) (ActionInvalid ''forecast_source_required'')
      | ProfitBridgeSource \<Rightarrow>
          ensure (ac_bridge s \<noteq> None \<and> ac_analysis_run s = None \<and> ac_forecast s = None \<and> no_chat s) (ActionInvalid ''bridge_source_required'')
      | ChatBoxDraft \<Rightarrow>
          (case (ac_chat_turn s, ac_chat_tool s, ac_answer_version s) of
             (Some tid, Some _, Some _) \<Rightarrow>
               ebind (ensure (ac_analysis_run s = None \<and> ac_forecast s = None \<and> ac_bridge s = None) (ActionInvalid ''chat_source_required''))
                 (\<lambda>_. validate_chat au s fs tid)
           | _ \<Rightarrow> Inl (ActionInvalid ''chat_source_required''))
      | _ \<Rightarrow>
          ensure (ac_analysis_run s \<noteq> None \<and> ac_forecast s = None \<and> ac_bridge s = None \<and> no_chat s) (ActionInvalid ''analysis_source_required''))"

definition when_named :: "uuid option \<Rightarrow> (uuid \<Rightarrow> action_error + unit) \<Rightarrow> action_error + unit" where
  "when_named i f = (case i of None \<Rightarrow> Inr () | Some x \<Rightarrow> f x)"

definition validate_source_authority :: "authority \<Rightarrow> action_source \<Rightarrow> fact_ref list \<Rightarrow> action_error + unit" where
  "validate_source_authority au s fs =
     ebind (validate_kind au s fs) (\<lambda>_.
     ebind (when_named (ac_analysis_run s) (validate_analysis au s fs)) (\<lambda>_.
     ebind (when_named (ac_forecast s) (validate_forecast au s fs)) (\<lambda>_.
       when_named (ac_bridge s) (validate_bridge au s fs))))"

section \<open>What was read\<close>

abbreviation stated :: "fact_ref list \<Rightarrow> resolved" where
  "stated fs \<equiv> map (\<lambda>f. (fr_alias f, fr_value f)) fs"

lemma joined_split: "joined [c] (split_at c s) = s"
proof (induction s)
  case Nil
  then show ?case by simp
next
  case (Cons x s)
  have "split_at c s \<noteq> []" by (cases s) (auto split: list.splits)
  then show ?case using Cons by (cases "split_at c s") (auto, case_tac list, auto)
qed

lemma ensure_Inr [simp]: "ensure b e = Inr u \<longleftrightarrow> b"
  by (simp add: ensure_def)

lemma analysis_facts_read:
  "analysis_facts au run snap fs = Inr rs \<Longrightarrow> rs = stated fs
     \<and> (\<forall>f \<in> set fs. \<exists>path v. after_mark (CHR ''|'') (fr_alias f) = Some path
          \<and> resolve_authority_path (JObj snap) path = Inr v \<and> fact_value v = Inr (fr_value f))"
proof (induction fs arbitrary: rs)
  case Nil
  then show ?case by simp
next
  case (Cons f fs)
  from Cons.prems obtain path v rs' where 1: "after_mark (CHR ''|'') (fr_alias f) = Some path"
    "resolve_authority_path (JObj snap) path = Inr v" "fact_value v = Inr (fr_value f)"
    and rs': "analysis_facts au run snap fs = Inr rs'" "rs = (fr_alias f, fr_value f) # rs'"
    by (auto simp: ebind_eq_Inr Let_def split: option.splits)
  then show ?case using Cons.IH [OF rs'(1)] by auto
qed

lemma forecast_facts_read:
  "forecast_facts fid doc fs = Inr rs \<Longrightarrow> rs = stated fs
     \<and> (\<forall>f \<in> set fs. \<exists>v. resolve_authority_path doc (fr_alias f) = Inr v \<and> fact_value v = Inr (fr_value f))"
proof (induction fs arbitrary: rs)
  case Nil
  then show ?case by simp
next
  case (Cons f fs)
  from Cons.prems obtain v rs' where 1: "resolve_authority_path doc (fr_alias f) = Inr v" "fact_value v = Inr (fr_value f)"
    and rs': "forecast_facts fid doc fs = Inr rs'" "rs = (fr_alias f, fr_value f) # rs'"
    by (auto simp: ebind_eq_Inr Let_def)
  then show ?case using Cons.IH [OF rs'(1)] by auto
qed

definition cents_json :: "int option \<Rightarrow> json" where
  "cents_json c = (case c of None \<Rightarrow> JNull | Some n \<Rightarrow> JStr (cents_text n))"

lemma fact_value_cents: "fact_value (cents_json c) = Inr (map_option cents_text c)"
  by (cases c) (simp_all add: fact_value_def cents_json_def json_text_def)

lemma bridge_facts_read:
  "bridge_facts br items fs = Inr rs \<Longrightarrow> rs = stated fs
     \<and> (\<forall>f \<in> set fs. \<exists>i \<in> set items. fr_alias f = ''items.'' @ bi_driver i @ ''.amount_brl''
          \<and> fr_value f = map_option cents_text (bi_cents i))"
proof (induction fs arbitrary: rs)
  case Nil
  then show ?case by simp
next
  case (Cons f fs)
  from Cons.prems obtain driver i rs' where parts: "split_at (CHR ''.'') (fr_alias f) = [''items'', driver, ''amount_brl'']"
    and i: "find (\<lambda>i. bi_driver i = driver) (rev items) = Some i" "fr_value f = map_option cents_text (bi_cents i)"
    and rs': "bridge_facts br items fs = Inr rs'" "rs = (fr_alias f, fr_value f) # rs'"
    by (auto simp: ebind_eq_Inr Let_def split: list.splits if_splits option.splits)
  have "fr_alias f = ''items.'' @ driver @ ''.amount_brl''"
    using joined_split [of "CHR ''.''" "fr_alias f"] by (simp add: parts)
  moreover have "i \<in> set items" "bi_driver i = driver" using select_one_SomeD [unfolded select_one_def, OF i(1)] by simp_all
  ultimately show ?case using Cons.IH [OF rs'(1)] rs'(2) i(2) by auto
qed

text \<open>A number backed by a fact: the fact has one of the names for it, and its value is that number.\<close>

definition backed :: "literal option \<Rightarrow> fact_ref list \<Rightarrow> string list \<Rightarrow> bool" where
  "backed v fs suffixes = (case v of None \<Rightarrow> True | Some NonFinite \<Rightarrow> False | Some (Finite x) \<Rightarrow>
     (\<exists>f \<in> set fs. has_suffix suffixes (fr_alias f) \<and> (\<exists>t. fr_value f = Some t \<and> parse_decimal t = Some (Finite x))))"

lemma number_linked_backed: "number_linked v (stated fs) suffixes \<longleftrightarrow> backed v fs suffixes"
  by (auto simp: number_linked_def backed_def linked_def decimal_equal_def list_ex_iff split: option.splits literal.splits)

lemma value_links_backed:
  assumes "validate_value_links s (stated fs) b = Inr ()"
  shows "backed (ac_quantity s) fs [''recommended_quantity'', ''recommended_first_order_units'', ''quantity'']"
    "backed (ac_budget s) fs [''budget_brl'', ''amount_brl'', ''planned_daily_ad_brl'', ''cash_required.value'']"
    "backed (ac_threshold s) fs [''threshold'', ''reorder_point_units'']"
  using assms by (auto simp: validate_value_links_def require_linked_def ebind_eq_Inr number_linked_backed)

lemma validate_forecastD:
  assumes "validate_forecast au s fs fid = Inr ()"
  shows "\<exists>fo. au_forecast au fid = Some fo \<and> fo_completed fo \<and> fo_dataset_version fo = as_dataset_version s
    \<and> forecast_facts (fo_id fo) (forecast_document fo) fs = Inr (stated fs) \<and> validate_value_links s (stated fs) False = Inr ()"
proof -
  from assms obtain fo where fo: "au_forecast au fid = Some fo" by (auto simp: validate_forecast_def split: option.splits)
  with assms obtain rs where rs: "fo_completed fo" "fo_dataset_version fo = as_dataset_version s"
    "forecast_facts (fo_id fo) (forecast_document fo) fs = Inr rs"
    by (auto simp: validate_forecast_def ebind_eq_Inr)
  obtain input where input: "fo_input fo = JObj input"
    using assms fo rs by (cases "fo_input fo") (auto simp: validate_forecast_def ebind_eq_Inr)
  obtain cand where cand: "jget input ''candidate'' = JObj cand"
    using assms fo rs input by (cases "jget input ''candidate''") (auto simp: validate_forecast_def ebind_eq_Inr)
  have "validate_value_links s rs False = Inr ()"
    using assms fo rs input cand by (cases "fo_result fo") (auto simp: validate_forecast_def ebind_eq_Inr)
  then show ?thesis using fo rs forecast_facts_read [OF rs(3)] by auto
qed

lemma authority_links:
  assumes ok: "validate_source_authority au s fs = Inr ()" and kind: "as_source_type s \<noteq> ChatBoxDraft"
  shows "\<exists>b. validate_value_links s (stated fs) b = Inr ()"
proof -
  have kinds: "validate_kind au s fs = Inr ()" and a: "when_named (ac_analysis_run s) (validate_analysis au s fs) = Inr ()"
    and f: "when_named (ac_forecast s) (validate_forecast au s fs) = Inr ()" and b: "when_named (ac_bridge s) (validate_bridge au s fs) = Inr ()"
    using ok by (auto simp: validate_source_authority_def ebind_eq_Inr)
  consider (run) rid where "ac_analysis_run s = Some rid" | (fc) fid where "ac_forecast s = Some fid" | (br) bid where "ac_bridge s = Some bid"
    using kinds kind by (auto simp: validate_kind_def split: source_type.splits)
  then show ?thesis
  proof cases
    case run
    then show ?thesis using a
      by (auto simp: when_named_def validate_analysis_def ebind_eq_Inr Let_def split: option.splits dest!: analysis_facts_read)
  next
    case fc
    then show ?thesis using f by (auto simp: when_named_def dest!: validate_forecastD)
  next
    case br
    then show ?thesis using b
      by (auto simp: when_named_def validate_bridge_def ebind_eq_Inr split: option.splits dest!: bridge_facts_read)
  qed
qed

section \<open>Properties\<close>


text \<open>A small authority: one run with one item.\<close>

definition sample_scope :: "(string \<times> json) list" where
  "sample_scope = [(''currency'', JStr ''BRL''), (''period_start'', JStr ''2024-03-01''), (''period_end'', JStr ''2024-03-07'')]"

definition sample_run :: analysis_run where
  "sample_run = \<lparr>ar_id = ''r1'', ar_workspace = ''demo'', ar_dataset_version = ''v1'', ar_completed = True,
     ar_kind = ''replenishment'', ar_algorithm = ''1'', ar_input_hash = ''h'', ar_scope = sample_scope\<rparr>"

definition sample_snapshot :: "(string \<times> json) list" where
  "sample_snapshot = [(''run_id'', JStr ''r1''), (''dataset_version_id'', JStr ''v1''), (''analysis_kind'', JStr ''replenishment''),
     (''algorithm_version'', JStr ''1''), (''input_hash'', JStr ''h''), (''scope'', JObj sample_scope),
     (''result'', JObj [(''items'', JList [JObj [(''sku_id'', JStr ''SYNTH-1''), (''recommended_quantity'', JStr ''12.0'')]])])]"

definition sample_authority :: authority where
  "sample_authority = \<lparr>au_workspace = ''demo'', au_run = (\<lambda>i. if i = ''r1'' then Some sample_run else None),
     au_artifact = (\<lambda>_. Some (''sha'', ''o1'')),
     au_stored = (\<lambda>_. Some \<lparr>so_workspace = ''demo'', so_available = True, so_purpose = ''evidence'', so_sha256 = ''sha'', so_content = Some ''doc''\<rparr>),
     au_json = (\<lambda>_. Some (JObj sample_snapshot)), au_sha256 = (\<lambda>_. ''sha''), au_evidence = (\<lambda>_. [(''plan:SYNTH-1'', Derived)]),
     au_forecast = (\<lambda>_. None), au_bridge = (\<lambda>_. None), au_items = (\<lambda>_. []), au_turn = (\<lambda>_. None), au_tool_run = (\<lambda>_. None),
     au_chat_evidence = (\<lambda>_. []), au_tool_result = (\<lambda>_. None)\<rparr>"

definition sample_claim :: action_source where
  "sample_claim = \<lparr>ac_suggestion = ''Reorder'', ac_target = ''SYNTH-1'', ac_period_start = to_ordinal 2024 3 1,
     ac_period_end = to_ordinal 2024 3 7, ac_scope = rev sample_scope, ac_quantity = Some (Finite 12), ac_budget = None,
     ac_action_date = None, ac_threshold = None, ac_expected_impact = [], ac_confidence = Medium, ac_limitations = [],
     ac_analysis_run = Some ''r1'', ac_forecast = None, ac_bridge = None, ac_chat_turn = None, ac_chat_tool = None,
     ac_answer_version = None, as_source_type = DeterministicRule, as_dataset_version = ''v1''\<rparr>"

definition sample_fact :: fact_ref where
  "sample_fact = \<lparr>fr_alias = ''plan:SYNTH-1|result.items.SYNTH-1.recommended_quantity'', fr_state = Derived,
     fr_source_ref = ''analysis:r1:plan:SYNTH-1|result.items.SYNTH-1.recommended_quantity'', fr_value = Some ''12.0''\<rparr>"


end
