(* ===== verification/ActionEvidence.thy ===== *)
theory ActionEvidence
  imports ActionAuthority ActionCards
begin

text \<open>The action service with its source authority: the numbers of a card are facts that stay with it.\<close>


definition evidence_env :: action_env where
  "evidence_env = sample_env\<lparr>ae_authority := validate_source_authority sample_authority\<rparr>"

definition evidence_history :: "(time \<times> fault \<times> action_event) list" where
  "evidence_history =
     [(1, NoFault, CreateDraft sample_claim [sample_fact] ''k0''),
      (2, NoFault, Decide (create_id evidence_env ''k0'') 1 Review ''ok'' None ''k1''),
      (3, NoFault, Decide (create_id evidence_env ''k0'') 1 Adjust ''less'' (Some (empty_adjustment\<lparr>aj_quantity := Some (Finite 8)\<rparr>)) ''k2'')]"


end
