(* ===== verification/PyRegex.thy ===== *)
theory PyRegex
  imports PyValue
begin

text \<open>
  What the program uses of Python's \<open>re\<close> module, on ASCII text. An expression is a tree; matching
  starts from a state, the character before it and the text after it, and \<open>ends\<close> lists the
  states in which a match can end. The program asks whether a match exists (\<open>search\<close>,
  \<open>fullmatch\<close>), for which the order in which \<open>re\<close> tries alternatives does not matter.
\<close>

section \<open>Characters\<close>

definition is_upper :: "char \<Rightarrow> bool" where
  "is_upper c = (let n = (of_char c :: nat) in 65 \<le> n \<and> n \<le> 90)"

definition is_lower :: "char \<Rightarrow> bool" where
  "is_lower c = (let n = (of_char c :: nat) in 97 \<le> n \<and> n \<le> 122)"

definition is_letter :: "char \<Rightarrow> bool" where
  "is_letter c \<longleftrightarrow> is_upper c \<or> is_lower c"

definition is_alnum :: "char \<Rightarrow> bool" where
  "is_alnum c \<longleftrightarrow> is_letter c \<or> is_digit c"

definition is_word :: "char \<Rightarrow> bool" where
  "is_word c \<longleftrightarrow> is_alnum c \<or> c = CHR ''_''"

section \<open>Expressions\<close>

datatype regex =
    Empty
  | One "char \<Rightarrow> bool"
  | Cat regex regex
  | Alt regex regex
  | Star regex
  | Edge
  | NotAfter "char \<Rightarrow> bool"
  | NotBefore "char \<Rightarrow> bool"

type_synonym spot = "char option \<times> string"

definition holds_before :: "(char \<Rightarrow> bool) \<Rightarrow> spot \<Rightarrow> bool" where
  "holds_before p x = (case fst x of None \<Rightarrow> False | Some c \<Rightarrow> p c)"

definition holds_next :: "(char \<Rightarrow> bool) \<Rightarrow> spot \<Rightarrow> bool" where
  "holds_next p x = (case snd x of [] \<Rightarrow> False | c # _ \<Rightarrow> p c)"

text \<open>At most \<open>n\<close> rounds of a loop body, each from where the last one ended.\<close>

fun rounds :: "nat \<Rightarrow> (spot \<Rightarrow> spot list) \<Rightarrow> spot \<Rightarrow> spot list" where
  "rounds 0 f x = [x]"
| "rounds (Suc n) f x = x # concat (map (rounds n f) (f x))"

text \<open>
  A loop that makes progress in each round ends after as many rounds as there are characters;
  rounds without progress add nothing.
\<close>

primrec ends :: "regex \<Rightarrow> spot \<Rightarrow> spot list" where
  "ends Empty = (\<lambda>x. [x])"
| "ends (One p) = (\<lambda>x. case snd x of [] \<Rightarrow> [] | c # cs \<Rightarrow> if p c then [(Some c, cs)] else [])"
| "ends (Cat r s) = (\<lambda>x. concat (map (ends s) (ends r x)))"
| "ends (Alt r s) = (\<lambda>x. ends r x @ ends s x)"
| "ends (Star r) = (\<lambda>x. rounds (length (snd x)) (ends r) x)"
| "ends Edge = (\<lambda>x. if holds_before is_word x \<noteq> holds_next is_word x then [x] else [])"
| "ends (NotAfter p) = (\<lambda>x. if holds_before p x then [] else [x])"
| "ends (NotBefore p) = (\<lambda>x. if holds_next p x then [] else [x])"

fun search_from :: "regex \<Rightarrow> char option \<Rightarrow> string \<Rightarrow> bool" where
  "search_from r p [] = (ends r (p, []) \<noteq> [])"
| "search_from r p (c # cs) = (ends r (p, c # cs) \<noteq> [] \<or> search_from r (Some c) cs)"

definition search :: "regex \<Rightarrow> string \<Rightarrow> bool" where
  "search r s = search_from r None s"

definition fullmatch :: "regex \<Rightarrow> string \<Rightarrow> bool" where
  "fullmatch r s = list_ex (\<lambda>e. snd e = []) (ends r (None, s))"

section \<open>Derived forms\<close>

definition cats :: "regex list \<Rightarrow> regex" where
  "cats rs = foldr Cat rs Empty"

fun alts :: "regex list \<Rightarrow> regex" where
  "alts [] = One (\<lambda>_. False)"
| "alts [r] = r"
| "alts (r # rs) = Alt r (alts rs)"

definition lit :: "string \<Rightarrow> regex" where
  "lit s = cats (map (\<lambda>c. One (\<lambda>d. d = c)) s)"

text \<open>Text under \<open>IGNORECASE\<close>.\<close>

definition lit_ci :: "string \<Rightarrow> regex" where
  "lit_ci s = cats (map (\<lambda>c. One (\<lambda>d. lower_char d = lower_char c)) s)"

definition opt :: "regex \<Rightarrow> regex" where
  "opt r = Alt r Empty"

definition plus :: "regex \<Rightarrow> regex" where
  "plus r = Cat r (Star r)"

fun times :: "nat \<Rightarrow> regex \<Rightarrow> regex" where
  "times 0 r = Empty"
| "times (Suc n) r = Cat r (times n r)"

fun up_to :: "nat \<Rightarrow> regex \<Rightarrow> regex" where
  "up_to 0 r = Empty"
| "up_to (Suc n) r = opt (Cat r (up_to n r))"

definition between :: "nat \<Rightarrow> nat \<Rightarrow> regex \<Rightarrow> regex" where
  "between m n r = Cat (times m r) (up_to (n - m) r)"

definition at_least :: "nat \<Rightarrow> regex \<Rightarrow> regex" where
  "at_least m r = Cat (times m r) (Star r)"

section \<open>Matches are infixes\<close>

text \<open>From a spot the text is read up to another one.\<close>

definition reads :: "spot \<Rightarrow> string \<Rightarrow> spot \<Rightarrow> bool" where
  "reads x u y \<longleftrightarrow> snd x = u @ snd y \<and> fst y = (if u = [] then fst x else Some (last u))"

lemma reads_refl [simp]: "reads x [] x"
  by (simp add: reads_def)

lemma reads_NilD: "reads x [] y \<Longrightarrow> y = x"
  by (cases x; cases y) (auto simp: reads_def)

lemma reads_trans: "reads x u y \<Longrightarrow> reads y v z \<Longrightarrow> reads x (u @ v) z"
  by (auto simp: reads_def)

lemma rounds_reads:
  assumes "\<And>a b. b \<in> set (f a) \<Longrightarrow> \<exists>u. reads a u b" and "y \<in> set (rounds n f x)"
  shows "\<exists>u. reads x u y"
  using assms(2)
proof (induction n arbitrary: x)
  case 0
  then have "y = x" by simp
  then show ?case using reads_refl by blast
next
  case (Suc n)
  then consider "y = x" | z where "z \<in> set (f x)" "y \<in> set (rounds n f z)" by auto
  then show ?case using reads_refl assms(1) Suc.IH reads_trans by cases blast+
qed

lemma ends_reads: "y \<in> set (ends r x) \<Longrightarrow> \<exists>u. reads x u y"
proof (induction r arbitrary: x y)
  case Empty
  then have "y = x" by simp
  then show ?case using reads_refl by blast
next
  case (One p)
  then obtain c cs where "snd x = c # cs" "y = (Some c, cs)" by (cases "snd x") (auto split: if_splits)
  then have "reads x [c] y" by (simp add: reads_def)
  then show ?case by blast
next
  case (Cat r s)
  then obtain z where "z \<in> set (ends r x)" "y \<in> set (ends s z)" by auto
  then show ?case using Cat.IH reads_trans by blast
next
  case (Alt r s)
  from Alt.prems have "y \<in> set (ends r x) \<or> y \<in> set (ends s x)" by simp
  then show ?case using Alt.IH by blast
next
  case (Star r)
  show ?case by (rule rounds_reads [of "ends r"]) (use Star in auto)
next
  case Edge
  then have "y = x" by (auto split: if_splits)
  then show ?case using reads_refl by blast
next
  case (NotAfter p)
  then have "y = x" by (auto split: if_splits)
  then show ?case using reads_refl by blast
next
  case (NotBefore p)
  then have "y = x" by (auto split: if_splits)
  then show ?case using reads_refl by blast
qed

lemma rounds_keeps:
  assumes "I x" and "\<And>a b. I a \<Longrightarrow> b \<in> set (f a) \<Longrightarrow> I b" and "y \<in> set (rounds n f x)"
  shows "I y"
  using assms(1,3)
proof (induction n arbitrary: x)
  case 0
  then show ?case by simp
next
  case (Suc n)
  then consider "y = x" | z where "z \<in> set (f x)" "y \<in> set (rounds n f z)" by auto
  then show ?case using Suc assms(2) by cases blast+
qed

lemma rounds_start: "x \<in> set (rounds n f x)"
  by (cases n) simp_all

lemma in_Cat: "y \<in> set (ends (Cat r s) x) \<longleftrightarrow> (\<exists>z \<in> set (ends r x). y \<in> set (ends s z))"
  by auto

lemma in_plus: "y \<in> set (ends (plus r) x) \<longleftrightarrow> (\<exists>z \<in> set (ends r x). y \<in> set (ends (Star r) z))"
  by (auto simp: plus_def)

lemma in_Star: "y \<in> set (ends (Star r) x) \<longleftrightarrow> y \<in> set (rounds (length (snd x)) (ends r) x)"
  by simp

end
