(* ===== verification/Boundary.thy ===== *)
theory Boundary
  imports PyRegex PyJson "HOL-Library.Sublist"
begin

text \<open>
  \<open>src/synthetic/boundary.py\<close>: the checks of a record before it is stored. A field name that
  sounds like a secret, a value that looks like personal data, a credential, a link or a
  spreadsheet formula is refused; the stricter check of prepared demo data also refuses labels
  of real sources and identifiers outside the synthetic name space. Text is ASCII, so the
  accented range of the address pattern is empty.
\<close>

section \<open>Patterns\<close>

definition not_space_or :: "char list \<Rightarrow> regex" where
  "not_space_or cs = One (\<lambda>c. \<not> is_space c \<and> c \<notin> set cs)"

definition email_pattern :: regex where
  "email_pattern = cats [Edge, plus (not_space_or ''@''), lit ''@'', plus (not_space_or ''@''), lit ''.'',
     plus (not_space_or ''@''), Edge]"

definition phone_pattern :: regex where
  "phone_pattern = alts [cats [lit ''+'', between 8 15 (One is_digit)],
     cats [Edge, between 10 15 (One is_digit), Edge]]"

definition credential_pattern :: regex where
  "credential_pattern = alts
     [cats [lit_ci ''sk-'', opt (lit_ci ''proj-''), at_least 12 (One (\<lambda>c. is_word c \<or> c = CHR ''-''))],
      lit_ci ''AccountKey='', cats [lit_ci ''postgres'', opt (lit_ci ''ql''), lit_ci ''://''],
      cats [lit_ci ''-----BEGIN '', alts [lit_ci ''RSA '', lit_ci ''EC '', lit_ci ''OPENSSH '', Empty],
            lit_ci ''PRIVATE KEY-----'']]"

definition url_pattern :: regex where
  "url_pattern = cats [lit_ci ''http'', opt (lit_ci ''s''), lit_ci ''://'']"

definition address_name :: regex where
  "address_name = Cat (One is_letter)
     (between 1 80 (One (\<lambda>c. is_letter c \<or> c \<in> set '' .-'' \<or> c = CHR 39)))"

definition address_pattern :: regex where
  "address_pattern = alts
     [cats [Edge, between 1 6 (One is_digit), plus (One is_space), address_name, plus (One is_space),
            alts (map lit_ci [''street'', ''st'', ''avenue'', ''ave'', ''road'', ''rd'', ''boulevard'', ''blvd'',
              ''lane'', ''ln'', ''drive'', ''dr'']), Edge],
      cats [Edge, alts [lit_ci ''rua'', lit_ci ''avenida'', Cat (lit_ci ''av'') (opt (lit_ci ''.'')), lit_ci ''travessa'',
              lit_ci ''alameda'', lit_ci ''rodovia''], plus (One is_space), address_name,
            opt (cats [opt (lit '',''), Star (One is_space), between 1 6 (One is_digit)]), Edge]]"

definition forbidden_source :: regex where
  "forbidden_source = cats [Edge, alts (map lit_ci [''google_trends'', ''mercado_live'', ''real'', ''private'']), Edge]"

text \<open>A field name is lower case and has no line break: \<open>^\<close> and \<open>$\<close> are its two ends.\<close>

definition at_start :: regex where
  "at_start = NotAfter (\<lambda>_. True)"

definition at_end :: regex where
  "at_end = NotBefore (\<lambda>_. True)"

definition sensitive_field :: regex where
  "sensitive_field = cats [alts [at_start, lit ''_''],
     alts [cats [opt (lit_ci ''e''), lit_ci ''mail''], lit_ci ''phone'', lit_ci ''mobile'', lit_ci ''address'', lit_ci ''password'',
       lit_ci ''passwd'', lit_ci ''secret'', lit_ci ''token'', lit_ci ''credential'',
       cats [lit_ci ''api'', opt (lit ''_''), lit_ci ''key''], cats [lit_ci ''access'', opt (lit ''_''), lit_ci ''key''],
       cats [lit_ci ''private'', opt (lit ''_''), lit_ci ''key'']],
     alts [at_end, lit ''_'']]"

definition scenario_pattern :: regex where
  "scenario_pattern = Cat (One is_lower)
     (between 1 63 (One (\<lambda>c. is_lower c \<or> is_digit c \<or> c = CHR ''_'')))"

definition negative_number :: regex where
  "negative_number = cats [lit ''-'', plus (One is_digit), opt (cats [lit ''.'', plus (One is_digit)])]"

section \<open>The check\<close>

datatype rule = SensitiveField | EmailPattern | PhonePattern | CredentialPattern | ExternalUrl | AddressPattern
  | ForbiddenSourceLabel | SourceClassificationInvalid | UnapprovedIdentifier | FormulaPattern

definition text_rules :: "(regex \<times> rule) list" where
  "text_rules = [(email_pattern, EmailPattern), (phone_pattern, PhonePattern), (credential_pattern, CredentialPattern),
     (url_pattern, ExternalUrl), (address_pattern, AddressPattern)]"

text \<open>\<open>field.strip().lower().rsplit(".", 1)[-1]\<close>\<close>

definition last_name :: "string \<Rightarrow> string" where
  "last_name field = rev (takeWhile (\<lambda>c. c \<noteq> CHR ''.'') (rev (map lower_char (strip field))))"

definition synthetic_rule :: "string \<Rightarrow> string \<Rightarrow> rule option" where
  "synthetic_rule name v =
     (if search forbidden_source v then Some ForbiddenSourceLabel
      else if name = ''source_classification'' \<and> v \<noteq> ''pure_synthetic'' then Some SourceClassificationInvalid
      else if suffix ''_id'' name \<and> v \<noteq> '''' then
        (if name = ''scenario_id'' then (if fullmatch scenario_pattern v then None else Some UnapprovedIdentifier)
         else if prefix ''SYNTH-'' v then None else Some UnapprovedIdentifier)
      else None)"

definition formula_rule :: "string \<Rightarrow> rule option" where
  "formula_rule v =
     (if prefix ''='' v \<or> prefix ''+'' v \<or> prefix ''@'' v then Some FormulaPattern
      else if prefix ''-'' v \<and> \<not> fullmatch negative_number v then Some FormulaPattern
      else None)"

definition violating_rule :: "bool \<Rightarrow> string \<Rightarrow> string \<Rightarrow> rule option" where
  "violating_rule synthetic_only field v =
     (let name = last_name field in
      if search sensitive_field name then Some SensitiveField else
      case find (\<lambda>(p, _). search p v) text_rules of
        Some (_, r) \<Rightarrow> Some r
      | None \<Rightarrow> (case (if synthetic_only then synthetic_rule name v else None) of
            Some r \<Rightarrow> Some r
          | None \<Rightarrow> formula_rule v))"

datatype boundary_error = BoundaryError nat string rule

definition field_text :: "json \<Rightarrow> string" where
  "field_text v = (case v of JNull \<Rightarrow> '''' | _ \<Rightarrow> json_text v)"

fun validate_record :: "bool \<Rightarrow> nat \<Rightarrow> (string \<times> json) list \<Rightarrow> boundary_error + unit" where
  "validate_record only n [] = Inr ()"
| "validate_record only n ((field, v) # fs) =
     (case violating_rule only field (field_text v) of
        Some r \<Rightarrow> Inl (BoundaryError n field r)
      | None \<Rightarrow> validate_record only n fs)"

fun validate_records :: "bool \<Rightarrow> nat \<Rightarrow> (string \<times> json) list list \<Rightarrow> boundary_error + unit" where
  "validate_records only n [] = Inr ()"
| "validate_records only n (r # rs) =
     ebind (validate_record only n r) (\<lambda>_. validate_records only (Suc n) rs)"

definition validate_synthetic_records :: "(string \<times> json) list list \<Rightarrow> boundary_error + unit" where
  "validate_synthetic_records = validate_records True 1"

definition validate_safe_import_records :: "(string \<times> json) list list \<Rightarrow> boundary_error + unit" where
  "validate_safe_import_records = validate_records False 1"

text \<open>What the synthetic check accepts the check of operator data accepts too.\<close>

lemma synthetic_is_safe:
  assumes "validate_records True n rs = Inr ()"
  shows "validate_records False n rs = Inr ()"
proof -
  have one: "violating_rule True f v = None \<Longrightarrow> violating_rule False f v = None" for f v
    by (auto simp: violating_rule_def Let_def split: if_splits option.splits)
  have row: "validate_record True k r = Inr () \<Longrightarrow> validate_record False k r = Inr ()" for k r
    by (induction r) (auto split: option.splits dest: one)
  show ?thesis using assms
    by (induction rs arbitrary: n) (auto simp: ebind_eq_Inr dest: row)
qed

end
