(* ===== verification/ChatContracts.thy ===== *)
theory ChatContracts
  imports Boundary
begin

text \<open>
  The closed contracts of the assistant (\<open>src/ai/contracts.py\<close>): scopes, query plans, facts,
  tool results, explanations, answers, with the checks their constructors make. A closed set of
  names that only the plan carries is text with a check; the currency, always \<open>BRL\<close>, is left out.
\<close>

datatype tool_name = MetricLookup | TrendCompare | SkuRank | ProfitBridgeExplain | InventoryRiskLookup
  | ForecastLookup | DataQualityLookup | ActionCardLookup | MonthlySalesReportLookup

datatype query_arguments =
    MetricLookupArguments string string
  | TrendCompareArguments string string
  | SkuRankArguments string string int
  | ProfitBridgeArguments string
  | InventoryRiskArguments string string int
  | ForecastArguments int string
  | DataQualityArguments string
  | ActionCardArguments string string int
  | MonthlySalesReportArguments string

fun arguments_ok :: "query_arguments \<Rightarrow> bool" where
  "arguments_ok (MetricLookupArguments metric period) \<longleftrightarrow>
     metric \<in> set [''gross_sales'', ''net_sales'', ''units'', ''orders'', ''aov'', ''ad_spend'',
                    ''contribution_profit'', ''operating_profit'']
     \<and> period \<in> set [''current'', ''previous'']"
| "arguments_ok (TrendCompareArguments metric comparison) \<longleftrightarrow>
     metric \<in> set [''net_sales'', ''units'', ''orders'', ''ad_spend'']
     \<and> comparison \<in> set [''current_vs_previous'', ''daily_current'']"
| "arguments_ok (SkuRankArguments metric direction n) \<longleftrightarrow>
     metric \<in> set [''net_sales'', ''units'', ''ad_spend'', ''inventory_cover'', ''replenishment_quantity'',
                    ''replenishment_cash'', ''contribution_profit'']
     \<and> direction \<in> set [''top'', ''bottom''] \<and> 1 \<le> n \<and> n \<le> 20"
| "arguments_ok (ProfitBridgeArguments view) \<longleftrightarrow> view \<in> set [''drivers'', ''summary'']"
| "arguments_ok (InventoryRiskArguments view risk n) \<longleftrightarrow>
     view \<in> set [''risks'', ''replenishment'']
     \<and> risk \<in> set [''all'', ''stockout'', ''balanced'', ''overstock'', ''unknown''] \<and> 1 \<le> n \<and> n \<le> 20"
| "arguments_ok (ForecastArguments days view) \<longleftrightarrow>
     days \<in> set [7, 30, 90] \<and> view \<in> set [''inputs'', ''scenarios'', ''analogs'', ''limitations'']"
| "arguments_ok (DataQualityArguments part) \<longleftrightarrow>
     part \<in> set [''coverage'', ''limitations'', ''evidence'', ''missing'', ''mapping'']"
| "arguments_ok (ActionCardArguments status view n) \<longleftrightarrow>
     status \<in> set [''all'', ''new'', ''reviewed'', ''approved'', ''dismissed'']
     \<and> view \<in> set [''summary'', ''revisions'', ''decisions'', ''exports'', ''outcomes''] \<and> 1 \<le> n \<and> n \<le> 20"
| "arguments_ok (MonthlySalesReportArguments report) \<longleftrightarrow> report = ''latest_completed''"

fun arguments_tool :: "query_arguments \<Rightarrow> tool_name" where
  "arguments_tool (MetricLookupArguments _ _) = MetricLookup"
| "arguments_tool (TrendCompareArguments _ _) = TrendCompare"
| "arguments_tool (SkuRankArguments _ _ _) = SkuRank"
| "arguments_tool (ProfitBridgeArguments _) = ProfitBridgeExplain"
| "arguments_tool (InventoryRiskArguments _ _ _) = InventoryRiskLookup"
| "arguments_tool (ForecastArguments _ _) = ForecastLookup"
| "arguments_tool (DataQualityArguments _) = DataQualityLookup"
| "arguments_tool (ActionCardArguments _ _ _) = ActionCardLookup"
| "arguments_tool (MonthlySalesReportArguments _) = MonthlySalesReportLookup"

record query_plan =
  qp_tool :: tool_name
  qp_arguments :: query_arguments

definition plan_ok :: "query_plan \<Rightarrow> bool" where
  "plan_ok p \<longleftrightarrow> arguments_ok (qp_arguments p) \<and> arguments_tool (qp_arguments p) = qp_tool p"

datatype plan_status = Planned | NeedsClarification | OutsideCatalog

record planning_decision =
  pd_status :: plan_status
  pd_plan :: "query_plan option"

definition decision_ok :: "planning_decision \<Rightarrow> bool" where
  "decision_ok d \<longleftrightarrow> (pd_status d = Planned) = (pd_plan d \<noteq> None)
     \<and> (case pd_plan d of None \<Rightarrow> True | Some p \<Rightarrow> plan_ok p)"

section \<open>Scopes\<close>

datatype context_kind = InventoryContext | BridgeContext | ForecastContext | ActionContext

fun pinned_reference :: "context_kind \<Rightarrow> string" where
  "pinned_reference InventoryContext = ''inventory_analysis:pinned''"
| "pinned_reference BridgeContext = ''profit_bridge:pinned''"
| "pinned_reference ForecastContext = ''forecast:pinned''"
| "pinned_reference ActionContext = ''action_cards:pinned''"

fun context_tool :: "context_kind \<Rightarrow> tool_name" where
  "context_tool InventoryContext = InventoryRiskLookup"
| "context_tool BridgeContext = ProfitBridgeExplain"
| "context_tool ForecastContext = ForecastLookup"
| "context_tool ActionContext = ActionCardLookup"

record query_scope =
  qs_workspace :: string
  qs_actor :: chat_actor
  qs_session_created_at :: "time option"
  qs_forecast :: "uuid option"
  qs_bridge :: "uuid option"
  qs_context_kind :: "context_kind option"
  qs_context_reference :: "string option"
  qs_dataset_version :: uuid
  qs_stores :: "string list"
  qs_period_start :: date
  qs_period_end :: date

definition store_name_ok :: "string \<Rightarrow> bool" where
  "store_name_ok s \<longleftrightarrow> s \<noteq> '''' \<and> length s \<le> 100 \<and> strip s = s"

definition scope_ok :: "query_scope \<Rightarrow> bool" where
  "scope_ok s \<longleftrightarrow> 1 \<le> length (qs_workspace s) \<and> length (qs_workspace s) \<le> 100
     \<and> (case qs_context_reference s of None \<Rightarrow> True | Some r \<Rightarrow> length r \<le> 100)
     \<and> 1 \<le> length (qs_stores s) \<and> length (qs_stores s) \<le> 32
     \<and> qs_period_start s \<le> qs_period_end s
     \<and> distinct (qs_stores s) \<and> list_all store_name_ok (qs_stores s)
     \<and> (case qs_context_kind s of
          None \<Rightarrow> qs_context_reference s = None
        | Some k \<Rightarrow> qs_context_reference s = Some (pinned_reference k))"

record chat_principal =
  cp_actor :: chat_actor
  cp_workspace :: string
  cp_dataset_version :: uuid
  cp_stores :: "string list"
  cp_period_start :: date
  cp_period_end :: date
  cp_session_created_at :: "time option"
  cp_forecast :: "uuid option"
  cp_bridge :: "uuid option"
  cp_operator :: "uuid option"
  cp_chat_epoch :: int

definition principal_scope :: "chat_principal \<Rightarrow> context_kind option \<Rightarrow> string option \<Rightarrow> query_scope option" where
  "principal_scope p kind ref =
     (let s = \<lparr>qs_workspace = cp_workspace p, qs_actor = cp_actor p, qs_session_created_at = cp_session_created_at p,
        qs_forecast = cp_forecast p, qs_bridge = cp_bridge p, qs_context_kind = kind, qs_context_reference = ref,
        qs_dataset_version = cp_dataset_version p, qs_stores = cp_stores p, qs_period_start = cp_period_start p,
        qs_period_end = cp_period_end p\<rparr>
      in if scope_ok s then Some s else None)"

section \<open>Facts and answers\<close>

definition is_hex :: "char \<Rightarrow> bool" where
  "is_hex c \<longleftrightarrow> is_digit c \<or> c \<in> set ''abcdef''"

definition hash_ok :: "digest \<Rightarrow> bool" where
  "hash_ok h \<longleftrightarrow> length h = 64 \<and> list_all is_hex h"

text \<open>\<open>^fact-[0-9]{3}$\<close>\<close>

definition fact_name_ok :: "string \<Rightarrow> bool" where
  "fact_name_ok s \<longleftrightarrow> length s = 8 \<and> take 5 s = ''fact-'' \<and> list_all is_digit (drop 5 s)"

record chat_fact =
  cf_ref :: string
  cf_label :: string
  cf_value :: "string option"
  cf_state :: fact_state
  cf_sources :: "string list"

definition bounded :: "nat \<Rightarrow> string \<Rightarrow> bool" where
  "bounded n s \<longleftrightarrow> 1 \<le> length s \<and> length s \<le> n"

definition fact_ok :: "chat_fact \<Rightarrow> bool" where
  "fact_ok f \<longleftrightarrow> fact_name_ok (cf_ref f) \<and> bounded 200 (cf_label f)
     \<and> (case cf_value f of None \<Rightarrow> True | Some v \<Rightarrow> length v \<le> 500)
     \<and> length (cf_sources f) \<le> 10 \<and> list_all (bounded 1000) (cf_sources f)"

record draft_spec =
  sp_suggestion :: string
  sp_target :: string
  sp_quantity :: "literal option"
  sp_budget :: "literal option"
  sp_impact :: "(string \<times> string) list"
  sp_confidence :: certainty
  sp_limitations :: "string list"
  sp_facts :: "string list"

definition target_pattern :: regex where
  "target_pattern = Cat (lit ''SYNTH-'') (plus (One (\<lambda>c. is_alnum c \<or> c \<in> set ''._:-'')))"

definition amount_ok :: "literal option \<Rightarrow> bool" where
  "amount_ok x = (case x of None \<Rightarrow> True | Some (Finite q) \<Rightarrow> 0 \<le> q | Some _ \<Rightarrow> False)"

definition spec_ok :: "draft_spec \<Rightarrow> bool" where
  "spec_ok d \<longleftrightarrow> bounded 1000 (sp_suggestion d) \<and> fullmatch target_pattern (sp_target d) \<and> length (sp_target d) \<le> 200
     \<and> amount_ok (sp_quantity d) \<and> amount_ok (sp_budget d)
     \<and> length (sp_limitations d) \<le> 50 \<and> list_all (bounded 500) (sp_limitations d)
     \<and> 1 \<le> length (sp_facts d) \<and> length (sp_facts d) \<le> 10 \<and> list_all fact_name_ok (sp_facts d)"

record tool_result =
  to_tool :: tool_name
  to_scope :: query_scope
  to_facts :: "chat_fact list"
  to_limitations :: "string list"
  to_hash :: digest
  to_draft :: "draft_spec option"

definition result_ok :: "tool_result \<Rightarrow> bool" where
  "result_ok r \<longleftrightarrow> scope_ok (to_scope r) \<and> length (to_facts r) \<le> 25 \<and> list_all fact_ok (to_facts r)
     \<and> length (to_limitations r) \<le> 50 \<and> list_all (bounded 500) (to_limitations r)
     \<and> hash_ok (to_hash r) \<and> (case to_draft r of None \<Rightarrow> True | Some d \<Rightarrow> spec_ok d)
     \<and> distinct (map cf_ref (to_facts r))"

record explanation =
  me_answer :: string
  me_facts :: "string list"
  me_questions :: "string list"

definition explanation_ok :: "explanation \<Rightarrow> bool" where
  "explanation_ok e \<longleftrightarrow> bounded 4000 (me_answer e) \<and> length (me_facts e) \<le> 25 \<and> list_all fact_name_ok (me_facts e)
     \<and> length (me_questions e) \<le> 4 \<and> list_all (bounded 200) (me_questions e)"

datatype answer_status = AnswerGiven | AnswerClarifies

record chat_answer =
  an_turn :: uuid
  an_status :: answer_status
  an_text :: string
  an_scope :: query_scope
  an_facts :: "chat_fact list"
  an_limitations :: "string list"
  an_questions :: "string list"
  an_eligible :: bool

end
