(* ===== verification/AnswerMerge.thy ===== *)
theory AnswerMerge
  imports ChatContracts Lifecycle
begin

text \<open>
  \<open>src/ai/answer_merge.py\<close>: the language of the model is joined with the facts of the server.
  The model may name the facts, all of them and no others, and may not write a number of its own.
\<close>

section \<open>Patterns\<close>

text \<open>
  \<open>FACT_REF.sub("", s)\<close>: the references are removed; a match needs word boundaries on both sides
  in the original text, and scanning goes on after the last character of a match.
\<close>

definition fact_ref_at :: "char option \<Rightarrow> string \<Rightarrow> bool" where
  "fact_ref_at p s \<longleftrightarrow> \<not> holds_before is_word (p, s) \<and> 8 \<le> length s \<and> fact_name_ok (take 8 s)
     \<and> \<not> holds_next is_word (Some (s ! 7), drop 8 s)"

function strip_refs :: "char option \<Rightarrow> string \<Rightarrow> string" where
  "strip_refs p s =
     (case s of [] \<Rightarrow> []
      | c # cs \<Rightarrow> if fact_ref_at p s then strip_refs (Some (s ! 7)) (drop 8 s)
                  else c # strip_refs (Some c) cs)"
  by pat_completeness auto
termination
  by (relation "measure (length \<circ> snd)") (auto simp: fact_ref_at_def)

declare strip_refs.simps [simp del]

definition number_pattern :: regex where
  "number_pattern = cats [NotAfter is_letter, opt (One (\<lambda>c. c \<in> set ''-+'')), plus (One is_digit),
     Star (cats [One (\<lambda>c. c \<in> set ''.,''), plus (One is_digit)]), NotBefore is_letter]"

definition has_number :: "string \<Rightarrow> bool" where
  "has_number s = search number_pattern (strip_refs None s)"

section \<open>The merge\<close>

datatype merge_error = DuplicateFactRef | UnknownFactRef | OmittedFactRef | UnsafeModelText | ModelNumericText

definition answer_of :: "uuid \<Rightarrow> tool_result \<Rightarrow> explanation \<Rightarrow> chat_answer" where
  "answer_of turn r e = \<lparr>an_turn = turn, an_status = AnswerGiven, an_text = me_answer e, an_scope = to_scope r,
     an_facts = to_facts r, an_limitations = to_limitations r, an_questions = me_questions e,
     an_eligible = (to_draft r \<noteq> None)\<rparr>"

definition merge_answer :: "boundary \<Rightarrow> uuid \<Rightarrow> tool_result \<Rightarrow> explanation \<Rightarrow> merge_error + chat_answer" where
  "merge_answer bd turn r e =
     (let available = map cf_ref (to_facts r); supplied = me_facts e in
      ebind (ensure (distinct supplied) DuplicateFactRef) (\<lambda>_.
      ebind (ensure (set supplied \<subseteq> set available) UnknownFactRef) (\<lambda>_.
      ebind (ensure (to_facts r = [] \<or> set supplied = set available) OmittedFactRef) (\<lambda>_.
      ebind (ensure (bd [(''answer'', JStr (me_answer e)), (''suggested_questions'', JStr (joined '';'' (me_questions e)))])
               UnsafeModelText) (\<lambda>_.
      ebind (ensure (\<not> list_ex has_number (me_answer e # me_questions e)) ModelNumericText) (\<lambda>_.
      Inr (answer_of turn r e)))))))"

lemma merge_answerD:
  assumes "merge_answer bd turn r e = Inr a"
  shows "a = answer_of turn r e" "set (me_facts e) = set (map cf_ref (to_facts r))" "distinct (me_facts e)"
    "\<forall>s \<in> set (me_answer e # me_questions e). \<not> has_number s"
  using assms by (auto simp: merge_answer_def Let_def ebind_eq_Inr list_ex_iff)

section \<open>The number pattern\<close>

text \<open>
  A number of its own in a text: a digit with no letter on either side. The expression, with its
  sign, its groups and its backtracking, finds a match in exactly these texts.
\<close>

fun lone_digit :: "char option \<Rightarrow> string \<Rightarrow> bool" where
  "lone_digit p [] \<longleftrightarrow> False"
| "lone_digit p (c # cs) \<longleftrightarrow> is_digit c \<and> \<not> holds_before is_letter (p, []) \<and> \<not> holds_next is_letter (None, cs)
     \<or> lone_digit (Some c) cs"

lemma digit_not_letter: "is_digit c \<Longrightarrow> \<not> is_letter c"
  by (simp add: is_digit_def is_letter_def is_upper_def is_lower_def Let_def)

lemma not_letter_sign: "c \<in> set ''-+'' \<Longrightarrow> \<not> is_letter c" "c \<in> set ''.,'' \<Longrightarrow> \<not> is_letter c"
  by (auto simp: is_letter_def is_upper_def is_lower_def Let_def)

lemma lone_digit_reads: "reads (p, s) u (q, t) \<Longrightarrow> lone_digit q t \<Longrightarrow> lone_digit p s"
proof (induction u arbitrary: p s)
  case Nil
  then show ?case by (auto dest: reads_NilD)
next
  case (Cons c u)
  from Cons.prems(1) obtain s' where s: "s = c # s'" and r: "reads (Some c, s') u (q, t)"
    by (auto simp: reads_def split: if_splits)
  show ?case using Cons.IH [OF r Cons.prems(2)] by (simp add: s)
qed

text \<open>A run of digits that starts after no letter ends in a lone digit, or before a letter.\<close>

definition counted :: "spot \<Rightarrow> spot \<Rightarrow> bool" where
  "counted x y \<longleftrightarrow> \<not> holds_before is_letter y \<and> (\<exists>u. reads x u y)
     \<and> (\<not> holds_next is_letter y \<longrightarrow> lone_digit (fst x) (snd x))"

lemma digit_step:
  assumes "b \<in> set (ends (One is_digit) a)" and "\<not> holds_before is_letter a"
  shows "counted a b"
proof -
  obtain c cs where a: "snd a = c # cs" "is_digit c" "b = (Some c, cs)"
    using assms(1) by (cases "snd a") (auto split: if_splits)
  then have "reads a [c] b" by (simp add: reads_def)
  moreover have "lone_digit (fst a) (snd a)" if "\<not> holds_next is_letter b"
    using a assms(2) that by (simp add: holds_before_def holds_next_def)
  moreover have "\<not> holds_before is_letter b" using a digit_not_letter by (simp add: holds_before_def)
  ultimately show ?thesis by (auto simp: counted_def)
qed

lemma counted_trans:
  assumes "reads x u a" and "counted a b"
  shows "counted x b"
proof -
  obtain v where "reads a v b" using assms(2) by (auto simp: counted_def)
  then have "reads x (u @ v) b" by (rule reads_trans [OF assms(1)])
  moreover have "lone_digit (fst a) (snd a) \<Longrightarrow> lone_digit (fst x) (snd x)"
    by (rule lone_digit_reads [of _ _ u "fst a" "snd a"]) (use assms(1) in auto)
  ultimately show ?thesis using assms(2) by (auto simp: counted_def)
qed

lemma digits_counted:
  assumes "y \<in> set (ends (plus (One is_digit)) a)" and "\<not> holds_before is_letter a"
  shows "counted a y"
proof -
  obtain b where b: "b \<in> set (ends (One is_digit) a)" "y \<in> set (rounds (length (snd b)) (ends (One is_digit)) b)"
    using assms(1) unfolding in_plus in_Star by blast
  show ?thesis
  proof (rule rounds_keeps [of "counted a", OF digit_step [OF b(1) assms(2)] _ b(2)])
    fix x z assume x: "counted a x" and z: "z \<in> set (ends (One is_digit) x)"
    obtain u where "reads a u x" using x by (auto simp: counted_def)
    moreover have "counted x z" by (rule digit_step [OF z]) (use x in \<open>simp add: counted_def\<close>)
    ultimately show "counted a z" by (rule counted_trans)
  qed
qed

lemma group_counted:
  assumes "z \<in> set (ends (cats [One (\<lambda>c. c \<in> set ''.,''), plus (One is_digit)]) x)" and "counted a x"
  shows "counted a z"
proof -
  obtain c cs where x: "snd x = c # cs" "c \<in> set ''.,''" and z: "z \<in> set (ends (plus (One is_digit)) (Some c, cs))"
    using assms(1) by (cases "snd x") (auto simp: cats_def split: if_splits)
  have "\<not> holds_before is_letter (Some c, cs)" using not_letter_sign(2) [OF x(2)] by (simp add: holds_before_def)
  then have c: "counted (Some c, cs) z" by (rule digits_counted [OF z])
  obtain u where "reads a u x" using assms(2) by (auto simp: counted_def)
  then have "reads a (u @ [c]) (Some c, cs)" by (rule reads_trans) (simp add: reads_def x)
  then show ?thesis using c by (rule counted_trans)
qed

lemma number_at:
  assumes "ends number_pattern x \<noteq> []"
  shows "lone_digit (fst x) (snd x)"
proof -
  obtain z where "z \<in> set (ends number_pattern x)" using assms by (cases "ends number_pattern x") auto
  then have "z \<in> set (ends (Cat (NotAfter is_letter) (Cat (opt (One (\<lambda>c. c \<in> set ''-+''))) (Cat (plus (One is_digit))
      (Cat (Star (cats [One (\<lambda>c. c \<in> set ''.,''), plus (One is_digit)])) (Cat (NotBefore is_letter) Empty))))) x)"
    by (simp only: number_pattern_def cats_def foldr.simps comp_apply id_apply)
  then obtain v a b y w where v: "v \<in> set (ends (NotAfter is_letter) x)"
    and a: "a \<in> set (ends (opt (One (\<lambda>c. c \<in> set ''-+''))) v)"
    and b: "b \<in> set (ends (plus (One is_digit)) a)"
    and y: "y \<in> set (ends (Star (cats [One (\<lambda>c. c \<in> set ''.,''), plus (One is_digit)])) b)"
    and w: "w \<in> set (ends (NotBefore is_letter) y)"
    unfolding in_Cat by blast
  have x: "\<not> holds_before is_letter x" "v = x" using v by (auto split: if_splits)
  have y': "\<not> holds_next is_letter y" using w by (auto split: if_splits)
  obtain u where u: "reads x u a" using ends_reads [OF a] x(2) by blast
  have "\<not> holds_before is_letter a"
  proof (cases "a = x")
    case False
    then have "a \<in> set (ends (One (\<lambda>c. c \<in> set ''-+'')) x)" using a x(2) by (simp add: opt_def del: ends.simps(2))
    then obtain c cs where "c \<in> set ''-+''" "a = (Some c, cs)" by (cases "snd x") (auto split: if_splits)
    then show ?thesis using not_letter_sign(1) by (simp add: holds_before_def)
  qed (use x in simp)
  then have "counted x b" by (rule counted_trans [OF u digits_counted [OF b]])
  then have "counted x y"
    by (rule rounds_keeps [of "counted x" b, OF _ group_counted]) (use y in \<open>simp_all add: in_Star\<close>)
  then show ?thesis using y' by (simp add: counted_def)
qed

lemma digit_at:
  assumes "is_digit c" "\<not> holds_before is_letter (p, [])" "\<not> holds_next is_letter (None, cs)"
  shows "ends number_pattern (p, c # cs) \<noteq> []"
proof -
  have "(Some c, cs) \<in> set (ends (plus (One is_digit)) (p, c # cs))"
    using assms(1) rounds_start by (auto simp: plus_def)
  then have "(Some c, cs) \<in> set (ends number_pattern (p, c # cs))"
    using assms(2,3) rounds_start
    by (fastforce simp: number_pattern_def cats_def opt_def holds_before_def holds_next_def)
  then show ?thesis by auto
qed

lemma number_found: "search_from number_pattern p s \<longleftrightarrow> lone_digit p s"
proof (induction s arbitrary: p)
  case Nil
  show ?case using number_at [of "(p, [])"] by auto
next
  case (Cons c cs)
  show ?case using number_at [of "(p, c # cs)"] digit_at [of c p cs] Cons by auto
qed

lemma has_number_iff: "has_number s \<longleftrightarrow> lone_digit None (strip_refs None s)"
  by (simp add: has_number_def search_def number_found)

lemma lone_digit_inside:
  assumes "\<not> lone_digit None (u @ c # v)" and "is_digit c"
  shows "u \<noteq> [] \<and> is_letter (last u) \<or> v \<noteq> [] \<and> is_letter (hd v)"
proof (rule ccontr)
  assume no: "\<not> ?thesis"
  let ?q = "if u = [] then None else Some (last u)"
  have "lone_digit ?q (c # v)"
    using no assms(2) by (cases u; cases v) (simp_all add: holds_before_def holds_next_def)
  moreover have "reads (None, u @ c # v) u (?q, c # v)" by (simp add: reads_def)
  ultimately show False using lone_digit_reads assms(1) by blast
qed


definition sample_scope :: query_scope where
  "sample_scope = \<lparr>qs_workspace = ''demo'', qs_actor = ByDemo ''v1'', qs_session_created_at = Some 0, qs_forecast = None,
     qs_bridge = None, qs_context_kind = None, qs_context_reference = None, qs_dataset_version = ''d1'',
     qs_stores = [''SYNTH-A''], qs_period_start = 739000, qs_period_end = 739030\<rparr>"

definition sample_fact :: chat_fact where
  "sample_fact = \<lparr>cf_ref = ''fact-001'', cf_label = ''Net sales'', cf_value = Some ''120.00'', cf_state = Measured,
     cf_sources = [''analysis:run:net_sales'']\<rparr>"

definition sample_result :: tool_result where
  "sample_result = \<lparr>to_tool = MetricLookup, to_scope = sample_scope, to_facts = [sample_fact], to_limitations = [],
     to_hash = replicate 64 (CHR ''0''), to_draft = None\<rparr>"

definition sample_explanation :: explanation where
  "sample_explanation = \<lparr>me_answer = ''See fact-001 on Q4'', me_facts = [''fact-001''], me_questions = []\<rparr>"

lemma sample_stripped: "strip_refs None ''See fact-001 on Q4'' = ''See  on Q4''"
  by code_simp

lemma sample_merged:
  "merge_answer (\<lambda>_. True) ''t1'' sample_result sample_explanation = Inr (answer_of ''t1'' sample_result sample_explanation)"
proof -
  have "\<not> has_number ''See fact-001 on Q4''" unfolding has_number_iff by code_simp
  then show ?thesis by (simp add: merge_answer_def sample_result_def sample_explanation_def sample_fact_def)
qed


end
