(* ===== verification/ChatStore.thy ===== *)
theory ChatStore
  imports AnswerMerge Sessions
begin

text \<open>
  The tables of the assistant and the statements of \<open>src/repositories/ai_chat.py\<close> on them, with
  the triggers that guard them (\<open>alembic/versions/0006_ai_chat.py\<close>, \<open>0008_ai_budget_ledger.py\<close>):
  a turn moves along its state machine, an attempt is finished once and its charge is mirrored
  in a ledger that outlives the turn. The rest of the database is kept beside them (\<open>cd_base\<close>);
  its table of turns is the view \<open>turn_view\<close> of this one.
\<close>

section \<open>Rows\<close>

datatype chat_status = Planning | Querying | Answering | Answered | ClarificationRequired | Unsupported
  | TurnFailed | TurnUnknown

definition is_active :: "chat_status \<Rightarrow> bool" where
  "is_active s \<longleftrightarrow> s \<in> {Planning, Querying, Answering}"

text \<open>What a draft shows: the card of an operator, or the suggestion itself in a viewer's session.\<close>

datatype draft_projection = OperatorCard uuid action_status int | SessionDraft uuid uuid draft_spec

record action_draft =
  ad_id :: uuid
  ad_key_hash :: digest
  ad_request_hash :: digest
  ad_projection :: draft_projection
  ad_created_at :: time

record chat_turn =
  tn_id :: uuid
  tn_sequence :: int
  tn_workspace :: string
  tn_dataset_version :: uuid
  tn_actor :: chat_actor
  tn_question :: string
  tn_recommended :: "string option"
  tn_scope :: query_scope
  tn_key_hash :: digest
  tn_request_hash :: digest
  tn_binding :: digest
  tn_control_revision :: int
  tn_credential_request :: string
  tn_created_at :: time
  tn_status :: chat_status
  tn_tool :: "tool_name option"
  tn_result_hash :: "digest option"
  tn_answer :: "chat_answer option"
  tn_summary :: "string option"
  tn_error :: "string option"
  tn_draft :: "action_draft option"
  tn_updated_at :: time
  tn_lease :: "time option"
  tn_completed_at :: "time option"

datatype stage = PlanningStage | AnsweringStage

datatype attempt_status = Started | Succeeded | AttemptFailed | AttemptUnknown

text \<open>An attempt and its ledger entry have the same figures.\<close>

record charge =
  ch_stage :: stage
  ch_input :: int
  ch_output :: int
  ch_reserved :: int
  ch_status :: attempt_status
  ch_error :: "string option"
  ch_created_at :: time
  ch_completed_at :: "time option"

record attempt_row =
  at_id :: uuid
  at_turn :: uuid
  at_charge :: charge

record ledger_row =
  lg_attempt :: uuid
  lg_workspace :: string
  lg_charge :: charge

record tool_run =
  tu_turn :: uuid
  tu_plan :: query_plan
  tu_result :: "tool_result option"
  tu_error :: "string option"
  tu_created_at :: time

record evidence_row =
  ev_turn :: uuid
  ev_fact :: string
  ev_run :: "uuid option"
  ev_alias :: string
  ev_state :: fact_state
  ev_source :: string
  ev_created_at :: time

record saved_row =
  sd_turn :: uuid
  sd_operator :: uuid
  sd_hash :: digest
  sd_created_at :: time

record chat_db =
  cd_base :: db
  cd_turns :: "chat_turn list"
  cd_attempts :: "attempt_row list"
  cd_ledger :: "ledger_row list"
  cd_runs :: "tool_run list"
  cd_evidence :: "evidence_row list"
  cd_saved :: "saved_row list"

definition empty_chat :: "db \<Rightarrow> chat_db" where
  "empty_chat d = \<lparr>cd_base = d, cd_turns = [], cd_attempts = [], cd_ledger = [], cd_runs = [], cd_evidence = [], cd_saved = []\<rparr>"

section \<open>Errors\<close>

text \<open>
  The errors of the service; \<open>Integrity\<close> is a violated key of the database and \<open>Trigger\<close> an
  exception that one of its triggers raises. The last three come from the action service, from the
  query executor, and from a failed lookup in a dictionary or a tuple.
\<close>

datatype chat_error =
    ChatInvalid string
  | ChatNotFound
  | ChatConflict
  | ChatBusy
  | ChatBudgetExceeded
  | ChatRateLimited
  | ChatInputRejected string
  | ChatUnavailable string
  | ChannelDisabled
  | ValidationFailed
  | RecommendedUnknown
  | Integrity
  | Trigger string
  | ActionFailed action_error
  | ExecutorFailed
  | LookupFailed

section \<open>Triggers\<close>

text \<open>\<open>protect_ai_chat_turn\<close>: the moves of a turn; a finished turn changes only by taking a draft.\<close>

definition may_follow :: "chat_status \<Rightarrow> chat_status set" where
  "may_follow s = (case s of
      Planning \<Rightarrow> {Querying, ClarificationRequired, Unsupported, TurnFailed, TurnUnknown}
    | Querying \<Rightarrow> {Answering, ClarificationRequired, TurnFailed, TurnUnknown}
    | Answering \<Rightarrow> {Answered, ClarificationRequired, TurnFailed, TurnUnknown}
    | _ \<Rightarrow> {})"

definition takes_draft :: "chat_turn \<Rightarrow> chat_turn \<Rightarrow> bool" where
  "takes_draft t u \<longleftrightarrow> tn_status t = Answered \<and> tn_draft t = None \<and> tn_updated_at t \<le> tn_updated_at u
     \<and> (\<exists>a \<in> set_option (tn_draft u). u = t\<lparr>tn_draft := Some a, tn_updated_at := tn_updated_at u\<rparr>)"

definition same_authority :: "chat_turn \<Rightarrow> chat_turn \<Rightarrow> bool" where
  "same_authority t u \<longleftrightarrow> tn_id u = tn_id t \<and> tn_sequence u = tn_sequence t \<and> tn_workspace u = tn_workspace t
     \<and> tn_dataset_version u = tn_dataset_version t \<and> tn_actor u = tn_actor t \<and> tn_question u = tn_question t
     \<and> tn_recommended u = tn_recommended t \<and> tn_scope u = tn_scope t \<and> tn_key_hash u = tn_key_hash t
     \<and> tn_request_hash u = tn_request_hash t \<and> tn_binding u = tn_binding t
     \<and> tn_control_revision u = tn_control_revision t \<and> tn_credential_request u = tn_credential_request t
     \<and> tn_created_at u = tn_created_at t"

definition check_turn_update :: "chat_turn \<Rightarrow> chat_turn \<Rightarrow> chat_error + unit" where
  "check_turn_update t u =
     (if \<not> same_authority t u then Inl (Trigger ''immutable_ai_chat_authority'')
      else if takes_draft t u then Inr ()
      else if \<not> is_active (tn_status t) then Inl (Trigger ''immutable_ai_chat_terminal'')
      else if tn_status u \<in> may_follow (tn_status t) then Inr ()
      else Inl (Trigger ''invalid_ai_chat_transition''))"

text \<open>\<open>enforce_ai_chat_child_insert\<close>: the state of the turn a row is added to.\<close>

definition turn_of :: "uuid \<Rightarrow> chat_db \<Rightarrow> chat_turn option" where
  "turn_of tid d = select_one (\<lambda>t. tn_id t = tid) (cd_turns d)"

definition stage_status :: "stage \<Rightarrow> chat_status" where
  "stage_status g = (case g of PlanningStage \<Rightarrow> Planning | AnsweringStage \<Rightarrow> Answering)"

definition check_parent :: "uuid \<Rightarrow> chat_status \<Rightarrow> string \<Rightarrow> chat_db \<Rightarrow> chat_error + unit" where
  "check_parent tid s message d =
     (case turn_of tid d of
        None \<Rightarrow> Inl (Trigger ''ai_chat_parent_missing'')
      | Some t \<Rightarrow> ensure (tn_status t = s) (Trigger message))"

text \<open>
  \<open>protect_ai_chat_attempt\<close> and \<open>protect_ai_budget_ledger\<close>: only a started charge is finished, and
  its stage, reservation and time stay.
\<close>

definition check_charge_update :: "string \<Rightarrow> string \<Rightarrow> charge \<Rightarrow> charge \<Rightarrow> chat_error + unit" where
  "check_charge_update immutable invalid c e =
     (if ch_status c \<noteq> Started then Inl (Trigger immutable)
      else if ch_stage e \<noteq> ch_stage c \<or> ch_reserved e \<noteq> ch_reserved c \<or> ch_created_at e \<noteq> ch_created_at c
           \<or> ch_status e = Started \<or> ch_completed_at e = None then Inl (Trigger invalid)
      else Inr ())"

text \<open>The check constraint on tokens, of both tables.\<close>

definition tokens_ok :: "charge \<Rightarrow> bool" where
  "tokens_ok c \<longleftrightarrow> 0 \<le> ch_input c \<and> 0 \<le> ch_output c \<and> 0 < ch_reserved c \<and> ch_input c + ch_output c \<le> ch_reserved c"

section \<open>Statements\<close>

text \<open>
  The constraints on a single turn: an active one has a lease and is not completed, a finished one
  is completed and has none, and only an answered one has a draft.
\<close>

definition turn_row_ok :: "chat_turn \<Rightarrow> bool" where
  "turn_row_ok t \<longleftrightarrow>
     (if is_active (tn_status t)
      then tn_completed_at t = None \<and> (case tn_lease t of None \<Rightarrow> False | Some l \<Rightarrow> tn_updated_at t < l)
      else tn_completed_at t \<noteq> None \<and> tn_lease t = None)
     \<and> (tn_draft t = None \<or> tn_status t = Answered)"

text \<open>\<open>UPDATE ai_chat_turns\<close>: each changed row passes trigger and constraints, or the statement fails.\<close>

definition check_turn :: "chat_turn \<Rightarrow> chat_turn \<Rightarrow> chat_error + unit" where
  "check_turn t u = ebind (check_turn_update t u) (\<lambda>_. ensure (turn_row_ok u) Integrity)"

definition update_turns :: "(chat_turn \<Rightarrow> bool) \<Rightarrow> (chat_turn \<Rightarrow> chat_turn) \<Rightarrow> chat_db \<Rightarrow> chat_error + chat_db" where
  "update_turns p f d =
     ebind (emap (\<lambda>t. if p t then check_turn t (f t) else Inr ()) (cd_turns d)) (\<lambda>_.
     Inr (d\<lparr>cd_turns := update_where p f (cd_turns d)\<rparr>))"

text \<open>
  \<open>UPDATE ai_chat_attempts\<close> of one row, with its trigger, its constraint, and the trigger that
  carries the change over to the ledger.
\<close>

definition sync_ledger :: "uuid \<Rightarrow> charge \<Rightarrow> chat_db \<Rightarrow> chat_error + chat_db" where
  "sync_ledger aid c d =
     (case select_one (\<lambda>l. lg_attempt l = aid) (cd_ledger d) of
        None \<Rightarrow> Inl (Trigger ''ai_budget_ledger_missing'')
      | Some l \<Rightarrow>
          ebind (check_charge_update ''immutable_ai_budget_ledger'' ''invalid_ai_budget_ledger_transition'' (lg_charge l)
                   (c\<lparr>ch_stage := ch_stage (lg_charge l), ch_reserved := ch_reserved (lg_charge l),
                      ch_created_at := ch_created_at (lg_charge l)\<rparr>)) (\<lambda>_.
          Inr (d\<lparr>cd_ledger := update_where (\<lambda>l. lg_attempt l = aid)
             (\<lambda>l. l\<lparr>lg_charge := c\<lparr>ch_stage := ch_stage (lg_charge l), ch_reserved := ch_reserved (lg_charge l),
                ch_created_at := ch_created_at (lg_charge l)\<rparr>\<rparr>) (cd_ledger d)\<rparr>)))"

definition update_attempt :: "attempt_row \<Rightarrow> charge \<Rightarrow> chat_db \<Rightarrow> chat_error + chat_db" where
  "update_attempt a c d =
     ebind (check_charge_update ''immutable_ai_chat_attempt'' ''invalid_ai_chat_attempt_transition'' (at_charge a) c) (\<lambda>_.
     ebind (ensure (tokens_ok c) Integrity) (\<lambda>_.
     sync_ledger (at_id a) c
       (d\<lparr>cd_attempts := update_where (\<lambda>x. at_id x = at_id a) (\<lambda>x. x\<lparr>at_charge := c\<rparr>) (cd_attempts d)\<rparr>)))"

definition close_charge :: "attempt_status \<Rightarrow> int \<Rightarrow> int \<Rightarrow> string option \<Rightarrow> time \<Rightarrow> charge \<Rightarrow> charge" where
  "close_charge st i out err now c =
     c\<lparr>ch_status := st, ch_input := i, ch_output := out, ch_error := err, ch_completed_at := Some now\<rparr>"

definition finish_attempt :: "uuid \<Rightarrow> attempt_status \<Rightarrow> int \<Rightarrow> int \<Rightarrow> string option \<Rightarrow> time \<Rightarrow> chat_db
    \<Rightarrow> chat_error + chat_db" where
  "finish_attempt aid st i out err now d =
     (case select_one (\<lambda>a. at_id a = aid \<and> ch_status (at_charge a) = Started) (cd_attempts d) of
        None \<Rightarrow> Inr d
      | Some a \<Rightarrow> update_attempt a (close_charge st i out err now (at_charge a)) d)"

text \<open>\<open>recover_stale\<close>: first the open attempts of the turns whose lease is over, then these turns.\<close>

definition is_stale :: "time \<Rightarrow> chat_turn \<Rightarrow> bool" where
  "is_stale now t \<longleftrightarrow> is_active (tn_status t) \<and> (case tn_lease t of None \<Rightarrow> False | Some l \<Rightarrow> l \<le> now)"

definition abandoned :: "time \<Rightarrow> chat_db \<Rightarrow> attempt_row \<Rightarrow> bool" where
  "abandoned now d a \<longleftrightarrow> ch_status (at_charge a) = Started
     \<and> list_ex (\<lambda>t. tn_id t = at_turn a \<and> is_stale now t) (cd_turns d)"

definition lost_outcome :: "chat_db \<Rightarrow> chat_turn \<Rightarrow> bool" where
  "lost_outcome d t \<longleftrightarrow> list_ex (\<lambda>a. at_turn a = tn_id t \<and> ch_status (at_charge a) = AttemptUnknown) (cd_attempts d)"

definition stale_unknown_text :: string where
  "stale_unknown_text = ''The interrupted provider outcome is unknown; deterministic pages remain available.''"

definition stale_failed_text :: string where
  "stale_failed_text = ''The interrupted AI request expired; deterministic pages remain available.''"

definition close_stale :: "time \<Rightarrow> chat_db \<Rightarrow> chat_turn \<Rightarrow> chat_turn" where
  "close_stale now d t =
     t\<lparr>tn_status := (if lost_outcome d t then TurnUnknown else TurnFailed),
       tn_summary := Some (if lost_outcome d t then stale_unknown_text else stale_failed_text),
       tn_error := Some (if lost_outcome d t then ''provider_outcome_unknown'' else ''turn_lease_expired''),
       tn_updated_at := now, tn_lease := None, tn_completed_at := Some now\<rparr>"

definition recover_stale :: "time \<Rightarrow> chat_db \<Rightarrow> chat_error + (nat \<times> chat_db)" where
  "recover_stale now d =
     ebind (efold (\<lambda>a. update_attempt a ((at_charge a)\<lparr>ch_status := AttemptUnknown,
              ch_error := Some ''provider_outcome_unknown'', ch_completed_at := Some now\<rparr>))
            (filter (abandoned now d) (cd_attempts d)) d) (\<lambda>d1.
     ebind (update_turns (is_stale now) (close_stale now d1) d1) (\<lambda>d2.
     Inr (length (filter (is_stale now) (cd_turns d1)), d2)))"

section \<open>Turns\<close>

definition active_turn_count :: "chat_db \<Rightarrow> nat" where
  "active_turn_count d = length (filter (\<lambda>t. is_active (tn_status t)) (cd_turns d))"

definition last_n :: "nat \<Rightarrow> 'a list \<Rightarrow> 'a list" where
  "last_n n xs = drop (length xs - n) xs"

text \<open>The summaries of the last four finished turns of a session in the same scope, oldest first.\<close>

definition safe_history :: "chat_actor \<Rightarrow> uuid \<Rightarrow> string list \<Rightarrow> chat_db \<Rightarrow> string list" where
  "safe_history actor version stores d =
     List.map_filter tn_summary
       (last_n 4 (sort_key tn_sequence (filter (\<lambda>t. tn_actor t = actor \<and> tn_dataset_version t = version
          \<and> qs_stores (tn_scope t) = stores \<and> tn_summary t \<noteq> None \<and> \<not> is_active (tn_status t)) (cd_turns d))))"

definition find_by_key :: "chat_actor \<Rightarrow> digest \<Rightarrow> chat_db \<Rightarrow> chat_turn option" where
  "find_by_key actor kh d = select_one (\<lambda>t. tn_actor t = actor \<and> tn_key_hash t = kh) (cd_turns d)"

definition get_for_session :: "chat_actor \<Rightarrow> uuid \<Rightarrow> chat_db \<Rightarrow> chat_turn option" where
  "get_for_session actor tid d = select_one (\<lambda>t. tn_id t = tid \<and> tn_actor t = actor) (cd_turns d)"

definition list_for_session :: "chat_actor \<Rightarrow> chat_db \<Rightarrow> chat_turn list" where
  "list_for_session actor d = take 100 (sort_key tn_sequence (filter (\<lambda>t. tn_actor t = actor) (cd_turns d)))"

definition next_sequence :: "chat_actor \<Rightarrow> chat_db \<Rightarrow> int" where
  "next_sequence actor d = foldr max (map tn_sequence (filter (\<lambda>t. tn_actor t = actor) (cd_turns d))) 0 + 1"

text \<open>The unique keys: also one active turn per session, and one turn per credential request.\<close>

definition turns_clash :: "chat_turn \<Rightarrow> chat_turn \<Rightarrow> bool" where
  "turns_clash t u \<longleftrightarrow> tn_id t = tn_id u
     \<or> tn_workspace t = tn_workspace u \<and> tn_credential_request t = tn_credential_request u
     \<or> tn_actor t = tn_actor u \<and> (tn_sequence t = tn_sequence u \<or> tn_key_hash t = tn_key_hash u
         \<or> is_active (tn_status t) \<and> is_active (tn_status u))"

definition insert_turn :: "chat_turn \<Rightarrow> chat_db \<Rightarrow> chat_error + chat_db" where
  "insert_turn t d =
     (if \<not> turn_row_ok t \<or> list_ex (turns_clash t) (cd_turns d) then Inl Integrity
      else Inr (d\<lparr>cd_turns := cd_turns d @ [t]\<rparr>))"

text \<open>What a transition writes; a field that is not given keeps its value.\<close>

record turn_change =
  tc_status :: chat_status
  tc_tool :: "tool_name option"
  tc_result_hash :: "digest option"
  tc_answer :: "chat_answer option"
  tc_summary :: "string option"
  tc_error :: "string option"

definition given :: "'a option \<Rightarrow> 'a option \<Rightarrow> 'a option" where
  "given new old = (case new of None \<Rightarrow> old | Some x \<Rightarrow> Some x)"

definition apply_change :: "turn_change \<Rightarrow> time option \<Rightarrow> time \<Rightarrow> chat_turn \<Rightarrow> chat_turn" where
  "apply_change c lease now t =
     t\<lparr>tn_status := tc_status c, tn_updated_at := now,
       tn_lease := (if is_active (tc_status c) then lease else None),
       tn_completed_at := (if is_active (tc_status c) then None else Some now),
       tn_tool := given (tc_tool c) (tn_tool t), tn_result_hash := given (tc_result_hash c) (tn_result_hash t),
       tn_answer := given (tc_answer c) (tn_answer t), tn_summary := given (tc_summary c) (tn_summary t),
       tn_error := given (tc_error c) (tn_error t)\<rparr>"

definition transition :: "uuid \<Rightarrow> chat_status \<Rightarrow> turn_change \<Rightarrow> time option \<Rightarrow> time \<Rightarrow> chat_db
    \<Rightarrow> chat_error + (chat_turn option \<times> chat_db)" where
  "transition tid expected c lease now d =
     (let p = (\<lambda>t. tn_id t = tid \<and> tn_status t = expected) in
      ebind (update_turns p (apply_change c lease now) d) (\<lambda>d'.
      Inr (map_option (apply_change c lease now) (select_one p (cd_turns d)), d')))"

definition record_action_draft :: "uuid \<Rightarrow> action_draft \<Rightarrow> time \<Rightarrow> chat_db \<Rightarrow> chat_error + (chat_turn option \<times> chat_db)" where
  "record_action_draft tid a now d =
     (let p = (\<lambda>t. tn_id t = tid \<and> tn_status t = Answered \<and> tn_draft t = None);
          f = (\<lambda>t. t\<lparr>tn_draft := Some a, tn_updated_at := now\<rparr>) in
      ebind (update_turns p f d) (\<lambda>d'. Inr (map_option f (select_one p (cd_turns d)), d')))"

section \<open>Attempts and the budget\<close>

definition charged :: "charge \<Rightarrow> int" where
  "charged c = (if ch_status c = Succeeded then ch_input c + ch_output c else ch_reserved c)"

definition attempts_since :: "time \<Rightarrow> chat_db \<Rightarrow> nat" where
  "attempts_since since d = length (filter (\<lambda>l. since \<le> ch_created_at (lg_charge l)) (cd_ledger d))"

definition tokens_since :: "time \<Rightarrow> chat_db \<Rightarrow> int" where
  "tokens_since since d = (\<Sum>l \<leftarrow> filter (\<lambda>l. since \<le> ch_created_at (lg_charge l)) (cd_ledger d). charged (lg_charge l))"

definition session_attempt_count :: "uuid \<Rightarrow> time \<Rightarrow> chat_db \<Rightarrow> nat" where
  "session_attempt_count tid since d =
     (case turn_of tid d of
        None \<Rightarrow> 0
      | Some target \<Rightarrow> length (filter (\<lambda>a. since \<le> ch_created_at (at_charge a)
          \<and> list_ex (\<lambda>t. tn_id t = at_turn a \<and> tn_actor t = tn_actor target) (cd_turns d)) (cd_attempts d)))"

definition open_charge :: "stage \<Rightarrow> time \<Rightarrow> int \<Rightarrow> charge" where
  "open_charge g now reserved = \<lparr>ch_stage = g, ch_input = 0, ch_output = 0, ch_reserved = reserved, ch_status = Started,
     ch_error = None, ch_created_at = now, ch_completed_at = None\<rparr>"

text \<open>\<open>INSERT INTO ai_chat_attempts\<close> with its guard, its keys, and the ledger entry of its trigger.\<close>

definition add_attempt :: "uuid \<Rightarrow> uuid \<Rightarrow> stage \<Rightarrow> time \<Rightarrow> int \<Rightarrow> chat_db \<Rightarrow> chat_error + chat_db" where
  "add_attempt aid tid g now reserved d =
     ebind (check_parent tid (stage_status g) ''invalid_ai_chat_attempt_parent_state'' d) (\<lambda>_.
     ebind (ensure (tokens_ok (open_charge g now reserved)) Integrity) (\<lambda>_.
     if list_ex (\<lambda>a. at_id a = aid \<or> at_turn a = tid \<and> ch_stage (at_charge a) = g) (cd_attempts d)
        \<or> list_ex (\<lambda>l. lg_attempt l = aid) (cd_ledger d)
     then Inl Integrity
     else case turn_of tid d of
            None \<Rightarrow> Inl (Trigger ''ai_budget_parent_missing'')
          | Some t \<Rightarrow> Inr (d\<lparr>cd_attempts := cd_attempts d @ [\<lparr>at_id = aid, at_turn = tid, at_charge = open_charge g now reserved\<rparr>],
              cd_ledger := cd_ledger d @ [\<lparr>lg_attempt = aid, lg_workspace = tn_workspace t, lg_charge = open_charge g now reserved\<rparr>]\<rparr>)))"

definition attempt_of :: "uuid \<Rightarrow> stage \<Rightarrow> chat_db \<Rightarrow> attempt_row option" where
  "attempt_of tid g d = select_one (\<lambda>a. at_turn a = tid \<and> ch_stage (at_charge a) = g) (cd_attempts d)"

definition attempt_by_id :: "uuid \<Rightarrow> chat_db \<Rightarrow> attempt_row option" where
  "attempt_by_id aid d = select_one (\<lambda>a. at_id a = aid) (cd_attempts d)"

section \<open>Tool runs, evidence, saved answers\<close>

definition add_tool_result :: "uuid \<Rightarrow> query_plan \<Rightarrow> tool_result option \<Rightarrow> string option \<Rightarrow> time \<Rightarrow> chat_db
    \<Rightarrow> chat_error + chat_db" where
  "add_tool_result tid plan r err now d =
     ebind (check_parent tid Querying ''invalid_ai_chat_tool_parent_state'' d) (\<lambda>_.
     if list_ex (\<lambda>x. tu_turn x = tid) (cd_runs d) then Inl Integrity
     else Inr (d\<lparr>cd_runs := cd_runs d @ [\<lparr>tu_turn = tid, tu_plan = plan, tu_result = r, tu_error = err, tu_created_at = now\<rparr>]\<rparr>))"

definition tool_run_of :: "uuid \<Rightarrow> chat_db \<Rightarrow> tool_run option" where
  "tool_run_of tid d = select_one (\<lambda>x. tu_turn x = tid) (cd_runs d)"

text \<open>\<open>source_ref.split(":", 2)\<close> when it has three parts.\<close>

definition split_colon :: "string \<Rightarrow> (string \<times> string) option" where
  "split_colon s = (case dropWhile (\<lambda>c. c \<noteq> CHR '':'') s of
      [] \<Rightarrow> None | _ # rest \<Rightarrow> Some (takeWhile (\<lambda>c. c \<noteq> CHR '':'') s, rest))"

definition evidence_link :: "(string \<Rightarrow> uuid option) \<Rightarrow> string \<Rightarrow> uuid option \<times> string" where
  "evidence_link parse source =
     (case split_colon source of
        Some (kind, rest) \<Rightarrow>
          (case split_colon rest of
             Some (run, alias) \<Rightarrow>
               (if kind = ''analysis'' then
                  (case parse run of Some u \<Rightarrow> (Some u, alias) | None \<Rightarrow> (None, source))
                else (None, source))
           | None \<Rightarrow> (None, source))
      | None \<Rightarrow> (None, source))"

definition evidence_of :: "(string \<Rightarrow> uuid option) \<Rightarrow> uuid \<Rightarrow> time \<Rightarrow> chat_fact \<Rightarrow> evidence_row" where
  "evidence_of parse tid now f =
     (let source = (case cf_sources f of [] \<Rightarrow> ''unavailable'' | s # _ \<Rightarrow> s) in
      \<lparr>ev_turn = tid, ev_fact = cf_ref f, ev_run = fst (evidence_link parse source),
       ev_alias = take 500 (snd (evidence_link parse source)), ev_state = cf_state f, ev_source = take 1000 source,
       ev_created_at = now\<rparr>)"

definition insert_evidence :: "evidence_row \<Rightarrow> chat_db \<Rightarrow> chat_error + chat_db" where
  "insert_evidence e d =
     ebind (check_parent (ev_turn e) Answering ''invalid_ai_chat_evidence_parent_state'' d) (\<lambda>_.
     if \<not> bounded 500 (ev_alias e) \<or> \<not> bounded 1000 (ev_source e)
        \<or> list_ex (\<lambda>x. ev_turn x = ev_turn e \<and> ev_fact x = ev_fact e) (cd_evidence d)
     then Inl Integrity
     else Inr (d\<lparr>cd_evidence := cd_evidence d @ [e]\<rparr>))"

definition add_evidence :: "(string \<Rightarrow> uuid option) \<Rightarrow> uuid \<Rightarrow> tool_result \<Rightarrow> time \<Rightarrow> chat_db \<Rightarrow> chat_error + chat_db" where
  "add_evidence parse tid r now d = efold (\<lambda>f. insert_evidence (evidence_of parse tid now f)) (to_facts r) d"

text \<open>\<open>INSERT ... ON CONFLICT DO NOTHING\<close>, then the stored record is compared.\<close>

definition save_record :: "uuid \<Rightarrow> uuid \<Rightarrow> digest \<Rightarrow> time \<Rightarrow> chat_db \<Rightarrow> chat_error + (bool \<times> chat_db)" where
  "save_record tid operator h now d =
     ebind (check_parent tid Answered ''invalid_ai_chat_saved_parent_state'' d) (\<lambda>_.
     (let d' = (if list_ex (\<lambda>s. sd_turn s = tid) (cd_saved d) then d
                else d\<lparr>cd_saved := cd_saved d @ [\<lparr>sd_turn = tid, sd_operator = operator, sd_hash = h, sd_created_at = now\<rparr>]\<rparr>)
      in Inr (case select_one (\<lambda>s. sd_turn s = tid) (cd_saved d') of
                None \<Rightarrow> False | Some s \<Rightarrow> sd_operator s = operator \<and> sd_hash s = h, d')))"

section \<open>Deletion\<close>

text \<open>Attempts, tool runs and evidence go with their turn; the ledger stays.\<close>

definition keep_turns :: "(uuid \<Rightarrow> bool) \<Rightarrow> chat_db \<Rightarrow> chat_db" where
  "keep_turns p d =
     d\<lparr>cd_turns := filter (\<lambda>t. p (tn_id t)) (cd_turns d), cd_attempts := filter (\<lambda>a. p (at_turn a)) (cd_attempts d),
       cd_runs := filter (\<lambda>x. p (tu_turn x)) (cd_runs d), cd_evidence := filter (\<lambda>e. p (ev_turn e)) (cd_evidence d)\<rparr>"

text \<open>A saved turn and a turn that an action revision names cannot be deleted.\<close>

definition turn_held :: "chat_db \<Rightarrow> uuid \<Rightarrow> bool" where
  "turn_held d tid \<longleftrightarrow> list_ex (\<lambda>s. sd_turn s = tid) (cd_saved d)
     \<or> list_ex (\<lambda>r. ac_chat_turn (rv_content r) = Some tid) (db_revisions (cd_base d))"

definition delete_for_session :: "chat_actor \<Rightarrow> chat_db \<Rightarrow> chat_error + (nat \<times> chat_db)" where
  "delete_for_session actor d =
     (let gone = map tn_id (filter (\<lambda>t. tn_actor t = actor) (cd_turns d)) in
      if list_ex (turn_held d) gone then Inl Integrity
      else Inr (length gone, keep_turns (\<lambda>tid. tid \<notin> set gone) d))"

text \<open>
  An operation of another service on the rest of the database sees the turns through
  \<open>turn_view\<close>; the turns it deletes go with all that hangs on them.
\<close>

definition turn_view :: "chat_turn \<Rightarrow> turn_row" where
  "turn_view t = \<lparr>tr_id = tn_id t, tr_actor = tn_actor t\<rparr>"

definition base_view :: "chat_db \<Rightarrow> db" where
  "base_view d = (cd_base d)\<lparr>db_turns := map turn_view (cd_turns d), db_saved_turns := map sd_turn (cd_saved d)\<rparr>"

definition on_base :: "(db \<Rightarrow> 'a \<times> db) \<Rightarrow> chat_db \<Rightarrow> 'a \<times> chat_db" where
  "on_base f d = (case f (base_view d) of (a, b) \<Rightarrow>
     (a, keep_turns (\<lambda>tid. tid \<in> tr_id ` set (db_turns b)) (d\<lparr>cd_base := b\<rparr>)))"

end
