(* ===== verification/Chat.thy ===== *)
theory Chat
  imports ChatStore
begin

text \<open>
  The assistant (\<open>src/services/ai_chat_service.py\<close>), with its prompt presets
  (\<open>src/ai/prompt_catalog.py\<close>), its fixed plans (\<open>src/ai/query_catalog.py\<close>) and the adapter of the
  model provider (\<open>src/ai/openai_gateway.py\<close>). A submission is a process: its state is the point the
  handler has reached, and one step is one transaction, one read on another connection, or one
  call of the provider or of the query executor. Between two steps of a process the others run.
\<close>

section \<open>Environment\<close>

record budget_limits =
  bl_daily :: int
  bl_monthly :: int
  bl_concurrent :: int
  bl_session_minute :: int
  bl_global_minute :: int
  bl_rehearsal :: bool

definition limits_ok :: "budget_limits \<Rightarrow> bool" where
  "limits_ok l \<longleftrightarrow> 0 < Min (set [bl_daily l, bl_monthly l, bl_concurrent l, bl_session_minute l, bl_global_minute l])"

datatype locale_name = English | Chinese

record prompt_preset =
  pp_id :: string
  pp_template :: "locale_name \<Rightarrow> string"
  pp_version :: string
  pp_context :: "context_kind option"
  pp_intent :: string
  pp_max_chars :: nat
  pp_available :: bool

text \<open>
  The texts of the presets, the hashes, \<open>uuid5\<close> and the parser of UUIDs are fields. So are the
  two checks of a question that run a long pattern on it, \<open>ce_secret\<close> and \<open>ce_unsupported\<close>, and the
  synthetic boundary; \<open>source_env\<close> fills them with the ones of the program.
\<close>

record chat_env =
  ce_workspace :: string
  ce_limits :: budget_limits
  ce_presets :: "prompt_preset list"
  ce_sha :: "string \<Rightarrow> digest"
  ce_json_sha :: "json \<Rightarrow> digest"
  ce_uuid5 :: "string \<Rightarrow> uuid"
  ce_parse_uuid :: "string \<Rightarrow> uuid option"
  ce_boundary :: boundary
  ce_secret :: "string \<Rightarrow> bool"
  ce_unsupported :: "string \<Rightarrow> bool"

section \<open>Patterns\<close>

definition word_ci :: "string \<Rightarrow> regex" where
  "word_ci s = cats [Edge, lit_ci s, Edge]"

definition any :: regex where
  "any = Star (One (\<lambda>_. True))"

definition unsupported_pattern :: regex where
  "unsupported_pattern = alts
     [cats [Edge, alts (map lit_ci [''select'', ''insert'', ''update'', ''delete'', ''drop'', ''alter'', ''create'']), Edge, any,
            Edge, alts (map lit_ci [''from'', ''into'', ''table'']), Edge],
      cats [Edge, alts (map lit_ci [''schema'', ''ddl'', ''dml'', ''database credential'', ''connection string'']), Edge],
      cats [Edge, lit_ci ''ignore '', alts (map lit_ci [''all'', ''previous'', ''system'']), Edge],
      cats [Edge, lit_ci ''export '', alts (map lit_ci [''all'', ''every'', ''raw'']), lit_ci '' row'']]"

definition digits :: "nat \<Rightarrow> regex" where
  "digits n = times n (One is_digit)"

definition separator :: regex where
  "separator = One (\<lambda>c. is_space c \<or> c = CHR ''.'' \<or> c = CHR ''-'')"

definition chat_secret_pattern :: regex where
  "chat_secret_pattern = alts
     [cats [Edge, lit_ci ''AKIA'', times 16 (One is_alnum), Edge],
      cats [Edge, lit_ci ''Authorization'', Star (One is_space), lit '':'', Star (One is_space), lit_ci ''Bearer'', plus (One is_space),
            at_least 12 (One (\<lambda>c. is_alnum c \<or> c \<in> set ''._~+/=-'')), Edge],
      cats [Edge, lit_ci ''Bearer'', plus (One is_space), lit_ci ''eyJ'',
            at_least 12 (One (\<lambda>c. is_alnum c \<or> c \<in> set ''._-'')), Edge],
      cats [Edge, digits 3, lit ''.'', digits 3, lit ''.'', digits 3, lit ''-'', digits 2, Edge],
      cats [Edge, digits 2, lit ''.'', digits 3, lit ''.'', digits 3, lit ''/'', digits 4, lit ''-'', digits 2, Edge],
      cats [opt (cats [lit ''+'', between 1 3 (One is_digit), opt separator]),
            alts [cats [lit ''('', between 2 3 (One is_digit), lit '')''], between 2 3 (One is_digit)],
            opt separator, between 3 5 (One is_digit), separator, digits 4, Edge],
      cats [Edge, alts (map lit_ci [''password'', ''passwd'', ''client_secret'', ''api_key'', ''access_token'']),
            Star (One is_space), One (\<lambda>c. c \<in> set '':=''), Star (One is_space),
            at_least 8 (One (\<lambda>c. \<not> is_space c \<and> c \<notin> set '',;''))]]"

definition request_id_pattern :: regex where
  "request_id_pattern = Cat (One is_alnum) (between 2 127 (One (\<lambda>c. is_alnum c \<or> c \<in> set ''._:-'')))"

definition source_env :: "chat_env \<Rightarrow> chat_env" where
  "source_env env = env\<lparr>ce_boundary := (\<lambda>r. is_ok (validate_synthetic_records [r])),
     ce_secret := search chat_secret_pattern, ce_unsupported := search unsupported_pattern\<rparr>"

section \<open>Prompts and plans\<close>

record prompt_choice =
  pc_recommended :: "string option"
  pc_locale :: "string option"
  pc_version :: "string option"
  pc_sha :: "string option"

record resolved_prompt =
  rp_choice :: prompt_choice
  rp_intent :: "string option"

definition locale_of :: "string \<Rightarrow> locale_name option" where
  "locale_of s = (if s = ''en'' then Some English else if s = ''zh'' then Some Chinese else None)"

definition preset_invalid :: chat_error where
  "preset_invalid = ChatInvalid ''prompt_preset_contract_invalid''"

definition preset_matches :: "chat_env \<Rightarrow> prompt_preset \<Rightarrow> locale_name \<Rightarrow> string \<Rightarrow> string \<Rightarrow> string \<Rightarrow> context_kind option \<Rightarrow> bool" where
  "preset_matches env p loc version sha q kind \<longleftrightarrow> pp_available p \<and> version = pp_version p \<and> sha = ce_sha env (pp_template p loc)
     \<and> q = pp_template p loc \<and> length q \<le> pp_max_chars p \<and> (kind = None \<or> kind = pp_context p)"

definition resolve_prompt :: "chat_env \<Rightarrow> string \<Rightarrow> prompt_choice \<Rightarrow> context_kind option \<Rightarrow> chat_error + resolved_prompt" where
  "resolve_prompt env q c kind =
     (case (pc_recommended c, pc_locale c, pc_version c, pc_sha c) of
        (None, None, None, None) \<Rightarrow> Inr \<lparr>rp_choice = c, rp_intent = None\<rparr>
      | (Some name, Some loc, Some version, Some sha) \<Rightarrow>
          (case locale_of loc of
             None \<Rightarrow> Inl preset_invalid
           | Some l \<Rightarrow>
               (case find (\<lambda>p. pp_id p = name) (ce_presets env) of
                  None \<Rightarrow> Inl preset_invalid
                | Some p \<Rightarrow> if preset_matches env p l version sha q kind
                            then Inr \<lparr>rp_choice = c, rp_intent = Some (pp_intent p)\<rparr> else Inl preset_invalid))
      | _ \<Rightarrow> Inl preset_invalid)"

definition prompt_intents :: "(string \<times> query_plan) list" where
  "prompt_intents =
     [(''monthly_sales_report'', \<lparr>qp_tool = MonthlySalesReportLookup, qp_arguments = MonthlySalesReportArguments ''latest_completed''\<rparr>),
      (''profit_changes'', \<lparr>qp_tool = ProfitBridgeExplain, qp_arguments = ProfitBridgeArguments ''drivers''\<rparr>),
      (''inventory_risks'', \<lparr>qp_tool = InventoryRiskLookup, qp_arguments = InventoryRiskArguments ''risks'' ''stockout'' 20\<rparr>),
      (''advertising_performance'', \<lparr>qp_tool = MetricLookup, qp_arguments = MetricLookupArguments ''ad_spend'' ''current''\<rparr>),
      (''forecast_30_days'', \<lparr>qp_tool = ForecastLookup, qp_arguments = ForecastArguments 30 ''scenarios''\<rparr>),
      (''next_actions'', \<lparr>qp_tool = ActionCardLookup, qp_arguments = ActionCardArguments ''all'' ''summary'' 20\<rparr>)]"

definition plan_for_intent :: "string \<Rightarrow> query_plan option" where
  "plan_for_intent intent = map_of prompt_intents intent"

section \<open>The provider\<close>

text \<open>What the client of the provider answers or raises, and the adapter's reading of it.\<close>

datatype 'v sdk_outcome =
    SdkOutcomeUnknown
  | SdkSecretUnavailable
  | SdkAuthenticationError
  | SdkConnectionError
  | SdkError
  | SdkResponse bool "'v option" "(int \<times> int) option"

datatype gateway_failure = ProviderOutcomeUnknown | ProviderUnavailable string

definition stage_name :: "stage \<Rightarrow> string" where
  "stage_name g = (case g of PlanningStage \<Rightarrow> ''planning'' | AnsweringStage \<Rightarrow> ''answering'')"

definition parse_response :: "stage \<Rightarrow> string \<Rightarrow> 'v sdk_outcome \<Rightarrow> gateway_failure + ('v \<times> int \<times> int)" where
  "parse_response g version out =
     (if strip version = [] then Inl (ProviderUnavailable ''credential_version_invalid'') else
      case out of
        SdkOutcomeUnknown \<Rightarrow> Inl ProviderOutcomeUnknown
      | SdkSecretUnavailable \<Rightarrow> Inl (ProviderUnavailable ''key_vault_secret_unavailable'')
      | SdkAuthenticationError \<Rightarrow> Inl (ProviderUnavailable ''provider_auth_rejected'')
      | SdkConnectionError \<Rightarrow> Inl ProviderOutcomeUnknown
      | SdkError \<Rightarrow> Inl (ProviderUnavailable (''provider_'' @ stage_name g @ ''_failed''))
      | SdkResponse ready v usage \<Rightarrow>
          if \<not> ready then Inl (ProviderUnavailable (''provider_'' @ stage_name g @ ''_incomplete''))
          else (case v of
              None \<Rightarrow> Inl (ProviderUnavailable (''provider_'' @ stage_name g @ ''_invalid_output''))
            | Some x \<Rightarrow> (case usage of
                  Some (i, n) \<Rightarrow> if 0 < i \<and> 0 \<le> n then Inr (x, i, n)
                                else Inl (ProviderUnavailable (''provider_'' @ stage_name g @ ''_usage_invalid''))
                | None \<Rightarrow> Inl (ProviderUnavailable (''provider_'' @ stage_name g @ ''_usage_invalid'')))))"

definition provider_failure_code :: "string \<Rightarrow> string" where
  "provider_failure_code code =
     (if code \<in> {''key_vault_secret_unavailable'', ''provider_auth_rejected''} then code else ''provider_unavailable'')"

section \<open>Checking a submission\<close>

record submission =
  sm_principal :: chat_principal
  sm_question :: "string option"
  sm_prompt :: prompt_choice
  sm_context_kind :: "context_kind option"
  sm_context_reference :: "string option"
  sm_key :: string
  sm_request_id :: "string option"

definition validate_principal :: "chat_env \<Rightarrow> chat_principal \<Rightarrow> context_kind option \<Rightarrow> string option \<Rightarrow> chat_error + query_scope" where
  "validate_principal env p kind ref =
     (if cp_workspace p \<noteq> ce_workspace env then Inl (ChatInvalid ''chat_principal_invalid'')
      else if (kind = None) \<noteq> (ref = None) then Inl (ChatInvalid ''chat_context_invalid'')
      else if (case kind of None \<Rightarrow> False | Some k \<Rightarrow> ref \<noteq> Some (pinned_reference k)) then Inl (ChatInvalid ''chat_context_invalid'')
      else case principal_scope p kind ref of None \<Rightarrow> Inl ValidationFailed | Some s \<Rightarrow> Inr s)"

definition validate_question :: "chat_env \<Rightarrow> string option \<Rightarrow> chat_error + string" where
  "validate_question env q =
     (case q of
        None \<Rightarrow> Inl (ChatInvalid ''question_required'')
      | Some t \<Rightarrow>
          (let n = strip t in
           if \<not> bounded 2000 n then Inl (ChatInputRejected ''question_length_invalid'')
           else if ce_secret env n then Inl (ChatInputRejected ''question_sensitive_pattern'')
           else if \<not> ce_boundary env [(''question'', JStr n)] then Inl (ChatInputRejected ''question_sensitive_pattern'')
           else Inr n))"

fun actor_text :: "chat_actor \<Rightarrow> string" where
  "actor_text (ByOperator s) = ''operator:'' @ s"
| "actor_text (ByDemo s) = ''demo:'' @ s"

definition is_demo :: "chat_actor \<Rightarrow> bool" where
  "is_demo a = (case a of ByDemo _ \<Rightarrow> True | ByOperator _ \<Rightarrow> False)"

definition session_id :: "chat_actor \<Rightarrow> uuid" where
  "session_id a = (case a of ByDemo s \<Rightarrow> s | ByOperator s \<Rightarrow> s)"

definition chat_key_hash :: "chat_env \<Rightarrow> chat_principal \<Rightarrow> string \<Rightarrow> chat_error + digest" where
  "chat_key_hash env p key =
     (if bounded 128 key \<and> list_all (\<lambda>c. let n = (of_char c :: nat) in 33 \<le> n \<and> n \<le> 126) key
      then Inr (ce_sha env (actor_text (cp_actor p) @ '':'' @ key)) else Inl (ChatInvalid ''idempotency_key_invalid''))"

definition context_name :: "context_kind \<Rightarrow> string" where
  "context_name k = takeWhile (\<lambda>c. c \<noteq> CHR '':'') (pinned_reference k)"

definition request_payload :: "chat_principal \<Rightarrow> query_scope \<Rightarrow> string \<Rightarrow> prompt_choice \<Rightarrow> json" where
  "request_payload p s q c = JObj
     [(''actor_kind'', JStr (if is_demo (cp_actor p) then ''demo'' else ''operator'')),
      (''session_id'', JStr (session_id (cp_actor p))),
      (''chat_epoch'', if is_demo (cp_actor p) then JInt (cp_chat_epoch p) else JNull),
      (''dataset_version_id'', JStr (cp_dataset_version p)),
      (''store_ids'', JList (map JStr (qs_stores s))),
      (''period_start'', JStr (isoformat (qs_period_start s))),
      (''period_end'', JStr (isoformat (qs_period_end s))),
      (''currency'', JStr ''BRL''),
      (''question'', JStr q),
      (''recommended_question_id'', json_opt (pc_recommended c)),
      (''prompt_locale'', json_opt (pc_locale c)),
      (''prompt_template_version'', json_opt (pc_version c)),
      (''prompt_template_sha256'', json_opt (pc_sha c)),
      (''context'', case qs_context_kind s of None \<Rightarrow> JNull
         | Some k \<Rightarrow> JObj [(''kind'', JStr (context_name k)), (''reference'', json_opt (qs_context_reference s))])]"

text \<open>What the handler knows of its submission before the first transaction.\<close>

record ask =
  ak_principal :: chat_principal
  ak_scope :: query_scope
  ak_question :: string
  ak_prompt :: resolved_prompt
  ak_key_hash :: digest
  ak_request_hash :: digest
  ak_turn :: uuid
  ak_request_id :: "string option"

definition prepare :: "chat_env \<Rightarrow> submission \<Rightarrow> chat_error + ask" where
  "prepare env m =
     ebind (validate_principal env (sm_principal m) (sm_context_kind m) (sm_context_reference m)) (\<lambda>s.
     ebind (validate_question env (sm_question m)) (\<lambda>q.
     ebind (resolve_prompt env q (sm_prompt m) (sm_context_kind m)) (\<lambda>r.
     ebind (chat_key_hash env (sm_principal m) (sm_key m)) (\<lambda>kh.
     let rh = ce_json_sha env (request_payload (sm_principal m) s q (rp_choice r)) in
     Inr \<lparr>ak_principal = sm_principal m, ak_scope = s, ak_question = q, ak_prompt = r, ak_key_hash = kh, ak_request_hash = rh,
       ak_turn = ce_uuid5 env (actor_text (cp_actor (sm_principal m)) @ '':'' @ kh @ '':'' @ rh),
       ak_request_id = sm_request_id m\<rparr>))))"

end
