(* ===== verification/Calendar.thy ===== *)
theory Calendar
  imports Sessions
begin

text \<open>
  The days and months of the token budget (\<open>_begin_attempt\<close>): the UTC date of a time in
  microseconds since 1970, the beginning of its day and of its month, and that both are not after
  the time itself, from the arithmetic of the Gregorian calendar.
\<close>

definition day_length :: time where
  "day_length = 24 * minutes 60"

definition unix_ordinal :: date where
  "unix_ordinal = 719163"

definition date_of :: "time \<Rightarrow> date" where
  "date_of now = unix_ordinal + now div day_length"

definition day_start :: "time \<Rightarrow> time" where
  "day_start now = (date_of now - unix_ordinal) * day_length"

definition month_start :: "time \<Rightarrow> time" where
  "month_start now = (to_ordinal (ord_year (date_of now)) (ord_month (date_of now)) 1 - unix_ordinal) * day_length"

lemma day_start_le: "day_start t \<le> t"
proof -
  have "t div day_length * day_length \<le> t" using minus_mod_eq_div_mult [of t day_length] pos_mod_sign [of day_length t]
    by (simp add: day_length_def minutes_def)
  then show ?thesis by (simp add: day_start_def date_of_def)
qed

lemma month_from_bounds:
  "1 \<le> r \<Longrightarrow> 1 \<le> k \<Longrightarrow> k \<le> 12 \<Longrightarrow> month_from y [k..12] r = (m, q)
    \<Longrightarrow> k \<le> m \<and> (\<Sum>j \<leftarrow> [k..m - 1]. days_in_month y j) + 1 \<le> r"
proof (induction "nat (12 - k)" arbitrary: k r)
  case 0
  then have "k = 12" by simp
  moreover have "[12..12] = [12 :: int]" by simp
  ultimately have "m = 12" using "0.prems"(4) by (simp split: if_splits)
  then show ?case using \<open>k = 12\<close> "0.prems"(1) by simp
next
  case (Suc n)
  then have k: "k < 12" by simp
  have up: "[k..12] = k # [k + 1..12]" using k by (simp add: upto_rec1)
  show ?case
  proof (cases "r \<le> days_in_month y k")
    case True
    then show ?thesis using Suc.prems by (simp add: up)
  next
    case False
    let ?r = "r - days_in_month y k"
    have "month_from y [k + 1..12] ?r = (m, q)" using Suc.prems(4) False by (simp add: up)
    then have IH: "k + 1 \<le> m \<and> (\<Sum>j \<leftarrow> [k + 1..m - 1]. days_in_month y j) + 1 \<le> ?r"
      using Suc.hyps(1) [of "k + 1" ?r] Suc.hyps(2) Suc.prems(2) False k by simp
    then have "[k..m - 1] = k # [k + 1..m - 1]" by (simp add: upto_rec1)
    then show ?thesis using IH by simp
  qed
qed

lemma div_eq: "a = b * q + r \<Longrightarrow> 0 \<le> r \<Longrightarrow> r < b \<Longrightarrow> a div b = (q :: int)"
  by (rule int_div_pos_eq)

lemma days_before_parts:
  fixes a b c e :: int
  assumes "0 \<le> b" "b \<le> 3" "0 \<le> c" "c \<le> 24" "0 \<le> e" "e \<le> 3"
  shows "days_before_year (400 * a + 100 * b + 4 * c + e + 1) = 146097 * a + 36524 * b + 1461 * c + 365 * e"
proof -
  let ?p = "400 * a + 100 * b + 4 * c + e"
  have "?p div 4 = 100 * a + 25 * b + c" by (rule div_eq [of _ _ _ e]) (use assms in auto)
  moreover have "?p div 100 = 4 * a + b" by (rule div_eq [of _ _ _ "4 * c + e"]) (use assms in auto)
  moreover have "?p div 400 = a" by (rule div_eq [of _ _ _ "100 * b + 4 * c + e"]) (use assms in auto)
  ultimately show ?thesis by (simp add: days_before_year_def Let_def)
qed

lemma ord_year_before: "days_before_year (ord_year n) < n"
proof -
  define a r where "a = (n - 1) div 146097" and "r = (n - 1) mod 146097"
  define b s where "b = r div 36524" and "s = r mod 36524"
  define c t where "c = s div 1461" and "t = s mod 1461"
  define e f where "e = t div 365" and "f = t mod 365"
  have n: "n - 1 = 146097 * a + r" and r: "r = 36524 * b + s" and s: "s = 1461 * c + t" and t: "t = 365 * e + f"
    unfolding a_def r_def b_def s_def c_def t_def e_def f_def by (rule mult_div_mod_eq [symmetric])+
  have rb: "0 \<le> r" "r < 146097" and sb: "0 \<le> s" "s < 36524" and tb: "0 \<le> t" "t < 1461" and fb: "0 \<le> f" "f < 365"
    unfolding r_def s_def t_def f_def by (rule pos_mod_sign pos_mod_bound; simp)+
  have year: "ord_year n = (if e = 4 \<or> b = 4 then 400 * a + 100 * b + 4 * c + e else 400 * a + 100 * b + 4 * c + e + 1)"
    unfolding ord_year_def Let_def e_def t_def c_def s_def b_def r_def a_def by (simp add: algebra_simps)
  have b: "0 \<le> b" "b \<le> 4" using r rb sb by linarith+
  have c: "0 \<le> c" "c \<le> 24" using s sb tb by linarith+
  have e: "0 \<le> e" "e \<le> 4" using t tb fb by linarith+
  show ?thesis
  proof (cases "b = 4")
    case True
    then have "s = 0" using r rb sb by linarith
    then have zero: "c = 0" "e = 0" using s t c tb fb e by linarith+
    have "ord_year n = 400 * a + 100 * 3 + 4 * 24 + 3 + 1" using year True zero by simp
    then have "days_before_year (ord_year n) = 146097 * a + 36524 * 3 + 1461 * 24 + 365 * 3"
      using days_before_parts [of 3 24 3 a] by simp
    then show ?thesis using n r True \<open>s = 0\<close> by linarith
  next
    case b4: False
    then have b3: "b \<le> 3" using b by linarith
    show ?thesis
    proof (cases "e = 4")
      case True
      then have "ord_year n = 400 * a + 100 * b + 4 * c + 3 + 1" using year by simp
      then have "days_before_year (ord_year n) = 146097 * a + 36524 * b + 1461 * c + 365 * 3"
        using days_before_parts [of b c 3 a] b(1) b3 c by simp
      then show ?thesis using n r s t True fb by linarith
    next
      case False
      then have "ord_year n = 400 * a + 100 * b + 4 * c + e + 1" using year b4 by simp
      then have "days_before_year (ord_year n) = 146097 * a + 36524 * b + 1461 * c + 365 * e"
        using days_before_parts [of b c e a] b(1) b3 c e False by simp
      then show ?thesis using n r s t fb by linarith
    qed
  qed
qed

lemma month_start_le: "month_start t \<le> t"
proof -
  let ?n = "date_of t"
  obtain m q where mq: "ord_month_day ?n = (m, q)" by (cases "ord_month_day ?n")
  have "(\<Sum>j \<leftarrow> [1..m - 1]. days_in_month (ord_year ?n) j) + 1 \<le> ?n - days_before_year (ord_year ?n)"
    using month_from_bounds [of "?n - days_before_year (ord_year ?n)" 1 "ord_year ?n" m q] ord_year_before [of ?n] mq
    by (simp add: ord_month_day_def Let_def)
  then have "to_ordinal (ord_year ?n) (ord_month ?n) 1 \<le> ?n"
    by (simp add: to_ordinal_def days_before_month_def ord_month_def mq)
  then have "month_start t \<le> (?n - unix_ordinal) * day_length"
    unfolding month_start_def by (intro mult_right_mono) (simp_all add: day_length_def minutes_def)
  also have "\<dots> \<le> t" using day_start_le [of t] by (simp add: day_start_def)
  finally show ?thesis .
qed

end
