(* ===== verification/ChatProcess.thy ===== *)
theory ChatProcess
  imports Chat Calendar
begin

text \<open>
  The handler of a submission (\<open>AIChatService.submit\<close>) as a process over the database: its
  transactions, the points between them, and the step from one point to the next. The inputs of a
  step (clock, fate of the connection, new identifiers, answers of the provider, of the executor
  and of the channel control) are a \<open>tick\<close>. Within one transaction the clock stands still.
\<close>

definition chat_lease :: time where
  "chat_lease = minutes 15"

definition reservation :: "stage \<Rightarrow> int" where
  "reservation g = (case g of PlanningStage \<Rightarrow> 16000 | AnsweringStage \<Rightarrow> 80000)"

section \<open>Transactions\<close>

definition session_open :: "chat_principal \<Rightarrow> time \<Rightarrow> chat_db \<Rightarrow> bool" where
  "session_open p now d =
     (case cp_actor p of
        ByOperator _ \<Rightarrow> True
      | ByDemo sid \<Rightarrow> lock_demo_chat_epoch sid (cp_workspace p) (cp_dataset_version p) (cp_chat_epoch p) now (cd_base d))"

text \<open>A turn with the key of a request must be the turn of the same request.\<close>

definition same_request :: "ask \<Rightarrow> chat_turn option \<Rightarrow> chat_error + chat_turn option" where
  "same_request a t =
     (case t of
        None \<Rightarrow> Inr None
      | Some u \<Rightarrow> if tn_request_hash u = ak_request_hash a then Inr (Some u) else Inl ChatConflict)"

definition find_turn :: "ask \<Rightarrow> chat_db \<Rightarrow> chat_turn option" where
  "find_turn a d = find_by_key (cp_actor (ak_principal a)) (ak_key_hash a) d"

definition recover_body :: "ask \<Rightarrow> time \<Rightarrow> chat_db \<Rightarrow> chat_error + (chat_turn option \<times> chat_db)" where
  "recover_body a now d =
     ebind (ensure (session_open (ak_principal a) now d) ChatNotFound) (\<lambda>_.
     ebind (recover_stale now d) (\<lambda>(_, d'). Inr (find_turn a d', d')))"

record credential =
  cb_version :: string
  cb_id :: digest
  cb_revision :: int

definition new_turn :: "chat_env \<Rightarrow> ask \<Rightarrow> credential \<Rightarrow> string \<Rightarrow> time \<Rightarrow> chat_db \<Rightarrow> chat_turn" where
  "new_turn env a cred rid now d =
     \<lparr>tn_id = ak_turn a, tn_sequence = next_sequence (cp_actor (ak_principal a)) d, tn_workspace = ce_workspace env,
      tn_dataset_version = qs_dataset_version (ak_scope a), tn_actor = cp_actor (ak_principal a), tn_question = ak_question a,
      tn_recommended = pc_recommended (rp_choice (ak_prompt a)), tn_scope = ak_scope a, tn_key_hash = ak_key_hash a,
      tn_request_hash = ak_request_hash a, tn_binding = cb_id cred, tn_control_revision = cb_revision cred,
      tn_credential_request = rid, tn_created_at = now, tn_status = Planning, tn_tool = None, tn_result_hash = None,
      tn_answer = None, tn_summary = None, tn_error = None, tn_draft = None, tn_updated_at = now,
      tn_lease = Some (now + chat_lease), tn_completed_at = None\<rparr>"

definition history_of :: "ask \<Rightarrow> chat_db \<Rightarrow> string list" where
  "history_of a d = safe_history (cp_actor (ak_principal a)) (qs_dataset_version (ak_scope a)) (qs_stores (ak_scope a)) d"

text \<open>The admission returns a turn and whether it is a replay.\<close>

definition admit_body :: "chat_env \<Rightarrow> ask \<Rightarrow> credential \<Rightarrow> string \<Rightarrow> time \<Rightarrow> chat_db
    \<Rightarrow> chat_error + ((chat_turn \<times> bool \<times> string list) \<times> chat_db)" where
  "admit_body env a cred rid now d =
     ebind (ensure (session_open (ak_principal a) now d) ChatNotFound) (\<lambda>_.
     ebind (recover_stale now d) (\<lambda>(_, d').
     ebind (same_request a (find_turn a d')) (\<lambda>found.
     case found of
       Some t \<Rightarrow> Inr ((t, True, history_of a d'), d')
     | None \<Rightarrow>
         if bl_concurrent (ce_limits env) \<le> int (active_turn_count d') then Inl ChatBusy
         else (let t = new_turn env a cred rid now d' in
               ebind (insert_turn t d') (\<lambda>d''. Inr ((t, False, history_of a d'), d''))))))"

definition begin_body :: "chat_env \<Rightarrow> uuid \<Rightarrow> stage \<Rightarrow> uuid \<Rightarrow> time \<Rightarrow> chat_db \<Rightarrow> chat_error + (uuid \<times> chat_db)" where
  "begin_body env tid g aid now d =
     (let l = ce_limits env; since = now - minutes 1 in
      if bl_global_minute l \<le> int (attempts_since since d)
         \<or> bl_session_minute l \<le> int (session_attempt_count tid since d) then Inl ChatRateLimited
      else if bl_daily l \<le> int (attempts_since (day_start now) d) then Inl ChatBudgetExceeded
      else if bl_monthly l < tokens_since (month_start now) d + reservation g then Inl ChatBudgetExceeded
      else ebind (add_attempt aid tid g now (reservation g) d) (\<lambda>d'. Inr (aid, d')))"

text \<open>How an attempt ended: status, tokens, error.\<close>

record ending =
  en_status :: attempt_status
  en_input :: int
  en_output :: int
  en_error :: "string option"

definition finish_body :: "uuid \<Rightarrow> ending \<Rightarrow> time \<Rightarrow> chat_db \<Rightarrow> chat_error + (unit \<times> chat_db)" where
  "finish_body aid e now d =
     (case attempt_by_id aid d of
        None \<Rightarrow> Inl (ChatUnavailable ''provider_attempt_missing'')
      | Some a \<Rightarrow>
          if ch_reserved (at_charge a) < en_input e + en_output e then Inl (ChatUnavailable ''provider_usage_exceeds_reservation'')
          else ebind (finish_attempt aid (en_status e) (en_input e) (en_output e) (en_error e) now d) (\<lambda>d'. Inr ((), d')))"

definition finished_as :: "ending \<Rightarrow> attempt_row option \<Rightarrow> bool" where
  "finished_as e a = (case a of None \<Rightarrow> False
     | Some x \<Rightarrow> ch_status (at_charge x) = en_status e \<and> ch_input (at_charge x) = en_input e
         \<and> ch_output (at_charge x) = en_output e \<and> ch_error (at_charge x) = en_error e \<and> ch_completed_at (at_charge x) \<noteq> None)"

definition plain_change :: "chat_status \<Rightarrow> turn_change" where
  "plain_change s = \<lparr>tc_status = s, tc_tool = None, tc_result_hash = None, tc_answer = None, tc_summary = None, tc_error = None\<rparr>"

definition terminal_change :: "chat_status \<Rightarrow> string \<Rightarrow> string \<Rightarrow> turn_change" where
  "terminal_change s err summary = (plain_change s)\<lparr>tc_error := Some err, tc_summary := Some summary\<rparr>"

definition moved :: "string \<Rightarrow> chat_turn option \<times> chat_db \<Rightarrow> chat_error + (chat_turn \<times> chat_db)" where
  "moved message r = (case r of (None, _) \<Rightarrow> Inl (ChatUnavailable message) | (Some t, d) \<Rightarrow> Inr (t, d))"

definition transit_body :: "uuid \<Rightarrow> chat_status \<Rightarrow> turn_change \<Rightarrow> time \<Rightarrow> chat_db \<Rightarrow> chat_error + (chat_turn \<times> chat_db)" where
  "transit_body tid expected c now d =
     ebind (transition tid expected c (Some (now + chat_lease)) now d) (moved ''turn_transition_failed'')"

definition matches_given :: "'a option \<Rightarrow> 'a option \<Rightarrow> bool" where
  "matches_given x y \<longleftrightarrow> x = None \<or> y = x"

definition has_changed :: "turn_change \<Rightarrow> chat_turn option \<Rightarrow> bool" where
  "has_changed c t = (case t of None \<Rightarrow> False
     | Some u \<Rightarrow> tn_status u = tc_status c \<and> matches_given (tc_tool c) (tn_tool u)
         \<and> matches_given (tc_result_hash c) (tn_result_hash u) \<and> matches_given (tc_error c) (tn_error u)
         \<and> matches_given (tc_summary c) (tn_summary u))"

definition insufficient_text :: string where
  "insufficient_text = ''The current synthetic data is insufficient to support this conclusion.''"

definition insufficient_answer :: "uuid \<Rightarrow> query_scope \<Rightarrow> tool_result \<Rightarrow> chat_answer" where
  "insufficient_answer tid s r = \<lparr>an_turn = tid, an_status = AnswerClarifies, an_text = insufficient_text, an_scope = s,
     an_facts = [], an_limitations = to_limitations r,
     an_questions = [''Adjust the available filters or ask about another supported synthetic metric.''], an_eligible = False\<rparr>"

definition result_status :: "tool_result \<Rightarrow> chat_status" where
  "result_status r = (if to_facts r = [] then ClarificationRequired else Answering)"

definition result_change :: "uuid \<Rightarrow> query_scope \<Rightarrow> query_plan \<Rightarrow> tool_result \<Rightarrow> turn_change" where
  "result_change tid s plan r =
     (let none = to_facts r = [] in
      \<lparr>tc_status = result_status r, tc_tool = Some (qp_tool plan), tc_result_hash = Some (to_hash r),
       tc_answer = (if none then Some (insufficient_answer tid s r) else None),
       tc_summary = (if none then Some insufficient_text else None),
       tc_error = (if none then Some ''insufficient_evidence'' else None)\<rparr>)"

definition record_body :: "uuid \<Rightarrow> query_scope \<Rightarrow> query_plan \<Rightarrow> tool_result \<Rightarrow> time \<Rightarrow> chat_db
    \<Rightarrow> chat_error + (chat_turn \<times> chat_db)" where
  "record_body tid s plan r now d =
     ebind (add_tool_result tid plan (Some r) None now d) (\<lambda>d'.
     ebind (transition tid Querying (result_change tid s plan r) (Some (now + chat_lease)) now d') (moved ''turn_transition_failed''))"

definition was_recorded :: "query_plan \<Rightarrow> tool_result \<Rightarrow> chat_turn option \<Rightarrow> tool_run option \<Rightarrow> bool" where
  "was_recorded plan r t run =
     (case (t, run) of
        (Some u, Some x) \<Rightarrow> tn_status u = result_status r \<and> tn_tool u = Some (qp_tool plan)
          \<and> tn_result_hash u = Some (to_hash r) \<and> qp_tool (tu_plan x) = qp_tool plan
          \<and> (case tu_result x of None \<Rightarrow> False | Some y \<Rightarrow> to_hash y = to_hash r)
      | _ \<Rightarrow> False)"

definition failure_body :: "uuid \<Rightarrow> query_plan \<Rightarrow> time \<Rightarrow> chat_db \<Rightarrow> chat_error + (unit \<times> chat_db)" where
  "failure_body tid plan now d =
     ebind (add_tool_result tid plan None (Some ''query_failed'') now d) (\<lambda>d'. Inr ((), d'))"

definition answer_summary :: "chat_answer \<Rightarrow> string" where
  "answer_summary a = (case an_status a of AnswerGiven \<Rightarrow> ''answered'' | AnswerClarifies \<Rightarrow> ''clarification_required'')
     @ ''; tool facts='' @ show_int (int (length (an_facts a))) @ ''; limitations='' @ show_int (int (length (an_limitations a)))"

definition answer_change :: "query_plan \<Rightarrow> tool_result \<Rightarrow> chat_answer \<Rightarrow> turn_change" where
  "answer_change plan r a = \<lparr>tc_status = Answered, tc_tool = Some (qp_tool plan), tc_result_hash = Some (to_hash r),
     tc_answer = Some a, tc_summary = Some (answer_summary a), tc_error = None\<rparr>"

definition complete_body :: "chat_env \<Rightarrow> uuid \<Rightarrow> query_plan \<Rightarrow> tool_result \<Rightarrow> chat_answer \<Rightarrow> time \<Rightarrow> chat_db
    \<Rightarrow> chat_error + (chat_turn \<times> chat_db)" where
  "complete_body env tid plan r a now d =
     ebind (add_evidence (ce_parse_uuid env) tid r now d) (\<lambda>d'.
     ebind (transition tid Answering (answer_change plan r a) None now d') (moved ''turn_completion_failed''))"

section \<open>Points and inputs\<close>

datatype failure = Err chat_error | Lost

datatype task = PlanTask | ExplainTask query_plan tool_result

definition task_stage :: "task \<Rightarrow> stage" where
  "task_stage k = (case k of PlanTask \<Rightarrow> PlanningStage | ExplainTask _ _ \<Rightarrow> AnsweringStage)"

definition task_status :: "task \<Rightarrow> chat_status" where
  "task_status k = stage_status (task_stage k)"

datatype verdict = Decided planning_decision | Explained explanation | Refused chat_error

datatype replay_cause = ThenRecover | ThenFail failure | AfterAdmission credential string failure "string list"

datatype transit_next = ReturnTurn | ThenExecute query_plan

datatype reply = Replied chat_turn bool | Failing failure

datatype point =
    Recovering bool
  | Replaying replay_cause
  | Selecting
  | Admitting credential string
  | Beginning task
  | RereadingAttempt task failure
  | Calling task uuid
  | Finishing task uuid ending verdict
  | RereadingEnding task uuid ending verdict failure
  | Moving chat_status turn_change transit_next
  | RereadingMove chat_status turn_change transit_next failure
  | Executing query_plan
  | Recording query_plan tool_result
  | RereadingRecord query_plan tool_result failure
  | RecordingFailure query_plan
  | Completing query_plan tool_result chat_answer
  | RereadingAnswer
  | Done reply

text \<open>The clock is read once for the recovery and the admission (\<open>hd_now\<close>).\<close>

record handler =
  hd_ask :: ask
  hd_now :: time
  hd_turn :: uuid
  hd_version :: string
  hd_history :: "string list"
  hd_point :: point

datatype selection = Selected credential | SelectedName string | ChannelOff | ControlDown string | SelectionFailed

datatype execution = Executed tool_result | QueryBroken | ExecutorCrashed

record tick =
  tk_now :: time
  tk_fault :: fault
  tk_uuid :: uuid
  tk_selection :: selection
  tk_decision :: "planning_decision sdk_outcome"
  tk_explanation :: "explanation sdk_outcome"
  tk_execution :: execution

section \<open>Moves between points\<close>

definition goto :: "point \<Rightarrow> handler \<Rightarrow> handler" where
  "goto p h = h\<lparr>hd_point := p\<rparr>"

text \<open>The classes of the service itself; a handler catches these where it catches \<open>AIChatError\<close>.\<close>

definition is_chat_error :: "failure \<Rightarrow> bool" where
  "is_chat_error f = (case f of
      Lost \<Rightarrow> False
    | Err e \<Rightarrow> (case e of ValidationFailed \<Rightarrow> False | RecommendedUnknown \<Rightarrow> False | Integrity \<Rightarrow> False | Trigger _ \<Rightarrow> False
        | ActionFailed _ \<Rightarrow> False | ExecutorFailed \<Rightarrow> False | LookupFailed \<Rightarrow> False | _ \<Rightarrow> True))"

definition error_class :: "chat_error \<Rightarrow> string" where
  "error_class e = (case e of
      ChatInvalid _ \<Rightarrow> ''AI_CHAT_INVALID'' | ChatNotFound \<Rightarrow> ''AI_CHAT_NOT_FOUND'' | ChatConflict \<Rightarrow> ''IDEMPOTENCY_CONFLICT''
    | ChatBusy \<Rightarrow> ''AI_CHAT_BUSY'' | ChatBudgetExceeded \<Rightarrow> ''AI_CHAT_BUDGET_EXHAUSTED'' | ChatRateLimited \<Rightarrow> ''AI_CHAT_RATE_LIMITED''
    | ChatInputRejected _ \<Rightarrow> ''AI_CHAT_INPUT_REJECTED'' | ChannelDisabled \<Rightarrow> ''AI_CHAT_CHANNEL_DISABLED'' | _ \<Rightarrow> ''AI_CHAT_UNAVAILABLE'')"

definition outcome_unknown :: "chat_error \<Rightarrow> bool" where
  "outcome_unknown e = (case e of ChatUnavailable m \<Rightarrow> sublist ''outcome_unknown'' m | _ \<Rightarrow> False)"

definition unavailable_text :: string where
  "unavailable_text = ''The AI explanation layer is unavailable; deterministic pages remain available.''"

definition provider_terminal :: "chat_status \<Rightarrow> chat_error \<Rightarrow> point" where
  "provider_terminal expected e = Moving expected
     (if outcome_unknown e then terminal_change TurnUnknown ''provider_outcome_unknown'' unavailable_text
      else terminal_change TurnFailed (error_class e) unavailable_text) ReturnTurn"

text \<open>An error of the service closes the turn; any other leaves the handler.\<close>

definition task_failed :: "task \<Rightarrow> failure \<Rightarrow> point" where
  "task_failed k f = (case f of
      Err e \<Rightarrow> if is_chat_error f then provider_terminal (task_status k) e else Done (Failing f)
    | Lost \<Rightarrow> Done (Failing Lost))"

definition unsupported_text :: string where
  "unsupported_text = ''This request is outside the Ask BizPulse whitelist.''"

definition query_failed :: "chat_status \<Rightarrow> point" where
  "query_failed s = Moving s (terminal_change TurnFailed ''query_failed'' ''The authoritative query is currently unavailable.'') ReturnTurn"

definition start_plan :: "ask \<Rightarrow> query_plan \<Rightarrow> point" where
  "start_plan a plan =
     (if (case qs_context_kind (ak_scope a) of None \<Rightarrow> False | Some k \<Rightarrow> qp_tool plan \<noteq> context_tool k)
      then Moving Planning (terminal_change Unsupported ''context_tool_mismatch''
             ''This question does not match the selected pinned context.'') ReturnTurn
      else Moving Planning ((plain_change Querying)\<lparr>tc_tool := Some (qp_tool plan)\<rparr>) (ThenExecute plan))"

definition after_decision :: "ask \<Rightarrow> planning_decision \<Rightarrow> point" where
  "after_decision a d =
     (case pd_plan d of
        Some plan \<Rightarrow> start_plan a plan
      | None \<Rightarrow>
          if pd_status d = NeedsClarification
          then Moving Planning (terminal_change ClarificationRequired ''question_ambiguous''
                 ''Please ask a specific supported synthetic business question.'') ReturnTurn
          else Moving Planning (terminal_change Unsupported ''unsupported_question'' unsupported_text) ReturnTurn)"

definition after_explanation :: "chat_env \<Rightarrow> uuid \<Rightarrow> query_plan \<Rightarrow> tool_result \<Rightarrow> explanation \<Rightarrow> point" where
  "after_explanation env tid plan r e =
     (case merge_answer (ce_boundary env) tid r e of
        Inl _ \<Rightarrow> Moving Answering (terminal_change TurnFailed ''answer_merge_rejected''
            ''The explanation could not be safely bound to authoritative facts.'') ReturnTurn
      | Inr a \<Rightarrow> Completing plan r a)"

definition after_verdict :: "chat_env \<Rightarrow> handler \<Rightarrow> task \<Rightarrow> verdict \<Rightarrow> point" where
  "after_verdict env h k v =
     (case v of
        Refused e \<Rightarrow> task_failed k (Err e)
      | Decided d \<Rightarrow> after_decision (hd_ask h) d
      | Explained e \<Rightarrow> (case k of
            ExplainTask plan r \<Rightarrow> after_explanation env (hd_turn h) plan r e
          | PlanTask \<Rightarrow> Done (Failing (Err ValidationFailed))))"

text \<open>A turn that is the handler's own to work on.\<close>

definition after_admission :: "chat_env \<Rightarrow> ask \<Rightarrow> chat_turn \<Rightarrow> point" where
  "after_admission env a t =
     (if tn_status t \<noteq> Planning then Done (Replied t False)
      else if ce_unsupported env (ak_question a)
        then Moving Planning (terminal_change Unsupported ''unsupported_question'' unsupported_text) ReturnTurn
      else if length (ak_question a) < 5
        then Moving Planning (terminal_change ClarificationRequired ''question_ambiguous''
               ''Please ask a specific metric, period, SKU, or evidence question.'') ReturnTurn
      else case rp_intent (ak_prompt a) of
             None \<Rightarrow> Beginning PlanTask
           | Some i \<Rightarrow> (case plan_for_intent i of
                 None \<Rightarrow> Done (Failing (Err RecommendedUnknown))
               | Some plan \<Rightarrow> start_plan a plan))"

section \<open>Answers of the provider\<close>

definition attempt_ended :: "('v \<Rightarrow> bool) \<Rightarrow> ('v \<Rightarrow> verdict) \<Rightarrow> gateway_failure + ('v \<times> int \<times> int) \<Rightarrow> ending \<times> verdict" where
  "attempt_ended ok f r =
     (case r of
        Inl ProviderOutcomeUnknown \<Rightarrow>
          (\<lparr>en_status = AttemptUnknown, en_input = 0, en_output = 0, en_error = Some ''provider_outcome_unknown''\<rparr>,
           Refused (ChatUnavailable ''provider_outcome_unknown''))
      | Inl (ProviderUnavailable code) \<Rightarrow>
          (\<lparr>en_status = AttemptFailed, en_input = 0, en_output = 0, en_error = Some (provider_failure_code code)\<rparr>,
           Refused (ChatUnavailable ''provider_unavailable''))
      | Inr (v, i, n) \<Rightarrow>
          if ok v then (\<lparr>en_status = Succeeded, en_input = i, en_output = n, en_error = None\<rparr>, f v)
          else (\<lparr>en_status = AttemptFailed, en_input = 0, en_output = 0, en_error = Some ''provider_unavailable''\<rparr>,
                Refused (ChatUnavailable ''provider_unavailable'')))"

definition call_provider :: "handler \<Rightarrow> task \<Rightarrow> tick \<Rightarrow> ending \<times> verdict" where
  "call_provider h k k' =
     (case k of
        PlanTask \<Rightarrow> attempt_ended decision_ok Decided (parse_response PlanningStage (hd_version h) (tk_decision k'))
      | ExplainTask _ _ \<Rightarrow>
          attempt_ended explanation_ok Explained (parse_response AnsweringStage (hd_version h) (tk_explanation k')))"

section \<open>The step\<close>

text \<open>The outcome of a transaction: what it returned, or how it failed.\<close>

definition settled :: "(chat_error, 'a) outcome \<Rightarrow> failure + 'a" where
  "settled out = (case out of Returned x \<Rightarrow> Inr x | Raised e \<Rightarrow> Inl (Err e) | ConnectionLost \<Rightarrow> Inl Lost)"

definition transact :: "tick \<Rightarrow> (chat_db \<Rightarrow> chat_error + ('a \<times> chat_db)) \<Rightarrow> (failure + 'a \<Rightarrow> handler) \<Rightarrow> chat_db
    \<Rightarrow> handler \<times> chat_db" where
  "transact k body next d = (case run_uow (tk_fault k) body d of (out, d') \<Rightarrow> (next (settled out), d'))"

text \<open>A read on a connection of its own, which may fail.\<close>

definition readable :: "tick \<Rightarrow> bool" where
  "readable k \<longleftrightarrow> tk_fault k = NoFault"

definition credential_of :: "chat_env \<Rightarrow> selection \<Rightarrow> failure + credential" where
  "credential_of env s =
     (case s of
        Selected c \<Rightarrow> Inr c
      | SelectedName v \<Rightarrow>
          if strip v \<noteq> [] then Inr \<lparr>cb_version = v,
            cb_id = ce_sha env (''bizpulse-test-credential-binding-v1'' @ [CHR 0x00] @ v), cb_revision = 0\<rparr>
          else Inl (Err (ChatUnavailable ''AI_CHAT_UNAVAILABLE''))
      | ChannelOff \<Rightarrow> Inl (Err ChannelDisabled)
      | ControlDown code \<Rightarrow> Inl (Err (ChatUnavailable code))
      | SelectionFailed \<Rightarrow> Inl (Err (ChatUnavailable ''AI_CHAT_UNAVAILABLE'')))"

text \<open>\<open>request_id or f"turn-{turn_id.hex}"\<close>\<close>

definition request_name :: "ask \<Rightarrow> string" where
  "request_name a = (case ak_request_id a of
      Some r \<Rightarrow> if r = [] then ''turn-'' @ filter (\<lambda>c. c \<noteq> CHR ''-'') (ak_turn a) else r
    | None \<Rightarrow> ''turn-'' @ filter (\<lambda>c. c \<noteq> CHR ''-'') (ak_turn a))"

definition after_selection :: "chat_env \<Rightarrow> ask \<Rightarrow> selection \<Rightarrow> point" where
  "after_selection env a s =
     (case credential_of env s of
        Inl f \<Rightarrow> (case s of SelectedName _ \<Rightarrow> Done (Failing f) | _ \<Rightarrow> Replaying (ThenFail f))
      | Inr c \<Rightarrow> if fullmatch request_id_pattern (request_name a) then Admitting c (request_name a)
                 else Done (Failing (Err (ChatInvalid ''request_id_invalid''))))"

definition take_turn :: "chat_env \<Rightarrow> handler \<Rightarrow> credential \<Rightarrow> string list \<Rightarrow> chat_turn \<Rightarrow> handler" where
  "take_turn env h c hist t = h\<lparr>hd_turn := tn_id t, hd_version := cb_version c, hd_history := hist,
     hd_point := after_admission env (hd_ask h) t\<rparr>"

text \<open>Whether the handler may go on with a turn found after a lost admission.\<close>

definition own_turn :: "ask \<Rightarrow> credential \<Rightarrow> string \<Rightarrow> chat_turn \<Rightarrow> bool" where
  "own_turn a c rid t \<longleftrightarrow> ak_request_id a \<noteq> None \<and> tn_binding t = cb_id c \<and> tn_control_revision t = cb_revision c
     \<and> tn_credential_request t = rid"

definition history_seen :: "ask \<Rightarrow> time \<Rightarrow> chat_db \<Rightarrow> string list" where
  "history_seen a now d =
     (if session_open (ak_principal a) now d
      then (case recover_stale now d of Inl _ \<Rightarrow> [] | Inr (_, d') \<Rightarrow> history_of a d') else [])"

definition step_replaying :: "chat_env \<Rightarrow> tick \<Rightarrow> handler \<Rightarrow> replay_cause \<Rightarrow> chat_db \<Rightarrow> handler" where
  "step_replaying env k h cause d =
     (case (if readable k then same_request (hd_ask h) (find_turn (hd_ask h) d) else Inr None) of
        Inl e \<Rightarrow> goto (Done (Failing (Err e))) h
      | Inr None \<Rightarrow> (case cause of
            ThenRecover \<Rightarrow> goto (Recovering True) h
          | ThenFail f \<Rightarrow> goto (Done (Failing f)) h
          | AfterAdmission _ _ f _ \<Rightarrow> goto (Done (Failing f)) h)
      | Inr (Some t) \<Rightarrow> (case cause of
            AfterAdmission c rid _ hist \<Rightarrow>
              if own_turn (hd_ask h) c rid t then take_turn env h c hist t else goto (Done (Replied t True)) h
          | _ \<Rightarrow> goto (Done (Replied t True)) h))"

definition after_recovery :: "bool \<Rightarrow> handler \<Rightarrow> failure + chat_turn option \<Rightarrow> handler" where
  "after_recovery again h r =
     (case (case r of Inl f \<Rightarrow> Inl f | Inr t \<Rightarrow> (case same_request (hd_ask h) t of Inl e \<Rightarrow> Inl (Err e) | Inr u \<Rightarrow> Inr u)) of
        Inl f \<Rightarrow> goto (if again then Done (Failing f) else Replaying ThenRecover) h
      | Inr None \<Rightarrow> goto Selecting h
      | Inr (Some t) \<Rightarrow> goto (Done (Replied t True)) h)"

definition after_admit :: "chat_env \<Rightarrow> handler \<Rightarrow> credential \<Rightarrow> string \<Rightarrow> string list
    \<Rightarrow> failure + (chat_turn \<times> bool \<times> string list) \<Rightarrow> handler" where
  "after_admit env h c rid seen r =
     (case r of
        Inl f \<Rightarrow> goto (Replaying (if f = Err Integrity then ThenFail (Err ChatBusy) else AfterAdmission c rid f seen)) h
      | Inr (t, True, _) \<Rightarrow> goto (Done (Replied t True)) h
      | Inr (t, False, hist) \<Rightarrow> take_turn env h c hist t)"

definition after_begin :: "task \<Rightarrow> handler \<Rightarrow> failure + uuid \<Rightarrow> handler" where
  "after_begin k h r =
     (case r of
        Inr aid \<Rightarrow> goto (Calling k aid) h
      | Inl f \<Rightarrow>
          if f = Err ChatBudgetExceeded \<or> f = Err ChatRateLimited then goto (task_failed k f) h
          else if f = Err Integrity then goto (task_failed k (Err (ChatUnavailable ''provider_attempt_already_recorded''))) h
          else goto (RereadingAttempt k f) h)"

definition after_move :: "transit_next \<Rightarrow> handler \<Rightarrow> chat_turn \<Rightarrow> handler" where
  "after_move n h t = (case n of ReturnTurn \<Rightarrow> goto (Done (Replied t False)) h | ThenExecute plan \<Rightarrow> goto (Executing plan) h)"

definition move_failed :: "transit_next \<Rightarrow> handler \<Rightarrow> failure \<Rightarrow> handler" where
  "move_failed n h f = (case n of ReturnTurn \<Rightarrow> goto (Done (Failing f)) h | ThenExecute _ \<Rightarrow> goto (query_failed Planning) h)"

definition after_record :: "query_plan \<Rightarrow> tool_result \<Rightarrow> handler \<Rightarrow> chat_turn \<Rightarrow> handler" where
  "after_record plan r h t = goto (if to_facts r = [] then Done (Replied t False) else Beginning (ExplainTask plan r)) h"

definition step_reads :: "chat_env \<Rightarrow> tick \<Rightarrow> handler \<Rightarrow> chat_db \<Rightarrow> handler" where
  "step_reads env k h d =
     (case hd_point h of
        Replaying cause \<Rightarrow> step_replaying env k h cause d
      | Selecting \<Rightarrow> goto (after_selection env (hd_ask h) (tk_selection k)) h
      | RereadingAttempt t f \<Rightarrow>
          (case (if readable k then attempt_of (hd_turn h) (task_stage t) d else None) of
             None \<Rightarrow> goto (Done (Failing (if readable k then f else Lost))) h
           | Some a \<Rightarrow> if ch_status (at_charge a) = Started \<and> ch_reserved (at_charge a) = reservation (task_stage t)
                       then goto (Calling t (at_id a)) h else goto (Done (Failing f)) h)
      | Calling t aid \<Rightarrow> (case call_provider h t k of (e, v) \<Rightarrow> goto (Finishing t aid e v) h)
      | RereadingEnding t aid e v f \<Rightarrow>
          if readable k \<and> finished_as e (attempt_by_id aid d) then goto (after_verdict env h t v) h
          else goto (if readable k then task_failed t f else Done (Failing Lost)) h
      | RereadingMove s c n f \<Rightarrow>
          (case turn_of (hd_turn h) d of
             Some t \<Rightarrow> if readable k \<and> has_changed c (Some t) then after_move n h t
                       else move_failed n h (if readable k then f else Lost)
           | None \<Rightarrow> move_failed n h (if readable k then f else Lost))
      | Executing plan \<Rightarrow>
          (case tk_execution k of
             Executed r \<Rightarrow> goto (if result_ok r then Recording plan r else query_failed Querying) h
           | QueryBroken \<Rightarrow> goto (RecordingFailure plan) h
           | ExecutorCrashed \<Rightarrow> goto (query_failed Querying) h)
      | RereadingRecord plan r f \<Rightarrow>
          (case turn_of (hd_turn h) d of
             Some t \<Rightarrow> if readable k \<and> was_recorded plan r (Some t) (tool_run_of (hd_turn h) d) then after_record plan r h t
                       else goto (query_failed Querying) h
           | None \<Rightarrow> goto (query_failed Querying) h)
      | RereadingAnswer \<Rightarrow>
          if \<not> readable k then goto (Done (Failing Lost)) h
          else (case get_for_session (cp_actor (ak_principal (hd_ask h))) (hd_turn h) d of
             Some t \<Rightarrow> if tn_status t = Answered then goto (Done (Replied t False)) h
                       else goto (Done (Failing (Err (ChatUnavailable ''turn_completion_unknown'')))) h
           | None \<Rightarrow> goto (Done (Failing (Err (ChatUnavailable ''turn_completion_unknown'')))) h)
      | _ \<Rightarrow> h)"

definition advance :: "chat_env \<Rightarrow> tick \<Rightarrow> handler \<Rightarrow> chat_db \<Rightarrow> handler \<times> chat_db" where
  "advance env k h d =
     (let a = hd_ask h; tid = hd_turn h; now = tk_now k in
      case hd_point h of
        Recovering again \<Rightarrow> transact k (recover_body a (hd_now h)) (after_recovery again h) d
      | Admitting c rid \<Rightarrow>
          transact k (admit_body env a c rid (hd_now h)) (after_admit env h c rid (history_seen a (hd_now h) d)) d
      | Beginning t \<Rightarrow>
          if bl_rehearsal (ce_limits env) then (goto (task_failed t (Err ChatBudgetExceeded)) h, d)
          else transact k (begin_body env tid (task_stage t) (tk_uuid k) now) (after_begin t h) d
      | Finishing t aid e v \<Rightarrow> transact k (finish_body aid e now)
          (\<lambda>r. case r of Inr _ \<Rightarrow> goto (after_verdict env h t v) h | Inl f \<Rightarrow> goto (RereadingEnding t aid e v f) h) d
      | Moving s c n \<Rightarrow> transact k (transit_body tid s c now)
          (\<lambda>r. case r of Inr t \<Rightarrow> after_move n h t | Inl f \<Rightarrow> goto (RereadingMove s c n f) h) d
      | Recording plan r \<Rightarrow> transact k (record_body tid (ak_scope a) plan r now)
          (\<lambda>x. case x of Inr t \<Rightarrow> after_record plan r h t | Inl f \<Rightarrow> goto (RereadingRecord plan r f) h) d
      | RecordingFailure plan \<Rightarrow> transact k (failure_body tid plan now) (\<lambda>_. goto (query_failed Querying) h) d
      | Completing plan r ans \<Rightarrow> transact k (complete_body env tid plan r ans now)
          (\<lambda>x. case x of Inr t \<Rightarrow> goto (Done (Replied t False)) h | Inl _ \<Rightarrow> goto RereadingAnswer h) d
      | _ \<Rightarrow> (step_reads env k h d, d))"

section \<open>The other operations\<close>

text \<open>\<open>_get_optional\<close> and \<open>get\<close>\<close>

definition get_turn :: "chat_env \<Rightarrow> chat_principal \<Rightarrow> uuid \<Rightarrow> chat_db \<Rightarrow> chat_error + (chat_turn \<times> bool)" where
  "get_turn env p tid d =
     ebind (validate_principal env p None None) (\<lambda>_.
     (case get_for_session (cp_actor p) tid d of
        None \<Rightarrow> Inl ChatNotFound
      | Some t \<Rightarrow> if tn_dataset_version t \<noteq> cp_dataset_version p then Inl ChatNotFound
                  else Inr (t, \<not> is_demo (cp_actor p) \<and> list_ex (\<lambda>s. sd_turn s = tid) (cd_saved d))))"

definition list_turns :: "chat_env \<Rightarrow> chat_principal \<Rightarrow> chat_db \<Rightarrow> chat_error + (chat_turn \<times> bool) list" where
  "list_turns env p d =
     ebind (validate_principal env p None None) (\<lambda>_.
     Inr (map (\<lambda>t. (t, \<not> is_demo (cp_actor p) \<and> list_ex (\<lambda>s. sd_turn s = tn_id t) (cd_saved d))) (list_for_session (cp_actor p) d)))"

text \<open>The hash of an answer is a function of the answer; the keyed rendering is an argument.\<close>

definition save_answer :: "chat_env \<Rightarrow> (chat_answer \<Rightarrow> digest) \<Rightarrow> chat_principal \<Rightarrow> uuid \<Rightarrow> time \<Rightarrow> fault \<Rightarrow> chat_db
    \<Rightarrow> (chat_error, chat_turn) outcome \<times> chat_db" where
  "save_answer env hash p tid now flt d =
     (case validate_principal env p None None of
        Inl e \<Rightarrow> (Raised e, d)
      | Inr _ \<Rightarrow>
          (case (is_demo (cp_actor p), cp_operator p) of
             (False, Some op) \<Rightarrow>
               (case get_turn env p tid d of
                  Inl e \<Rightarrow> (Raised e, d)
                | Inr (t, _) \<Rightarrow>
                    (case (tn_status t, tn_answer t) of
                       (Answered, Some ans) \<Rightarrow>
                         run_uow flt (\<lambda>d. ebind (save_record tid op (hash ans) now d) (\<lambda>(same, d').
                           if same then Inr (t, d') else Inl ChatConflict)) d
                     | _ \<Rightarrow> (Raised (ChatInvalid ''only_answered_chat_can_be_saved''), d)))
           | _ \<Rightarrow> (Raised (ChatInvalid ''only_operator_can_save_chat''), d)))"

definition delete_demo_session :: "chat_env \<Rightarrow> chat_principal \<Rightarrow> time \<Rightarrow> fault \<Rightarrow> chat_db \<Rightarrow> (chat_error, nat) outcome \<times> chat_db" where
  "delete_demo_session env p now flt d =
     (case validate_principal env p None None of
        Inl e \<Rightarrow> (Raised e, d)
      | Inr _ \<Rightarrow>
          (case cp_actor p of
             ByOperator _ \<Rightarrow> (Raised (ChatInvalid ''only_demo_chat_session_can_be_deleted''), d)
           | ByDemo sid \<Rightarrow> run_uow flt (\<lambda>d.
               (case advance_demo_chat_epoch sid (cp_workspace p) (cp_dataset_version p) (cp_chat_epoch p) now (cd_base d) of
                  (None, _) \<Rightarrow> Inl ChatNotFound
                | (Some _, b) \<Rightarrow> delete_for_session (ByDemo sid) (d\<lparr>cd_base := delete_session_overlays [sid] b\<rparr>))) d))"

end
