(* ===== verification/ChatInvariants.thy ===== *)
theory ChatInvariants
  imports ChatProcess
begin

text \<open>
  What the statements of the assistant keep: the tables are well formed (\<open>chat_ok\<close>), the ledger
  only loses charge or grows by an admitted attempt, turns only move along their state machine.
\<close>

section \<open>Well-formed tables\<close>

definition turns_ok :: "chat_turn list \<Rightarrow> bool" where
  "turns_ok ts \<longleftrightarrow> distinct (map tn_id ts) \<and> (\<forall>t \<in> set ts. turn_row_ok t)
     \<and> (\<forall>t \<in> set ts. \<forall>u \<in> set ts. t \<noteq> u \<longrightarrow> \<not> turns_clash t u)"

definition charges_ok :: "chat_db \<Rightarrow> bool" where
  "charges_ok d \<longleftrightarrow> distinct (map at_id (cd_attempts d)) \<and> distinct (map (\<lambda>a. (at_turn a, ch_stage (at_charge a))) (cd_attempts d))
     \<and> distinct (map lg_attempt (cd_ledger d)) \<and> (\<forall>l \<in> set (cd_ledger d). tokens_ok (lg_charge l))
     \<and> (\<forall>a \<in> set (cd_attempts d). \<exists>l \<in> set (cd_ledger d). lg_attempt l = at_id a \<and> lg_charge l = at_charge a)"

definition chat_ok :: "chat_db \<Rightarrow> bool" where
  "chat_ok d \<longleftrightarrow> turns_ok (cd_turns d) \<and> charges_ok d \<and> at_turn ` set (cd_attempts d) \<subseteq> tn_id ` set (cd_turns d)"

lemma empty_chat_ok: "chat_ok (empty_chat d)"
  by (simp add: chat_ok_def turns_ok_def charges_ok_def empty_chat_def)

lemma turns_clash_sym: "turns_clash t u \<longleftrightarrow> turns_clash u t"
  by (auto simp: turns_clash_def)

section \<open>Turns\<close>

definition turn_step :: "chat_turn \<Rightarrow> chat_turn \<Rightarrow> bool" where
  "turn_step t u \<longleftrightarrow> check_turn t u = Inr ()"

lemma turn_stepD:
  assumes "turn_step t u"
  shows "same_authority t u" "turn_row_ok u" "is_active (tn_status u) \<Longrightarrow> is_active (tn_status t)"
    "\<not> is_active (tn_status t) \<Longrightarrow> takes_draft t u"
proof -
  have ok: "check_turn_update t u = Inr ()" "turn_row_ok u"
    using assms by (auto simp: turn_step_def check_turn_def ebind_eq_Inr)
  then show "same_authority t u" "turn_row_ok u" "\<not> is_active (tn_status t) \<Longrightarrow> takes_draft t u"
    by (auto simp: check_turn_update_def split: if_splits)
  show "is_active (tn_status t)" if "is_active (tn_status u)"
  proof (rule ccontr)
    assume "\<not> is_active (tn_status t)"
    then have "takes_draft t u" using ok(1) by (auto simp: check_turn_update_def split: if_splits)
    then have "u = t\<lparr>tn_draft := tn_draft u, tn_updated_at := tn_updated_at u\<rparr>" by (auto simp: takes_draft_def)
    then have "tn_status u = tn_status t" by (metis chat_turn.select_convs(15) chat_turn.surjective chat_turn.update_convs(21,22))
    then show False using that \<open>\<not> is_active (tn_status t)\<close> by simp
  qed
qed

abbreviation follows :: "chat_turn \<Rightarrow> chat_turn \<Rightarrow> bool" where
  "follows \<equiv> turn_step\<^sup>*\<^sup>*"

lemma same_authority_refl [simp]: "same_authority t t"
  by (simp add: same_authority_def)

lemma same_authority_trans: "same_authority t u \<Longrightarrow> same_authority u v \<Longrightarrow> same_authority t v"
  by (simp add: same_authority_def)

lemma follows_authority: "follows t u \<Longrightarrow> same_authority t u"
  by (induction rule: rtranclp_induct) (auto intro: same_authority_trans turn_stepD(1))

lemma follows_active: "follows t u \<Longrightarrow> is_active (tn_status u) \<Longrightarrow> is_active (tn_status t)"
  by (induction rule: rtranclp_induct) (auto dest: turn_stepD(3))

lemma follows_row_ok: "follows t u \<Longrightarrow> turn_row_ok t \<Longrightarrow> turn_row_ok u"
  by (induction rule: rtranclp_induct) (auto dest: turn_stepD(2))

lemma same_authority_id: "same_authority t u \<Longrightarrow> tn_id u = tn_id t"
  by (simp add: same_authority_def)

lemma follows_clash:
  assumes "follows t t'" and "follows u u'" and "turns_clash t' u'"
  shows "turns_clash t u"
  using follows_authority [OF assms(1)] follows_authority [OF assms(2)] follows_active [OF assms(1)]
    follows_active [OF assms(2)] assms(3)
  by (auto simp: turns_clash_def same_authority_def)

abbreviation all_follow :: "chat_turn list \<Rightarrow> chat_turn list \<Rightarrow> bool" where
  "all_follow \<equiv> list_all2 follows"

lemma all_follow_refl: "all_follow ts ts"
  by (simp add: list_all2_same)

lemma all_follow_ids: "all_follow ts us \<Longrightarrow> map tn_id us = map tn_id ts"
  by (induction rule: list_all2_induct) (auto dest: follows_authority simp: same_authority_id)

lemma all_follow_trans: "all_follow ts us \<Longrightarrow> all_follow us vs \<Longrightarrow> all_follow ts vs"
  by (rule list_all2_trans [of follows follows follows]) auto

lemma all_follow_ok:
  assumes "all_follow ts us" and "turns_ok ts"
  shows "turns_ok us"
proof -
  have ids: "map tn_id us = map tn_id ts" by (rule all_follow_ids [OF assms(1)])
  have origin: "\<exists>t \<in> set ts. follows t u" if "u \<in> set us" for u
    using assms(1) that by (metis in_set_conv_nth list_all2_conv_all_nth)
  have "turn_row_ok u" if "u \<in> set us" for u
    using origin [OF that] assms(2) follows_row_ok by (auto simp: turns_ok_def)
  moreover have "\<not> turns_clash u v" if uv: "u \<in> set us" "v \<in> set us" "u \<noteq> v" for u v
  proof
    assume clash: "turns_clash u v"
    obtain t s where t: "t \<in> set ts" "follows t u" and s: "s \<in> set ts" "follows s v" using origin uv(1,2) by blast
    have "turns_clash t s" by (rule follows_clash [OF t(2) s(2) clash])
    then have "t = s" using assms(2) t(1) s(1) by (auto simp: turns_ok_def)
    then have "tn_id u = tn_id v" using t(2) s(2) follows_authority same_authority_id by metis
    moreover have "distinct (map tn_id us)" using assms(2) by (simp add: ids turns_ok_def)
    then have "inj_on tn_id (set us)" by (simp add: distinct_map)
    ultimately show False using uv by (auto dest: inj_onD)
  qed
  ultimately show ?thesis using assms(2) by (auto simp: turns_ok_def ids)
qed

lemma update_turnsD:
  assumes "update_turns p f d = Inr d'"
  shows "d' = d\<lparr>cd_turns := update_where p f (cd_turns d)\<rparr>" "all_follow (cd_turns d) (update_where p f (cd_turns d))"
proof -
  obtain us where us: "emap (\<lambda>t. if p t then check_turn t (f t) else Inr ()) (cd_turns d) = Inr us"
    and d': "d' = d\<lparr>cd_turns := update_where p f (cd_turns d)\<rparr>"
    using assms by (auto simp: update_turns_def ebind_eq_Inr)
  show "d' = d\<lparr>cd_turns := update_where p f (cd_turns d)\<rparr>" by (rule d')
  have "turn_step t (f t)" if "t \<in> set (cd_turns d)" "p t" for t
    using emap_list_all2 [OF us] that by (auto simp: turn_step_def list_all2_conv_all_nth in_set_conv_nth)
  then show "all_follow (cd_turns d) (update_where p f (cd_turns d))"
    by (auto simp: update_where_def list_all2_conv_all_nth)
qed

section \<open>Charges\<close>

text \<open>Entry by entry, the same attempt and time, and no more charge than before.\<close>

definition shrinks :: "ledger_row list \<Rightarrow> ledger_row list \<Rightarrow> bool" where
  "shrinks = list_all2 (\<lambda>l m. lg_attempt m = lg_attempt l \<and> ch_created_at (lg_charge m) = ch_created_at (lg_charge l)
     \<and> charged (lg_charge m) \<le> charged (lg_charge l))"

lemma shrinks_refl: "shrinks ls ls"
  by (simp add: shrinks_def list_all2_same)

lemma shrinks_trans: "shrinks ls ms \<Longrightarrow> shrinks ms ns \<Longrightarrow> shrinks ls ns"
  unfolding shrinks_def by (rule list_all2_trans) auto

lemma unique_key: "distinct (map k xs) \<Longrightarrow> x \<in> set xs \<Longrightarrow> y \<in> set xs \<Longrightarrow> k x = k y \<Longrightarrow> x = y"
  by (meson distinct_map inj_onD)

definition set_charge :: "uuid \<Rightarrow> charge \<Rightarrow> chat_db \<Rightarrow> chat_db" where
  "set_charge aid c d = d\<lparr>cd_attempts := update_where (\<lambda>x. at_id x = aid) (\<lambda>x. x\<lparr>at_charge := c\<rparr>) (cd_attempts d),
     cd_ledger := update_where (\<lambda>l. lg_attempt l = aid) (\<lambda>l. l\<lparr>lg_charge := c\<rparr>) (cd_ledger d)\<rparr>"

lemma charges_ok_entry:
  assumes "charges_ok d" and "a \<in> set (cd_attempts d)"
  obtains l where "l \<in> set (cd_ledger d)" "lg_attempt l = at_id a" "lg_charge l = at_charge a"
    "select_one (\<lambda>l. lg_attempt l = at_id a) (cd_ledger d) = Some l"
    "\<And>m. m \<in> set (cd_ledger d) \<Longrightarrow> lg_attempt m = at_id a \<Longrightarrow> m = l"
proof -
  obtain l where l: "l \<in> set (cd_ledger d)" "lg_attempt l = at_id a" "lg_charge l = at_charge a"
    using assms by (auto simp: charges_ok_def)
  have dist: "distinct (map lg_attempt (cd_ledger d))" using assms(1) by (simp add: charges_ok_def)
  have "select_one (\<lambda>l. lg_attempt l = at_id a) (cd_ledger d) = Some l"
    by (rule select_one_unique [OF dist l(1)]) (use l(2) in auto)
  moreover have "m = l" if "m \<in> set (cd_ledger d)" "lg_attempt m = at_id a" for m
    by (rule unique_key [OF dist that(1) l(1)]) (simp add: that(2) l(2))
  ultimately show thesis using l that by blast
qed

definition closes_charge :: "charge \<Rightarrow> charge \<Rightarrow> bool" where
  "closes_charge c e \<longleftrightarrow> ch_status c = Started \<and> ch_stage e = ch_stage c \<and> ch_reserved e = ch_reserved c
     \<and> ch_created_at e = ch_created_at c \<and> ch_status e \<noteq> Started \<and> ch_completed_at e \<noteq> None \<and> tokens_ok e"

lemma closes_charge_check: "check_charge_update m n c e = Inr () \<and> tokens_ok e \<longleftrightarrow> closes_charge c e"
  by (auto simp: check_charge_update_def closes_charge_def)

lemma update_attempt_eq:
  assumes "charges_ok d" and "a \<in> set (cd_attempts d)"
  shows "update_attempt a c d = Inr d' \<longleftrightarrow> closes_charge (at_charge a) c \<and> d' = set_charge (at_id a) c d"
proof -
  obtain l where l: "l \<in> set (cd_ledger d)" "lg_attempt l = at_id a" "lg_charge l = at_charge a"
    "select_one (\<lambda>l. lg_attempt l = at_id a) (cd_ledger d) = Some l"
    "\<And>m. m \<in> set (cd_ledger d) \<Longrightarrow> lg_attempt m = at_id a \<Longrightarrow> m = l"
    by (rule charges_ok_entry [OF assms]) blast
  have same: "update_where (\<lambda>l. lg_attempt l = at_id a)
      (\<lambda>l. l\<lparr>lg_charge := c\<lparr>ch_stage := ch_stage (lg_charge l), ch_reserved := ch_reserved (lg_charge l),
         ch_created_at := ch_created_at (lg_charge l)\<rparr>\<rparr>) (cd_ledger d)
    = update_where (\<lambda>l. lg_attempt l = at_id a) (\<lambda>l. l\<lparr>lg_charge := c\<rparr>) (cd_ledger d)" (is "?L = ?R")
    if c: "closes_charge (at_charge a) c"
  proof -
    have "c\<lparr>ch_stage := ch_stage (lg_charge m), ch_reserved := ch_reserved (lg_charge m),
        ch_created_at := ch_created_at (lg_charge m)\<rparr> = c" if "m \<in> set (cd_ledger d)" "lg_attempt m = at_id a" for m
      using c l(3) l(5) [OF that] by (simp add: closes_charge_def)
    then show ?thesis by (simp add: update_where_def)
  qed
  have merged: "closes_charge (at_charge a) c \<Longrightarrow> check_charge_update m n (lg_charge l)
      (c\<lparr>ch_stage := ch_stage (lg_charge l), ch_reserved := ch_reserved (lg_charge l), ch_created_at := ch_created_at (lg_charge l)\<rparr>) = Inr ()"
    for m n by (simp add: l(3) closes_charge_def check_charge_update_def)
  show ?thesis
    using closes_charge_check [of _ _ "at_charge a" c] merged same
    by (auto simp: update_attempt_def ebind_eq_Inr sync_ledger_def l(4) set_charge_def)
qed

lemma set_charge_ok:
  assumes ok: "charges_ok d" and a: "a \<in> set (cd_attempts d)" and c: "closes_charge (at_charge a) c"
  shows "charges_ok (set_charge (at_id a) c d)" "shrinks (cd_ledger d) (cd_ledger (set_charge (at_id a) c d))"
proof -
  obtain l where l: "l \<in> set (cd_ledger d)" "lg_attempt l = at_id a" "lg_charge l = at_charge a"
    "\<And>m. m \<in> set (cd_ledger d) \<Longrightarrow> lg_attempt m = at_id a \<Longrightarrow> m = l"
    by (rule charges_ok_entry [OF ok a]) blast
  have only: "x = a" if "x \<in> set (cd_attempts d)" "at_id x = at_id a" for x
    by (rule unique_key [of at_id "cd_attempts d"]) (use ok a that in \<open>auto simp: charges_ok_def\<close>)
  have keys: "map (\<lambda>x. (at_turn x, ch_stage (at_charge x))) (update_where (\<lambda>x. at_id x = at_id a) (\<lambda>x. x\<lparr>at_charge := c\<rparr>) (cd_attempts d))
      = map (\<lambda>x. (at_turn x, ch_stage (at_charge x))) (cd_attempts d)"
    using only c by (auto simp: update_where_def closes_charge_def)
  have "\<exists>m \<in> set (cd_ledger (set_charge (at_id a) c d)). lg_attempt m = at_id x \<and> lg_charge m = at_charge x"
    if x: "x \<in> set (cd_attempts (set_charge (at_id a) c d))" for x
  proof -
    obtain y where y: "y \<in> set (cd_attempts d)" "x = (if at_id y = at_id a then y\<lparr>at_charge := c\<rparr> else y)"
      using x by (auto simp: set_charge_def update_where_mem)
    obtain m where m: "m \<in> set (cd_ledger d)" "lg_attempt m = at_id y" "lg_charge m = at_charge y"
      using ok y(1) by (auto simp: charges_ok_def)
    let ?m = "if lg_attempt m = at_id a then m\<lparr>lg_charge := c\<rparr> else m"
    have "?m \<in> set (cd_ledger (set_charge (at_id a) c d))"
      using m(1) by (auto simp: set_charge_def update_where_def)
    moreover have "lg_attempt ?m = at_id x \<and> lg_charge ?m = at_charge x" using y(2) m by auto
    ultimately show ?thesis by blast
  qed
  moreover have "tokens_ok (lg_charge m)" if "m \<in> set (cd_ledger (set_charge (at_id a) c d))" for m
    using that ok c by (auto simp: set_charge_def update_where_mem charges_ok_def closes_charge_def)
  ultimately show "charges_ok (set_charge (at_id a) c d)"
    using ok by (simp add: charges_ok_def set_charge_def keys update_where_keys)
  have "charged c \<le> charged (lg_charge m) \<and> ch_created_at c = ch_created_at (lg_charge m)"
    if "m \<in> set (cd_ledger d)" "lg_attempt m = at_id a" for m
    using l(3) l(4) [OF that] c by (auto simp: closes_charge_def charged_def tokens_ok_def)
  then show "shrinks (cd_ledger d) (cd_ledger (set_charge (at_id a) c d))"
    by (auto simp: shrinks_def set_charge_def update_where_def list_all2_conv_all_nth)
qed

lemma set_charge_simps [simp]:
  "cd_base (set_charge i c d) = cd_base d" "cd_turns (set_charge i c d) = cd_turns d" "cd_runs (set_charge i c d) = cd_runs d"
  "cd_evidence (set_charge i c d) = cd_evidence d" "cd_saved (set_charge i c d) = cd_saved d"
  "map at_id (cd_attempts (set_charge i c d)) = map at_id (cd_attempts d)"
  "map at_turn (cd_attempts (set_charge i c d)) = map at_turn (cd_attempts d)"
  by (simp_all add: set_charge_def update_where_keys)

section \<open>Recovery\<close>

text \<open>A bulk update of started attempts closes each of them and leaves the others.\<close>

definition close_all :: "(attempt_row \<Rightarrow> charge) \<Rightarrow> attempt_row list \<Rightarrow> chat_db \<Rightarrow> chat_db" where
  "close_all f as d = fold (\<lambda>a. set_charge (at_id a) (f a)) as d"

lemma close_all_run:
  assumes "charges_ok d" and "set as \<subseteq> set (cd_attempts d)" and "distinct (map at_id as)"
    and "\<forall>a \<in> set as. closes_charge (at_charge a) (f a)"
  shows "efold (\<lambda>a. update_attempt a (f a)) as d = Inr (close_all f as d)
    \<and> charges_ok (close_all f as d) \<and> shrinks (cd_ledger d) (cd_ledger (close_all f as d))
    \<and> cd_attempts (close_all f as d) = update_where (\<lambda>x. x \<in> set as) (\<lambda>x. x\<lparr>at_charge := f x\<rparr>) (cd_attempts d)"
  using assms
proof (induction as arbitrary: d)
  case Nil
  then show ?case by (simp add: close_all_def shrinks_refl update_where_def)
next
  case (Cons a as)
  let ?d = "set_charge (at_id a) (f a) d"
  have a: "a \<in> set (cd_attempts d)" "closes_charge (at_charge a) (f a)" using Cons.prems by auto
  note ok = set_charge_ok [OF Cons.prems(1) a]
  have dist: "distinct (map at_id (cd_attempts d))" using Cons.prems(1) by (simp add: charges_ok_def)
  have only: "x = a" if "x \<in> set (cd_attempts d)" "at_id x = at_id a" for x
    by (rule unique_key [OF dist that(1) a(1) that(2)])
  have "at_id a \<notin> at_id ` set as" using Cons.prems(3) by simp
  then have other: "at_id b \<noteq> at_id a" if "b \<in> set as" for b using that by (metis imageI)
  have "set as \<subseteq> set (cd_attempts ?d)"
    using Cons.prems(2) other by (force simp: set_charge_def update_where_def)
  then have IH: "efold (\<lambda>a. update_attempt a (f a)) as ?d = Inr (close_all f as ?d)
    \<and> charges_ok (close_all f as ?d) \<and> shrinks (cd_ledger ?d) (cd_ledger (close_all f as ?d))
    \<and> cd_attempts (close_all f as ?d) = update_where (\<lambda>x. x \<in> set as) (\<lambda>x. x\<lparr>at_charge := f x\<rparr>) (cd_attempts ?d)"
    using Cons.IH [OF ok(1)] Cons.prems(3,4) by simp
  have "update_where (\<lambda>x. x \<in> set as) (\<lambda>x. x\<lparr>at_charge := f x\<rparr>) (cd_attempts ?d)
      = update_where (\<lambda>x. x \<in> set (a # as)) (\<lambda>x. x\<lparr>at_charge := f x\<rparr>) (cd_attempts d)"
    using only other by (force simp: set_charge_def update_where_def)
  moreover have "update_attempt a (f a) d = Inr ?d" using update_attempt_eq [OF Cons.prems(1) a(1)] a(2) by simp
  moreover have "close_all f (a # as) d = close_all f as ?d" by (simp add: close_all_def)
  ultimately show ?case using IH shrinks_trans [OF ok(2)] by simp
qed

lemma close_all_simps [simp]:
  "cd_base (close_all f as d) = cd_base d" "cd_turns (close_all f as d) = cd_turns d" "cd_runs (close_all f as d) = cd_runs d"
  "cd_evidence (close_all f as d) = cd_evidence d" "cd_saved (close_all f as d) = cd_saved d"
  by (induction as arbitrary: d) (simp_all add: close_all_def)

definition lost_charge :: "time \<Rightarrow> attempt_row \<Rightarrow> charge" where
  "lost_charge now a = (at_charge a)\<lparr>ch_status := AttemptUnknown, ch_error := Some ''provider_outcome_unknown'', ch_completed_at := Some now\<rparr>"

definition recovered :: "time \<Rightarrow> chat_db \<Rightarrow> chat_db" where
  "recovered now d = (let d1 = close_all (lost_charge now) (filter (abandoned now d) (cd_attempts d)) d in
     d1\<lparr>cd_turns := update_where (is_stale now) (close_stale now d1) (cd_turns d)\<rparr>)"

lemma close_stale_step:
  assumes "turn_row_ok t" and "is_stale now t"
  shows "turn_step t (close_stale now d t)"
proof -
  have "tn_draft t = None" using assms by (auto simp: turn_row_ok_def is_stale_def is_active_def)
  then show ?thesis using assms(2)
    by (auto simp: turn_step_def check_turn_def check_turn_update_def close_stale_def same_authority_def is_stale_def
        is_active_def may_follow_def turn_row_ok_def takes_draft_def ebind_def split: chat_status.splits)
qed

lemma emap_unit: "\<forall>x \<in> set xs. f x = Inr () \<Longrightarrow> \<exists>us. emap f xs = Inr us"
  by (induction xs) auto

lemma update_turnsI:
  assumes "\<And>t. t \<in> set (cd_turns d) \<Longrightarrow> p t \<Longrightarrow> turn_step t (f t)"
  shows "update_turns p f d = Inr (d\<lparr>cd_turns := update_where p f (cd_turns d)\<rparr>)"
proof -
  have "\<exists>us. emap (\<lambda>t. if p t then check_turn t (f t) else Inr ()) (cd_turns d) = Inr us"
    by (rule emap_unit) (use assms in \<open>auto simp: turn_step_def\<close>)
  then show ?thesis by (auto simp: update_turns_def)
qed

lemma lost_closes:
  assumes "charges_ok d" and "a \<in> set (cd_attempts d)" and "ch_status (at_charge a) = Started"
  shows "closes_charge (at_charge a) (lost_charge now a)"
proof -
  obtain l where "l \<in> set (cd_ledger d)" "lg_charge l = at_charge a" using assms(1,2) by (auto simp: charges_ok_def)
  then have "tokens_ok (at_charge a)" using assms(1) by (auto simp: charges_ok_def)
  then show ?thesis using assms(3) by (simp add: closes_charge_def lost_charge_def tokens_ok_def)
qed

lemma recover_stale_eq:
  assumes "chat_ok d"
  shows "\<exists>n. recover_stale now d = Inr (n, recovered now d)"
proof -
  let ?as = "filter (abandoned now d) (cd_attempts d)"
  let ?d1 = "close_all (lost_charge now) ?as d"
  have ok: "charges_ok d" "turns_ok (cd_turns d)" using assms by (simp_all add: chat_ok_def)
  have "closes_charge (at_charge a) (lost_charge now a)" if "a \<in> set ?as" for a
    by (rule lost_closes [OF ok(1)]) (use that in \<open>auto simp: abandoned_def\<close>)
  moreover have "distinct (map at_id ?as)" using ok by (simp add: charges_ok_def distinct_map inj_on_def)
  ultimately have run: "efold (\<lambda>a. update_attempt a (lost_charge now a)) ?as d = Inr ?d1"
    using close_all_run [OF ok(1), of ?as "lost_charge now"] by auto
  have "update_turns (is_stale now) (close_stale now ?d1) ?d1 = Inr (recovered now d)"
  proof -
    have "turn_step t (close_stale now ?d1 t)" if "t \<in> set (cd_turns ?d1)" "is_stale now t" for t
      using close_stale_step that assms by (auto simp: chat_ok_def turns_ok_def)
    from update_turnsI [of ?d1 "is_stale now" "close_stale now ?d1", OF this] show ?thesis by (simp add: recovered_def Let_def)
  qed
  with run show ?thesis by (simp add: recover_stale_def lost_charge_def)
qed

lemma recovered_facts:
  assumes "chat_ok d"
  shows "chat_ok (recovered now d)" "all_follow (cd_turns d) (cd_turns (recovered now d))"
    "shrinks (cd_ledger d) (cd_ledger (recovered now d))"
    "\<forall>t \<in> set (cd_turns (recovered now d)). \<not> is_stale now t"
    "map at_turn (cd_attempts (recovered now d)) = map at_turn (cd_attempts d)"
proof -
  let ?as = "filter (abandoned now d) (cd_attempts d)"
  let ?d1 = "close_all (lost_charge now) ?as d"
  have ok: "charges_ok d" "turns_ok (cd_turns d)" using assms by (simp_all add: chat_ok_def)
  have "closes_charge (at_charge a) (lost_charge now a)" if "a \<in> set ?as" for a
    by (rule lost_closes [OF ok(1)]) (use that in \<open>auto simp: abandoned_def\<close>)
  moreover have "distinct (map at_id ?as)" using ok by (simp add: charges_ok_def distinct_map inj_on_def)
  ultimately have run: "charges_ok ?d1" "shrinks (cd_ledger d) (cd_ledger ?d1)"
      "cd_attempts ?d1 = update_where (\<lambda>x. x \<in> set ?as) (\<lambda>x. x\<lparr>at_charge := lost_charge now x\<rparr>) (cd_attempts d)"
    using close_all_run [OF ok(1), of ?as "lost_charge now"] by auto
  have steps: "turn_step t (close_stale now ?d1 t)" if "t \<in> set (cd_turns d)" "is_stale now t" for t
    using close_stale_step that ok(2) by (auto simp: turns_ok_def)
  show follow: "all_follow (cd_turns d) (cd_turns (recovered now d))"
    using steps by (auto simp: recovered_def Let_def update_where_def list_all2_conv_all_nth)
  show "shrinks (cd_ledger d) (cd_ledger (recovered now d))" using run(2) by (simp add: recovered_def Let_def)
  show turns: "map at_turn (cd_attempts (recovered now d)) = map at_turn (cd_attempts d)"
    using run(3) by (simp add: recovered_def Let_def update_where_keys)
  show "\<forall>t \<in> set (cd_turns (recovered now d)). \<not> is_stale now t"
    by (auto simp: recovered_def Let_def update_where_def close_stale_def is_stale_def is_active_def)
  have ids: "tn_id ` set (cd_turns (recovered now d)) = tn_id ` set (cd_turns d)"
    using arg_cong [of _ _ set, OF all_follow_ids [OF follow]] by simp
  have "at_turn ` set (cd_attempts (recovered now d)) = at_turn ` set (cd_attempts d)"
    using arg_cong [of _ _ set, OF turns] by simp
  moreover have "charges_ok (recovered now d)" using run(1) by (simp add: charges_ok_def recovered_def Let_def)
  ultimately show "chat_ok (recovered now d)"
    using all_follow_ok [OF follow ok(2)] assms ids unfolding chat_ok_def by simp
qed

section \<open>Transactions\<close>

text \<open>
  What a transaction of a handler may do to turns and ledger: turns follow their state machine,
  charges shrink; an admission appends a turn below the limit of active turns; a begun attempt
  appends a charge within the budget.
\<close>

definition calm :: "chat_db \<Rightarrow> chat_db \<Rightarrow> bool" where
  "calm d d' \<longleftrightarrow> all_follow (cd_turns d) (cd_turns d') \<and> shrinks (cd_ledger d) (cd_ledger d')"

definition admits_turn :: "chat_env \<Rightarrow> chat_db \<Rightarrow> chat_db \<Rightarrow> bool" where
  "admits_turn env d d' \<longleftrightarrow> (\<exists>us t. all_follow (cd_turns d) us \<and> cd_turns d' = us @ [t] \<and> shrinks (cd_ledger d) (cd_ledger d')
     \<and> tn_status t = Planning \<and> tn_draft t = None
     \<and> int (length (filter (\<lambda>t. is_active (tn_status t)) us)) < bl_concurrent (ce_limits env))"

definition within_budget :: "budget_limits \<Rightarrow> stage \<Rightarrow> time \<Rightarrow> chat_db \<Rightarrow> bool" where
  "within_budget l g now d \<longleftrightarrow> int (attempts_since (now - minutes 1) d) < bl_global_minute l
     \<and> int (attempts_since (day_start now) d) < bl_daily l \<and> tokens_since (month_start now) d + reservation g \<le> bl_monthly l"

definition begins_attempt :: "chat_env \<Rightarrow> chat_db \<Rightarrow> chat_db \<Rightarrow> bool" where
  "begins_attempt env d d' \<longleftrightarrow> cd_turns d' = cd_turns d \<and> (\<exists>l g now. cd_ledger d' = cd_ledger d @ [l]
     \<and> lg_charge l = open_charge g now (reservation g) \<and> within_budget (ce_limits env) g now d)"

lemma calm_refl: "calm d d"
  by (simp add: calm_def all_follow_refl shrinks_refl)

lemma recover_body_eq:
  assumes "chat_ok d" and "recover_body a now d = Inr (t, d')"
  shows "d' = recovered now d" "t = find_turn a d'" "session_open (ak_principal a) now d"
  using assms(2) recover_stale_eq [OF assms(1), of now] by (auto simp: recover_body_def ebind_eq_Inr)

lemma recovered_calm: "chat_ok d \<Longrightarrow> calm d (recovered now d)"
  by (simp add: calm_def recovered_facts)

lemma chat_ok_append_turn:
  assumes "chat_ok d" and "insert_turn t d = Inr d'"
  shows "chat_ok d'" "d' = d\<lparr>cd_turns := cd_turns d @ [t]\<rparr>"
proof -
  show d': "d' = d\<lparr>cd_turns := cd_turns d @ [t]\<rparr>" using assms(2) by (auto simp: insert_turn_def split: if_splits)
  have "turn_row_ok t" "\<forall>u \<in> set (cd_turns d). \<not> turns_clash t u"
    using assms(2) by (auto simp: insert_turn_def list_ex_iff split: if_splits)
  moreover from this(2) have "tn_id t \<notin> tn_id ` set (cd_turns d)" "\<forall>u \<in> set (cd_turns d). \<not> turns_clash u t"
    by (auto simp: turns_clash_def)
  ultimately have "turns_ok (cd_turns d @ [t])" using assms(1) by (auto simp: chat_ok_def turns_ok_def)
  then show "chat_ok d'" using assms(1) by (auto simp: d' chat_ok_def charges_ok_def)
qed

lemma admit_bodyD:
  assumes ok: "chat_ok d" and "admit_body env a c rid now d = Inr (r, d')"
  shows "chat_ok d' \<and> cd_base d' = cd_base d \<and> (calm d d' \<or> admits_turn env d d')"
proof -
  let ?d = "recovered now d"
  note rec = recovered_facts [OF ok, of now]
  have base: "cd_base ?d = cd_base d" by (simp add: recovered_def Let_def)
  consider "d' = ?d" | t where "int (active_turn_count ?d) < bl_concurrent (ce_limits env)"
      "t = new_turn env a c rid now ?d" "insert_turn t ?d = Inr d'"
    using assms(2) recover_stale_eq [OF ok, of now]
    by (auto simp: admit_body_def ebind_eq_Inr Let_def split: option.splits if_splits)
  then show ?thesis
  proof cases
    case 1
    then show ?thesis using rec(1) recovered_calm [OF ok] base by simp
  next
    case 2
    note ins = chat_ok_append_turn [OF rec(1) 2(3)]
    have "tn_status t = Planning" "tn_draft t = None" by (simp_all add: 2(2) new_turn_def)
    then have "admits_turn env d d'"
      unfolding admits_turn_def using rec(2,3) 2(1) by (auto simp: ins(2) active_turn_count_def)
    then show ?thesis using ins base by simp
  qed
qed

lemma begin_bodyD:
  assumes ok: "chat_ok d" and "begin_body env tid g aid now d = Inr (r, d')"
  shows "chat_ok d' \<and> cd_base d' = cd_base d \<and> begins_attempt env d d'"
proof -
  have within: "within_budget (ce_limits env) g now d" and add: "add_attempt aid tid g now (reservation g) d = Inr d'"
    using assms(2) by (auto simp: begin_body_def Let_def ebind_eq_Inr within_budget_def split: if_splits)
  obtain t where t: "turn_of tid d = Some t" and tokens: "tokens_ok (open_charge g now (reservation g))"
    and fresh: "\<forall>a \<in> set (cd_attempts d). at_id a \<noteq> aid \<and> \<not> (at_turn a = tid \<and> ch_stage (at_charge a) = g)"
      "\<forall>l \<in> set (cd_ledger d). lg_attempt l \<noteq> aid"
    and d': "d' = d\<lparr>cd_attempts := cd_attempts d @ [\<lparr>at_id = aid, at_turn = tid, at_charge = open_charge g now (reservation g)\<rparr>],
      cd_ledger := cd_ledger d @ [\<lparr>lg_attempt = aid, lg_workspace = tn_workspace t, lg_charge = open_charge g now (reservation g)\<rparr>]\<rparr>"
    using add by (auto simp: add_attempt_def ebind_eq_Inr list_ex_iff split: if_splits option.splits)
  have "tid \<in> tn_id ` set (cd_turns d)"
    using t select_one_SomeD [of _ "cd_turns d" t] by (auto simp: turn_of_def dest!: select_one_SomeD)
  then have "chat_ok d'"
    using ok tokens fresh by (auto simp: chat_ok_def charges_ok_def d' open_charge_def)
  moreover have "begins_attempt env d d'" using within by (auto simp: begins_attempt_def d')
  ultimately show ?thesis by (simp add: d')
qed

lemma finish_attemptD:
  assumes ok: "chat_ok d" and "finish_attempt aid st i n err now d = Inr d'"
  shows "chat_ok d' \<and> cd_base d' = cd_base d \<and> calm d d' \<and> cd_turns d' = cd_turns d \<and> cd_evidence d' = cd_evidence d"
proof (cases "select_one (\<lambda>a. at_id a = aid \<and> ch_status (at_charge a) = Started) (cd_attempts d)")
  case None
  then show ?thesis using assms calm_refl by (simp add: finish_attempt_def)
next
  case (Some a)
  let ?c = "close_charge st i n err now (at_charge a)"
  have c: "charges_ok d" using ok by (simp add: chat_ok_def)
  have a: "a \<in> set (cd_attempts d)" using select_one_SomeD [OF Some] by simp
  have "update_attempt a ?c d = Inr d'" using assms(2) by (simp add: finish_attempt_def Some)
  then have cl: "closes_charge (at_charge a) ?c" and d': "d' = set_charge (at_id a) ?c d"
    using update_attempt_eq [OF c a] by auto
  note set = set_charge_ok [OF c a cl]
  have "at_turn ` set (cd_attempts d') = at_turn ` set (cd_attempts d)"
    unfolding d' set_map [symmetric] set_charge_simps(7) ..
  then show ?thesis using set ok by (simp add: chat_ok_def calm_def d' all_follow_refl)
qed

lemma finish_bodyD:
  assumes "chat_ok d" and "finish_body aid e now d = Inr (r, d')"
  shows "chat_ok d' \<and> cd_base d' = cd_base d \<and> calm d d' \<and> cd_turns d' = cd_turns d \<and> cd_evidence d' = cd_evidence d"
  using assms(2) finish_attemptD [OF assms(1)]
  by (auto simp: finish_body_def ebind_eq_Inr split: option.splits if_splits)

lemma update_turns_ok:
  assumes ok: "chat_ok d" and "update_turns p f d = Inr d'"
  shows "chat_ok d' \<and> calm d d'"
proof -
  note u = update_turnsD [OF assms(2)]
  have ids: "tn_id ` set (update_where p f (cd_turns d)) = tn_id ` set (cd_turns d)"
    using arg_cong [of _ _ set, OF all_follow_ids [OF u(2)]] by simp
  have "turns_ok (update_where p f (cd_turns d))" using all_follow_ok [OF u(2)] ok by (simp add: chat_ok_def)
  then show ?thesis using ok u ids by (simp add: chat_ok_def charges_ok_def calm_def shrinks_refl)
qed

lemma transitionD:
  assumes "chat_ok d" and "transition tid s c lease now d = Inr (r, d')"
  shows "chat_ok d' \<and> calm d d'" "d' = d\<lparr>cd_turns := update_where (\<lambda>t. tn_id t = tid \<and> tn_status t = s) (apply_change c lease now) (cd_turns d)\<rparr>"
  using assms(2) update_turns_ok [OF assms(1)] update_turnsD(1)
  by (auto simp: transition_def Let_def ebind_eq_Inr)

lemma movedD: "moved m x = Inr (t, d) \<Longrightarrow> x = (Some t, d)"
  by (auto simp: moved_def split: option.splits prod.splits)

lemma transit_bodyD:
  assumes "chat_ok d" and "transit_body tid s c now d = Inr (t, d')"
  shows "chat_ok d' \<and> calm d d'" "d' = d\<lparr>cd_turns := update_where (\<lambda>t. tn_id t = tid \<and> tn_status t = s)
    (apply_change c (Some (now + chat_lease)) now) (cd_turns d)\<rparr>"
proof -
  have "transition tid s c (Some (now + chat_lease)) now d = Inr (Some t, d')"
    using assms(2) movedD by (auto simp: transit_body_def ebind_eq_Inr)
  then show "chat_ok d' \<and> calm d d'" "d' = d\<lparr>cd_turns := update_where (\<lambda>t. tn_id t = tid \<and> tn_status t = s)
    (apply_change c (Some (now + chat_lease)) now) (cd_turns d)\<rparr>" using transitionD [OF assms(1)] by blast+
qed

lemma add_tool_resultD:
  assumes "add_tool_result tid plan r err now d = Inr d'"
  shows "\<exists>x. d' = d\<lparr>cd_runs := cd_runs d @ [x]\<rparr>"
  using assms by (auto simp: add_tool_result_def ebind_eq_Inr split: if_splits)

lemma insert_evidenceD:
  assumes "insert_evidence e d = Inr d'"
  shows "d' = d\<lparr>cd_evidence := cd_evidence d @ [e]\<rparr>"
  using assms by (auto simp: insert_evidence_def ebind_eq_Inr split: if_splits)

lemma add_evidenceD:
  assumes "add_evidence parse tid r now d = Inr d'"
  shows "d' = d\<lparr>cd_evidence := cd_evidence d @ map (evidence_of parse tid now) (to_facts r)\<rparr>"
proof -
  have "efold (\<lambda>f. insert_evidence (evidence_of parse tid now f)) fs d = Inr d'
      \<Longrightarrow> d' = d\<lparr>cd_evidence := cd_evidence d @ map (evidence_of parse tid now) fs\<rparr>" for fs
  proof (induction fs arbitrary: d)
    case Nil
    then show ?case by simp
  next
    case (Cons f fs)
    then obtain e where e: "insert_evidence (evidence_of parse tid now f) d = Inr e"
      "efold (\<lambda>f. insert_evidence (evidence_of parse tid now f)) fs e = Inr d'"
      by (auto simp: ebind_eq_Inr)
    show ?case using Cons.IH [OF e(2)] by (simp add: insert_evidenceD [OF e(1)])
  qed
  then show ?thesis using assms by (simp add: add_evidence_def)
qed

lemma chat_ok_frame:
  assumes "cd_turns d' = cd_turns d" "cd_attempts d' = cd_attempts d" "cd_ledger d' = cd_ledger d"
  shows "chat_ok d' \<longleftrightarrow> chat_ok d" "calm d d'"
  by (simp_all add: chat_ok_def charges_ok_def calm_def assms all_follow_refl shrinks_refl)

lemma record_bodyD:
  assumes "chat_ok d" and "record_body tid s plan r now d = Inr (t, d')"
  shows "chat_ok d' \<and> cd_base d' = cd_base d \<and> calm d d' \<and> cd_evidence d' = cd_evidence d"
    "cd_turns d' = update_where (\<lambda>t. tn_id t = tid \<and> tn_status t = Querying)
       (apply_change (result_change tid s plan r) (Some (now + chat_lease)) now) (cd_turns d)"
proof -
  obtain x where x: "transition tid Querying (result_change tid s plan r) (Some (now + chat_lease)) now
      (d\<lparr>cd_runs := cd_runs d @ [x]\<rparr>) = Inr (Some t, d')"
    using assms(2) movedD by (auto simp: record_body_def ebind_eq_Inr dest!: add_tool_resultD)
  have "chat_ok (d\<lparr>cd_runs := cd_runs d @ [x]\<rparr>)" using assms(1) by (subst chat_ok_frame(1) [of _ d]) simp_all
  note tr = transitionD [OF this x]
  show "chat_ok d' \<and> cd_base d' = cd_base d \<and> calm d d' \<and> cd_evidence d' = cd_evidence d"
    using tr by (simp add: calm_def)
  show "cd_turns d' = update_where (\<lambda>t. tn_id t = tid \<and> tn_status t = Querying)
       (apply_change (result_change tid s plan r) (Some (now + chat_lease)) now) (cd_turns d)" using tr(2) by simp
qed

lemma failure_bodyD:
  assumes "chat_ok d" and "failure_body tid plan now d = Inr (r, d')"
  shows "chat_ok d' \<and> cd_base d' = cd_base d \<and> calm d d' \<and> cd_evidence d' = cd_evidence d \<and> cd_turns d' = cd_turns d"
proof -
  obtain x where "d' = d\<lparr>cd_runs := cd_runs d @ [x]\<rparr>"
    using assms(2) by (auto simp: failure_body_def ebind_eq_Inr dest!: add_tool_resultD)
  then show ?thesis using chat_ok_frame [of d' d] assms(1) by simp
qed

lemma complete_bodyD:
  assumes "chat_ok d" and "complete_body env tid plan r ans now d = Inr (t, d')"
  shows "chat_ok d' \<and> cd_base d' = cd_base d \<and> calm d d'"
    "cd_evidence d' = cd_evidence d @ map (evidence_of (ce_parse_uuid env) tid now) (to_facts r)"
    "cd_turns d' = update_where (\<lambda>t. tn_id t = tid \<and> tn_status t = Answering)
       (apply_change (answer_change plan r ans) None now) (cd_turns d)"
proof -
  let ?d = "d\<lparr>cd_evidence := cd_evidence d @ map (evidence_of (ce_parse_uuid env) tid now) (to_facts r)\<rparr>"
  have x: "transition tid Answering (answer_change plan r ans) None now ?d = Inr (Some t, d')"
    using assms(2) movedD by (auto simp: complete_body_def ebind_eq_Inr dest!: add_evidenceD)
  have "chat_ok ?d" using assms(1) by (subst chat_ok_frame(1) [of _ d]) simp_all
  note tr = transitionD [OF this x]
  show "chat_ok d' \<and> cd_base d' = cd_base d \<and> calm d d'"
    "cd_evidence d' = cd_evidence d @ map (evidence_of (ce_parse_uuid env) tid now) (to_facts r)"
    "cd_turns d' = update_where (\<lambda>t. tn_id t = tid \<and> tn_status t = Answering)
       (apply_change (answer_change plan r ans) None now) (cd_turns d)"
    using tr by (simp_all add: calm_def)
qed

end
