(* ===== verification/ChatDraft.thy ===== *)
theory ChatDraft
  imports ChatProcess Actions
begin

text \<open>
  From an answer to an action (\<open>AIChatService.create_action_draft\<close>): the query behind an eligible
  answer is run again, its result must be the one that was recorded, and the draft becomes a card of
  the action service (operator) or stays with the turn (viewer). The turn takes one draft for good.
\<close>

fun tool_text :: "tool_name \<Rightarrow> string" where
  "tool_text MetricLookup = ''metric_lookup''"
| "tool_text TrendCompare = ''trend_compare''"
| "tool_text SkuRank = ''sku_rank''"
| "tool_text ProfitBridgeExplain = ''profit_bridge_explain''"
| "tool_text InventoryRiskLookup = ''inventory_risk_lookup''"
| "tool_text ForecastLookup = ''forecast_lookup''"
| "tool_text DataQualityLookup = ''data_quality_lookup''"
| "tool_text ActionCardLookup = ''action_card_lookup''"
| "tool_text MonthlySalesReportLookup = ''monthly_sales_report_lookup''"

text \<open>The answered turn of a request: its tool, the hash of its result, the scope of its answer.\<close>

record draft_request =
  dq_turn :: chat_turn
  dq_tool :: tool_name
  dq_hash :: digest
  dq_scope :: query_scope
  dq_key_hash :: digest
  dq_request_hash :: digest

definition eligible :: "chat_turn \<Rightarrow> (tool_name \<times> digest \<times> query_scope) option" where
  "eligible t =
     (case (tn_answer t, tn_tool t, tn_result_hash t) of
        (Some a, Some tool, Some h) \<Rightarrow>
          if tn_status t = Answered \<and> an_eligible a then Some (tool, h, an_scope a) else None
      | _ \<Rightarrow> None)"

definition own_scope :: "chat_principal \<Rightarrow> query_scope \<Rightarrow> bool" where
  "own_scope p s \<longleftrightarrow> qs_dataset_version s = cp_dataset_version p \<and> qs_workspace s = cp_workspace p \<and> qs_actor s = cp_actor p"

definition draft_payload :: "uuid \<Rightarrow> query_scope \<Rightarrow> digest \<Rightarrow> json" where
  "draft_payload tid s h = JObj [(''turn_id'', JStr tid), (''dataset_version_id'', JStr (qs_dataset_version s)),
     (''store_ids'', JList (map JStr (qs_stores s))), (''result_hash'', JStr h)]"

definition read_request :: "chat_env \<Rightarrow> chat_principal \<Rightarrow> uuid \<Rightarrow> string \<Rightarrow> chat_db \<Rightarrow> chat_error + draft_request" where
  "read_request env p tid key d =
     ebind (get_turn env p tid d) (\<lambda>(t, _).
     case eligible t of
       None \<Rightarrow> Inl (ChatInvalid ''action_draft_not_eligible'')
     | Some (tool, h, s) \<Rightarrow>
         ebind (ensure (own_scope p s) (ChatInvalid ''action_draft_scope_invalid'')) (\<lambda>_.
         ebind (chat_key_hash env p key) (\<lambda>kh.
         Inr \<lparr>dq_turn = t, dq_tool = tool, dq_hash = h, dq_scope = s, dq_key_hash = kh,
           dq_request_hash = ce_json_sha env (draft_payload tid s h)\<rparr>)))"

text \<open>The result of the query run again, compared with what was recorded.\<close>

definition confirmed_spec :: "draft_request \<Rightarrow> execution \<Rightarrow> chat_db \<Rightarrow> chat_error + (tool_result \<times> draft_spec)" where
  "confirmed_spec q x d =
     (case tool_run_of (tn_id (dq_turn q)) d of
        None \<Rightarrow> Inl (ChatInvalid ''tool_result_missing'')
      | Some run \<Rightarrow>
          (case tu_result run of
             None \<Rightarrow> Inl (ChatInvalid ''tool_result_missing'')
           | Some stored \<Rightarrow>
               (case x of
                  Executed r \<Rightarrow>
                    if to_hash r = dq_hash q \<and> to_hash r = to_hash stored
                    then (case to_draft r of None \<Rightarrow> Inl ChatConflict | Some spec \<Rightarrow> Inr (r, spec))
                    else Inl ChatConflict
                | _ \<Rightarrow> Inl ExecutorFailed)))"

text \<open>\<open>fact_map[ref]\<close>, where a later fact of the same name wins, and \<open>item.evidence_refs[0]\<close>.\<close>

definition fact_of :: "tool_result \<Rightarrow> string \<Rightarrow> chat_error + fact_ref" where
  "fact_of r ref =
     (case find (\<lambda>f. cf_ref f = ref) (rev (to_facts r)) of
        None \<Rightarrow> Inl LookupFailed
      | Some f \<Rightarrow> (case cf_sources f of
            [] \<Rightarrow> Inl LookupFailed
          | source # _ \<Rightarrow> Inr \<lparr>fr_alias = cf_ref f, fr_state = cf_state f, fr_source_ref = source, fr_value = cf_value f\<rparr>))"

definition draft_scope :: "query_scope \<Rightarrow> (string \<times> json) list" where
  "draft_scope s = [(''period_start'', JStr (isoformat (qs_period_start s))), (''period_end'', JStr (isoformat (qs_period_end s))),
     (''currency'', JStr ''BRL'')] @ (case qs_stores s of [i] \<Rightarrow> [(''store_id'', JStr i)] | _ \<Rightarrow> [])"

definition draft_source :: "draft_request \<Rightarrow> draft_spec \<Rightarrow> action_source" where
  "draft_source q sp =
     \<lparr>ac_suggestion = sp_suggestion sp, ac_target = sp_target sp, ac_period_start = qs_period_start (dq_scope q),
      ac_period_end = qs_period_end (dq_scope q), ac_scope = draft_scope (dq_scope q), ac_quantity = sp_quantity sp,
      ac_budget = sp_budget sp, ac_action_date = None, ac_threshold = None, ac_expected_impact = sp_impact sp,
      ac_confidence = sp_confidence sp, ac_limitations = sp_limitations sp, ac_analysis_run = None, ac_forecast = None,
      ac_bridge = None, ac_chat_turn = Some (tn_id (dq_turn q)), ac_chat_tool = Some (tool_text (dq_tool q)),
      ac_answer_version = Some ''chat-answer.v1'', as_source_type = ChatBoxDraft, as_dataset_version = qs_dataset_version (dq_scope q)\<rparr>"

definition card_key :: "uuid \<Rightarrow> string" where
  "card_key tid = ''chat-turn-'' @ tid"

section \<open>Storing the draft\<close>

definition store_body :: "uuid \<Rightarrow> action_draft \<Rightarrow> time \<Rightarrow> chat_db \<Rightarrow> chat_error + (chat_turn \<times> chat_db)" where
  "store_body tid a now d =
     ebind (record_action_draft tid a now d) (\<lambda>(t, d'). case t of None \<Rightarrow> Inl ChatConflict | Some u \<Rightarrow> Inr (u, d'))"

definition same_draft :: "action_draft \<Rightarrow> chat_turn \<Rightarrow> bool" where
  "same_draft a t \<longleftrightarrow> (case tn_draft t of None \<Rightarrow> False
     | Some b \<Rightarrow> ad_id b = ad_id a \<and> ad_key_hash b = ad_key_hash a \<and> ad_request_hash b = ad_request_hash a)"

definition store_draft :: "chat_env \<Rightarrow> chat_principal \<Rightarrow> draft_request \<Rightarrow> uuid \<Rightarrow> draft_projection \<Rightarrow> time \<Rightarrow> fault \<Rightarrow> chat_db
    \<Rightarrow> (chat_error, chat_turn) outcome \<times> chat_db" where
  "store_draft env p q did proj now flt d =
     (let a = \<lparr>ad_id = did, ad_key_hash = dq_key_hash q, ad_request_hash = dq_request_hash q, ad_projection = proj, ad_created_at = now\<rparr>
      in case run_uow flt (store_body (tn_id (dq_turn q)) a now) d of
           (Returned u, d') \<Rightarrow> (Returned u, d')
         | (out, d') \<Rightarrow>
             (case get_turn env p (tn_id (dq_turn q)) d' of
                Inl e \<Rightarrow> (Raised e, d')
              | Inr (t, _) \<Rightarrow> if same_draft a t then (Returned t, d') else (out, d')))"

text \<open>The operator's card is created in a transaction of the action service.\<close>

definition create_card :: "(chat_db \<Rightarrow> action_env) option \<Rightarrow> draft_request \<Rightarrow> tool_result \<Rightarrow> draft_spec \<Rightarrow> time \<Rightarrow> fault \<Rightarrow> chat_db
    \<Rightarrow> (chat_error, action_card) outcome \<times> chat_db" where
  "create_card svc q r sp now flt d =
     (case svc of
        None \<Rightarrow> (Raised (ChatUnavailable ''action_service_unavailable''), d)
      | Some actions \<Rightarrow>
          (case emap (fact_of r) (sp_facts sp) of
             Inl e \<Rightarrow> (Raised e, d)
           | Inr facts \<Rightarrow>
               (case on_base (create_draft (actions d) (draft_source q sp) facts (card_key (tn_id (dq_turn q))) now flt) d of
                  (Returned c, d') \<Rightarrow> (Returned c, d')
                | (Raised e, d') \<Rightarrow> (Raised (ActionFailed e), d')
                | (ConnectionLost, d') \<Rightarrow> (ConnectionLost, d'))))"

definition create_action_draft :: "chat_env \<Rightarrow> (chat_db \<Rightarrow> action_env) option \<Rightarrow> chat_principal \<Rightarrow> uuid \<Rightarrow> string \<Rightarrow> execution
    \<Rightarrow> time \<Rightarrow> fault \<Rightarrow> fault \<Rightarrow> chat_db \<Rightarrow> (chat_error, chat_turn) outcome \<times> chat_db" where
  "create_action_draft env svc p tid key x now flt flt' d =
     (case read_request env p tid key d of
        Inl e \<Rightarrow> (Raised e, d)
      | Inr q \<Rightarrow>
          (case tn_draft (dq_turn q) of
             Some a \<Rightarrow>
               if (ad_key_hash a, ad_request_hash a) = (dq_key_hash q, dq_request_hash q) then (Returned (dq_turn q), d)
               else (Raised ChatConflict, d)
           | None \<Rightarrow>
               (case confirmed_spec q x d of
                  Inl e \<Rightarrow> (Raised e, d)
                | Inr (r, sp) \<Rightarrow>
                    if is_demo (cp_actor p)
                    then (let did = ce_uuid5 env (''draft:'' @ tid)
                          in store_draft env p q did (SessionDraft did tid sp) now flt' d)
                    else (case create_card svc q r sp now flt d of
                            (Returned c, d') \<Rightarrow>
                              store_draft env p q (cr_id (ca_row c))
                                (OperatorCard (cr_id (ca_row c)) (cr_status (ca_row c)) (cr_current_revision (ca_row c))) now flt' d'
                          | (Raised e, d') \<Rightarrow> (Raised e, d')
                          | (ConnectionLost, d') \<Rightarrow> (ConnectionLost, d')))))"

section \<open>What it changes\<close>

text \<open>Only the rest of the database and the draft of the turn.\<close>

lemma get_turn_member: "get_turn env p tid d = Inr (t, b) \<Longrightarrow> t \<in> set (cd_turns d) \<and> tn_id t = tid"
  by (auto simp: get_turn_def get_for_session_def ebind_eq_Inr dest!: select_one_SomeD split: option.splits if_splits)

lemma read_request_turn: "read_request env p tid key d = Inr q \<Longrightarrow> dq_turn q \<in> set (cd_turns d) \<and> tn_id (dq_turn q) = tid"
proof -
  assume "read_request env p tid key d = Inr q"
  then have "\<exists>b. get_turn env p tid d = Inr (dq_turn q, b)"
    by (auto simp: read_request_def ebind_eq_Inr split: option.splits)
  then show ?thesis using get_turn_member by blast
qed

lemma create_draft_turns:
  "db_turns (snd (create_draft env s fs key now flt d)) = db_turns d"
  using create_draft_db [of env s fs key now flt d]
proof (elim disjE exE conjE)
  fix kh assume "create_body env s fs kh (ae_digest env (CreateRequest s fs)) now d = Inr (None, snd (create_draft env s fs key now flt d))"
  from create_rowsD [OF create_bodyD(3) [OF this]] show ?thesis by simp
qed simp

definition rebase :: "chat_db \<Rightarrow> chat_db \<Rightarrow> bool" where
  "rebase d e \<longleftrightarrow> (\<exists>q b. e = keep_turns q (d\<lparr>cd_base := b\<rparr>) \<and> (\<forall>t \<in> set (cd_turns d). q (tn_id t)))"

lemma on_base_rebase:
  assumes "db_turns (snd (f (base_view d))) = db_turns (base_view d)"
  shows "rebase d (snd (on_base f d))"
proof -
  obtain a b where ab: "f (base_view d) = (a, b)" by fastforce
  then have "db_turns b = map turn_view (cd_turns d)" using assms by (simp add: base_view_def)
  then have "\<forall>t \<in> set (cd_turns d). tn_id t \<in> tr_id ` set (db_turns b)" by (force simp: turn_view_def)
  moreover have "snd (on_base f d) = keep_turns (\<lambda>tid. tid \<in> tr_id ` set (db_turns b)) (d\<lparr>cd_base := b\<rparr>)"
    by (simp add: on_base_def ab)
  ultimately show ?thesis unfolding rebase_def by blast
qed

lemma create_card_rebase:
  assumes "create_card svc q r sp now flt d = (out, d')"
  shows "d' = d \<or> rebase d d'"
proof -
  have base: "rebase d (snd (on_base (create_draft env s fs key now flt) d))" for env s fs key
    by (rule on_base_rebase) (rule create_draft_turns)
  consider "d' = d" | actions facts where "svc = Some actions"
      "d' = snd (on_base (create_draft (actions d) (draft_source q sp) facts (card_key (tn_id (dq_turn q))) now flt) d)"
    using assms unfolding create_card_def
    by (auto split: option.splits sum.splits prod.splits outcome.splits) (metis snd_conv)+
  then show ?thesis using base by cases auto
qed

lemma store_draft_run:
  assumes "store_draft env p q did proj now flt d = (out, d')"
  shows "d' = d \<or> (\<exists>a u. store_body (tn_id (dq_turn q)) a now d = Inr (u, d') \<and> ad_id a = did)"
proof -
  let ?a = "\<lparr>ad_id = did, ad_key_hash = dq_key_hash q, ad_request_hash = dq_request_hash q, ad_projection = proj, ad_created_at = now\<rparr>"
  have "d' = snd (run_uow flt (store_body (tn_id (dq_turn q)) ?a now) d)"
    using assms by (auto simp: store_draft_def Let_def split: prod.splits outcome.splits sum.splits if_splits)
  then show ?thesis using run_uow_state [of flt "store_body (tn_id (dq_turn q)) ?a now" d] by (metis action_draft.select_convs(1))
qed

lemma create_action_draft_run:
  assumes "create_action_draft env svc p tid key x now flt flt' d = (out, d')"
  shows "\<exists>e. (e = d \<or> rebase d e) \<and> (d' = e \<or> (\<exists>a u. store_body tid a now e = Inr (u, d')))"
proof (cases "read_request env p tid key d")
  case (Inr q)
  have tid: "tn_id (dq_turn q) = tid" using read_request_turn [OF Inr] by simp
  note step = assms [unfolded create_action_draft_def Inr sum.case Let_def]
  show ?thesis
  proof (cases "\<exists>r sp. confirmed_spec q x d = Inr (r, sp) \<and> tn_draft (dq_turn q) = None")
    case True
    then obtain r sp where rsp: "confirmed_spec q x d = Inr (r, sp)" "tn_draft (dq_turn q) = None" by blast
    show ?thesis
    proof (cases "is_demo (cp_actor p)")
      case True
      then show ?thesis using step rsp by (auto dest!: store_draft_run simp: tid)
    next
      case False
      obtain o1 e where card: "create_card svc q r sp now flt d = (o1, e)" by fastforce
      have "d' = e \<or> (\<exists>a u. store_body tid a now e = Inr (u, d'))"
        using step rsp False card by (auto dest!: store_draft_run simp: tid split: outcome.splits)
      then show ?thesis using create_card_rebase [OF card] by blast
    qed
  next
    case False
    then have "d' = d" using step by (auto split: option.splits sum.splits if_splits prod.splits)
    then show ?thesis by blast
  qed
next
  case (Inl e)
  then have "d' = d" using assms by (simp add: create_action_draft_def)
  then show ?thesis by blast
qed

end
