(* ===== verification/ChatWorld.thy ===== *)
theory ChatWorld
  imports ChatInvariants ChatDraft
begin

text \<open>
  The assistant at work: submissions as processes over one database, interleaved with each other,
  with the other operations of the assistant and with the sessions they belong to, and the
  effect of a step on turns, budget and the number of active turns.
\<close>

section \<open>Histories\<close>

record chat_world =
  cw_db :: chat_db
  cw_handlers :: "handler list"

datatype chat_event =
    Submit time submission
  | Advance nat tick
  | Save chat_principal uuid time fault
  | Draft chat_principal uuid string execution time fault fault
  | Forget chat_principal time fault
  | Elsewhere time session_event

definition start_handler :: "chat_env \<Rightarrow> time \<Rightarrow> submission \<Rightarrow> chat_error + handler" where
  "start_handler env now m = ebind (prepare env m) (\<lambda>a. Inr \<lparr>hd_ask = a, hd_now = now, hd_turn = ak_turn a, hd_version = [], hd_history = [],
     hd_point = Recovering False\<rparr>)"

record chat_system =
  cy_env :: chat_env
  cy_sessions :: demo_service
  cy_actions :: "(chat_db \<Rightarrow> action_env) option"
  cy_answer_hash :: "chat_answer \<Rightarrow> digest"

definition advance_nth :: "chat_env \<Rightarrow> nat \<Rightarrow> tick \<Rightarrow> chat_world \<Rightarrow> chat_world" where
  "advance_nth env i k w =
     (if i < length (cw_handlers w) then
        (case advance env k (cw_handlers w ! i) (cw_db w) of
           (h, d) \<Rightarrow> \<lparr>cw_db = d, cw_handlers = (cw_handlers w)[i := h]\<rparr>)
      else w)"

fun chat_step :: "chat_system \<Rightarrow> chat_event \<Rightarrow> chat_world \<Rightarrow> chat_world" where
  "chat_step y (Submit now m) w = (case start_handler (cy_env y) now m of Inl _ \<Rightarrow> w | Inr h \<Rightarrow> w\<lparr>cw_handlers := cw_handlers w @ [h]\<rparr>)"
| "chat_step y (Advance i k) w = advance_nth (cy_env y) i k w"
| "chat_step y (Save p tid now flt) w =
     w\<lparr>cw_db := snd (save_answer (cy_env y) (cy_answer_hash y) p tid now flt (cw_db w))\<rparr>"
| "chat_step y (Draft p tid key x now flt flt') w =
     w\<lparr>cw_db := snd (create_action_draft (cy_env y) (cy_actions y) p tid key x now flt flt' (cw_db w))\<rparr>"
| "chat_step y (Forget p now flt) w = w\<lparr>cw_db := snd (delete_demo_session (cy_env y) p now flt (cw_db w))\<rparr>"
| "chat_step y (Elsewhere now e) w =
     w\<lparr>cw_db := snd (on_base (\<lambda>b. ((), session_step (cy_sessions y) (now, e) b)) (cw_db w))\<rparr>"

definition idle_world :: "db \<Rightarrow> chat_world" where
  "idle_world d = \<lparr>cw_db = empty_chat d, cw_handlers = []\<rparr>"

section \<open>What a step does to the database\<close>

definition effect :: "chat_env \<Rightarrow> chat_db \<Rightarrow> chat_db \<Rightarrow> bool" where
  "effect env d d' \<longleftrightarrow> d' = d \<or> chat_ok d' \<and> cd_base d' = cd_base d
     \<and> (calm d d' \<or> admits_turn env d d' \<or> begins_attempt env d d')"

lemma transactD: "transact k body nxt d = (h', d') \<Longrightarrow> d' = d \<or> (\<exists>x. body d = Inr (x, d'))"
  using run_uow_state [of "tk_fault k" body d] by (auto simp: transact_def split: prod.splits)

lemma recovered_base: "cd_base (recovered now d) = cd_base d" "cd_evidence (recovered now d) = cd_evidence d"
  by (simp_all add: recovered_def Let_def)

lemma advance_effect:
  assumes ok: "chat_ok d" and "advance env k h d = (h', d')"
  shows "effect env d d'"
proof -
  note step = assms(2) [unfolded advance_def Let_def]
  have rec: "effect env d d'" if "recover_body a now d = Inr (x, d')" for a now x
    using recover_body_eq [OF ok that] recovered_facts(1) [OF ok] recovered_calm [OF ok] recovered_base
    by (simp add: effect_def)
  have adm: "effect env d d'" if "admit_body env a c rid now d = Inr (x, d')" for a c rid now x
    using admit_bodyD [OF ok that] by (auto simp: effect_def)
  have beg: "effect env d d'" if "begin_body env tid g aid now d = Inr (x, d')" for tid g aid now x
    using begin_bodyD [OF ok that] by (auto simp: effect_def)
  have fin: "effect env d d'" if "finish_body aid e now d = Inr (x, d')" for aid e now x
    using finish_bodyD [OF ok that] by (auto simp: effect_def)
  have tra: "effect env d d'" if "transit_body tid s c now d = Inr (x, d')" for tid s c now x
    using transit_bodyD [OF ok that] by (auto simp: effect_def)
  have rcd: "effect env d d'" if "record_body tid s plan r now d = Inr (x, d')" for tid s plan r now x
    using record_bodyD(1) [OF ok that] by (auto simp: effect_def)
  have fai: "effect env d d'" if "failure_body tid plan now d = Inr (x, d')" for tid plan now x
    using failure_bodyD [OF ok that] by (auto simp: effect_def)
  have com: "effect env d d'" if "complete_body env tid plan r ans now d = Inr (x, d')" for tid plan r ans now x
    using complete_bodyD(1) [OF ok that] by (auto simp: effect_def)
  show ?thesis
    using step rec adm beg fin tra rcd fai com
    by (cases "hd_point h") (auto simp: effect_def split: if_splits dest!: transactD)
qed

section \<open>The budget\<close>

definition created :: "ledger_row \<Rightarrow> time" where
  "created l = ch_created_at (lg_charge l)"

definition month_tokens :: "time \<Rightarrow> chat_db \<Rightarrow> int" where
  "month_tokens m d = (\<Sum>l \<leftarrow> filter (\<lambda>l. month_start (created l) = m) (cd_ledger d). charged (lg_charge l))"

definition day_attempts :: "time \<Rightarrow> chat_db \<Rightarrow> nat" where
  "day_attempts s d = length (filter (\<lambda>l. day_start (created l) = s) (cd_ledger d))"

definition window_attempts :: "time \<Rightarrow> chat_db \<Rightarrow> nat" where
  "window_attempts s d = length (filter (\<lambda>l. s \<le> created l \<and> created l \<le> s + minutes 1) (cd_ledger d))"

definition budget_ok :: "budget_limits \<Rightarrow> chat_db \<Rightarrow> bool" where
  "budget_ok b d \<longleftrightarrow> (\<forall>m. month_tokens m d \<le> bl_monthly b) \<and> (\<forall>s. int (day_attempts s d) \<le> bl_daily b)
     \<and> (\<forall>s. int (window_attempts s d) \<le> bl_global_minute b)"

lemma limits_pos:
  assumes "limits_ok b"
  shows "0 < bl_daily b" "0 < bl_monthly b" "0 < bl_concurrent b" "0 < bl_session_minute b" "0 < bl_global_minute b"
  using assms by (simp_all add: limits_ok_def)

lemma shrinks_filter:
  assumes "shrinks ls ms"
  shows "length (filter (\<lambda>l. P (created l)) ms) = length (filter (\<lambda>l. P (created l)) ls)"
    "(\<Sum>l \<leftarrow> filter (\<lambda>l. P (created l)) ms. charged (lg_charge l)) \<le> (\<Sum>l \<leftarrow> filter (\<lambda>l. P (created l)) ls. charged (lg_charge l))"
  using assms unfolding shrinks_def
  by (induction rule: list_all2_induct) (auto simp: created_def)

lemma budget_shrinks:
  assumes sh: "shrinks (cd_ledger d) (cd_ledger d')" and ok: "budget_ok b d"
  shows "budget_ok b d'"
proof -
  have "month_tokens m d' \<le> month_tokens m d" for m
    unfolding month_tokens_def by (rule shrinks_filter(2) [OF sh, of "\<lambda>c. month_start c = m"])
  moreover have "day_attempts s d' = day_attempts s d" for s
    unfolding day_attempts_def by (rule shrinks_filter(1) [OF sh, of "\<lambda>c. day_start c = s"])
  moreover have "window_attempts s d' = window_attempts s d" for s
    unfolding window_attempts_def by (rule shrinks_filter(1) [OF sh, of "\<lambda>c. s \<le> c \<and> c \<le> s + minutes 1"])
  ultimately show ?thesis using ok unfolding budget_ok_def by (metis order_trans)
qed

lemma filter_weaker: "(\<And>x. P x \<Longrightarrow> Q x) \<Longrightarrow> length (filter P xs) \<le> length (filter Q xs)"
  by (induction xs) auto

lemma sum_weaker:
  fixes f :: "'a \<Rightarrow> int"
  shows "(\<And>x. P x \<Longrightarrow> Q x) \<Longrightarrow> \<forall>x \<in> set xs. 0 \<le> f x \<Longrightarrow> (\<Sum>x \<leftarrow> filter P xs. f x) \<le> (\<Sum>x \<leftarrow> filter Q xs. f x)"
  by (induction xs) auto

text \<open>
  The new entry is the last of its month, of its day and of any window of a minute around it;
  what the check counted includes all the others.
\<close>

lemma budget_begins:
  assumes "chat_ok d" and lim: "limits_ok b" and "budget_ok b d" and within: "within_budget b g now d"
    and d': "cd_ledger d' = cd_ledger d @ [l]" "lg_charge l = open_charge g now (reservation g)"
  shows "budget_ok b d'"
proof -
  have l: "created l = now" "charged (lg_charge l) = reservation g" by (simp_all add: d' created_def charged_def open_charge_def)
  have pos: "\<forall>x \<in> set (cd_ledger d). 0 \<le> charged (lg_charge x)"
    using assms(1) by (auto simp: chat_ok_def charges_ok_def tokens_ok_def charged_def)
  have "month_tokens m d' \<le> bl_monthly b" for m
  proof (cases "month_start now = m")
    case True
    have "month_tokens m d \<le> tokens_since (month_start now) d"
      unfolding month_tokens_def tokens_since_def
      by (rule sum_weaker [OF _ pos]) (use True month_start_le in \<open>auto simp: created_def\<close>)
    then show ?thesis using within True l by (simp add: month_tokens_def d' within_budget_def)
  next
    case False
    then show ?thesis using assms(3) l by (simp add: budget_ok_def month_tokens_def d')
  qed
  moreover have "int (day_attempts s d') \<le> bl_daily b" for s
  proof (cases "day_start now = s")
    case True
    have "day_attempts s d \<le> attempts_since (day_start now) d"
      unfolding day_attempts_def attempts_since_def
      by (rule filter_weaker) (use True day_start_le in \<open>auto simp: created_def\<close>)
    then show ?thesis using within True l by (simp add: day_attempts_def d' within_budget_def)
  next
    case False
    then show ?thesis using assms(3) l by (simp add: budget_ok_def day_attempts_def d')
  qed
  moreover have "int (window_attempts s d') \<le> bl_global_minute b" for s
  proof (cases "s \<le> now \<and> now \<le> s + minutes 1")
    case True
    have "window_attempts s d \<le> attempts_since (now - minutes 1) d"
      unfolding window_attempts_def attempts_since_def
      by (rule filter_weaker) (use True in \<open>auto simp: created_def\<close>)
    then show ?thesis using within True l by (simp add: window_attempts_def d' within_budget_def)
  next
    case False
    then show ?thesis using assms(3) l by (auto simp: budget_ok_def window_attempts_def d')
  qed
  ultimately show ?thesis by (simp add: budget_ok_def)
qed

lemma effect_budget:
  assumes "chat_ok d" and "limits_ok (ce_limits env)" and "budget_ok (ce_limits env) d" and "effect env d d'"
  shows "budget_ok (ce_limits env) d'"
proof -
  consider "d' = d" | "shrinks (cd_ledger d) (cd_ledger d')" | "begins_attempt env d d'"
    using assms(4) by (auto simp: effect_def calm_def admits_turn_def)
  then show ?thesis
  proof cases
    case 3
    then show ?thesis using budget_begins [OF assms(1-3)] by (auto simp: begins_attempt_def)
  qed (use assms(3) budget_shrinks in auto)
qed

section \<open>Active turns\<close>

definition active_ok :: "chat_env \<Rightarrow> chat_db \<Rightarrow> bool" where
  "active_ok env d \<longleftrightarrow> int (active_turn_count d) \<le> bl_concurrent (ce_limits env)"

lemma all_follow_active:
  assumes "all_follow ts us"
  shows "length (filter (\<lambda>t. is_active (tn_status t)) us) \<le> length (filter (\<lambda>t. is_active (tn_status t)) ts)"
  using assms by (induction rule: list_all2_induct) (auto dest: follows_active)

lemma effect_active:
  assumes "active_ok env d" and "effect env d d'"
  shows "active_ok env d'"
proof -
  consider "d' = d" | "all_follow (cd_turns d) (cd_turns d')" | "admits_turn env d d'" | "cd_turns d' = cd_turns d"
    using assms(2) by (auto simp: effect_def calm_def begins_attempt_def)
  then show ?thesis
  proof cases
    case 2
    then show ?thesis using all_follow_active [OF 2] assms(1) by (simp add: active_ok_def active_turn_count_def)
  next
    case 3
    then show ?thesis by (auto simp: active_ok_def active_turn_count_def admits_turn_def)
  qed (use assms(1) in \<open>auto simp: active_ok_def active_turn_count_def\<close>)
qed

end
