(* ===== verification/ChatHistories.thy ===== *)
theory ChatHistories
  imports ChatWorld
begin

text \<open>
  The invariant of the assistant: well-formed tables, the budget, the number of active turns, and
  answers bound to recorded evidence (\<open>chat_world_ok\<close>). Every event keeps it; the facts below about
  histories follow from it, or from the rank of the points of a handler.
\<close>

section \<open>Sound turns\<close>

text \<open>
  An answer is the merge of an explanation with the result of a query, each of whose facts is
  recorded as evidence; an answering or answered turn has its tool run. Any other turn has no
  answer, or one without facts.
\<close>

definition has_run :: "chat_db \<Rightarrow> uuid \<Rightarrow> bool" where
  "has_run d tid \<longleftrightarrow> (\<exists>x \<in> set (cd_runs d). tu_turn x = tid \<and> tu_result x \<noteq> None)"

definition has_evidence :: "chat_db \<Rightarrow> uuid \<Rightarrow> string \<Rightarrow> bool" where
  "has_evidence d tid ref \<longleftrightarrow> (\<exists>x \<in> set (cd_evidence d). ev_turn x = tid \<and> ev_fact x = ref)"

definition answer_bound :: "chat_env \<Rightarrow> chat_db \<Rightarrow> chat_turn \<Rightarrow> bool" where
  "answer_bound env d t \<longleftrightarrow> (\<exists>r e a. tn_answer t = Some a \<and> merge_answer (ce_boundary env) (tn_id t) r e = Inr a
     \<and> tn_result_hash t = Some (to_hash r) \<and> (\<forall>f \<in> set (to_facts r). has_evidence d (tn_id t) (cf_ref f)))"

definition turn_sound :: "chat_env \<Rightarrow> chat_db \<Rightarrow> chat_turn \<Rightarrow> bool" where
  "turn_sound env d t \<longleftrightarrow>
     (case tn_status t of
        Answered \<Rightarrow> has_run d (tn_id t) \<and> answer_bound env d t
      | Answering \<Rightarrow> has_run d (tn_id t) \<and> tn_answer t = None
      | ClarificationRequired \<Rightarrow> (\<forall>a \<in> set_option (tn_answer t). an_facts a = [] \<and> an_status a = AnswerClarifies)
      | _ \<Rightarrow> tn_answer t = None)"

definition answers_ok :: "chat_env \<Rightarrow> chat_db \<Rightarrow> bool" where
  "answers_ok env d \<longleftrightarrow> (\<forall>t \<in> set (cd_turns d). turn_sound env d t)"

text \<open>The tables that only grow, while the turn stands.\<close>

definition grows :: "chat_db \<Rightarrow> chat_db \<Rightarrow> bool" where
  "grows d d' \<longleftrightarrow> set (cd_runs d) \<subseteq> set (cd_runs d') \<and> set (cd_evidence d) \<subseteq> set (cd_evidence d')"

lemma grows_refl [simp]: "grows d d"
  by (simp add: grows_def)

lemma turn_sound_grows: "turn_sound env d t \<Longrightarrow> grows d d' \<Longrightarrow> turn_sound env d' t"
  by (fastforce simp: turn_sound_def answer_bound_def has_run_def has_evidence_def grows_def split: chat_status.splits)

lemma answers_frame: "answers_ok env d \<Longrightarrow> grows d d' \<Longrightarrow> set (cd_turns d') \<subseteq> set (cd_turns d) \<Longrightarrow> answers_ok env d'"
  by (auto simp: answers_ok_def intro: turn_sound_grows)

lemma answers_update:
  assumes "answers_ok env d" and "grows d d'" and "cd_turns d' = update_where p f (cd_turns d)"
    and "\<And>t. t \<in> set (cd_turns d) \<Longrightarrow> p t \<Longrightarrow> turn_sound env d' (f t)"
  shows "answers_ok env d'"
proof -
  have "turn_sound env d' t" if "t \<in> set (cd_turns d)" for t
    using assms(1) that turn_sound_grows [OF _ assms(2)] by (simp add: answers_ok_def)
  then show ?thesis using assms(4) unfolding answers_ok_def assms(3) by (auto simp: update_where_mem)
qed

lemma active_no_answer: "turn_sound env d t \<Longrightarrow> is_active (tn_status t) \<Longrightarrow> tn_answer t = None"
  by (auto simp: turn_sound_def is_active_def)

section \<open>The statements and the answers\<close>

lemma set_charge_grows [simp]: "grows d (set_charge i c d)"
  by (simp add: grows_def)

lemma recovered_answers:
  assumes "answers_ok env d"
  shows "answers_ok env (recovered now d)"
proof (rule answers_update [OF assms])
  let ?d1 = "close_all (lost_charge now) (filter (abandoned now d) (cd_attempts d)) d"
  show "grows d (recovered now d)" by (simp add: grows_def recovered_def Let_def)
  show "cd_turns (recovered now d) = update_where (is_stale now) (close_stale now ?d1) (cd_turns d)"
    by (simp add: recovered_def Let_def)
  fix t assume t: "t \<in> set (cd_turns d)" "is_stale now t"
  then have "tn_answer t = None"
    using assms active_no_answer by (auto simp: answers_ok_def is_stale_def)
  then show "turn_sound env (recovered now d) (close_stale now ?d1 t)" by (simp add: turn_sound_def close_stale_def)
qed

lemma admit_answers:
  assumes ok: "chat_ok d" and ans: "answers_ok env d" and "admit_body env a c rid now d = Inr (r, d')"
  shows "answers_ok env d'"
proof -
  let ?d = "recovered now d"
  consider "d' = ?d" | "insert_turn (new_turn env a c rid now ?d) ?d = Inr d'"
    using assms(3) recover_stale_eq [OF ok, of now]
    by (auto simp: admit_body_def ebind_eq_Inr Let_def split: option.splits if_splits)
  then show ?thesis
  proof cases
    case 2
    then have d': "d' = ?d\<lparr>cd_turns := cd_turns ?d @ [new_turn env a c rid now ?d]\<rparr>"
      by (auto simp: insert_turn_def split: if_splits)
    have "turn_sound env d' (new_turn env a c rid now ?d)" by (simp add: turn_sound_def new_turn_def)
    moreover have "turn_sound env d' t" if "t \<in> set (cd_turns ?d)" for t
      using recovered_answers [OF ans, of now] that turn_sound_grows [of env ?d t d'] by (simp add: answers_ok_def grows_def d')
    ultimately show ?thesis by (auto simp: answers_ok_def d')
  qed (simp add: recovered_answers [OF ans])
qed

lemma begin_grows: "begin_body env tid g aid now d = Inr (r, d') \<Longrightarrow> grows d d' \<and> cd_turns d' = cd_turns d"
  by (auto simp: begin_body_def Let_def ebind_eq_Inr add_attempt_def grows_def split: if_splits option.splits)

lemma finish_grows:
  assumes "chat_ok d" and "finish_body aid e now d = Inr (r, d')"
  shows "grows d d' \<and> cd_turns d' = cd_turns d"
proof -
  have x: "finish_attempt aid (en_status e) (en_input e) (en_output e) (en_error e) now d = Inr d'"
    using assms(2) by (auto simp: finish_body_def ebind_eq_Inr split: option.splits if_splits)
  show ?thesis
  proof (cases "select_one (\<lambda>a. at_id a = aid \<and> ch_status (at_charge a) = Started) (cd_attempts d)")
    case None
    then show ?thesis using x by (simp add: finish_attempt_def)
  next
    case (Some a)
    then have a: "a \<in> set (cd_attempts d)" using select_one_SomeD [OF Some] by simp
    have "charges_ok d" using assms(1) by (simp add: chat_ok_def)
    moreover have "update_attempt a (close_charge (en_status e) (en_input e) (en_output e) (en_error e) now (at_charge a)) d = Inr d'"
      using x by (simp add: finish_attempt_def Some)
    ultimately have "\<exists>c. d' = set_charge (at_id a) c d" using update_attempt_eq [OF _ a] by blast
    then show ?thesis by auto
  qed
qed

text \<open>A change that is no answer and leads to no answering.\<close>

definition harmless :: "turn_change \<Rightarrow> bool" where
  "harmless c \<longleftrightarrow> tc_answer c = None \<and> tc_status c \<noteq> Answering \<and> tc_status c \<noteq> Answered"

lemma update_active:
  assumes "update_turns p f d = Inr d'" and "t \<in> set (cd_turns d)" "p t" and "tn_draft (f t) = tn_draft t"
  shows "is_active (tn_status t)"
proof (rule ccontr)
  assume idle: "\<not> is_active (tn_status t)"
  obtain us where "emap (\<lambda>t. if p t then check_turn t (f t) else Inr ()) (cd_turns d) = Inr us"
    using assms(1) by (auto simp: update_turns_def ebind_eq_Inr)
  then have "turn_step t (f t)"
    using emap_list_all2 assms(2,3) by (fastforce simp: turn_step_def list_all2_conv_all_nth in_set_conv_nth)
  then have "takes_draft t (f t)" using turn_stepD(4) idle by blast
  then have none: "tn_draft t = None" and some: "tn_draft (f t) \<noteq> None"
    by (auto simp: takes_draft_def)
  show False using none some assms(4) by simp
qed

lemma apply_change_simps [simp]:
  "tn_draft (apply_change c l now t) = tn_draft t" "tn_id (apply_change c l now t) = tn_id t"
  "tn_status (apply_change c l now t) = tc_status c" "tn_answer (apply_change c l now t) = given (tc_answer c) (tn_answer t)"
  "tn_result_hash (apply_change c l now t) = given (tc_result_hash c) (tn_result_hash t)"
  by (simp_all add: apply_change_def)

lemma transition_answers:
  assumes ok: "chat_ok d" and ans: "answers_ok env d" and tr: "transition tid s c l now d = Inr (r, d')"
    and new: "\<And>t. t \<in> set (cd_turns d) \<Longrightarrow> tn_id t = tid \<Longrightarrow> tn_status t = s \<Longrightarrow> tn_answer t = None
      \<Longrightarrow> turn_sound env d (apply_change c l now t)"
  shows "answers_ok env d'"
proof -
  let ?p = "\<lambda>t. tn_id t = tid \<and> tn_status t = s"
  have up: "update_turns ?p (apply_change c l now) d = Inr d'"
    using tr by (auto simp: transition_def Let_def ebind_eq_Inr)
  have d': "d' = d\<lparr>cd_turns := update_where ?p (apply_change c l now) (cd_turns d)\<rparr>" by (rule update_turnsD(1) [OF up])
  have grows: "grows d d'" by (simp add: grows_def d')
  show ?thesis
  proof (rule answers_update [OF ans grows])
    show "cd_turns d' = update_where ?p (apply_change c l now) (cd_turns d)" by (simp add: d')
    fix t assume t: "t \<in> set (cd_turns d)" "?p t"
    have "is_active (tn_status t)" by (rule update_active [OF up t]) simp
    then have "tn_answer t = None" using ans t(1) active_no_answer by (auto simp: answers_ok_def)
    then have "turn_sound env d (apply_change c l now t)" using new t by simp
    then show "turn_sound env d' (apply_change c l now t)" by (rule turn_sound_grows [OF _ grows])
  qed
qed

lemma harmless_sound: "harmless c \<Longrightarrow> tn_answer t = None \<Longrightarrow> turn_sound env d (apply_change c l now t)"
  by (auto simp: harmless_def turn_sound_def given_def split: chat_status.splits)

lemma transit_answers:
  assumes "chat_ok d" "answers_ok env d" "transit_body tid s c now d = Inr (t, d')" "harmless c"
  shows "answers_ok env d'"
proof -
  have "transition tid s c (Some (now + chat_lease)) now d = Inr (Some t, d')"
    using assms(3) movedD by (auto simp: transit_body_def ebind_eq_Inr)
  then show ?thesis using transition_answers [OF assms(1,2)] harmless_sound [OF assms(4)] by blast
qed


lemma add_tool_result_run:
  assumes "add_tool_result tid plan r err now d = Inr d'"
  shows "d' = d\<lparr>cd_runs := cd_runs d @ [\<lparr>tu_turn = tid, tu_plan = plan, tu_result = r, tu_error = err, tu_created_at = now\<rparr>]\<rparr>"
  using assms by (auto simp: add_tool_result_def ebind_eq_Inr split: if_splits)

lemma failure_answers:
  assumes "answers_ok env d" and "failure_body tid plan now d = Inr (r, d')"
  shows "answers_ok env d'"
proof -
  have "add_tool_result tid plan None (Some ''query_failed'') now d = Inr d'"
    using assms(2) by (auto simp: failure_body_def ebind_eq_Inr)
  note run = add_tool_result_run [OF this]
  have "grows d d'" by (simp add: run grows_def subset_insertI)
  then show ?thesis using answers_frame [OF assms(1), of d'] by (simp add: run)
qed

lemma record_answers:
  assumes ok: "chat_ok d" and ans: "answers_ok env d" and "record_body tid s plan r now d = Inr (t, d')"
  shows "answers_ok env d'"
proof -
  obtain d1 where d1: "add_tool_result tid plan (Some r) None now d = Inr d1"
    and tr: "transition tid Querying (result_change tid s plan r) (Some (now + chat_lease)) now d1 = Inr (Some t, d')"
    using assms(3) movedD by (auto simp: record_body_def ebind_eq_Inr)
  note run = add_tool_result_run [OF d1]
  have "chat_ok d1" using chat_ok_frame(1) [of d1 d] ok by (simp add: run)
  moreover have "answers_ok env d1" using answers_frame [OF ans, of d1] by (simp add: run grows_def subset_insertI)
  moreover have "has_run d1 tid" by (simp add: run has_run_def)
  then have "turn_sound env d1 (apply_change (result_change tid s plan r) (Some (now + chat_lease)) now u)"
    if "tn_id u = tid" "tn_answer u = None" for u
    using that by (simp add: turn_sound_def result_change_def result_status_def given_def insufficient_answer_def Let_def)
  ultimately show ?thesis using transition_answers tr by blast
qed

lemma complete_answers:
  assumes ok: "chat_ok d" and ans: "answers_ok env d" and "complete_body env tid plan r a now d = Inr (t, d')"
    and a: "merge_answer (ce_boundary env) tid r e = Inr a"
  shows "answers_ok env d'"
proof -
  obtain d1 where d1: "add_evidence (ce_parse_uuid env) tid r now d = Inr d1"
    and tr: "transition tid Answering (answer_change plan r a) None now d1 = Inr (Some t, d')"
    using assms(3) movedD by (auto simp: complete_body_def ebind_eq_Inr)
  note ev = add_evidenceD [OF d1]
  have "chat_ok d1" using chat_ok_frame(1) [of d1 d] ok by (simp add: ev)
  moreover have ans1: "answers_ok env d1" using answers_frame [OF ans, of d1] by (auto simp: ev grows_def)
  moreover have "has_evidence d1 tid (cf_ref f)" if "f \<in> set (to_facts r)" for f
    unfolding has_evidence_def ev
    by (rule bexI [of _ "evidence_of (ce_parse_uuid env) tid now f"]) (use that in \<open>simp_all add: evidence_of_def Let_def\<close>)
  then have "turn_sound env d1 (apply_change (answer_change plan r a) None now u)"
    if u: "u \<in> set (cd_turns d1)" "tn_id u = tid" "tn_status u = Answering" for u
  proof -
    have "has_run d1 tid" using ans1 u by (auto simp: answers_ok_def turn_sound_def)
    then show ?thesis using \<open>\<And>f. f \<in> set (to_facts r) \<Longrightarrow> has_evidence d1 tid (cf_ref f)\<close> a u(2)
      by (auto simp: turn_sound_def answer_bound_def answer_change_def given_def)
  qed
  ultimately show ?thesis using transition_answers [OF _ _ tr] by blast
qed

section \<open>Points\<close>

definition point_ok :: "chat_env \<Rightarrow> uuid \<Rightarrow> point \<Rightarrow> bool" where
  "point_ok env tid p \<longleftrightarrow>
     (case p of
        Moving s c n \<Rightarrow> harmless c
      | Completing plan r a \<Rightarrow> \<exists>e. merge_answer (ce_boundary env) tid r e = Inr a
      | _ \<Rightarrow> True)"

definition handler_ok :: "chat_env \<Rightarrow> handler \<Rightarrow> bool" where
  "handler_ok env h \<longleftrightarrow> point_ok env (hd_turn h) (hd_point h)"

lemma terminal_harmless: "\<not> is_active s \<Longrightarrow> s \<noteq> Answered \<Longrightarrow> harmless (terminal_change s err txt)"
  by (auto simp: harmless_def terminal_change_def plain_change_def is_active_def)

lemma query_failed_ok [simp]: "point_ok env tid (query_failed s)"
  by (simp add: query_failed_def point_ok_def terminal_harmless is_active_def)

lemma task_failed_ok [simp]: "point_ok env tid (task_failed k f)"
  by (auto simp: task_failed_def provider_terminal_def point_ok_def terminal_harmless is_active_def split: failure.splits)

lemma start_plan_ok [simp]: "point_ok env tid (start_plan a plan)"
  by (simp add: start_plan_def point_ok_def terminal_harmless is_active_def) (simp add: harmless_def plain_change_def)

lemma after_decision_ok [simp]: "point_ok env tid (after_decision a d)"
  by (simp add: after_decision_def split: option.splits) (simp add: point_ok_def terminal_harmless is_active_def)

lemma after_explanation_ok [simp]: "point_ok env tid (after_explanation env tid plan r e)"
  by (auto simp: after_explanation_def point_ok_def terminal_harmless is_active_def split: sum.splits)

lemma done_ok [simp]: "point_ok env tid (Done r)"
  by (simp add: point_ok_def)

lemma after_verdict_ok [simp]: "point_ok env (hd_turn h) (after_verdict env h k v)"
  by (simp add: after_verdict_def split: verdict.splits task.splits)

lemma after_admission_ok [simp]: "point_ok env tid (after_admission env a t)"
  by (auto simp: after_admission_def point_ok_def [of env tid "Moving _ _ _"] point_ok_def [of env tid "Beginning _"]
      terminal_harmless is_active_def split: option.splits)

lemma goto_ok [simp]: "handler_ok env (goto p h) \<longleftrightarrow> point_ok env (hd_turn h) p"
  by (simp add: handler_ok_def goto_def)

lemma take_turn_ok [simp]: "handler_ok env (take_turn env h c hist t)"
  by (simp add: handler_ok_def take_turn_def)

lemma after_move_ok [simp]: "handler_ok env (after_move n h t)" "handler_ok env (move_failed n h f)"
  by (simp_all add: after_move_def move_failed_def split: transit_next.splits) (simp add: point_ok_def)


lemma point_ok_simps [simp]:
  "point_ok env tid (Moving s c n) \<longleftrightarrow> harmless c"
  "point_ok env tid (Completing plan r a) \<longleftrightarrow> (\<exists>e. merge_answer (ce_boundary env) tid r e = Inr a)"
  "point_ok env tid (Recovering b)" "point_ok env tid (Replaying cause)" "point_ok env tid Selecting"
  "point_ok env tid (Admitting cr rid)" "point_ok env tid (Beginning t)" "point_ok env tid (RereadingAttempt t f)"
  "point_ok env tid (Calling t aid)" "point_ok env tid (Finishing t aid en v)" "point_ok env tid (RereadingEnding t aid en v f)"
  "point_ok env tid (RereadingMove s c n f)" "point_ok env tid (Executing plan)" "point_ok env tid (Recording plan r)"
  "point_ok env tid (RereadingRecord plan r f)" "point_ok env tid (RecordingFailure plan)" "point_ok env tid RereadingAnswer"
  by (simp_all add: point_ok_def)

lemma step_reads_ok:
  assumes "handler_ok env h"
  shows "handler_ok env (step_reads env k h d)"
proof (cases "hd_point h")
  case (Replaying cause)
  then show ?thesis by (auto simp: step_reads_def step_replaying_def split: sum.splits option.splits replay_cause.splits)
next
  case Selecting
  then show ?thesis by (auto simp: step_reads_def after_selection_def split: sum.splits selection.splits)
next
  case (RereadingAttempt t f)
  then show ?thesis by (auto simp: step_reads_def split: option.splits)
next
  case (Calling t aid)
  then show ?thesis by (auto simp: step_reads_def split: prod.splits)
next
  case (RereadingEnding t aid e v f)
  then show ?thesis by (auto simp: step_reads_def)
next
  case (RereadingMove s c n f)
  then show ?thesis by (auto simp: step_reads_def split: option.splits)
next
  case (Executing plan)
  then show ?thesis by (auto simp: step_reads_def split: execution.splits)
next
  case (RereadingRecord plan r f)
  then show ?thesis by (auto simp: step_reads_def after_record_def split: option.splits)
next
  case RereadingAnswer
  then show ?thesis by (auto simp: step_reads_def split: option.splits)
qed (use assms in \<open>simp_all add: step_reads_def\<close>)

lemma transact_next: "transact k body nxt d = (h', d') \<Longrightarrow> \<exists>r. h' = nxt r"
  by (auto simp: transact_def split: prod.splits)

lemma after_ok [simp]:
  "handler_ok env (after_recovery again h r)" "handler_ok env (after_admit env h c rid seen x)" "handler_ok env (after_begin t h y)"
  "handler_ok env (after_record plan res h u)"
  by (auto simp: after_recovery_def after_admit_def after_begin_def after_record_def split: sum.splits option.splits bool.splits)

lemma advance_handler:
  assumes "handler_ok env h" and "advance env k h d = (h', d')"
  shows "handler_ok env h'"
proof (cases "hd_point h")
  case (Recovering again)
  then show ?thesis using assms(2) by (auto simp: advance_def Let_def dest!: transact_next)
next
  case (Admitting c rid)
  then show ?thesis using assms(2) by (auto simp: advance_def Let_def dest!: transact_next)
next
  case (Beginning t)
  then show ?thesis using assms(2) by (auto simp: advance_def Let_def dest!: transact_next split: if_splits)
next
  case (Finishing t aid e v)
  then show ?thesis using assms(2) by (auto simp: advance_def Let_def dest!: transact_next split: sum.splits)
next
  case (Moving s c n)
  then show ?thesis using assms(2) by (auto simp: advance_def Let_def dest!: transact_next split: sum.splits)
next
  case (Recording plan r)
  then show ?thesis using assms(2) by (auto simp: advance_def Let_def dest!: transact_next split: sum.splits)
next
  case (RecordingFailure plan)
  then show ?thesis using assms(2) by (auto simp: advance_def Let_def dest!: transact_next)
next
  case (Completing plan r ans)
  then show ?thesis using assms(2) by (auto simp: advance_def Let_def dest!: transact_next split: sum.splits)
qed (use assms step_reads_ok in \<open>auto simp: advance_def Let_def\<close>)

lemma advance_answers:
  assumes ok: "chat_ok d" and ans: "answers_ok env d" and h: "handler_ok env h" and "advance env k h d = (h', d')"
  shows "answers_ok env d'"
proof -
  note step = assms(4) [unfolded advance_def Let_def]
  have rec: "answers_ok env d'" if "recover_body a now d = Inr (x, d')" for a now x
    using recover_body_eq(1) [OF ok that] recovered_answers [OF ans] by simp
  have beg: "answers_ok env d'" if "begin_body env tid g aid now d = Inr (x, d')" for tid g aid now x
    using begin_grows [OF that] answers_frame [OF ans] by simp
  have fin: "answers_ok env d'" if "finish_body aid e now d = Inr (x, d')" for aid e now x
    using finish_grows [OF ok that] answers_frame [OF ans] by simp
  have tra: "answers_ok env d'" if "hd_point h = Moving s c n" "transit_body tid s c now d = Inr (x, d')" for tid s c n now x
    using transit_answers [OF ok ans that(2)] h that(1) by (simp add: handler_ok_def)
  have com: "answers_ok env d'" if "hd_point h = Completing plan r a" "complete_body env (hd_turn h) plan r a now d = Inr (x, d')"
    for plan r a now x
    using complete_answers [OF ok ans that(2)] h that(1) by (auto simp: handler_ok_def)
  show ?thesis
    using step ans rec beg fin tra com admit_answers [OF ok ans] record_answers [OF ok ans] failure_answers [OF ans]
    by (cases "hd_point h") (auto split: if_splits dest!: transactD)
qed

section \<open>Deletion, saved answers, the sessions\<close>

lemma keep_turns_fields [simp]:
  "cd_turns (keep_turns p d) = filter (\<lambda>t. p (tn_id t)) (cd_turns d)" "cd_ledger (keep_turns p d) = cd_ledger d"
  "cd_attempts (keep_turns p d) = filter (\<lambda>a. p (at_turn a)) (cd_attempts d)"
  "cd_runs (keep_turns p d) = filter (\<lambda>x. p (tu_turn x)) (cd_runs d)"
  "cd_evidence (keep_turns p d) = filter (\<lambda>e. p (ev_turn e)) (cd_evidence d)"
  by (simp_all add: keep_turns_def)

lemma distinct_map_keep: "distinct (map f xs) \<Longrightarrow> distinct (map f (filter p xs))"
  by (simp add: distinct_map inj_on_def)

lemma keep_turns_ok: "chat_ok d \<Longrightarrow> chat_ok (keep_turns p d)"
  by (auto simp: chat_ok_def turns_ok_def charges_ok_def distinct_map_keep)

lemma keep_turns_answers: "answers_ok env d \<Longrightarrow> answers_ok env (keep_turns p d)"
proof -
  have run: "has_run (keep_turns p d) tid \<longleftrightarrow> has_run d tid" and
    evidence: "has_evidence (keep_turns p d) tid ref \<longleftrightarrow> has_evidence d tid ref" if "p tid" for tid ref
    using that by (auto simp: has_run_def has_evidence_def)
  have "turn_sound env (keep_turns p d) t = turn_sound env d t" if "p (tn_id t)" for t
    using run [OF that] evidence [OF that] by (simp add: turn_sound_def answer_bound_def split: chat_status.split)
  moreover assume "answers_ok env d"
  ultimately show "answers_ok env (keep_turns p d)" by (simp add: answers_ok_def)
qed

definition db_ok :: "chat_env \<Rightarrow> chat_db \<Rightarrow> bool" where
  "db_ok env d \<longleftrightarrow> chat_ok d \<and> budget_ok (ce_limits env) d \<and> active_ok env d \<and> answers_ok env d"

text \<open>The parts that the invariant does not read.\<close>

definition same_chat :: "chat_db \<Rightarrow> chat_db \<Rightarrow> bool" where
  "same_chat d e \<longleftrightarrow> cd_turns e = cd_turns d \<and> cd_attempts e = cd_attempts d \<and> cd_ledger e = cd_ledger d
     \<and> cd_runs e = cd_runs d \<and> cd_evidence e = cd_evidence d"

lemma same_chat_ok: "same_chat d e \<Longrightarrow> db_ok env e \<longleftrightarrow> db_ok env d"
proof -
  assume same: "same_chat d e"
  then have "answers_ok env e \<longleftrightarrow> answers_ok env d"
    using answers_frame [of env d e] answers_frame [of env e d] by (auto simp: same_chat_def grows_def)
  moreover have "chat_ok e \<longleftrightarrow> chat_ok d" using same chat_ok_frame(1) [of e d] by (simp add: same_chat_def)
  moreover have "budget_ok b e \<longleftrightarrow> budget_ok b d" for b
    using same by (simp add: same_chat_def budget_ok_def month_tokens_def day_attempts_def window_attempts_def)
  moreover have "active_ok env e \<longleftrightarrow> active_ok env d" using same by (simp add: same_chat_def active_ok_def active_turn_count_def)
  ultimately show "db_ok env e \<longleftrightarrow> db_ok env d" by (simp add: db_ok_def)
qed

lemma filter_filter_le: "length (filter q (filter p xs)) \<le> length (filter q xs)"
  by (induction xs) auto

lemma keep_turns_db_ok: "db_ok env d \<Longrightarrow> db_ok env (keep_turns p d)"
  using keep_turns_ok keep_turns_answers filter_filter_le [of "\<lambda>t. is_active (tn_status t)" "\<lambda>t. p (tn_id t)" "cd_turns d"]
  by (simp add: db_ok_def budget_ok_def month_tokens_def day_attempts_def window_attempts_def active_ok_def active_turn_count_def)


lemma rebased_ok: "db_ok env (d\<lparr>cd_base := b\<rparr>) \<longleftrightarrow> db_ok env d"
  by (rule same_chat_ok) (simp add: same_chat_def)

lemma save_answer_same: "same_chat d (snd (save_answer env hash p tid now flt d))"
proof -
  have rec: "same_chat d d'" if "save_record tid op h now d = Inr (x, d')" for op h x d'
    using that by (auto simp: save_record_def ebind_eq_Inr Let_def same_chat_def)
  have "same_chat d (snd (run_uow flt (\<lambda>d. ebind (save_record tid op h now d) (\<lambda>(same, d').
      if same then Inr (t, d') else Inl ChatConflict)) d))" for op h and t :: chat_turn
    using run_uow_state [of flt "\<lambda>d. ebind (save_record tid op h now d) (\<lambda>(same, d'). if same then Inr (t, d') else Inl ChatConflict)" d] rec
    by (auto simp: ebind_eq_Inr same_chat_def split: if_splits)
  then show ?thesis
    by (auto simp: save_answer_def same_chat_def split: sum.splits option.splits bool.splits prod.splits chat_status.splits)
qed

lemma delete_session_keeps:
  "\<exists>q b. snd (delete_demo_session env p now flt d) = d \<or> snd (delete_demo_session env p now flt d) = keep_turns q (d\<lparr>cd_base := b\<rparr>)"
proof -
  have del: "\<exists>q b. d' = keep_turns q (d\<lparr>cd_base := b\<rparr>)" if "delete_for_session actor (d\<lparr>cd_base := b\<rparr>) = Inr (n, d')" for actor b n d'
    using that by (auto simp: delete_for_session_def Let_def split: if_splits)
  have run: "\<exists>q b. snd (run_uow flt body d) = d \<or> snd (run_uow flt body d) = keep_turns q (d\<lparr>cd_base := b\<rparr>)"
    if "\<And>n d'. body d = Inr (n, d') \<Longrightarrow> \<exists>q b. d' = keep_turns q (d\<lparr>cd_base := b\<rparr>)" for body :: "chat_db \<Rightarrow> chat_error + (nat \<times> chat_db)"
    using run_uow_state [of flt body d] that by (metis prod.collapse)
  show ?thesis
  proof (cases "validate_principal env p None None")
    case (Inr s)
    show ?thesis
    proof (cases "cp_actor p")
      case (ByDemo sid)
      then show ?thesis
        unfolding delete_demo_session_def Inr sum.case ByDemo chat_actor.case
        by (intro run) (auto split: prod.splits option.splits dest: del)
    qed (auto simp: delete_demo_session_def Inr)
  qed (auto simp: delete_demo_session_def)
qed

text \<open>A draft changes the turn it belongs to; a card of the action service only the rest of the database.\<close>

lemma store_body_effect:
  assumes "chat_ok d" and "store_body tid a now d = Inr (u, d')"
  shows "effect env d d'"
proof -
  have up: "\<exists>q f. update_turns q f d = Inr d'"
    using assms(2) by (auto simp: store_body_def record_action_draft_def Let_def ebind_eq_Inr split: option.splits)
  then have "cd_base d' = cd_base d" using update_turnsD(1) by fastforce
  then show ?thesis using up update_turns_ok [OF assms(1)] by (auto simp: effect_def)
qed

lemma store_body_answers:
  assumes ans: "answers_ok env d" and "store_body tid a now d = Inr (u, d')"
  shows "answers_ok env d'"
proof -
  let ?q = "\<lambda>t. tn_id t = tid \<and> tn_status t = Answered \<and> tn_draft t = None"
  let ?f = "\<lambda>t :: chat_turn. t\<lparr>tn_draft := Some a, tn_updated_at := now\<rparr>"
  have "update_turns ?q ?f d = Inr d'"
    using assms(2) by (auto simp: store_body_def record_action_draft_def Let_def ebind_eq_Inr split: option.splits)
  note d' = update_turnsD(1) [OF this]
  have grows: "grows d d'" by (simp add: grows_def d')
  show ?thesis
  proof (rule answers_update [OF ans grows])
    show "cd_turns d' = update_where ?q ?f (cd_turns d)" by (simp add: d')
    fix t assume "t \<in> set (cd_turns d)" "?q t"
    then have "turn_sound env d' t" using ans turn_sound_grows [OF _ grows] by (simp add: answers_ok_def)
    then show "turn_sound env d' (?f t)" by (cases "tn_status t") (simp_all add: turn_sound_def answer_bound_def)
  qed
qed

lemma rebase_turns: "rebase d e \<Longrightarrow> cd_turns e = cd_turns d"
  by (auto simp: rebase_def)

section \<open>The invariant of a history\<close>

definition chat_world_ok :: "chat_system \<Rightarrow> chat_world \<Rightarrow> bool" where
  "chat_world_ok y w \<longleftrightarrow> limits_ok (ce_limits (cy_env y)) \<and> db_ok (cy_env y) (cw_db w)
     \<and> list_all (handler_ok (cy_env y)) (cw_handlers w)"

lemma advance_ok:
  assumes lim: "limits_ok (ce_limits env)" and ok: "db_ok env d" and h: "handler_ok env h" and step: "advance env k h d = (h', d')"
  shows "db_ok env d' \<and> handler_ok env h'"
proof -
  have c: "chat_ok d" "budget_ok (ce_limits env) d" "active_ok env d" "answers_ok env d" using ok by (simp_all add: db_ok_def)
  note eff = advance_effect [OF c(1) step]
  have "chat_ok d'" using eff c(1) by (auto simp: effect_def)
  then show ?thesis
    using effect_budget [OF c(1) lim c(2) eff] effect_active [OF c(3) eff] advance_answers [OF c(1,4) h step] advance_handler [OF h step]
    by (simp add: db_ok_def)
qed

lemma draft_ok:
  assumes lim: "limits_ok (ce_limits env)" and ok: "db_ok env d"
    and run: "create_action_draft env svc p tid key x now flt flt' d = (out, d')"
  shows "db_ok env d'"
proof -
  obtain e where e: "e = d \<or> rebase d e" "d' = e \<or> (\<exists>a u. store_body tid a now e = Inr (u, d'))"
    using create_action_draft_run [OF run] by blast
  have c: "chat_ok e" "budget_ok (ce_limits env) e" "active_ok env e" "answers_ok env e"
    using e(1) ok keep_turns_db_ok by (auto simp: rebase_def db_ok_def rebased_ok [unfolded db_ok_def])
  show ?thesis
  proof (cases "d' = e")
    case False
    then obtain a u where store: "store_body tid a now e = Inr (u, d')" using e(2) by blast
    note eff = store_body_effect [OF c(1) store, of env]
    have "chat_ok d'" using eff c(1) by (auto simp: effect_def)
    then show ?thesis
      using effect_budget [OF c(1) lim c(2) eff] effect_active [OF c(3) eff] store_body_answers [OF c(4) store] by (simp add: db_ok_def)
  qed (use c in \<open>simp add: db_ok_def\<close>)
qed

lemma list_all_update: "list_all P xs \<Longrightarrow> P x \<Longrightarrow> list_all P (xs[i := x])"
  by (auto simp: list_all_iff dest: set_update_subset_insert [THEN subsetD])

lemma chat_step_ok:
  assumes "chat_world_ok y w"
  shows "chat_world_ok y (chat_step y e w)"
proof (cases e)
  case (Submit now m)
  then show ?thesis using assms
    by (auto simp: chat_world_ok_def start_handler_def ebind_eq_Inr handler_ok_def split: sum.splits)
next
  case (Advance i k)
  show ?thesis
  proof (cases "i < length (cw_handlers w)")
    case True
    obtain h d where step: "advance (cy_env y) k (cw_handlers w ! i) (cw_db w) = (h, d)" by fastforce
    have ok: "limits_ok (ce_limits (cy_env y))" "db_ok (cy_env y) (cw_db w)" "handler_ok (cy_env y) (cw_handlers w ! i)"
      using assms True by (auto simp: chat_world_ok_def list_all_length)
    from advance_ok [OF ok step] show ?thesis
      using assms True step by (simp add: Advance advance_nth_def chat_world_ok_def list_all_update)
  qed (use assms in \<open>simp add: Advance advance_nth_def\<close>)
next
  case (Save p tid now flt)
  then show ?thesis using assms same_chat_ok [OF save_answer_same] by (simp add: chat_world_ok_def)
next
  case (Draft p tid key x now flt flt')
  have "db_ok (cy_env y) (snd (create_action_draft (cy_env y) (cy_actions y) p tid key x now flt flt' (cw_db w)))"
    using assms by (intro draft_ok [OF _ _ prod.collapse [symmetric]]) (simp_all add: chat_world_ok_def)
  then show ?thesis using assms by (simp add: Draft chat_world_ok_def)
next
  case (Forget p now flt)
  obtain q b where "snd (delete_demo_session (cy_env y) p now flt (cw_db w)) \<in> {cw_db w, keep_turns q (cw_db w\<lparr>cd_base := b\<rparr>)}"
    using delete_session_keeps [of "cy_env y" p now flt "cw_db w"] by blast
  then have "db_ok (cy_env y) (snd (delete_demo_session (cy_env y) p now flt (cw_db w)))"
    using assms keep_turns_db_ok by (auto simp: chat_world_ok_def rebased_ok)
  then show ?thesis using assms by (simp add: Forget chat_world_ok_def)
next
  case (Elsewhere now e')
  then show ?thesis using assms by (simp add: chat_world_ok_def on_base_def keep_turns_db_ok rebased_ok)
qed

interpretation chat: guarded_machine "chat_step y" "chat_world_ok y" for y
  by unfold_locales (rule chat_step_ok)

lemma idle_world_ok:
  assumes "limits_ok (ce_limits (cy_env y))"
  shows "chat_world_ok y (idle_world b)"
  using limits_pos [OF assms] assms
  by (simp add: chat_world_ok_def idle_world_def db_ok_def empty_chat_ok, simp add: empty_chat_def budget_ok_def month_tokens_def
      day_attempts_def window_attempts_def active_ok_def active_turn_count_def answers_ok_def)

lemma chat_history_ok:
  assumes "limits_ok (ce_limits (cy_env y))"
  shows "chat_world_ok y (fold (chat_step y) es (idle_world b))"
  by (rule chat.run_inv [OF idle_world_ok [OF assms]])

end
