(* ===== verification/Assistant.thy ===== *)
theory Assistant
  imports ChatHistories
begin

text \<open>
  What the assistant guarantees over every history: its budget, the number of turns at work, answers
  bound to evidence, the life of a turn, the end of every submission, replays, and recovery after a
  handler was lost.
\<close>

section \<open>Termination\<close>

text \<open>The number of own steps a handler still has at most.\<close>

fun rank :: "point \<Rightarrow> nat" where
  "rank (Done _) = 0"
| "rank RereadingAnswer = 1"
| "rank (RereadingMove _ _ ReturnTurn _) = 1"
| "rank (Moving _ _ ReturnTurn) = 2"
| "rank (Completing _ _ _) = 2"
| "rank (RecordingFailure _) = 3"
| "rank (RereadingEnding _ _ _ (Refused _) _) = 3"
| "rank (RereadingEnding _ _ _ (Explained _) _) = 3"
| "rank (Finishing _ _ _ (Refused _)) = 4"
| "rank (Finishing _ _ _ (Explained _)) = 4"
| "rank (Calling (ExplainTask _ _) _) = 5"
| "rank (RereadingAttempt (ExplainTask _ _) _) = 6"
| "rank (Beginning (ExplainTask _ _)) = 7"
| "rank (RereadingRecord _ _ _) = 8"
| "rank (Recording _ _) = 9"
| "rank (Executing _) = 10"
| "rank (RereadingMove _ _ (ThenExecute _) _) = 11"
| "rank (Moving _ _ (ThenExecute _)) = 12"
| "rank (RereadingEnding _ _ _ (Decided _) _) = 13"
| "rank (Finishing _ _ _ (Decided _)) = 14"
| "rank (Calling PlanTask _) = 15"
| "rank (RereadingAttempt PlanTask _) = 16"
| "rank (Beginning PlanTask) = 17"
| "rank (Replaying (AfterAdmission _ _ _ _)) = 18"
| "rank (Admitting _ _) = 19"
| "rank Selecting = 20"
| "rank (Recovering True) = 21"
| "rank (Replaying (ThenFail _)) = 1"
| "rank (Replaying ThenRecover) = 22"
| "rank (Recovering False) = 23"

lemma rank_task_failed: "rank (task_failed k f) \<le> 2"
  by (auto simp: task_failed_def provider_terminal_def split: failure.split)

lemma rank_start_plan: "rank (start_plan a plan) \<le> 12"
  by (simp add: start_plan_def)

lemma rank_after_decision: "rank (after_decision a d) \<le> 12"
  using rank_start_plan by (auto simp: after_decision_def split: option.split)

lemma rank_after_explanation: "rank (after_explanation env tid plan r e) \<le> 2"
  by (auto simp: after_explanation_def split: sum.split)

lemma rank_after_verdict:
  "rank (after_verdict env h k v) \<le> (case v of Decided _ \<Rightarrow> 12 | _ \<Rightarrow> 2)"
  using rank_task_failed rank_after_decision rank_after_explanation
  by (auto simp: after_verdict_def split: verdict.split task.split)

lemma rank_after_admission: "rank (after_admission env a t) \<le> 17"
  using rank_start_plan [THEN order_trans, of 17] by (auto simp: after_admission_def split: option.split)

lemma rank_query_failed [simp]: "rank (query_failed s) = 2"
  by (simp add: query_failed_def)

lemma point_goto [simp]: "hd_point (goto p h) = p"
  by (simp add: goto_def)

lemma rank_take_turn: "rank (hd_point (take_turn env h c hist t)) \<le> 17"
  by (simp add: take_turn_def rank_after_admission)

lemma rank_after_move: "rank (hd_point (after_move n h t)) \<le> (case n of ReturnTurn \<Rightarrow> 0 | ThenExecute _ \<Rightarrow> 10)"
  "rank (hd_point (move_failed n h f)) \<le> (case n of ReturnTurn \<Rightarrow> 0 | ThenExecute _ \<Rightarrow> 2)"
  by (simp_all add: after_move_def move_failed_def split: transit_next.split)

lemma rank_after_record: "rank (hd_point (after_record plan r h t)) \<le> 7"
  by (simp add: after_record_def)

lemma explained_verdict: "attempt_ended ok Explained r = (e, v) \<Longrightarrow> v \<noteq> Decided d"
  by (auto simp: attempt_ended_def split: sum.splits gateway_failure.splits if_splits)

lemma rank_ending:
  "call_provider h k t = (e, v) \<Longrightarrow> rank (Finishing k aid e v) < rank (Calling k aid)"
  by (cases v; cases k) (auto simp: call_provider_def dest: explained_verdict)

lemma advance_rank:
  assumes "advance env k h d = (h', d')" and "0 < rank (hd_point h)"
  shows "rank (hd_point h') < rank (hd_point h)"
proof -
  note step = assms(1) [unfolded advance_def Let_def]
  show ?thesis
  proof (cases "hd_point h")
    case (Recovering again)
    then show ?thesis using step
      by (cases again) (auto simp: after_recovery_def split: sum.splits option.splits dest!: transact_next)
  next
    case (Replaying cause)
    have "rank (hd_point (take_turn env h c hist t)) < 18" for c hist t
      using rank_take_turn [of env h c hist t] by simp
    then show ?thesis using step Replaying
      by (cases cause) (auto simp: step_reads_def step_replaying_def split: sum.splits option.splits replay_cause.splits)
  next
    case Selecting
    then show ?thesis using step
      by (auto simp: step_reads_def after_selection_def split: sum.splits selection.splits)
  next
    case (Admitting c rid)
    have "rank (hd_point (take_turn env h c hist t)) < 19" for c hist t
      using rank_take_turn [of env h c hist t] by simp
    then show ?thesis using step Admitting
      by (auto simp: after_admit_def split: sum.splits bool.splits dest!: transact_next)
  next
    case (Beginning t)
    have "rank (task_failed t f) < rank (Beginning t)" for f
      using rank_task_failed [of t f] by (cases t) simp_all
    moreover have "rank (Calling t a) < rank (Beginning t)" "rank (RereadingAttempt t f) < rank (Beginning t)" for a f by (cases t; simp)+
    ultimately show ?thesis using step Beginning
      by (auto simp: after_begin_def split: if_splits sum.splits dest!: transact_next)
  next
    case (RereadingAttempt t f)
    then show ?thesis using step by (cases t) (auto simp: step_reads_def split: option.splits)
  next
    case (Calling t aid)
    then show ?thesis using step rank_ending by (auto simp: step_reads_def split: prod.splits)
  next
    case (Finishing t aid e v)
    have "rank (hd_point (goto (after_verdict env h t v) h)) < rank (Finishing t aid e v)"
      "rank (hd_point (goto (RereadingEnding t aid e v f) h)) < rank (Finishing t aid e v)" for f
      using rank_after_verdict [of env h t v] by (cases v; simp)+
    then show ?thesis using step Finishing by (auto split: sum.splits dest!: transact_next)
  next
    case (RereadingEnding t aid e v f)
    have "rank (after_verdict env h t v) < rank (RereadingEnding t aid e v f)" "rank (task_failed t f) < rank (RereadingEnding t aid e v f)"
      using rank_after_verdict [of env h t v] rank_task_failed [of t f] by (cases v; simp)+
    then show ?thesis using step RereadingEnding by (auto simp: step_reads_def intro: le_less_trans [OF le0])
  next
    case (Moving s c n)
    have "rank (hd_point (after_move n h t)) < rank (Moving s c n)" "rank (RereadingMove s c n f) < rank (Moving s c n)" for t f
      using rank_after_move(1) [of n h t] by (cases n; simp)+
    then show ?thesis using step Moving by (auto split: sum.splits dest!: transact_next)
  next
    case (RereadingMove s c n f)
    have "rank (hd_point (after_move n h t)) < rank (RereadingMove s c n f)" "rank (hd_point (move_failed n h g)) < rank (RereadingMove s c n f)" for t g
      using rank_after_move(1) [of n h t] rank_after_move(2) [of n h g] by (cases n; simp)+
    then show ?thesis using step RereadingMove by (auto simp: step_reads_def split: option.splits)
  next
    case (Executing plan)
    then show ?thesis using step by (auto simp: step_reads_def split: execution.splits)
  next
    case (Recording plan r)
    have "rank (hd_point (after_record plan r h t)) < 9" for t using rank_after_record [of plan r h t] by simp
    then show ?thesis using step Recording by (auto split: sum.splits dest!: transact_next)
  next
    case (RereadingRecord plan r f)
    have "rank (hd_point (after_record plan r h t)) < 8" for t using rank_after_record [of plan r h t] by simp
    then show ?thesis using step RereadingRecord by (auto simp: step_reads_def split: option.splits)
  next
    case (RecordingFailure plan)
    then show ?thesis using step by (auto dest!: transact_next)
  next
    case (Completing plan r a)
    then show ?thesis using step by (auto split: sum.splits dest!: transact_next)
  next
    case RereadingAnswer
    then show ?thesis using step by (auto simp: step_reads_def split: option.splits)
  next
    case (Done r)
    then show ?thesis using assms(2) by simp
  qed
qed

lemma rank_bound: "rank p \<le> 23"
  by (induction p rule: rank.induct) simp_all

lemma rank_done: "rank p = 0 \<longleftrightarrow> (\<exists>r. p = Done r)"
  by (induction p rule: rank.induct) simp_all

text \<open>The own steps of a handler among the events of a history.\<close>

definition is_step_of :: "nat \<Rightarrow> chat_event \<Rightarrow> bool" where
  "is_step_of i e \<longleftrightarrow> (case e of Advance j _ \<Rightarrow> j = i | _ \<Rightarrow> False)"

lemma handlers_grow: "length (cw_handlers w) \<le> length (cw_handlers (chat_step y e w))"
  by (cases e) (simp_all add: advance_nth_def split: sum.split prod.split)

lemma other_steps:
  "i < length (cw_handlers w) \<Longrightarrow> \<not> is_step_of i e \<Longrightarrow> cw_handlers (chat_step y e w) ! i = cw_handlers w ! i"
  by (cases e) (simp_all add: is_step_of_def advance_nth_def nth_append split: sum.split prod.split)

lemma own_step:
  "i < length (cw_handlers w) \<Longrightarrow> is_step_of i e
    \<Longrightarrow> \<exists>k. cw_handlers (chat_step y e w) ! i = fst (advance (cy_env y) k (cw_handlers w ! i) (cw_db w))"
  by (cases e) (auto simp: is_step_of_def advance_nth_def split: prod.split, metis fst_conv)

lemma done_stays: "hd_point h = Done r \<Longrightarrow> fst (advance env k h d) = h"
  by (simp add: advance_def Let_def step_reads_def)

lemma own_steps:
  assumes "i < length (cw_handlers w)"
  shows "rank (hd_point (cw_handlers (fold (chat_step y) es w) ! i))
    \<le> rank (hd_point (cw_handlers w ! i)) - length (filter (is_step_of i) es)"
  using assms
proof (induction es arbitrary: w)
  case Nil
  then show ?case by simp
next
  case (Cons e es)
  let ?w = "chat_step y e w"
  have len: "i < length (cw_handlers ?w)" using Cons.prems handlers_grow [of w y e] by linarith
  have IH: "rank (hd_point (cw_handlers (fold (chat_step y) es ?w) ! i))
    \<le> rank (hd_point (cw_handlers ?w ! i)) - length (filter (is_step_of i) es)" by (rule Cons.IH [OF len])
  show ?case
  proof (cases "is_step_of i e")
    case True
    then obtain k where k: "cw_handlers ?w ! i = fst (advance (cy_env y) k (cw_handlers w ! i) (cw_db w))" using own_step [OF Cons.prems] by blast
    have "rank (hd_point (cw_handlers ?w ! i)) \<le> rank (hd_point (cw_handlers w ! i)) - 1"
    proof (cases "rank (hd_point (cw_handlers w ! i)) = 0")
      case True
      then show ?thesis using done_stays k by (auto simp: rank_done)
    next
      case False
      then show ?thesis using advance_rank [of "cy_env y" k "cw_handlers w ! i" "cw_db w"] k
        by (cases "advance (cy_env y) k (cw_handlers w ! i) (cw_db w)") fastforce
    qed
    then show ?thesis using IH True by simp
  next
    case False
    then show ?thesis using IH other_steps [OF Cons.prems] by simp
  qed
qed

text \<open>
  C13: A submission ends: whatever the other submissions and operations do in between, whatever the
  database, the provider and the executor answer and whichever transactions are lost, after at most
  23 steps of its own a handler has returned a turn or an error.
\<close>

theorem submission_ends:
  assumes "i < length (cw_handlers w)" and "23 \<le> length (filter (is_step_of i) es)"
  shows "\<exists>r. hd_point (cw_handlers (fold (chat_step y) es w) ! i) = Done r"
proof -
  have "rank (hd_point (cw_handlers (fold (chat_step y) es w) ! i)) = 0"
    using own_steps [OF assms(1), of y es] rank_bound [of "hd_point (cw_handlers w ! i)"] assms(2) by linarith
  then show ?thesis by (simp add: rank_done)
qed


section \<open>The life of a turn\<close>

lemma turn_step_status: "turn_step t u \<Longrightarrow> tn_status u = tn_status t \<or> tn_status u \<in> may_follow (tn_status t)"
  by (auto simp: turn_step_def check_turn_def check_turn_update_def ebind_eq_Inr takes_draft_def split: if_splits)
    (metis chat_turn.select_convs(15) chat_turn.surjective chat_turn.update_convs(21,22))

abbreviation moves_on :: "chat_status \<Rightarrow> chat_status \<Rightarrow> bool" where
  "moves_on \<equiv> (\<lambda>s s'. s' \<in> may_follow s)\<^sup>*\<^sup>*"

lemma follows_status: "follows t u \<Longrightarrow> moves_on (tn_status t) (tn_status u)"
proof (induction rule: rtranclp_induct)
  case (step u v)
  then show ?case using turn_step_status [OF step.hyps(2)] by (auto intro: rtranclp.rtrancl_into_rtrancl)
qed simp

lemma drafted_stays: "turn_step t u \<Longrightarrow> \<not> is_active (tn_status t) \<Longrightarrow> tn_draft t = None"
  using turn_stepD(4) by (auto simp: takes_draft_def)

lemma follows_finished:
  assumes "follows t u" and "\<not> is_active (tn_status t)"
  shows "u = t \<or> takes_draft t u"
  using assms
proof (induction rule: rtranclp_induct)
  case (step u v)
  from step.IH [OF step.prems] show ?case
  proof
    assume "u = t"
    then show ?thesis using step turn_stepD(4) by auto
  next
    assume "takes_draft t u"
    then have draft: "tn_draft u \<noteq> None" by (auto simp: takes_draft_def)
    have "\<not> is_active (tn_status u)" using follows_active [OF step.hyps(1)] step.prems by blast
    then show ?thesis using drafted_stays [OF step.hyps(2)] draft by simp
  qed
qed simp

lemma same_id: "turns_ok ts \<Longrightarrow> t \<in> set ts \<Longrightarrow> u \<in> set ts \<Longrightarrow> tn_id t = tn_id u \<Longrightarrow> t = u"
  by (auto simp: turns_ok_def intro: unique_key)

lemma all_follow_turn:
  assumes "all_follow ts us" and "turns_ok ts" and "t \<in> set ts" "u \<in> set us" "tn_id u = tn_id t"
  shows "follows t u"
proof -
  obtain s where s: "s \<in> set ts" "follows s u"
    using assms(1,4) by (metis in_set_conv_nth list_all2_conv_all_nth)
  then have "tn_id s = tn_id t" using follows_authority same_authority_id assms(5) by metis
  then show ?thesis using same_id [OF assms(2) s(1) assms(3)] s(2) by simp
qed

lemma effect_turn:
  assumes ok: "chat_ok d" and eff: "effect env d d'" and t: "t \<in> set (cd_turns d)" and u: "u \<in> set (cd_turns d')" "tn_id u = tn_id t"
  shows "follows t u"
proof -
  have ts: "turns_ok (cd_turns d)" using ok by (simp add: chat_ok_def)
  consider "cd_turns d' = cd_turns d" | "all_follow (cd_turns d) (cd_turns d')"
    | us x where "all_follow (cd_turns d) us" "cd_turns d' = us @ [x]" "chat_ok d'"
    using eff by (auto simp: effect_def calm_def admits_turn_def begins_attempt_def)
  then show ?thesis
  proof cases
    case 1
    then show ?thesis using same_id [OF ts _ t] u by auto
  next
    case 2
    then show ?thesis using all_follow_turn [OF _ ts t] u by blast
  next
    case 3
    have "tn_id t \<in> set (map tn_id us)" unfolding all_follow_ids [OF 3(1)] using t by simp
    moreover have "tn_id x \<notin> set (map tn_id us)" using 3(2,3) by (auto simp: chat_ok_def turns_ok_def)
    ultimately have "u \<in> set us" using u 3(2) by auto
    then show ?thesis using all_follow_turn [OF 3(1) ts t] u(2) by blast
  qed
qed

lemma chat_step_turn:
  assumes ok: "chat_world_ok y w" and t: "t \<in> set (cd_turns (cw_db w))"
    and u: "u \<in> set (cd_turns (cw_db (chat_step y e w)))" "tn_id u = tn_id t"
  shows "follows t u"
proof -
  have c: "chat_ok (cw_db w)" "turns_ok (cd_turns (cw_db w))" using ok by (simp_all add: chat_world_ok_def db_ok_def chat_ok_def)
  have sub: "follows t u" if "set (cd_turns (cw_db (chat_step y e w))) \<subseteq> set (cd_turns (cw_db w))"
    using same_id [OF c(2) _ t, of u] that u by auto
  show ?thesis
  proof (cases e)
    case (Submit now m)
    then show ?thesis using sub by (simp split: sum.splits)
  next
    case (Advance i k)
    show ?thesis
    proof (cases "i < length (cw_handlers w)")
      case True
      obtain h d where step: "advance (cy_env y) k (cw_handlers w ! i) (cw_db w) = (h, d)" by fastforce
      then have "cw_db (chat_step y e w) = d" using True by (simp add: Advance advance_nth_def)
      then show ?thesis using effect_turn [OF c(1) advance_effect [OF c(1) step] t] u by simp
    qed (use sub in \<open>simp add: Advance advance_nth_def\<close>)
  next
    case (Save p tid now flt)
    then show ?thesis using sub save_answer_same [of "cw_db w"] by (simp add: same_chat_def)
  next
    case (Draft p tid key x now flt flt')
    obtain out d' where run: "create_action_draft (cy_env y) (cy_actions y) p tid key x now flt flt' (cw_db w) = (out, d')" by fastforce
    obtain d where d: "d = cw_db w \<or> rebase (cw_db w) d" "d' = d \<or> (\<exists>a v. store_body tid a now d = Inr (v, d'))"
      using create_action_draft_run [OF run] by blast
    have same: "cd_turns d = cd_turns (cw_db w)" using d(1) rebase_turns by blast
    have dok: "db_ok (cy_env y) d" using d(1) ok keep_turns_db_ok by (auto simp: rebase_def chat_world_ok_def rebased_ok)
    have "effect (cy_env y) d d'"
    proof (cases "d' = d")
      case False
      then obtain a v where "store_body tid a now d = Inr (v, d')" using d(2) by blast
      then show ?thesis using store_body_effect dok by (simp add: db_ok_def)
    qed (simp add: effect_def)
    then show ?thesis using effect_turn [of d "cy_env y" d' t u] dok t u run by (simp add: Draft same db_ok_def)
  next
    case (Forget p now flt)
    obtain q b where "snd (delete_demo_session (cy_env y) p now flt (cw_db w)) \<in> {cw_db w, keep_turns q (cw_db w\<lparr>cd_base := b\<rparr>)}"
      using delete_session_keeps [of "cy_env y" p now flt "cw_db w"] by blast
    then show ?thesis using sub Forget by auto
  next
    case (Elsewhere now e')
    then show ?thesis using sub by (auto simp: on_base_def split: prod.splits)
  qed
qed

text \<open>
  C14: In every history a turn keeps its question, scope, keys and credential for as long as it stands
  and moves only along its state machine; a finished turn does not change any more (an answered one
  may take one draft of an action).
\<close>

theorem turn_lifecycle:
  assumes "limits_ok (ce_limits (cy_env y))" and w: "w = fold (chat_step y) es (idle_world b)"
    and "t \<in> set (cd_turns (cw_db w))" and "u \<in> set (cd_turns (cw_db (chat_step y e w)))" and "tn_id u = tn_id t"
  shows "same_authority t u \<and> moves_on (tn_status t) (tn_status u)
    \<and> (is_active (tn_status t) \<or> u = t \<or> takes_draft t u)"
proof -
  have "chat_world_ok y w" unfolding w by (rule chat_history_ok [OF assms(1)])
  then have "follows t u" using assms(3-5) by (rule chat_step_turn)
  then show ?thesis using follows_authority follows_status follows_finished by blast
qed

section \<open>Budget and load\<close>

text \<open>
  C11: At every moment of every history the attempts of each calendar month are charged at most the
  monthly tokens, each day has at most the daily number of attempts, and no minute has more than the
  global number of attempts; an attempt that was reserved, failed or whose outcome is unknown counts
  with its whole reservation.
\<close>

theorem budget_never_exceeded:
  assumes "limits_ok (ce_limits (cy_env y))"
  shows "month_tokens (month_start m) (cw_db (fold (chat_step y) es (idle_world b))) \<le> bl_monthly (ce_limits (cy_env y))
    \<and> int (day_attempts (day_start m) (cw_db (fold (chat_step y) es (idle_world b)))) \<le> bl_daily (ce_limits (cy_env y))
    \<and> int (window_attempts m (cw_db (fold (chat_step y) es (idle_world b)))) \<le> bl_global_minute (ce_limits (cy_env y))"
  using chat_history_ok [OF assms, of es b] by (simp add: chat_world_ok_def db_ok_def budget_ok_def)

text \<open>
  C17: At every moment at most the configured number of turns is at work, of each session at most one,
  and a key of a session belongs to at most one turn.
\<close>

theorem turns_at_work:
  assumes "limits_ok (ce_limits (cy_env y))" and d: "d = cw_db (fold (chat_step y) es (idle_world b))"
  shows "int (active_turn_count d) \<le> bl_concurrent (ce_limits (cy_env y))
    \<and> (\<forall>t \<in> set (cd_turns d). \<forall>u \<in> set (cd_turns d). tn_actor t = tn_actor u
        \<and> (is_active (tn_status t) \<and> is_active (tn_status u) \<or> tn_key_hash t = tn_key_hash u) \<longrightarrow> t = u)"
proof -
  have ok: "chat_ok d" "active_ok (cy_env y) d"
    using chat_history_ok [OF assms(1), of es b] by (simp_all add: d chat_world_ok_def db_ok_def)
  have "\<forall>t \<in> set (cd_turns d). \<forall>u \<in> set (cd_turns d). turns_clash t u \<longrightarrow> t = u"
    using ok(1) by (auto simp: chat_ok_def turns_ok_def)
  then show ?thesis using ok(2) unfolding active_ok_def turns_clash_def by blast
qed

section \<open>Answers\<close>



section \<open>Replays and recovery\<close>

text \<open>
  A submission whose key was used before, for the same request, returns the turn as it stands, in
  one step; for another request it ends with a conflict. Nothing is written but the recovery of turns
  whose lease is over.
\<close>

theorem replay_returns_turn:
  assumes ok: "chat_ok d" and h: "hd_ask h = a" "hd_point h = Recovering False"
    and k: "tk_fault k = NoFault" "tk_fault k' = NoFault"
    and opn: "session_open (ak_principal a) (hd_now h) d" and t: "find_turn a (recovered (hd_now h) d) = Some t"
    and once: "advance env k h d = (h', d')" and twice: "advance env k' h' d' = (h'', d'')"
  shows "d' = recovered (hd_now h) d \<and> d'' = d'
    \<and> (tn_request_hash t = ak_request_hash a \<longrightarrow> hd_point h' = Done (Replied t True) \<and> h'' = h')
    \<and> (tn_request_hash t \<noteq> ak_request_hash a \<longrightarrow> hd_point h'' = Done (Failing (Err ChatConflict)))"
proof -
  have body: "recover_body a (hd_now h) d = Inr (Some t, recovered (hd_now h) d)"
    using recover_stale_eq [OF ok, of "hd_now h"] opn t by (auto simp: recover_body_def ebind_def ensure_def)
  have first: "h' = after_recovery False h (Inr (Some t))" "d' = recovered (hd_now h) d"
    using once k(1) body h by (simp_all add: advance_def transact_def run_uow_def settled_def)
  show ?thesis
  proof (cases "tn_request_hash t = ak_request_hash a")
    case True
    then have "h' = goto (Done (Replied t True)) h" using first h by (simp add: after_recovery_def same_request_def)
    then show ?thesis using twice first(2) True by (auto simp: advance_def step_reads_def goto_def)
  next
    case False
    then have "h' = goto (Replaying ThenRecover) h" using first h by (simp add: after_recovery_def same_request_def)
    then show ?thesis using twice first(2) False t h k(2)
      by (auto simp: advance_def step_reads_def step_replaying_def goto_def readable_def same_request_def)
  qed
qed

lemma foldr_max_ge: "x \<in> set xs \<Longrightarrow> x \<le> foldr max xs (z :: int)"
  by (induction xs) auto

lemma next_sequence_fresh:
  assumes "t \<in> set (cd_turns d)" and "tn_actor t = actor"
  shows "tn_sequence t < next_sequence actor d"
proof -
  have "tn_sequence t \<in> set (map tn_sequence (filter (\<lambda>t. tn_actor t = actor) (cd_turns d)))" using assms by auto
  then show ?thesis using foldr_max_ge [of "tn_sequence t" _ 0] by (fastforce simp: next_sequence_def)
qed

lemma recovered_turn:
  assumes "u \<in> set (cd_turns (recovered now d))"
  obtains t where "t \<in> set (cd_turns d)" "same_authority t u" "is_active (tn_status u) \<Longrightarrow> u = t \<and> \<not> is_stale now t"
proof -
  let ?d = "close_all (lost_charge now) (filter (abandoned now d) (cd_attempts d)) d"
  obtain t where t: "t \<in> set (cd_turns d)" "u = (if is_stale now t then close_stale now ?d t else t)"
    using assms by (auto simp: recovered_def Let_def update_where_mem)
  show thesis
    by (rule that [OF t(1)]) (use t(2) in \<open>auto simp: close_stale_def same_authority_def is_active_def split: if_splits\<close>)
qed

text \<open>
  C16: A lost handler blocks nobody for good: when the leases of the turns of a session are over and
  less than the limit of other turns is at work, a fresh submission of the session is admitted in one
  step. Whatever the lost handler left open is closed by the same transaction.
\<close>

theorem lease_frees_session:
  assumes ok: "chat_ok d" and h: "hd_ask h = a" "hd_point h = Admitting c rid" and k: "tk_fault k = NoFault" "hd_now h = now"
    and opn: "session_open (ak_principal a) now d"
    and fresh: "\<forall>t \<in> set (cd_turns d). tn_id t \<noteq> ak_turn a \<and> tn_credential_request t \<noteq> rid"
    and key: "\<forall>t \<in> set (cd_turns d). tn_actor t = cp_actor (ak_principal a)
      \<longrightarrow> tn_key_hash t \<noteq> ak_key_hash a \<and> (is_active (tn_status t) \<longrightarrow> is_stale now t)"
    and room: "int (length (filter (\<lambda>t. is_active (tn_status t) \<and> \<not> is_stale now t) (cd_turns d))) < bl_concurrent (ce_limits env)"
    and step: "advance env k h d = (h', d')"
  shows "\<exists>t \<in> set (cd_turns d'). tn_id t = ak_turn a \<and> hd_turn h' = ak_turn a \<and> tn_status t = Planning
    \<and> tn_lease t = Some (now + chat_lease) \<and> (\<forall>u \<in> set (cd_turns d'). \<not> is_stale now u)"
proof -
  let ?d = "recovered now d" and ?t = "new_turn env a c rid now (recovered now d)"
  note rec = recovered_facts [OF ok, of now]
  have "find_turn a ?d = None"
    unfolding find_turn_def find_by_key_def select_one_None_iff
    using key by (auto elim!: recovered_turn simp: same_authority_def)
  have "length (filter (\<lambda>t. is_active (tn_status t)) (cd_turns ?d))
      \<le> length (filter (\<lambda>t. is_active (tn_status t) \<and> \<not> is_stale now t) (cd_turns d))"
    unfolding recovered_def Let_def update_where_def
    by (simp add: filter_map o_def, rule filter_weaker) (auto simp: close_stale_def is_active_def split: if_splits)
  then have room': "int (active_turn_count ?d) < bl_concurrent (ce_limits env)" using room by (simp add: active_turn_count_def)
  have clash: "\<not> turns_clash ?t u" if u: "u \<in> set (cd_turns ?d)" for u
  proof -
    obtain t where t: "t \<in> set (cd_turns d)" "same_authority t u" "is_active (tn_status u) \<Longrightarrow> u = t \<and> \<not> is_stale now t"
      by (rule recovered_turn [OF u]) blast
    have "tn_sequence u \<noteq> next_sequence (cp_actor (ak_principal a)) ?d" if "tn_actor u = cp_actor (ak_principal a)"
      using next_sequence_fresh [OF u that] by simp
    moreover have "tn_id u \<noteq> ak_turn a" "tn_credential_request u \<noteq> rid" using fresh t(1,2) by (auto simp: same_authority_def)
    moreover have "tn_key_hash u \<noteq> ak_key_hash a \<and> \<not> is_active (tn_status u)" if "tn_actor u = cp_actor (ak_principal a)"
      using bspec [OF key t(1)] t(2,3) that by (auto simp: same_authority_def)
    ultimately show ?thesis unfolding turns_clash_def new_turn_def by (simp, metis)
  qed
  have row: "turn_row_ok ?t" by (simp add: turn_row_ok_def new_turn_def is_active_def chat_lease_def minutes_def)
  have "insert_turn ?t ?d = Inr (?d\<lparr>cd_turns := cd_turns ?d @ [?t]\<rparr>)"
    using row clash by (simp add: insert_turn_def list_ex_iff)
  then have "admit_body env a c rid now d = Inr ((?t, False, history_of a ?d), ?d\<lparr>cd_turns := cd_turns ?d @ [?t]\<rparr>)"
    using opn recover_stale_eq [OF ok, of now] \<open>find_turn a ?d = None\<close> room'
    by (auto simp: admit_body_def ebind_def ensure_def same_request_def Let_def)
  then have "h' = after_admit env h c rid (history_seen a now d) (Inr (?t, False, history_of a ?d))"
      "d' = ?d\<lparr>cd_turns := cd_turns ?d @ [?t]\<rparr>"
    using step h k by (simp_all add: advance_def transact_def run_uow_def settled_def)
  moreover have "\<not> is_stale now ?t" by (simp add: is_stale_def new_turn_def chat_lease_def minutes_def)
  ultimately show ?thesis using rec(4)
    by (auto simp: after_admit_def take_turn_def new_turn_def)
qed

section \<open>Drafts\<close>

lemma get_turn_found:
  assumes "chat_ok d" and "get_turn env p tid e = Inr (t, b)" and "u \<in> set (cd_turns d)" "same_authority t u"
  shows "\<exists>b. get_turn env p tid d = Inr (u, b)"
proof -
  have t: "tn_id t = tid" "tn_actor t = cp_actor p" "tn_dataset_version t = cp_dataset_version p" and p: "is_ok (validate_principal env p None None)"
    using assms(2) by (auto simp: get_turn_def get_for_session_def ebind_eq_Inr is_ok_def dest!: select_one_SomeD split: option.splits if_splits)
  have dist: "distinct (map tn_id (cd_turns d))" using assms(1) by (simp add: chat_ok_def turns_ok_def)
  have "select_one (\<lambda>v. tn_id v = tid \<and> tn_actor v = cp_actor p) (cd_turns d) = Some u"
    by (rule select_one_unique [OF dist assms(3)]) (use t assms(4) in \<open>auto simp: same_authority_def\<close>)
  then show ?thesis using p t(3) assms(4)
    by (auto simp: get_turn_def get_for_session_def is_ok_def ebind_def same_authority_def split: sum.splits)
qed

text \<open>The draft a request has left on its turn.\<close>

definition draft_left :: "chat_env \<Rightarrow> chat_principal \<Rightarrow> uuid \<Rightarrow> string \<Rightarrow> chat_turn \<Rightarrow> chat_db \<Rightarrow> bool" where
  "draft_left env p tid key u d \<longleftrightarrow> (\<exists>q a. read_request env p tid key d = Inr q \<and> dq_turn q = u \<and> tn_draft u = Some a
     \<and> ad_key_hash a = dq_key_hash q \<and> ad_request_hash a = dq_request_hash q)"

lemma draft_left_again: "draft_left env p tid key u d \<Longrightarrow> create_action_draft env svc p tid key x now flt flt' d = (Returned u, d)"
  by (auto simp: draft_left_def create_action_draft_def)

lemma draft_left_other:
  assumes "draft_left env p tid key u d" and "chat_key_hash env p key = Inr kh" and "chat_key_hash env p key' = Inr kh'" and "kh' \<noteq> kh"
  shows "create_action_draft env svc p tid key' x now flt flt' d = (Raised ChatConflict, d)"
  using assms by (auto simp: draft_left_def create_action_draft_def read_request_def ebind_eq_Inr ebind_def split: option.splits if_splits sum.splits)

lemma read_request_again:
  assumes q: "read_request env p tid key d = Inr q" and e: "chat_ok e" and u: "u \<in> set (cd_turns e)"
    "same_authority (dq_turn q) u" "eligible u = eligible (dq_turn q)"
  shows "read_request env p tid key e = Inr (q\<lparr>dq_turn := u\<rparr>)"
proof -
  obtain b tool h s where t: "get_turn env p tid d = Inr (dq_turn q, b)" "eligible (dq_turn q) = Some (tool, h, s)" "own_scope p s"
      "chat_key_hash env p key = Inr (dq_key_hash q)" "q = \<lparr>dq_turn = dq_turn q, dq_tool = tool, dq_hash = h, dq_scope = s,
        dq_key_hash = dq_key_hash q, dq_request_hash = ce_json_sha env (draft_payload tid s h)\<rparr>"
    using q by (auto simp: read_request_def ebind_eq_Inr split: option.splits)
  obtain b' where "get_turn env p tid e = Inr (u, b')" using get_turn_found [OF e t(1) u(1,2)] by blast
  then have "read_request env p tid key e = Inr \<lparr>dq_turn = u, dq_tool = tool, dq_hash = h, dq_scope = s,
        dq_key_hash = dq_key_hash q, dq_request_hash = ce_json_sha env (draft_payload tid s h)\<rparr>"
    using t(2-4) u(3) by (simp add: read_request_def ebind_def)
  moreover have "q\<lparr>dq_turn := u\<rparr> = \<lparr>dq_turn = u, dq_tool = tool, dq_hash = h, dq_scope = s,
        dq_key_hash = dq_key_hash q, dq_request_hash = ce_json_sha env (draft_payload tid s h)\<rparr>"
    using arg_cong [OF t(5), of "\<lambda>q. q\<lparr>dq_turn := u\<rparr>"] by simp
  ultimately show ?thesis by simp
qed

lemma effect_chat_ok: "effect env d d' \<Longrightarrow> chat_ok d \<Longrightarrow> chat_ok d'"
  by (auto simp: effect_def)

lemma store_bodyD:
  assumes "store_body tid a now e = Inr (v, d')"
  shows "v \<in> set (cd_turns d')" "tn_draft v = Some a" "tn_id v = tid"
    "u \<in> set (cd_turns d') \<Longrightarrow> \<exists>s \<in> set (cd_turns e). same_authority s u \<and> eligible u = eligible s"
proof -
  let ?q = "\<lambda>t. tn_id t = tid \<and> tn_status t = Answered \<and> tn_draft t = None"
  let ?f = "\<lambda>t :: chat_turn. t\<lparr>tn_draft := Some a, tn_updated_at := now\<rparr>"
  have up: "update_turns ?q ?f e = Inr d'" and sel: "map_option ?f (select_one ?q (cd_turns e)) = Some v"
    using assms by (auto simp: store_body_def record_action_draft_def Let_def ebind_eq_Inr split: option.splits)
  note d' = update_turnsD(1) [OF up]
  obtain t where t: "t \<in> set (cd_turns e)" "?q t" "v = ?f t" using sel by (auto dest!: select_one_SomeD)
  show "v \<in> set (cd_turns d')" using t by (auto simp: d' update_where_mem)
  show "tn_draft v = Some a" "tn_id v = tid" using t by simp_all
  have same: "same_authority s (?f s)" "eligible (?f s) = eligible s" for s
    by (simp_all add: same_authority_def eligible_def split: option.split)
  assume "u \<in> set (cd_turns d')"
  then obtain s where "s \<in> set (cd_turns e)" "u = s \<or> u = ?f s" by (auto simp: d' update_where_mem)
  then show "\<exists>s \<in> set (cd_turns e). same_authority s u \<and> eligible u = eligible s" using same same_authority_refl by metis
qed

lemma store_draft_left:
  assumes q: "read_request env p tid key d = Inr q" and c: "chat_ok d" and e: "chat_ok e" "cd_turns e = cd_turns d"
    and store: "store_draft env p q did proj now flt e = (Returned u, d')"
  shows "draft_left env p tid key u d'"
proof -
  note tq = read_request_turn [OF q]
  define a where "a = \<lparr>ad_id = did, ad_key_hash = dq_key_hash q, ad_request_hash = dq_request_hash q, ad_projection = proj, ad_created_at = now\<rparr>"
  have run: "\<exists>o1. run_uow flt (store_body tid a now) e = (o1, d') \<and> (o1 = Returned u \<or> (\<exists>b. get_turn env p tid d' = Inr (u, b) \<and> same_draft a u))"
    using store tq by (auto simp: store_draft_def a_def [symmetric] split: prod.splits outcome.splits sum.splits if_splits)
  have d': "d' = e \<or> (\<exists>v. store_body tid a now e = Inr (v, d'))" using run run_uow_state [of flt "store_body tid a now" e] by (metis snd_conv)
  have ok': "chat_ok d'" using d' e(1) effect_chat_ok [OF store_body_effect [OF e(1)] e(1)] by blast
  have u: "u \<in> set (cd_turns d')" "tn_id u = tid" "same_draft a u"
    using run store_bodyD get_turn_member by (auto simp: run_uow_returned same_draft_def)
  have "\<exists>s \<in> set (cd_turns d). same_authority s u \<and> eligible u = eligible s"
    using d' u(1) e(2) store_bodyD(4) [of tid a now e _ d' u] same_authority_refl [of u] by metis
  then obtain s where s: "s \<in> set (cd_turns d)" "same_authority s u" "eligible u = eligible s" by blast
  then have "tn_id s = tid" using u(2) by (simp add: same_authority_def)
  then have "s = dq_turn q" using c s(1) tq by (auto simp: chat_ok_def turns_ok_def intro: unique_key)
  then have "read_request env p tid key d' = Inr (q\<lparr>dq_turn := u\<rparr>)"
    using read_request_again [OF q ok' u(1)] s by simp
  then show ?thesis using u(3) by (auto simp: draft_left_def same_draft_def a_def split: option.splits)
qed

lemma create_card_frame:
  assumes "chat_ok d" and "create_card svc q r sp now flt d = (out, e)"
  shows "chat_ok e" "cd_turns e = cd_turns d"
proof -
  have "chat_ok (d\<lparr>cd_base := b\<rparr>)" for b using chat_ok_frame(1) [of "d\<lparr>cd_base := b\<rparr>" d] assms(1) by simp
  then show "chat_ok e" using create_card_rebase [OF assms(2)] assms(1) keep_turns_ok by (auto simp: rebase_def)
  show "cd_turns e = cd_turns d" using create_card_rebase [OF assms(2)] rebase_turns by blast
qed

lemma create_action_draft_left:
  assumes ok: "chat_ok d" and run: "create_action_draft env svc p tid key x now flt flt' d = (Returned u, d')"
  shows "draft_left env p tid key u d'"
proof -
  obtain q where q: "read_request env p tid key d = Inr q" using run by (auto simp: create_action_draft_def split: sum.splits)
  note step = run [unfolded create_action_draft_def q sum.case]
  show ?thesis
  proof (cases "tn_draft (dq_turn q)")
    case (Some a)
    then have "d' = d" "u = dq_turn q" "ad_key_hash a = dq_key_hash q" "ad_request_hash a = dq_request_hash q"
      using step by (auto split: if_splits)
    then show ?thesis using q Some by (auto simp: draft_left_def)
  next
    case None
    then obtain r sp where c: "confirmed_spec q x d = Inr (r, sp)" using step by (auto split: sum.splits)
    show ?thesis
    proof (cases "is_demo (cp_actor p)")
      case True
      then have "\<exists>did proj. store_draft env p q did proj now flt' d = (Returned u, d')" using step None c by (auto simp: Let_def)
      then show ?thesis using store_draft_left [OF q ok ok refl] by blast
    next
      case False
      obtain o1 e where card: "create_card svc q r sp now flt d = (o1, e)" by fastforce
      obtain did proj where "store_draft env p q did proj now flt' e = (Returned u, d')"
        using step None c False card by (auto split: outcome.splits)
      then show ?thesis by (rule store_draft_left [OF q ok create_card_frame [OF ok card]])
    qed
  qed
qed

text \<open>
  C18: An answered turn gives one draft: once a request for it was answered, the same key returns the
  same turn and changes nothing, whatever the executor or the action service do and whenever it is
  repeated; any other key of the session is a conflict.
\<close>

theorem draft_taken_once:
  assumes "chat_ok d" and run: "create_action_draft env svc p tid key x now flt flt' d = (Returned u, d')"
    and other: "chat_key_hash env p key' = Inr kh'" "chat_key_hash env p key \<noteq> Inr kh'"
  shows "create_action_draft env svc' p tid key x' now' f f' d' = (Returned u, d')
    \<and> create_action_draft env svc' p tid key' x' now' f f' d' = (Raised ChatConflict, d') \<and> tn_draft u \<noteq> None"
proof -
  have left: "draft_left env p tid key u d'" using assms(1,2) by (rule create_action_draft_left)
  then obtain kh where "chat_key_hash env p key = Inr kh"
    by (auto simp: draft_left_def read_request_def ebind_eq_Inr split: option.splits)
  then show ?thesis
    using draft_left_again [OF left] draft_left_other [OF left _ other(1)] other(2) left by (auto simp: draft_left_def)
qed

end
