(* ===== verification/AssistantSamples.thy ===== *)
theory AssistantSamples
  imports Assistant
begin

text \<open>
  The theorems on the assistant at concrete histories: one submission from the question to the
  answer, evaluated step by step; a session whose handler was lost; a viewer's answer that proposes
  an action.
\<close>

section \<open>A sample history\<close>

definition chat_sample_env :: chat_env where
  "chat_sample_env = \<lparr>ce_workspace = ''demo'',
     ce_limits = \<lparr>bl_daily = 20, bl_monthly = 200000, bl_concurrent = 2, bl_session_minute = 3, bl_global_minute = 10, bl_rehearsal = False\<rparr>,
     ce_presets = [], ce_sha = id, ce_json_sha = (\<lambda>_. ''request''), ce_uuid5 = id, ce_parse_uuid = (\<lambda>_. None),
     ce_boundary = (\<lambda>_. True), ce_secret = (\<lambda>_. False), ce_unsupported = (\<lambda>_. False)\<rparr>"

definition chat_sample_system :: chat_system where
  "chat_sample_system = \<lparr>cy_env = chat_sample_env, cy_sessions = sample_service, cy_actions = None, cy_answer_hash = (\<lambda>_. ''answer'')\<rparr>"

definition chat_sample_submission :: submission where
  "chat_sample_submission = \<lparr>sm_principal = \<lparr>cp_actor = ByOperator ''s1'', cp_workspace = ''demo'', cp_dataset_version = ''d1'',
       cp_stores = [''SYNTH-A''], cp_period_start = 739000, cp_period_end = 739030, cp_session_created_at = None,
       cp_forecast = None, cp_bridge = None, cp_operator = Some ''o1'', cp_chat_epoch = 0\<rparr>,
     sm_question = Some ''What were net sales?'',
     sm_prompt = \<lparr>pc_recommended = None, pc_locale = None, pc_version = None, pc_sha = None\<rparr>, sm_context_kind = None,
     sm_context_reference = None, sm_key = ''k1'', sm_request_id = Some ''req-1''\<rparr>"

definition chat_sample_tick :: "time \<Rightarrow> tick" where
  "chat_sample_tick now = \<lparr>tk_now = now, tk_fault = NoFault, tk_uuid = show_int (now div minutes 1),
     tk_selection = Selected \<lparr>cb_version = ''v1'', cb_id = ''b1'', cb_revision = 1\<rparr>,
     tk_decision = SdkResponse True (Some \<lparr>pd_status = Planned, pd_plan = Some
       \<lparr>qp_tool = MetricLookup, qp_arguments = MetricLookupArguments ''net_sales'' ''current''\<rparr>\<rparr>) (Some (900, 100)),
     tk_explanation = SdkResponse True (Some \<lparr>me_answer = ''See fact-001'', me_facts = [''fact-001''], me_questions = []\<rparr>) (Some (2000, 300)),
     tk_execution = Executed sample_result\<rparr>"

definition chat_sample :: "nat \<Rightarrow> chat_event list" where
  "chat_sample n = Submit 0 chat_sample_submission # map (\<lambda>i. Advance 0 (chat_sample_tick (minutes 1 * int i))) [0..<n]"

definition chat_sample_world :: "nat \<Rightarrow> chat_world" where
  "chat_sample_world n = fold (chat_step chat_sample_system) (chat_sample n) (idle_world empty_db)"

text \<open>A handler on its own, for the evaluation of samples.\<close>

definition run_alone :: "chat_env \<Rightarrow> tick list \<Rightarrow> handler \<times> chat_db \<Rightarrow> handler \<times> chat_db" where
  "run_alone env ks = fold (\<lambda>k (h, d). advance env k h d) ks"

lemma run_alone_history:
  "fold (chat_step y) (map (\<lambda>i. Advance 0 (f i)) is) \<lparr>cw_db = d, cw_handlers = [h]\<rparr>
    = (case run_alone (cy_env y) (map f is) (h, d) of (h', d') \<Rightarrow> \<lparr>cw_db = d', cw_handlers = [h']\<rparr>)"
  by (induction "is" arbitrary: h d) (auto simp: run_alone_def advance_nth_def split: prod.split)

definition chat_sample_run :: "nat \<Rightarrow> chat_db" where
  "chat_sample_run n = (case start_handler chat_sample_env 0 chat_sample_submission of
     Inl _ \<Rightarrow> empty_chat empty_db
   | Inr h \<Rightarrow> snd (run_alone chat_sample_env (map (\<lambda>i. chat_sample_tick (minutes 1 * int i)) [0..<n]) (h, empty_chat empty_db)))"

lemma chat_sample_db: "cw_db (chat_sample_world n) = chat_sample_run n"
proof -
  have none: "fold (chat_step y) (map (\<lambda>i. Advance 0 (f i)) is) \<lparr>cw_db = d, cw_handlers = []\<rparr> = \<lparr>cw_db = d, cw_handlers = []\<rparr>"
    for y f d and "is" :: "nat list" by (induction "is") (simp_all add: advance_nth_def)
  show ?thesis
    by (simp add: chat_sample_world_def chat_sample_def chat_sample_run_def chat_sample_system_def idle_world_def
        run_alone_history none split: sum.split prod.split)
qed

text \<open>The handler alone: the turn before its last step and after it.\<close>

lemma chat_sample_before: "map tn_status (cd_turns (chat_sample_run 12)) = [Answering]"
  by code_simp

lemma chat_sample_after: "map tn_status (cd_turns (chat_sample_run 13)) = [Answered]"
  by code_simp

lemma effect_ids:
  assumes "effect env d d'" and "length (cd_turns d') = length (cd_turns d)"
  shows "map tn_id (cd_turns d') = map tn_id (cd_turns d)"
  using assms by (auto simp: effect_def calm_def admits_turn_def begins_attempt_def dest: all_follow_ids list_all2_lengthD)

lemma chat_sample_limits: "limits_ok (ce_limits (cy_env chat_sample_system))"
  by (simp add: limits_ok_def chat_sample_system_def chat_sample_env_def)

lemma chat_sample_step:
  "cw_db (chat_step chat_sample_system (Advance 0 (chat_sample_tick (minutes 1 * 12))) (chat_sample_world 12)) = chat_sample_run 13"
  unfolding chat_sample_db [symmetric] by (simp add: chat_sample_world_def chat_sample_def upt_rec)

theorem turn_lifecycle_witness:
  "\<exists>t u. tn_status t = Answering \<and> tn_status u = Answered \<and> same_authority t u \<and> moves_on Answering Answered"
proof -
  let ?w = "chat_sample_world 12" and ?e = "Advance 0 (chat_sample_tick (minutes 1 * 12))"
  obtain t u where tu: "cd_turns (chat_sample_run 12) = [t]" "tn_status t = Answering" "cd_turns (chat_sample_run 13) = [u]"
      "tn_status u = Answered"
    using chat_sample_before chat_sample_after by auto
  have ok: "chat_ok (cw_db ?w)"
    using chat_history_ok [OF chat_sample_limits] by (simp add: chat_sample_world_def chat_world_ok_def db_ok_def)
  have "chat_sample_run 13 = cw_db (advance_nth chat_sample_env 0 (chat_sample_tick (minutes 1 * 12)) ?w)"
    using chat_sample_step by (simp add: chat_sample_system_def)
  then have "effect chat_sample_env (cw_db ?w) (chat_sample_run 13)"
    using advance_effect [OF ok] by (auto simp: advance_nth_def effect_def split: prod.splits if_splits)
  then have "tn_id u = tn_id t"
    using effect_ids [of chat_sample_env "chat_sample_run 12" "chat_sample_run 13"] tu by (simp add: chat_sample_db)
  have "same_authority t u \<and> moves_on (tn_status t) (tn_status u) \<and> (is_active (tn_status t) \<or> u = t \<or> takes_draft t u)"
  proof (rule turn_lifecycle [OF chat_sample_limits])
    show "?w = fold (chat_step chat_sample_system) (chat_sample 12) (idle_world empty_db)" by (rule chat_sample_world_def)
    show "t \<in> set (cd_turns (cw_db ?w))" by (simp add: chat_sample_db tu)
    show "u \<in> set (cd_turns (cw_db (chat_step chat_sample_system ?e ?w)))" unfolding chat_sample_step by (simp add: tu)
  qed fact
  then show ?thesis using tu(2,4) by auto
qed

theorem budget_never_exceeded_witness:
  "month_tokens (month_start 0) (cw_db (chat_sample_world 13)) \<le> 200000
    \<and> day_attempts (day_start 0) (cw_db (chat_sample_world 13)) \<le> 20"
  using budget_never_exceeded [OF chat_sample_limits, of 0 "chat_sample 13" empty_db]
  by (simp add: chat_sample_world_def) (simp add: chat_sample_system_def chat_sample_env_def)

theorem turns_at_work_witness:
  "active_turn_count (cw_db (chat_sample_world 13)) \<le> 2"
  using turns_at_work [OF chat_sample_limits, of "cw_db (chat_sample_world 13)" "chat_sample 13" empty_db]
  by (simp add: chat_sample_world_def) (simp add: chat_sample_system_def chat_sample_env_def)


lemma chat_sample_started: "is_ok (start_handler chat_sample_env 0 chat_sample_submission)"
  by code_simp

theorem submission_ends_witness:
  "\<exists>r. hd_point (cw_handlers (fold (chat_step chat_sample_system) (map (\<lambda>i. Advance 0 (chat_sample_tick (int i))) [0..<23])
    (chat_sample_world 0)) ! 0) = Done r"
proof (rule submission_ends)
  show "0 < length (cw_handlers (chat_sample_world 0))"
    using chat_sample_started
    by (simp add: chat_sample_world_def chat_sample_def idle_world_def chat_sample_system_def is_ok_def split: sum.splits)
  have "filter (is_step_of 0) (map (\<lambda>i. Advance 0 (f i)) is) = map (\<lambda>i. Advance 0 (f i)) is" for f and "is" :: "nat list"
    by (induction "is") (simp_all add: is_step_of_def)
  then show "23 \<le> length (filter (is_step_of 0) (map (\<lambda>i. Advance 0 (chat_sample_tick (int i))) [0..<23]))" by simp
qed

text \<open>A session whose only handler was lost, and its next submission.\<close>

definition lost_ask :: "string \<Rightarrow> ask" where
  "lost_ask k = \<lparr>ak_principal = sm_principal chat_sample_submission, ak_scope = sample_scope, ak_question = ''What were net sales?'',
     ak_prompt = \<lparr>rp_choice = sm_prompt chat_sample_submission, rp_intent = None\<rparr>, ak_key_hash = k, ak_request_hash = k,
     ak_turn = k, ak_request_id = Some k\<rparr>"

definition lost_credential :: credential where
  "lost_credential = \<lparr>cb_version = ''v1'', cb_id = ''b1'', cb_revision = 1\<rparr>"

definition lost_db :: chat_db where
  "lost_db = (empty_chat empty_db)\<lparr>cd_turns := [new_turn chat_sample_env (lost_ask ''k1'') lost_credential ''k1'' 0 (empty_chat empty_db)]\<rparr>"

definition next_handler :: "string \<Rightarrow> time \<Rightarrow> point \<Rightarrow> handler" where
  "next_handler k now p = \<lparr>hd_ask = lost_ask k, hd_now = now, hd_turn = k, hd_version = [], hd_history = [], hd_point = p\<rparr>"

lemma lost_db_ok: "chat_ok lost_db"
proof (rule chat_ok_append_turn(1) [OF empty_chat_ok])
  show "insert_turn (new_turn chat_sample_env (lost_ask ''k1'') lost_credential ''k1'' 0 (empty_chat empty_db)) (empty_chat empty_db) = Inr lost_db"
    by (simp add: insert_turn_def empty_chat_def lost_db_def turn_row_ok_def new_turn_def is_active_def chat_lease_def minutes_def)
qed

theorem lease_frees_session_witness:
  "\<exists>t \<in> set (cd_turns (snd (advance chat_sample_env (chat_sample_tick (minutes 15))
      (next_handler ''k2'' (minutes 15) (Admitting lost_credential ''k2'')) lost_db))). tn_id t = ''k2'' \<and> tn_status t = Planning"
proof -
  obtain h' d' where step: "advance chat_sample_env (chat_sample_tick (minutes 15))
      (next_handler ''k2'' (minutes 15) (Admitting lost_credential ''k2'')) lost_db = (h', d')" by fastforce
  have "\<exists>t \<in> set (cd_turns d'). tn_id t = ak_turn (lost_ask ''k2'') \<and> hd_turn h' = ak_turn (lost_ask ''k2'')
      \<and> tn_status t = Planning \<and> tn_lease t = Some (minutes 15 + chat_lease) \<and> (\<forall>u \<in> set (cd_turns d'). \<not> is_stale (minutes 15) u)"
    by (rule lease_frees_session [where a = "lost_ask ''k2''" and c = lost_credential and rid = "''k2''", OF lost_db_ok _ _ _ _ _ _ _ _ step])
      (simp_all add: next_handler_def chat_sample_tick_def lost_ask_def session_open_def chat_sample_submission_def lost_db_def
        new_turn_def is_active_def is_stale_def chat_lease_def minutes_def chat_sample_env_def)
  then show ?thesis by (simp add: step lost_ask_def) blast
qed

lemma lost_db_fresh: "recovered 0 lost_db = lost_db"
  by (simp add: recovered_def lost_db_def empty_chat_def close_all_def update_where_def is_stale_def new_turn_def
      chat_lease_def minutes_def)

theorem replay_returns_turn_witness:
  "hd_point (fst (advance chat_sample_env (chat_sample_tick 0) (next_handler ''k1'' 0 (Recovering False)) lost_db))
    = Done (Replied (hd (cd_turns lost_db)) True)"
proof -
  let ?k = "chat_sample_tick 0" and ?h = "next_handler ''k1'' 0 (Recovering False)"
  obtain h' d' where once: "advance chat_sample_env ?k ?h lost_db = (h', d')" by fastforce
  obtain h'' d'' where twice: "advance chat_sample_env ?k h' d' = (h'', d'')" by fastforce
  have found: "find_turn (lost_ask ''k1'') (recovered (hd_now ?h) lost_db) = Some (hd (cd_turns lost_db))"
    by (simp add: next_handler_def lost_db_fresh find_turn_def find_by_key_def select_one_def)
      (simp add: lost_db_def new_turn_def lost_ask_def)
  have "hd_point h' = Done (Replied (hd (cd_turns lost_db)) True)"
    using replay_returns_turn [OF lost_db_ok _ _ _ _ _ found once twice]
    by (simp add: next_handler_def chat_sample_tick_def session_open_def lost_ask_def chat_sample_submission_def)
      (simp add: lost_db_def new_turn_def lost_ask_def)
  then show ?thesis by (simp add: once)
qed

text \<open>A viewer's answered turn whose result proposes an action.\<close>

definition proposing_result :: tool_result where
  "proposing_result = sample_result\<lparr>to_draft := Some \<lparr>sp_suggestion = ''Reorder'', sp_target = ''SYNTH-A'', sp_quantity = None,
     sp_budget = None, sp_impact = [], sp_confidence = Low, sp_limitations = [], sp_facts = [''fact-001'']\<rparr>\<rparr>"

definition viewer_principal :: chat_principal where
  "viewer_principal = \<lparr>cp_actor = ByDemo ''v1'', cp_workspace = ''demo'', cp_dataset_version = ''d1'', cp_stores = [''SYNTH-A''],
     cp_period_start = 739000, cp_period_end = 739030, cp_session_created_at = Some 0, cp_forecast = None, cp_bridge = None,
     cp_operator = None, cp_chat_epoch = 0\<rparr>"

definition answered_turn :: chat_turn where
  "answered_turn = \<lparr>tn_id = ''t1'', tn_sequence = 1, tn_workspace = ''demo'', tn_dataset_version = ''d1'', tn_actor = ByDemo ''v1'',
     tn_question = ''Net sales?'', tn_recommended = None, tn_scope = sample_scope, tn_key_hash = ''k'', tn_request_hash = ''r'',
     tn_binding = ''b'', tn_control_revision = 1, tn_credential_request = ''c'', tn_created_at = 0, tn_status = Answered,
     tn_tool = Some MetricLookup, tn_result_hash = Some (to_hash proposing_result),
     tn_answer = Some (answer_of ''t1'' proposing_result sample_explanation), tn_summary = None, tn_error = None, tn_draft = None,
     tn_updated_at = 1, tn_lease = None, tn_completed_at = Some 1\<rparr>"

definition answered_db :: chat_db where
  "answered_db = (empty_chat empty_db)\<lparr>cd_turns := [answered_turn], cd_runs := [\<lparr>tu_turn = ''t1'',
     tu_plan = \<lparr>qp_tool = MetricLookup, qp_arguments = MetricLookupArguments ''net_sales'' ''current''\<rparr>,
     tu_result = Some proposing_result, tu_error = None, tu_created_at = 0\<rparr>]\<rparr>"

lemma answered_db_ok: "chat_ok answered_db"
  by (simp add: chat_ok_def turns_ok_def charges_ok_def answered_db_def empty_chat_def answered_turn_def turn_row_ok_def is_active_def)

lemma viewer_scope: "validate_principal chat_sample_env viewer_principal None None = Inr sample_scope"
  by (simp add: validate_principal_def viewer_principal_def chat_sample_env_def principal_scope_def sample_scope_def Let_def scope_ok_def
      store_name_ok_def strip_def is_space_def)

lemma viewer_key: "chat_key_hash chat_sample_env viewer_principal [c] = Inr (''demo:v1:'' @ [c])" if "c \<in> set ''kx''"
  using that by (auto simp: chat_key_hash_def viewer_principal_def chat_sample_env_def bounded_def)


lemma viewer_request: "read_request chat_sample_env viewer_principal ''t1'' ''k'' answered_db
  = Inr \<lparr>dq_turn = answered_turn, dq_tool = MetricLookup, dq_hash = to_hash proposing_result, dq_scope = sample_scope,
      dq_key_hash = ''demo:v1:k'', dq_request_hash = ''request''\<rparr>"
proof -
  have "get_turn chat_sample_env viewer_principal ''t1'' answered_db = Inr (answered_turn, False)"
    by (simp add: get_turn_def viewer_scope ebind_def get_for_session_def select_one_def) 
      (simp add: answered_db_def answered_turn_def viewer_principal_def is_demo_def)
  then show ?thesis using viewer_key [of "CHR ''k''"]
    by (simp add: read_request_def ebind_def eligible_def answered_turn_def answer_of_def own_scope_def viewer_principal_def sample_scope_def
        proposing_result_def sample_result_def chat_sample_env_def)
qed

definition viewer_draft :: action_draft where
  "viewer_draft = \<lparr>ad_id = ''draft:t1'', ad_key_hash = ''demo:v1:k'', ad_request_hash = ''request'',
     ad_projection = SessionDraft ''draft:t1'' ''t1'' (the (to_draft proposing_result)), ad_created_at = 2\<rparr>"

lemma viewer_stored: "\<exists>u d'. store_body ''t1'' viewer_draft 2 answered_db = Inr (u, d')"
proof -
  have "check_turn answered_turn (answered_turn\<lparr>tn_draft := Some viewer_draft, tn_updated_at := 2\<rparr>) = Inr ()"
    by (simp add: check_turn_def check_turn_update_def same_authority_def takes_draft_def turn_row_ok_def answered_turn_def is_active_def ebind_def)
  then show ?thesis
    by (simp add: store_body_def record_action_draft_def update_turns_def answered_db_def ebind_def select_one_def Let_def)
      (simp add: answered_turn_def)
qed

lemma viewer_drafted: "\<exists>u d'. create_action_draft chat_sample_env None viewer_principal ''t1'' ''k'' (Executed proposing_result) 2 NoFault
     NoFault answered_db = (Returned u, d')"
proof -
  let ?q = "\<lparr>dq_turn = answered_turn, dq_tool = MetricLookup, dq_hash = to_hash proposing_result, dq_scope = sample_scope,
      dq_key_hash = ''demo:v1:k'', dq_request_hash = ''request''\<rparr>"
  have "confirmed_spec ?q (Executed proposing_result) answered_db = Inr (proposing_result, the (to_draft proposing_result))"
    by (simp add: confirmed_spec_def tool_run_of_def select_one_def answered_db_def answered_turn_def) (simp add: proposing_result_def)
  moreover have "ce_uuid5 chat_sample_env (''draft:'' @ ''t1'') = ''draft:t1''" by (simp add: chat_sample_env_def)
  moreover have "is_demo (cp_actor viewer_principal)" by (simp add: is_demo_def viewer_principal_def)
  ultimately show ?thesis using viewer_stored
    by (auto simp: create_action_draft_def viewer_request store_draft_def Let_def run_uow_def viewer_draft_def answered_turn_def)
qed

theorem draft_taken_once_witness:
  "\<exists>u d. create_action_draft chat_sample_env None viewer_principal ''t1'' ''k'' ExecutorCrashed 9 NoFault LostBeforeCommit d = (Returned u, d)
    \<and> create_action_draft chat_sample_env None viewer_principal ''t1'' ''x'' ExecutorCrashed 9 NoFault NoFault d = (Raised ChatConflict, d)"
proof -
  obtain u d where run: "create_action_draft chat_sample_env None viewer_principal ''t1'' ''k'' (Executed proposing_result) 2 NoFault
     NoFault answered_db = (Returned u, d)" using viewer_drafted by blast
  have "chat_key_hash chat_sample_env viewer_principal ''k'' \<noteq> Inr ''demo:v1:x''" using viewer_key [of "CHR ''k''"] by simp
  then show ?thesis
    using draft_taken_once [OF answered_db_ok run, of "''x''" "''demo:v1:x''" None ExecutorCrashed 9 NoFault LostBeforeCommit]
      draft_taken_once [OF answered_db_ok run, of "''x''" "''demo:v1:x''" None ExecutorCrashed 9 NoFault NoFault] viewer_key [of "CHR ''x''"] by auto
qed

end
