(* ===== verification/PyTime.thy ===== *)
theory PyTime
  imports Calendar
begin

text \<open>
  Dates and times as text: \<open>date.isoformat\<close> and \<open>datetime.isoformat\<close> of a UTC time are read back by
  \<open>fromisoformat\<close> as the value they were written from. A time is a number of microseconds since
  1970; the reader of times knows the extended form with seconds, an optional fraction of six
  digits and an offset, which covers every text \<open>isoformat\<close> writes.
\<close>

section \<open>The calendar fields of a date\<close>

lemma div_step: "0 < k \<Longrightarrow> (y :: int) div k = (y - 1) div k + (if k dvd y then 1 else 0)"
proof -
  assume k: "0 < k"
  show ?thesis
  proof (cases "k dvd y")
    case True
    then obtain q where q: "y = k * q" by blast
    have "(k * q - 1) div k = q - 1" using k by (intro int_div_pos_eq [where r = "k - 1"]) (auto simp: algebra_simps)
    then show ?thesis using k q by simp
  next
    case False
    then have "0 < y mod k" using k by (metis dvd_eq_mod_eq_0 less_le pos_mod_sign)
    moreover have "y mod k < k" using k by simp
    ultimately have "(y - 1) div k = y div k"
      by (intro int_div_pos_eq [where r = "y mod k - 1"]) (auto simp: algebra_simps)
    then show ?thesis using False by simp
  qed
qed

lemma leap_count:
  assumes "a = a' + (if p then 1 else 0)" "b = b' + (if q then 1 else 0)" "c = c' + (if r then 1 else 0)"
    and "r \<longrightarrow> q" "q \<longrightarrow> p"
  shows "365 * y + a - b + c = (365 * (y - 1) + a' - b' + c' :: int) + (if p \<and> (\<not> q \<or> r) then 366 else 365)"
  unfolding assms(1-3) using assms(4,5) by (cases p; cases q; cases r) (simp_all add: algebra_simps)

lemma days_before_next: "days_before_year (y + 1) = days_before_year y + (if is_leap y then 366 else 365)"
proof -
  have "days_before_year (y + 1) = 365 * y + y div 4 - y div 100 + y div 400"
    by (simp add: days_before_year_def Let_def)
  also have "\<dots> = (365 * (y - 1) + (y - 1) div 4 - (y - 1) div 100 + (y - 1) div 400) + (if is_leap y then 366 else 365)"
    unfolding is_leap_def by (rule leap_count; (rule div_step)?) (simp_all, presburger+)
  finally show ?thesis by (simp only: days_before_year_def Let_def)
qed

lemma year_length: "(\<Sum>j \<leftarrow> [1..12]. days_in_month y j) = (if is_leap y then 366 else 365)"
proof -
  have "[1..12] = [1, 2, 3, 4, 5, 6, 7, 8, 9, 10, 11, 12 :: int]" by (simp add: upto.simps)
  then show ?thesis by (simp add: days_in_month_def)
qed

lemma ord_year_after: "n \<le> days_before_year (ord_year n + 1)"
proof -
  define a r where "a = (n - 1) div 146097" and "r = (n - 1) mod 146097"
  define b s where "b = r div 36524" and "s = r mod 36524"
  define c t where "c = s div 1461" and "t = s mod 1461"
  define e f where "e = t div 365" and "f = t mod 365"
  have n: "n - 1 = 146097 * a + r" and r: "r = 36524 * b + s" and s: "s = 1461 * c + t" and t: "t = 365 * e + f"
    unfolding a_def r_def b_def s_def c_def t_def e_def f_def by (rule mult_div_mod_eq [symmetric])+
  have rb: "0 \<le> r" "r < 146097" and sb: "0 \<le> s" "s < 36524" and tb: "0 \<le> t" "t < 1461" and fb: "0 \<le> f" "f < 365"
    unfolding r_def s_def t_def f_def by (rule pos_mod_sign pos_mod_bound; simp)+
  have year: "ord_year n = (if e = 4 \<or> b = 4 then 400 * a + 100 * b + 4 * c + e else 400 * a + 100 * b + 4 * c + e + 1)"
    unfolding ord_year_def Let_def e_def t_def c_def s_def b_def r_def a_def by (simp add: algebra_simps)
  have b: "0 \<le> b" "b \<le> 4" using r rb sb by linarith+
  have c: "0 \<le> c" "c \<le> 24" using s sb tb by linarith+
  have e: "0 \<le> e" "e \<le> 4" using t tb fb by linarith+
  consider "b = 4" | "b \<le> 3" "e = 4" | "b \<le> 3" "e \<le> 2" | "b \<le> 3" "e = 3" "c \<le> 23" | "b \<le> 2" "e = 3" "c = 24"
    | "b = 3" "e = 3" "c = 24" using b c e by linarith
  then show ?thesis
  proof cases
    case 1
    then have z: "s = 0" using r rb sb by linarith
    then have zero: "c = 0" "e = 0" using s t c tb fb e by linarith+
    have "ord_year n + 1 = 400 * (a + 1) + 1" using year 1 zero by simp
    then show ?thesis using days_before_parts [of 0 0 0 "a + 1"] n r 1 z by simp
  next
    case 2
    then have "c \<le> 23" using s t sb fb by linarith
    moreover have "ord_year n + 1 = 400 * a + 100 * b + 4 * (c + 1) + 0 + 1" using year 2 by simp
    ultimately show ?thesis using days_before_parts [of b "c + 1" 0 a] b c 2 n r s t tb by simp
  next
    case 3
    then have "ord_year n + 1 = 400 * a + 100 * b + 4 * c + (e + 1) + 1" using year by simp
    then show ?thesis using days_before_parts [of b c "e + 1" a] b c e 3 n r s t fb by simp
  next
    case 4
    then have "ord_year n + 1 = 400 * a + 100 * b + 4 * (c + 1) + 0 + 1" using year by simp
    then show ?thesis using days_before_parts [of b "c + 1" 0 a] b c 4 n r s tb by simp
  next
    case 5
    then have "ord_year n + 1 = 400 * a + 100 * (b + 1) + 4 * 0 + 0 + 1" using year by simp
    then show ?thesis using days_before_parts [of "b + 1" 0 0 a] b 5 n r sb by simp
  next
    case 6
    then have "ord_year n + 1 = 400 * (a + 1) + 1" using year by simp
    then show ?thesis using days_before_parts [of 0 0 0 "a + 1"] n rb by simp
  qed
qed

lemma month_from_sound:
  "1 \<le> r \<Longrightarrow> 1 \<le> k \<Longrightarrow> k \<le> 12 \<Longrightarrow> r \<le> (\<Sum>j \<leftarrow> [k..12]. days_in_month y j)
    \<Longrightarrow> month_from y [k..12] r = (m, d)
    \<Longrightarrow> k \<le> m \<and> m \<le> 12 \<and> 1 \<le> d \<and> d \<le> days_in_month y m \<and> r = (\<Sum>j \<leftarrow> [k..m - 1]. days_in_month y j) + d"
proof (induction "nat (12 - k)" arbitrary: k r)
  case 0
  then have "k = 12" by simp
  moreover have "[12..12] = [12 :: int]" by simp
  ultimately show ?case using 0 by (simp split: if_splits)
next
  case (Suc n)
  then have k: "k < 12" by simp
  have up: "[k..12] = k # [k + 1..12]" using k by (simp add: upto_rec1)
  show ?case
  proof (cases "r \<le> days_in_month y k")
    case True
    then show ?thesis using Suc.prems k by (simp add: up)
  next
    case False
    let ?r = "r - days_in_month y k"
    have "month_from y [k + 1..12] ?r = (m, d)" using Suc.prems(5) False by (simp add: up)
    moreover have "?r \<le> (\<Sum>j \<leftarrow> [k + 1..12]. days_in_month y j)" using Suc.prems(4) by (simp add: up)
    ultimately have IH: "k + 1 \<le> m \<and> m \<le> 12 \<and> 1 \<le> d \<and> d \<le> days_in_month y m
        \<and> ?r = (\<Sum>j \<leftarrow> [k + 1..m - 1]. days_in_month y j) + d"
      using Suc.hyps(1) [of "k + 1" ?r] Suc.hyps(2) Suc.prems(2) False k by simp
    then have "[k..m - 1] = k # [k + 1..m - 1]" by (simp add: upto_rec1)
    then show ?thesis using IH by simp
  qed
qed

lemma ord_year_range:
  assumes "1 \<le> n" "n \<le> max_ordinal"
  shows "1 \<le> ord_year n \<and> ord_year n \<le> 9999"
proof
  show "1 \<le> ord_year n"
  proof (rule ccontr)
    assume "\<not> 1 \<le> ord_year n"
    then have "ord_year n div 4 \<le> 0" "ord_year n div 400 \<le> 0" "ord_year n \<le> ord_year n div 100" "ord_year n \<le> 0" by simp_all
    then have "days_before_year (ord_year n + 1) \<le> 0" by (simp add: days_before_year_def Let_def)
    then show False using ord_year_after [of n] assms by simp
  qed
  show "ord_year n \<le> 9999"
  proof (rule ccontr)
    assume "\<not> ord_year n \<le> 9999"
    then obtain p where p: "p = ord_year n - 1" "9999 \<le> p" by simp
    have "24 \<le> p div 400" "2499 \<le> p div 4" "100 * (p div 100) \<le> p" using p(2) by simp_all
    moreover have "p div 100 \<le> p - 9900" using \<open>100 * (p div 100) \<le> p\<close> p(2) by linarith
    ultimately have "max_ordinal \<le> days_before_year (ord_year n)" using p
      by (simp add: days_before_year_def max_ordinal_def Let_def)
    then show False using ord_year_before [of n] assms by simp
  qed
qed

theorem date_fields:
  assumes "1 \<le> n" "n \<le> max_ordinal"
  shows "valid_ymd (ord_year n) (ord_month n) (ord_day n)
    \<and> to_ordinal (ord_year n) (ord_month n) (ord_day n) = n"
proof -
  let ?y = "ord_year n" and ?r = "n - days_before_year (ord_year n)"
  obtain m d where md: "month_from ?y [1..12] ?r = (m, d)" by (cases "month_from ?y [1..12] ?r")
  have "1 \<le> ?r" "?r \<le> (\<Sum>j \<leftarrow> [1..12]. days_in_month ?y j)"
    using ord_year_before [of n] ord_year_after [of n] by (simp_all add: days_before_next year_length split: if_splits)
  then have "1 \<le> m \<and> m \<le> 12 \<and> 1 \<le> d \<and> d \<le> days_in_month ?y m \<and> ?r = (\<Sum>j \<leftarrow> [1..m - 1]. days_in_month ?y j) + d"
    using month_from_sound [of ?r 1 ?y m d] md by simp
  then show ?thesis using ord_year_range [OF assms] md
    by (simp add: ord_month_def ord_day_def ord_month_day_def Let_def valid_ymd_def to_ordinal_def days_before_month_def)
qed

section \<open>Numbers of a fixed width\<close>

lemma digit_char: "n < 10 \<Longrightarrow> is_digit (char_of (48 + n)) \<and> digit_val (char_of (48 + n)) = int n"
  by (simp add: is_digit_def digit_val_def Let_def of_char_of take_bit_nat_eq_self)

lemma digits_of_sound: "list_all is_digit (digits_of n) \<and> digits_val (digits_of n) = int n"
proof (induction n rule: digits_of.induct)
  case (1 n)
  show ?case
  proof (cases "n < 10")
    case True
    then show ?thesis using digit_char [of n] by (simp add: digits_of.simps [of n] digits_val_def)
  next
    case False
    have "digits_val (digits_of (n div 10) @ [c]) = 10 * digits_val (digits_of (n div 10)) + digit_val c" for c
      by (simp add: digits_val_def)
    moreover have "10 * int (n div 10) + int (n mod 10) = int n"
      using mult_div_mod_eq [of 10 "int n"] by (simp add: zdiv_int zmod_int)
    ultimately show ?thesis using 1 [OF False] False digit_char [of "n mod 10"] by (simp add: digits_of.simps [of n])
  qed
qed

lemma digits_of_length: "0 < k \<Longrightarrow> n < 10 ^ k \<Longrightarrow> length (digits_of n) \<le> k"
proof (induction n arbitrary: k rule: digits_of.induct)
  case (1 n)
  show ?case
  proof (cases "n < 10")
    case True
    then show ?thesis using "1.prems" by (simp add: digits_of.simps [of n])
  next
    case False
    then obtain j where k: "k = Suc j" and j: "0 < j"
      using "1.prems" by (cases k; cases "k - 1") auto
    then have "n div 10 < 10 ^ j" using "1.prems" by (simp add: less_mult_imp_div_less mult.commute)
    then show ?thesis using 1(1) [OF False j] False k by (simp add: digits_of.simps [of n])
  qed
qed

lemma digits_val_zeros: "digits_val (replicate j (CHR ''0'') @ s) = digits_val s"
proof (induction j)
  case (Suc j)
  then show ?case by (simp add: digits_val_def digit_val_def)
qed simp

lemma pad_sound:
  assumes "0 < k" "0 \<le> n" "n < 10 ^ k"
  shows "length (pad k n) = k \<and> list_all is_digit (pad k n) \<and> digits_val (pad k n) = n"
proof -
  have "nat n < 10 ^ k" using assms by (simp add: nat_less_iff)
  then have "length (digits_of (nat n)) \<le> k" using assms digits_of_length by blast
  moreover have "is_digit (CHR ''0'')" by (simp add: is_digit_def)
  ultimately show ?thesis using assms digits_of_sound [of "nat n"]
    by (auto simp: pad_def show_int_def Let_def digits_val_zeros list_all_iff)
qed

section \<open>Round trips\<close>

text \<open>The number written in \<open>k\<close> characters from position \<open>i\<close>, and the character there.\<close>

definition num_at :: "string \<Rightarrow> nat \<Rightarrow> nat \<Rightarrow> int option" where
  "num_at s i k = (let t = take k (drop i s) in if length t = k \<and> list_all is_digit t then Some (digits_val t) else None)"

definition char_at :: "string \<Rightarrow> nat \<Rightarrow> char option" where
  "char_at s i = (if i < length s then Some (s ! i) else None)"

lemma num_at_pad:
  assumes "length u = i" "0 < k" "0 \<le> n" "n < 10 ^ k"
  shows "num_at (u @ pad k n @ v) i k = Some n"
  using pad_sound [OF assms(2-4)] assms(1) by (simp add: num_at_def Let_def)

lemma date_range: "valid_ymd y m d \<Longrightarrow> 0 \<le> y \<and> y < 10 ^ 4 \<and> 0 \<le> m \<and> m < 10 ^ 2 \<and> 0 \<le> d \<and> d < 10 ^ 2"
  by (auto simp: valid_ymd_def days_in_month_def split: if_splits)

lemma isoformat_length: "1 \<le> n \<Longrightarrow> n \<le> max_ordinal \<Longrightarrow> length (isoformat n) = 10"
  using date_range [OF conjunct1 [OF date_fields], of n] pad_sound [of 4 "ord_year n"] pad_sound [of 2 "ord_month n"] pad_sound [of 2 "ord_day n"]
  by (simp add: isoformat_def)

theorem parse_isoformat:
  assumes "1 \<le> n" "n \<le> max_ordinal"
  shows "parse_iso (isoformat n) = Some n"
proof -
  let ?y = "pad 4 (ord_year n)" and ?m = "pad 2 (ord_month n)" and ?d = "pad 2 (ord_day n)"
  note valid = date_fields [OF assms]
  note range = date_range [OF conjunct1 [OF valid]]
  have y: "length ?y = 4 \<and> list_all is_digit ?y \<and> digits_val ?y = ord_year n" by (rule pad_sound) (use range in auto)
  have m: "length ?m = 2 \<and> list_all is_digit ?m \<and> digits_val ?m = ord_month n" by (rule pad_sound) (use range in auto)
  have d: "length ?d = 2 \<and> list_all is_digit ?d \<and> digits_val ?d = ord_day n" by (rule pad_sound) (use range in auto)
  obtain a b where ab: "?m = [a, b]" using m by (cases ?m rule: list.exhaust) (auto simp: length_Suc_conv numeral_2_eq_2)
  have "is_digit a" using m ab by simp
  then have W: "a \<noteq> CHR ''W''" by (auto simp: is_digit_def)
  have shape: "isoformat n = ?y @ CHR ''-'' # a # b # CHR ''-'' # ?d" by (simp add: isoformat_def ab)
  show ?thesis using y m d W valid unfolding shape ab
    by (simp add: parse_iso_def Let_def nth_append from_ymd_def)
qed

section \<open>Times\<close>

definition second :: time where
  "second = 1000000"

definition is_datetime :: "time \<Rightarrow> bool" where
  "is_datetime t \<longleftrightarrow> 1 \<le> date_of t \<and> date_of t \<le> max_ordinal"

text \<open>\<open>datetime.isoformat\<close> of a UTC time: the fraction is left out when it is zero.\<close>

definition time_isoformat :: "time \<Rightarrow> string" where
  "time_isoformat t =
     (let r = t mod day_length; us = r mod second; s = r div second
      in isoformat (date_of t) @ ''T'' @ pad 2 (s div 3600) @ '':'' @ pad 2 (s div 60 mod 60) @ '':'' @ pad 2 (s mod 60)
         @ (if us = 0 then [] else ''.'' @ pad 6 us) @ ''+00:00'')"

text \<open>The offset at the end of a text, in seconds.\<close>

definition parse_offset :: "string \<Rightarrow> int option" where
  "parse_offset z =
     (if z = ''Z'' then Some 0
      else case (char_at z 0, num_at z 1 2, char_at z 3, num_at z 4 2) of
        (Some g, Some h, Some c, Some m) \<Rightarrow>
          if length z = 6 \<and> c = CHR '':'' \<and> h < 24 \<and> m < 60 \<and> (g = CHR ''+'' \<or> g = CHR ''-'')
          then Some ((if g = CHR ''-'' then -1 else 1) * (h * 3600 + m * 60)) else None
      | _ \<Rightarrow> None)"

definition split_fraction :: "string \<Rightarrow> int \<times> string" where
  "split_fraction z = (case (char_at z 0, num_at z 1 6) of
     (Some c, Some us) \<Rightarrow> if c = CHR ''.'' then (us, drop 7 z) else (0, z)
   | _ \<Rightarrow> (0, z))"

definition time_fromisoformat :: "string \<Rightarrow> time option" where
  "time_fromisoformat x =
     (case (parse_iso (take 10 x), num_at x 11 2, num_at x 14 2, num_at x 17 2) of
        (Some d, Some h, Some m, Some s) \<Rightarrow>
          if char_at x 13 = Some (CHR '':'') \<and> char_at x 16 = Some (CHR '':'') \<and> h < 24 \<and> m < 60 \<and> s < 60
          then (case split_fraction (drop 19 x) of (us, z) \<Rightarrow>
                 map_option (\<lambda>o'. (d - unix_ordinal) * day_length + (h * 3600 + m * 60 + s - o') * second + us) (parse_offset z))
          else None
      | _ \<Rightarrow> None)"

lemma num_at_drop: "num_at (u @ s) (length u + i) k = num_at s i k"
  by (simp add: num_at_def)

lemma char_at_append: "char_at (u @ s) (length u + i) = char_at s i"
  by (simp add: char_at_def)

lemma utc_offset: "parse_offset ''+00:00'' = Some 0"
  by (simp add: parse_offset_def char_at_def num_at_def Let_def is_digit_def digits_val_def digit_val_def)

lemma utc_no_fraction: "split_fraction ''+00:00'' = (0, ''+00:00'')"
  by (simp add: split_fraction_def char_at_def split: option.splits)

lemma utc_fraction: "0 \<le> us \<Longrightarrow> us < second \<Longrightarrow> split_fraction (CHR ''.'' # pad 6 us @ ''+00:00'') = (us, ''+00:00'')"
  using num_at_pad [of "''.''" 1 6 us "''+00:00''"] pad_sound [of 6 us]
  by (simp add: split_fraction_def char_at_def second_def)

lemma sexagesimal: "x = x' \<Longrightarrow> 60 * x' + b = c \<Longrightarrow> 60 * c + d = (e :: int) \<Longrightarrow> x * 3600 + b * 60 + d = e"
  by simp

lemma clock_parts:
  fixes t :: time
  defines "r \<equiv> t mod day_length"
  shows "0 \<le> r div second div 3600 \<and> r div second div 3600 < 24 \<and> (t div day_length) * day_length
    + ((r div second div 3600) * 3600 + (r div second div 60 mod 60) * 60 + r div second mod 60) * second + r mod second = t"
proof -
  define s where "s = r div second"
  have r: "0 \<le> r" "r < 86400000000" by (simp_all add: r_def day_length_def minutes_def)
  have s: "0 \<le> s" "s < 86400" using r by (simp_all add: s_def second_def)
  have whole: "(s div 3600) * 3600 + (s div 60 mod 60) * 60 + s mod 60 = s"
    by (rule sexagesimal [OF _ mult_div_mod_eq mult_div_mod_eq]) (use zdiv_zmult2_eq [of 60 s 60] in simp)
  have "0 \<le> s div 3600 \<and> s div 3600 < 24" using s zdiv_mono1 [of s 86399 3600] zdiv_mono1 [of 0 s 3600] by simp
  moreover have "(t div day_length) * day_length + r = t" by (simp add: r_def)
  moreover have "s * second + r mod second = r" by (simp add: s_def)
  ultimately show ?thesis unfolding s_def [symmetric] whole by (simp add: add.assoc)
qed

theorem parse_time_isoformat:
  assumes "is_datetime t"
  shows "time_fromisoformat (time_isoformat t) = Some t"
proof -
  define r where "r = t mod day_length"
  define h m s us where "h = r div second div 3600" and "m = r div second div 60 mod 60" and "s = r div second mod 60"
    and "us = r mod second"
  define z where "z = (if us = 0 then [] else ''.'' @ pad 6 us) @ ''+00:00''"
  let ?d = "isoformat (date_of t)"
  have n: "1 \<le> date_of t" "date_of t \<le> max_ordinal" using assms by (simp_all add: is_datetime_def)
  have "0 \<le> h" "h < 24" and sum: "(t div day_length) * day_length + (h * 3600 + m * 60 + s) * second + us = t"
    using clock_parts [of t] unfolding h_def m_def s_def us_def r_def by blast+
  moreover have "0 \<le> m" "m < 60" "0 \<le> s" "s < 60" "0 \<le> us" "us < second"
    by (simp_all add: m_def s_def us_def second_def)
  ultimately have range: "0 \<le> h" "h < 24" "0 \<le> m" "m < 60" "0 \<le> s" "s < 60" "0 \<le> us" "us < second" by blast+
  have wide: "length ?d = 10" "length (pad 2 h) = 2" "length (pad 2 m) = 2" "length (pad 2 s) = 2"
    using isoformat_length [OF n] pad_sound [of 2 h] pad_sound [of 2 m] pad_sound [of 2 s] range by simp_all
  have shape: "time_isoformat t = ?d @ ''T'' @ pad 2 h @ '':'' @ pad 2 m @ '':'' @ pad 2 s @ z"
    unfolding time_isoformat_def Let_def h_def m_def s_def us_def r_def z_def by simp
  have nums: "num_at (time_isoformat t) 11 2 = Some h" "num_at (time_isoformat t) 14 2 = Some m"
    "num_at (time_isoformat t) 17 2 = Some s"
    using num_at_pad [of "?d @ ''T''" 11 2 h] num_at_pad [of "?d @ ''T'' @ pad 2 h @ '':''" 14 2 m]
      num_at_pad [of "?d @ ''T'' @ pad 2 h @ '':'' @ pad 2 m @ '':''" 17 2 s] wide range by (simp_all add: shape)
  have chars: "char_at (time_isoformat t) 13 = Some (CHR '':'')" "char_at (time_isoformat t) 16 = Some (CHR '':'')"
    using wide by (simp_all add: shape char_at_def nth_append)
  have front: "take 10 (time_isoformat t) = ?d" "drop 19 (time_isoformat t) = z" using wide by (simp_all add: shape)
  have tail: "split_fraction z = (us, ''+00:00'')"
    using range utc_no_fraction utc_fraction [of us] by (simp add: z_def)
  have "time_fromisoformat (time_isoformat t)
      = Some ((date_of t - unix_ordinal) * day_length + (h * 3600 + m * 60 + s) * second + us)"
    using range by (simp add: time_fromisoformat_def front nums chars tail utc_offset parse_isoformat [OF n])
  then show ?thesis using sum by (simp add: date_of_def)
qed

end
