(* ===== verification/AIControl.thy ===== *)
theory AIControl
  imports Operators PyJson PyRegex PyTime
begin

text \<open>
  The administrator's control over the assistant: the state of the two channels and of the bound
  key with its audit log (\<open>src/repositories/admin_ai.py\<close>), receipts of idempotent requests
  (\<open>src/repositories/idempotency.py\<close>), the projection that is stored in a receipt and read back
  (\<open>src/services/admin_mutation_idempotency.py\<close>) and the service of the channels
  (\<open>src/services/ai_control_service.py\<close>). The answers of the key vault and of the model provider
  are inputs of an operation; SHA-256 and the keyed hash are fields of the service. The clock
  stands still within one transaction. Rows of the audit log are never changed (a trigger refuses
  it), and no modelled statement tries to.
\<close>

section \<open>Tables\<close>

record control_row =
  ct_workspace :: string
  ct_operator_on :: bool
  ct_demo_on :: bool
  ct_key_name :: "string option"
  ct_key_version :: "string option"
  ct_key_reference :: "string option"
  ct_fingerprint :: "string option"
  ct_verified_at :: "time option"
  ct_validation :: string
  ct_revision :: int
  ct_updated_by :: "uuid option"
  ct_updated_at :: time

record audit_event =
  ax_id :: uuid
  ax_workspace :: string
  ax_operator :: uuid
  ax_action :: string
  ax_result :: string
  ax_error :: "string option"
  ax_prior :: int
  ax_resulting :: int
  ax_operator_on :: "bool option"
  ax_demo_on :: "bool option"
  ax_request :: string
  ax_at :: time

type_synonym projection = "(string \<times> json) list"

record receipt =
  ir_id :: uuid
  ir_scope_type :: string
  ir_scope_id :: string
  ir_operation :: string
  ir_key_hash :: digest
  ir_request_hash :: digest
  ir_status :: "int option"
  ir_body_hash :: "digest option"
  ir_projection :: "projection option"
  ir_outcome :: string
  ir_created_at :: time
  ir_expires_at :: time

record control_db =
  kd_controls :: "control_row list"
  kd_audit :: "audit_event list"
  kd_receipts :: "receipt list"

datatype control_error =
    AIChannelDisabled
  | AIControlUnavailable
  | AIReauthenticationFailed
  | AIStateConflict
  | AIControlAvailabilityFailed string
  | AIControlBusy
  | AIControlKeyBindingError
  | AIKeyRotationFailed string
  | AdminRateLimited
  | AuditRequestsInvalid
  | ControlIntegrity
  | ControlRowMissing
  | ControlConnectionLost

text \<open>The fingerprint of a key: \<open>[0-9a-f]{64}\<close>.\<close>

definition is_hex_digit :: "char \<Rightarrow> bool" where
  "is_hex_digit c \<longleftrightarrow> is_digit c \<or> c \<in> set ''abcdef''"

definition is_fingerprint :: "string \<Rightarrow> bool" where
  "is_fingerprint s \<longleftrightarrow> length s = 64 \<and> list_all is_hex_digit s"

text \<open>
  The two check constraints on a control row, in SQL's logic with three values: a comparison with
  \<open>NULL\<close> is neither true nor false, and a row is refused only when a constraint is false.
\<close>

definition sql_all :: "bool option list \<Rightarrow> bool option" where
  "sql_all bs = (if Some False \<in> set bs then Some False else if None \<in> set bs then None else Some True)"

definition sql_any :: "bool option list \<Rightarrow> bool option" where
  "sql_any bs = (if Some True \<in> set bs then Some True else if None \<in> set bs then None else Some False)"

definition sql_reference :: "control_row \<Rightarrow> bool option" where
  "sql_reference r = (case (ct_key_reference r, ct_key_name r, ct_key_version r) of
     (Some x, Some n, Some v) \<Rightarrow> Some (x = n @ ''/'' @ v) | _ \<Rightarrow> None)"

definition sql_key_binding :: "control_row \<Rightarrow> bool option" where
  "sql_key_binding r = sql_any
     [sql_all [Some (ct_key_name r = None), Some (ct_key_version r = None), Some (ct_key_reference r = None),
        Some (ct_fingerprint r = None), Some (ct_verified_at r = None), Some (ct_validation r = ''unconfigured'')],
      sql_all [Some (ct_key_name r \<noteq> None), map_option (\<lambda>n. 1 \<le> length n \<and> length n \<le> 127) (ct_key_name r),
        Some (ct_key_version r \<noteq> None), map_option (\<lambda>v. 1 \<le> length v \<and> length v \<le> 255) (ct_key_version r),
        sql_reference r, map_option is_fingerprint (ct_fingerprint r), Some (ct_verified_at r \<noteq> None),
        Some (ct_validation r = ''verified'')]]"

definition sql_enabled :: "control_row \<Rightarrow> bool option" where
  "sql_enabled r = sql_any
     [sql_all [Some (\<not> ct_operator_on r), Some (\<not> ct_demo_on r)],
      sql_all [Some (ct_key_name r \<noteq> None), Some (ct_key_version r \<noteq> None), sql_reference r,
        map_option is_fingerprint (ct_fingerprint r), Some (ct_verified_at r \<noteq> None),
        Some (ct_validation r = ''verified'')]]"

definition checks_pass :: "control_row \<Rightarrow> bool" where
  "checks_pass r \<longleftrightarrow> sql_key_binding r \<noteq> Some False \<and> sql_enabled r \<noteq> Some False \<and> 0 \<le> ct_revision r"

section \<open>Statements on the control state\<close>

definition fresh_control :: "string \<Rightarrow> time \<Rightarrow> control_row" where
  "fresh_control ws now = \<lparr>ct_workspace = ws, ct_operator_on = False, ct_demo_on = False, ct_key_name = None,
     ct_key_version = None, ct_key_reference = None, ct_fingerprint = None, ct_verified_at = None,
     ct_validation = ''unconfigured'', ct_revision = 0, ct_updated_by = None, ct_updated_at = now\<rparr>"

definition control_of :: "string \<Rightarrow> control_db \<Rightarrow> control_row option" where
  "control_of ws d = select_one (\<lambda>r. ct_workspace r = ws) (kd_controls d)"

definition get_or_create :: "string \<Rightarrow> time \<Rightarrow> control_db \<Rightarrow> control_row \<times> control_db" where
  "get_or_create ws now d =
     (case control_of ws d of
        Some r \<Rightarrow> (r, d)
      | None \<Rightarrow> (fresh_control ws now, d\<lparr>kd_controls := kd_controls d @ [fresh_control ws now]\<rparr>))"

text \<open>\<open>FOR UPDATE NOWAIT\<close>: another transaction may hold the lock of the row.\<close>

definition lock_control :: "string \<Rightarrow> bool \<Rightarrow> control_db \<Rightarrow> control_error + control_row" where
  "lock_control ws busy d =
     (case control_of ws d of
        None \<Rightarrow> Inl ControlRowMissing
      | Some r \<Rightarrow> if busy then Inl AIControlBusy else Inr r)"

text \<open>\<open>UPDATE ... WHERE workspace_id = ... AND revision = ... RETURNING\<close>\<close>

definition change_control :: "string \<Rightarrow> int \<Rightarrow> (control_row \<Rightarrow> control_row) \<Rightarrow> control_db
    \<Rightarrow> control_error + (control_row option \<times> control_db)" where
  "change_control ws k f d =
     (case select_one (\<lambda>r. ct_workspace r = ws \<and> ct_revision r = k) (kd_controls d) of
        None \<Rightarrow> Inr (None, d)
      | Some r \<Rightarrow> if checks_pass (f r)
          then Inr (Some (f r), d\<lparr>kd_controls := update_where (\<lambda>r. ct_workspace r = ws \<and> ct_revision r = k) f (kd_controls d)\<rparr>)
          else Inl ControlIntegrity)"

definition activate_key :: "string \<Rightarrow> int \<Rightarrow> string \<Rightarrow> string \<Rightarrow> string \<Rightarrow> uuid \<Rightarrow> time \<Rightarrow> control_db
    \<Rightarrow> control_error + (control_row option \<times> control_db)" where
  "activate_key ws k name version fingerprint operator now =
     change_control ws k (\<lambda>r. r\<lparr>ct_key_name := Some name, ct_key_version := Some version,
       ct_key_reference := Some (name @ ''/'' @ version), ct_fingerprint := Some fingerprint,
       ct_verified_at := Some now, ct_validation := ''verified'', ct_revision := ct_revision r + 1,
       ct_updated_by := Some operator, ct_updated_at := now\<rparr>)"

definition has_verified_key_binding :: "control_row \<Rightarrow> bool" where
  "has_verified_key_binding r \<longleftrightarrow>
     (case (ct_key_name r, ct_key_version r, ct_key_reference r, ct_fingerprint r) of
        (Some n, Some v, Some x, Some fp) \<Rightarrow> x = n @ ''/'' @ v \<and> is_fingerprint fp
          \<and> ct_verified_at r \<noteq> None \<and> ct_validation r = ''verified''
      | _ \<Rightarrow> False)"

definition update_channels :: "string \<Rightarrow> int \<Rightarrow> bool \<Rightarrow> bool \<Rightarrow> uuid \<Rightarrow> time \<Rightarrow> control_db
    \<Rightarrow> control_error + (control_row option \<times> control_db)" where
  "update_channels ws k op demo operator now d =
     ebind (if op \<or> demo
            then (case select_one (\<lambda>r. ct_workspace r = ws \<and> ct_revision r = k) (kd_controls d) of
                    None \<Rightarrow> Inr ()
                  | Some r \<Rightarrow> ensure (has_verified_key_binding r) AIControlKeyBindingError)
            else Inr ()) (\<lambda>_.
       change_control ws k (\<lambda>r. r\<lparr>ct_operator_on := op, ct_demo_on := demo, ct_revision := ct_revision r + 1,
         ct_updated_by := Some operator, ct_updated_at := now\<rparr>) d)"

definition append_audit :: "audit_event \<Rightarrow> control_db \<Rightarrow> control_error + control_db" where
  "append_audit e d =
     (if list_ex (\<lambda>x. ax_id x = ax_id e) (kd_audit d) then Inl ControlIntegrity
      else Inr (d\<lparr>kd_audit := kd_audit d @ [e]\<rparr>))"

text \<open>The events of the named requests, one each; when a request repeats, its last event counts.\<close>

definition audit_request_pattern :: regex where
  "audit_request_pattern = Cat (One is_alnum) (between 2 127 (One (\<lambda>c. is_alnum c \<or> c \<in> set ''._:-'')))"

definition mutation_audit :: "string \<Rightarrow> string list \<Rightarrow> control_db \<Rightarrow> control_error + audit_event list" where
  "mutation_audit ws reqs d =
     ebind (ensure (1 \<le> length reqs \<and> length reqs \<le> 16 \<and> distinct reqs
              \<and> list_all (fullmatch audit_request_pattern) reqs) AuditRequestsInvalid) (\<lambda>_.
       let rows = filter (\<lambda>e. ax_workspace e = ws \<and> ax_request e \<in> set reqs) (kd_audit d);
           by_request = (\<lambda>q. select_one (\<lambda>e. ax_request e = q) (rev rows))
       in Inr (if list_all (\<lambda>q. by_request q \<noteq> None) reqs then map (\<lambda>q. the (by_request q)) reqs else []))"

section \<open>Receipts\<close>

datatype disposition = ReceiptMissing | ReceiptReplay | ReceiptConflict | ReceiptInProgress

definition find_receipt :: "string \<Rightarrow> string \<Rightarrow> string \<Rightarrow> digest \<Rightarrow> control_db \<Rightarrow> receipt option" where
  "find_receipt st sid oper kh d = select_one (\<lambda>r. ir_scope_type r = st \<and> ir_scope_id r = sid
     \<and> ir_operation r = oper \<and> ir_key_hash r = kh) (kd_receipts d)"

definition check_receipt :: "string \<Rightarrow> string \<Rightarrow> string \<Rightarrow> digest \<Rightarrow> digest \<Rightarrow> control_db \<Rightarrow> disposition" where
  "check_receipt st sid oper kh rh d =
     (case find_receipt st sid oper kh d of
        None \<Rightarrow> ReceiptMissing
      | Some r \<Rightarrow> if ir_request_hash r \<noteq> rh then ReceiptConflict
                 else if ir_outcome r = ''succeeded'' then ReceiptReplay else ReceiptInProgress)"

definition replay_projection :: "string \<Rightarrow> string \<Rightarrow> string \<Rightarrow> digest \<Rightarrow> digest \<Rightarrow> control_db \<Rightarrow> projection option" where
  "replay_projection st sid oper kh rh d =
     (case find_receipt st sid oper kh d of
        None \<Rightarrow> None
      | Some r \<Rightarrow> if ir_outcome r \<noteq> ''succeeded'' \<or> ir_request_hash r \<noteq> rh then None else ir_projection r)"

definition record_succeeded :: "receipt \<Rightarrow> control_db \<Rightarrow> control_error + control_db" where
  "record_succeeded r d =
     (if list_ex (\<lambda>x. ir_id x = ir_id r) (kd_receipts d)
         \<or> find_receipt (ir_scope_type r) (ir_scope_id r) (ir_operation r) (ir_key_hash r) d \<noteq> None
      then Inl ControlIntegrity
      else Inr (d\<lparr>kd_receipts := kd_receipts d @ [r]\<rparr>))"

section \<open>What a receipt stores\<close>

text \<open>Hashes: the keyed hash of a caller's key under the pepper, SHA-256 of compact JSON with sorted keys.\<close>

definition idempotency_key_hash :: "(string \<Rightarrow> digest) \<Rightarrow> string \<Rightarrow> digest option" where
  "idempotency_key_hash hmac key =
     (let k = strip key
      in if \<not> (1 \<le> length k \<and> length k \<le> 128)
            \<or> list_ex (\<lambda>c. of_char c < (0x21 :: nat) \<or> of_char c > (0x7E :: nat)) k then None
         else Some (hmac (''admin-ai-idempotency'' @ CHR 0x00 # k)))"

definition request_hash :: "(string \<Rightarrow> digest) \<Rightarrow> projection \<Rightarrow> digest" where
  "request_hash sha payload = sha (json_dump (JObj (sort_key fst payload)))"

definition is_configured :: "control_row \<Rightarrow> bool" where
  "is_configured r \<longleftrightarrow>
     (case (ct_key_name r, ct_key_version r, ct_fingerprint r) of
        (Some n, Some v, Some fp) \<Rightarrow> n \<noteq> [] \<and> v \<noteq> [] \<and> ct_key_reference r = Some (n @ ''/'' @ v)
          \<and> length fp = 64 \<and> ct_verified_at r \<noteq> None \<and> ct_validation r = ''verified''
      | _ \<Rightarrow> False)"

definition json_opt_string :: "string option \<Rightarrow> json" where
  "json_opt_string x = (case x of None \<Rightarrow> JNull | Some t \<Rightarrow> JStr t)"

definition control_projection :: "control_row \<Rightarrow> string \<Rightarrow> string option \<Rightarrow> projection" where
  "control_projection r result code =
     [(''result'', JStr result), (''error_code'', json_opt_string code), (''revision'', JInt (ct_revision r)),
      (''operator_enabled'', JBool (ct_operator_on r)), (''demo_enabled'', JBool (ct_demo_on r)),
      (''credential_configured'', JBool (is_configured r)),
      (''key_fingerprint'', if is_configured r then json_opt_string (ct_fingerprint r) else JNull),
      (''verified_at'', if is_configured r then json_opt_string (map_option time_isoformat (ct_verified_at r)) else JNull)]"

definition replay_control_projection :: "control_row \<Rightarrow> projection \<Rightarrow> control_row option" where
  "replay_control_projection current p =
     (case (jget p ''revision'', jget p ''operator_enabled'', jget p ''demo_enabled'', jget p ''credential_configured'') of
        (JInt k, JBool op, JBool demo, JBool configured) \<Rightarrow>
          if \<not> configured
          then Some (current\<lparr>ct_revision := k, ct_operator_on := op, ct_demo_on := demo, ct_key_name := None,
                 ct_key_version := None, ct_key_reference := None, ct_fingerprint := None, ct_verified_at := None,
                 ct_validation := ''unconfigured''\<rparr>)
          else (case (jget p ''key_fingerprint'', jget p ''verified_at'', ct_key_name current, ct_key_version current) of
             (JStr fp, JStr tx, Some n, Some v) \<Rightarrow>
               if length fp \<noteq> 64 \<or> n = [] \<or> v = [] \<or> ct_key_reference current \<noteq> Some (n @ ''/'' @ v) then None
               else (case time_fromisoformat tx of
                  None \<Rightarrow> None
                | Some t \<Rightarrow> Some (current\<lparr>ct_revision := k, ct_operator_on := op, ct_demo_on := demo,
                    ct_fingerprint := Some fp, ct_verified_at := Some t, ct_validation := ''verified''\<rparr>))
           | _ \<Rightarrow> None)
      | _ \<Rightarrow> None)"

section \<open>The vault and the validator of keys\<close>

text \<open>
  What the client of the vault (\<open>src/secrets/azure_openai.py\<close>) gives back, and what the manager makes
  of it: \<open>None\<close> stands for \<open>OpenAISecretUnavailable\<close>.
\<close>

datatype vault_answer = VaultFailed | VaultGave "string option" "string option"

record secret_version =
  sv_value :: string
  sv_version :: string

definition secret_read :: "string \<Rightarrow> vault_answer \<Rightarrow> secret_version option" where
  "secret_read version ans =
     (if strip version = [] then None
      else case ans of
        VaultGave (Some x) (Some v) \<Rightarrow> if strip x = [] \<or> v \<noteq> version then None
          else Some \<lparr>sv_value = x, sv_version = v\<rparr>
      | _ \<Rightarrow> None)"

text \<open>A write sends the value to the vault whatever becomes of the answer.\<close>

definition secret_write :: "string \<Rightarrow> vault_answer \<Rightarrow> secret_version option \<times> string list" where
  "secret_write x ans =
     (if strip x = [] then (None, [])
      else (case ans of
          VaultGave _ (Some v) \<Rightarrow> if v = [] then None else Some \<lparr>sv_value = x, sv_version = v\<rparr>
        | _ \<Rightarrow> None, [x]))"

datatype provider_answer = ProviderRejects | ProviderUnreachable | ProviderBroken | ProviderResponds "string option" | ResponseUnreadable

datatype key_status = KeyVerified | KeyRejected | KeyUnknown

definition validate_key :: "string \<Rightarrow> provider_answer \<Rightarrow> key_status" where
  "validate_key candidate ans =
     (if strip candidate = [] then KeyRejected
      else case ans of
        ProviderRejects \<Rightarrow> KeyRejected
      | ProviderUnreachable \<Rightarrow> KeyUnknown
      | ProviderBroken \<Rightarrow> KeyUnknown
      | ResponseUnreadable \<Rightarrow> KeyUnknown
      | ProviderResponds st \<Rightarrow> if st = Some ''completed'' then KeyVerified else KeyRejected)"

section \<open>The service of the channels\<close>

record control_service =
  ks_workspace :: string
  ks_auth :: auth_service
  ks_pepper :: "(string \<Rightarrow> digest) option"
  ks_sha :: "string \<Rightarrow> digest"

datatype actor_kind = OperatorActor | DemoActor

record key_binding =
  kb_version :: string
  kb_id :: digest
  kb_revision :: int

definition has_verified_binding :: "control_row \<Rightarrow> bool" where
  "has_verified_binding r \<longleftrightarrow>
     (case (ct_key_name r, ct_key_version r, ct_fingerprint r) of
        (Some n, Some v, Some fp) \<Rightarrow> n \<noteq> [] \<and> v \<noteq> [] \<and> ct_key_reference r = Some (n @ ''/'' @ v)
          \<and> is_fingerprint fp \<and> ct_verified_at r \<noteq> None \<and> ct_validation r = ''verified''
      | _ \<Rightarrow> False)"

definition get_control :: "control_service \<Rightarrow> time \<Rightarrow> control_db \<Rightarrow> control_row \<times> control_db" where
  "get_control v now d = get_or_create (ks_workspace v) now d"

definition binding_of :: "control_service \<Rightarrow> actor_kind \<Rightarrow> control_row \<Rightarrow> control_error + key_binding" where
  "binding_of v who r =
     (if \<not> (case who of OperatorActor \<Rightarrow> ct_operator_on r | DemoActor \<Rightarrow> ct_demo_on r) then Inl AIChannelDisabled
      else if \<not> has_verified_binding r then Inl AIControlUnavailable
      else Inr \<lparr>kb_version = the (ct_key_version r),
             kb_id = ks_sha v (''bizpulse-exact-credential-binding-v1'' @ CHR 0x00 # ks_workspace v @ CHR 0x00 # the (ct_key_reference r)
               @ CHR 0x00 # the (ct_fingerprint r)),
             kb_revision = ct_revision r\<rparr>)"

definition select_binding :: "control_service \<Rightarrow> actor_kind \<Rightarrow> time \<Rightarrow> fault \<Rightarrow> control_db
    \<Rightarrow> (control_error, control_error + key_binding) outcome \<times> control_db" where
  "select_binding v who now flt d =
     (case run_uow flt (\<lambda>d. Inr (get_control v now d)) d of
        (Returned r, d') \<Rightarrow> (Returned (binding_of v who r), d')
      | (Raised e, d') \<Rightarrow> (Raised e, d')
      | (ConnectionLost, d') \<Rightarrow> (ConnectionLost, d'))"

definition require_enabled :: "control_service \<Rightarrow> actor_kind \<Rightarrow> control_row \<Rightarrow> control_error + string" where
  "require_enabled v who r = ebind (binding_of v who r) (\<lambda>b. Inr (kb_version b))"

text \<open>The key of the bound version is read again and tried before a channel is opened.\<close>

definition qualify_exact_binding :: "control_row \<Rightarrow> vault_answer \<Rightarrow> provider_answer \<Rightarrow> control_error + unit" where
  "qualify_exact_binding r vault provider =
     (if \<not> has_verified_binding r then Inl AIControlUnavailable
      else case secret_read (the (ct_key_version r)) vault of
        None \<Rightarrow> Inl (AIControlAvailabilityFailed ''ADMIN_AI_SECRET_UNAVAILABLE'')
      | Some s \<Rightarrow>
          if sv_version s \<noteq> the (ct_key_version r) then Inl (AIControlAvailabilityFailed ''ADMIN_AI_SECRET_UNAVAILABLE'')
          else (case validate_key (sv_value s) provider of
             KeyUnknown \<Rightarrow> Inl (AIControlAvailabilityFailed ''ADMIN_AI_VALIDATION_OUTCOME_UNKNOWN'')
           | KeyRejected \<Rightarrow> Inl (AIControlAvailabilityFailed ''ADMIN_AI_KEY_REJECTED'')
           | KeyVerified \<Rightarrow> Inr ()))"

section \<open>Changing the channels\<close>

record channel_request =
  kr_principal :: operator_account
  kr_password :: string
  kr_source :: string
  kr_expected :: int
  kr_operator_on :: bool
  kr_demo_on :: bool
  kr_request :: string
  kr_key :: "string option"

text \<open>The inputs of one request from outside: clock, fates of its transactions, vault, provider, identifiers.\<close>

record channel_tick =
  kt_now :: time
  kt_auth_down :: bool
  kt_ensure :: fault
  kt_busy :: bool
  kt_vault :: vault_answer
  kt_provider :: provider_answer
  kt_audit_id :: uuid
  kt_receipt_id :: uuid
  kt_fault :: fault

record control_world =
  kw_auth :: auth_state
  kw_db :: control_db

definition service_reauthenticate :: "control_service \<Rightarrow> operator_account \<Rightarrow> string \<Rightarrow> string \<Rightarrow> bool \<Rightarrow> time \<Rightarrow> auth_state
    \<Rightarrow> (control_error + unit) \<times> auth_state" where
  "service_reauthenticate v who password source down now st =
     (if oa_workspace who \<noteq> ks_workspace v then (Inl AIReauthenticationFailed, st)
      else if down
      then (case ensure_attempt_allowed source now (st_attempts st) of (allowed, m) \<Rightarrow>
              (Inl (if allowed then AIControlUnavailable else AdminRateLimited), st\<lparr>st_attempts := m\<rparr>))
      else (case reauthenticate (ks_auth v) who password source now st of
          (Inl AuthenticationRateLimited, st') \<Rightarrow> (Inl AdminRateLimited, st')
        | (Inl _, st') \<Rightarrow> (Inl AIControlUnavailable, st')
        | (Inr accepted, st') \<Rightarrow> (ensure accepted AIReauthenticationFailed, st')))"

type_synonym ticket = "(digest \<times> digest) option"

definition make_ticket :: "control_service \<Rightarrow> string option \<Rightarrow> projection \<Rightarrow> control_error + ticket" where
  "make_ticket v key payload =
     (case key of
        None \<Rightarrow> Inr None
      | Some x \<Rightarrow> (case ks_pepper v of
          None \<Rightarrow> Inl AIStateConflict
        | Some hmac \<Rightarrow> (case idempotency_key_hash hmac x of
            None \<Rightarrow> Inl AIStateConflict
          | Some kh \<Rightarrow> Inr (Some (kh, request_hash (ks_sha v) payload)))))"

definition channel_ticket :: "control_service \<Rightarrow> channel_request \<Rightarrow> control_error + ticket" where
  "channel_ticket v q = make_ticket v (kr_key q)
     [(''expected_revision'', JInt (kr_expected q)), (''operator_enabled'', JBool (kr_operator_on q)),
      (''demo_enabled'', JBool (kr_demo_on q))]"

text \<open>What the receipts know of a request: nothing, a projection to replay, or a conflict.\<close>

definition consult :: "string \<Rightarrow> string \<Rightarrow> ticket \<Rightarrow> control_db \<Rightarrow> control_error + projection option" where
  "consult ws oper t d =
     (case t of
        None \<Rightarrow> Inr None
      | Some (kh, rh) \<Rightarrow> (case check_receipt ''workspace'' ws oper kh rh d of
          ReceiptMissing \<Rightarrow> Inr None
        | ReceiptReplay \<Rightarrow> (case replay_projection ''workspace'' ws oper kh rh d of
            None \<Rightarrow> Inl AIStateConflict
          | Some p \<Rightarrow> Inr (Some p))
        | _ \<Rightarrow> Inl AIStateConflict))"

definition admin_idempotency_ttl :: time where
  "admin_idempotency_ttl = minutes (30 * 24 * 60)"

definition remember :: "control_service \<Rightarrow> string \<Rightarrow> ticket \<Rightarrow> uuid \<Rightarrow> int \<Rightarrow> projection \<Rightarrow> time \<Rightarrow> control_db
    \<Rightarrow> control_error + control_db" where
  "remember v oper t rid status p now d =
     (case t of
        None \<Rightarrow> Inr d
      | Some (kh, rh) \<Rightarrow> record_succeeded
          \<lparr>ir_id = rid, ir_scope_type = ''workspace'', ir_scope_id = ks_workspace v, ir_operation = oper, ir_key_hash = kh,
           ir_request_hash = rh, ir_status = Some status, ir_body_hash = Some (request_hash (ks_sha v) p),
           ir_projection = Some p, ir_outcome = ''succeeded'', ir_created_at = now,
           ir_expires_at = now + admin_idempotency_ttl\<rparr> d)"

definition channel_replay :: "control_row \<Rightarrow> projection \<Rightarrow> control_error + control_row" where
  "channel_replay prior p =
     (if jget p ''result'' = JStr ''failed''
      then Inl (case jget p ''error_code'' of
          JStr c \<Rightarrow> if c = ''ADMIN_AI_SECRET_UNAVAILABLE'' then AIControlUnavailable
            else if c = ''ADMIN_AI_KEY_REJECTED'' \<or> c = ''ADMIN_AI_VALIDATION_OUTCOME_UNKNOWN'' then AIControlAvailabilityFailed c
            else AIStateConflict
        | _ \<Rightarrow> AIStateConflict)
      else case replay_control_projection prior p of None \<Rightarrow> Inl AIStateConflict | Some r \<Rightarrow> Inr r)"

text \<open>The change itself; a failure to qualify the key is a result of the transaction, not an exception in it.\<close>

definition channel_decision :: "control_service \<Rightarrow> channel_request \<Rightarrow> channel_tick \<Rightarrow> control_row \<Rightarrow> control_db
    \<Rightarrow> control_error + ((control_error + control_row) \<times> control_db)" where
  "channel_decision v q k prior d =
     (let op = kr_operator_on q; demo = kr_demo_on q;
          qualified = (if (op \<or> demo) \<and> \<not> has_verified_binding prior then Inl AIControlUnavailable
            else if (op \<and> \<not> ct_operator_on prior) \<or> (demo \<and> \<not> ct_demo_on prior)
            then qualify_exact_binding prior (kt_vault k) (kt_provider k) else Inr ())
      in case qualified of
           Inl e \<Rightarrow> Inr (Inl e, d)
         | Inr _ \<Rightarrow> (case update_channels (ks_workspace v) (ct_revision prior) op demo (oa_id (kr_principal q)) (kt_now k) d of
             Inl AIControlKeyBindingError \<Rightarrow> Inr (Inl AIControlUnavailable, d)
           | Inl e \<Rightarrow> Inl e
           | Inr (None, d') \<Rightarrow> Inl AIStateConflict
           | Inr (Some r, d') \<Rightarrow> Inr (Inr r, d')))"

definition deferred_code :: "control_error \<Rightarrow> string" where
  "deferred_code e = (case e of AIControlAvailabilityFailed c \<Rightarrow> c | _ \<Rightarrow> ''ADMIN_AI_SECRET_UNAVAILABLE'')"

definition failure_status :: "string \<Rightarrow> int" where
  "failure_status c = (if c = ''ADMIN_AI_KEY_REJECTED'' then 422 else 503)"

definition channels_audit :: "control_service \<Rightarrow> channel_request \<Rightarrow> channel_tick \<Rightarrow> control_row \<Rightarrow> control_row \<Rightarrow> audit_event" where
  "channels_audit v q k prior r =
     \<lparr>ax_id = kt_audit_id k, ax_workspace = ks_workspace v, ax_operator = oa_id (kr_principal q),
      ax_action = ''channels.update'', ax_result = ''succeeded'', ax_error = None, ax_prior = ct_revision prior,
      ax_resulting = ct_revision r, ax_operator_on = Some (kr_operator_on q), ax_demo_on = Some (kr_demo_on q),
      ax_request = kr_request q, ax_at = kt_now k\<rparr>"

definition channels_body :: "control_service \<Rightarrow> channel_request \<Rightarrow> channel_tick \<Rightarrow> ticket \<Rightarrow> control_db
    \<Rightarrow> control_error + ((control_error + control_row) \<times> control_db)" where
  "channels_body v q k t d =
     ebind (lock_control (ks_workspace v) (kt_busy k) d) (\<lambda>prior.
     ebind (consult (ks_workspace v) ''admin_ai_channels'' t d) (\<lambda>found.
       case found of
         Some p \<Rightarrow> ebind (channel_replay prior p) (\<lambda>r. Inr (Inr r, d))
       | None \<Rightarrow>
         ebind (ensure (ct_revision prior = kr_expected q) AIStateConflict) (\<lambda>_.
         ebind (channel_decision v q k prior d) (\<lambda>(res, d1).
           case res of
             Inr r \<Rightarrow>
               ebind (append_audit (channels_audit v q k prior r) d1) (\<lambda>d2.
               ebind (remember v ''admin_ai_channels'' t (kt_receipt_id k) 200 (control_projection r ''succeeded'' None)
                        (kt_now k) d2) (\<lambda>d3. Inr (Inr r, d3)))
           | Inl e \<Rightarrow>
               ebind (remember v ''admin_ai_channels'' t (kt_receipt_id k) (failure_status (deferred_code e))
                        (control_projection prior ''failed'' (Some (deferred_code e))) (kt_now k) d1) (\<lambda>d2.
               Inr (Inl e, d2))))))"

definition settled_control :: "(control_error, control_error + 'a) outcome \<Rightarrow> control_error + 'a" where
  "settled_control out = (case out of Returned x \<Rightarrow> x | Raised e \<Rightarrow> Inl e | ConnectionLost \<Rightarrow> Inl ControlConnectionLost)"

definition ensure_control_state :: "control_service \<Rightarrow> time \<Rightarrow> fault \<Rightarrow> control_db \<Rightarrow> (control_error + unit) \<times> control_db" where
  "ensure_control_state v now flt d =
     (case run_uow flt (\<lambda>d. Inr (Inr (), snd (get_control v now d))) d of (out, d') \<Rightarrow> (settled_control out, d'))"

definition set_channels :: "control_service \<Rightarrow> channel_request \<Rightarrow> channel_tick \<Rightarrow> control_world
    \<Rightarrow> (control_error + control_row) \<times> control_world" where
  "set_channels v q k w =
     (case service_reauthenticate v (kr_principal q) (kr_password q) (kr_source q) (kt_auth_down k) (kt_now k) (kw_auth w) of
        (Inl e, st) \<Rightarrow> (Inl e, w\<lparr>kw_auth := st\<rparr>)
      | (Inr _, st) \<Rightarrow> (case channel_ticket v q of
          Inl e \<Rightarrow> (Inl e, w\<lparr>kw_auth := st\<rparr>)
        | Inr t \<Rightarrow> (case ensure_control_state v (kt_now k) (kt_ensure k) (kw_db w) of
            (Inl e, d) \<Rightarrow> (Inl e, \<lparr>kw_auth = st, kw_db = d\<rparr>)
          | (Inr _, d) \<Rightarrow> (case run_uow (kt_fault k) (channels_body v q k t) d of
              (out, d') \<Rightarrow> (settled_control out, \<lparr>kw_auth = st, kw_db = d'\<rparr>)))))"

section \<open>Answers of the interface\<close>

text \<open>The codes and the projection the administrator sees (\<open>api/v1/routers/admin.py\<close>).\<close>

definition known_codes :: "string list" where
  "known_codes = [''ADMIN_AI_STATE_CONFLICT'', ''ADMIN_AI_OPERATION_BUSY'', ''ADMIN_AI_KEY_REJECTED'',
     ''ADMIN_AI_VALIDATION_OUTCOME_UNKNOWN'', ''ADMIN_AI_SECRET_UNAVAILABLE'', ''ADMIN_AI_RECONCILIATION_REQUIRED'',
     ''ADMIN_REAUTHENTICATION_FAILED'', ''RATE_LIMITED'']"

definition reply_code :: "control_error \<Rightarrow> string" where
  "reply_code e =
     (let c = (case e of
          AIStateConflict \<Rightarrow> ''ADMIN_AI_STATE_CONFLICT''
        | AIControlBusy \<Rightarrow> ''ADMIN_AI_OPERATION_BUSY''
        | AIReauthenticationFailed \<Rightarrow> ''ADMIN_REAUTHENTICATION_FAILED''
        | AdminRateLimited \<Rightarrow> ''RATE_LIMITED''
        | AIControlAvailabilityFailed c \<Rightarrow> c
        | AIKeyRotationFailed c \<Rightarrow> c
        | _ \<Rightarrow> ''ADMIN_AI_SECRET_UNAVAILABLE'')
      in if c \<in> set known_codes then c else ''ADMIN_AI_SECRET_UNAVAILABLE'')"

record ai_projection =
  vr_revision :: int
  vr_operator_on :: bool
  vr_demo_on :: bool
  vr_configured :: bool
  vr_fingerprint :: "string option"
  vr_verified_at :: "time option"

definition project_ai_control :: "control_row \<Rightarrow> ai_projection" where
  "project_ai_control r =
     \<lparr>vr_revision = ct_revision r, vr_operator_on = ct_operator_on r, vr_demo_on = ct_demo_on r,
      vr_configured = has_verified_binding r,
      vr_fingerprint = (if has_verified_binding r then map_option (take 8) (ct_fingerprint r) else None),
      vr_verified_at = (if has_verified_binding r then ct_verified_at r else None)\<rparr>"

definition channels_reply :: "control_error + control_row \<Rightarrow> string + ai_projection" where
  "channels_reply res = (case res of Inl e \<Rightarrow> Inl (reply_code e) | Inr r \<Rightarrow> Inr (project_ai_control r))"

end
