(* ===== verification/KeyRotation.thy ===== *)
theory KeyRotation
  imports AIControl
begin

text \<open>
  The rotation of the provider's key (\<open>src/services/openai_key_rotation_service.py\<close>): the candidate
  is tried, written to the vault, read back and tried again, and only then bound in the control
  row; a failure restores the previous value in the vault. When the connection is lost at the
  commit, the handler reads the row again to find out whether the binding took effect. What the
  handler sends to the vault is part of its result, in the order of the calls.
\<close>

section \<open>Requests and inputs\<close>

record rotation_service =
  rs_control :: control_service
  rs_key_name :: string
  rs_pepper :: "string \<Rightarrow> digest"
  rs_fingerprint :: "string \<Rightarrow> string"

text \<open>The constructor refuses a name that is not \<open>[0-9A-Za-z-]{1,127}\<close>.\<close>

definition key_name_ok :: "string \<Rightarrow> bool" where
  "key_name_ok n \<longleftrightarrow> 1 \<le> length n \<and> length n \<le> 127 \<and> list_all (\<lambda>c. is_alnum c \<or> c = CHR ''-'') n"

definition make_rotation_service :: "rotation_service \<Rightarrow> rotation_service option" where
  "make_rotation_service v = (if key_name_ok (rs_key_name v)
     then Some (v\<lparr>rs_control := (rs_control v)\<lparr>ks_pepper := Some (rs_pepper v)\<rparr>\<rparr>) else None)"

record rotation_request =
  rq_principal :: operator_account
  rq_password :: string
  rq_source :: string
  rq_candidate :: string
  rq_expected :: int
  rq_request :: string
  rq_key :: "string option"

record rotation_tick =
  rt_now :: time
  rt_auth_down :: bool
  rt_ensure :: fault
  rt_busy :: bool
  rt_previous :: vault_answer
  rt_first :: provider_answer
  rt_write :: vault_answer
  rt_readback :: vault_answer
  rt_second :: provider_answer
  rt_restore :: vault_answer
  rt_audit_id :: uuid
  rt_receipt_id :: uuid
  rt_fault :: fault
  rt_reread :: fault

definition rotation_ticket :: "rotation_service \<Rightarrow> rotation_request \<Rightarrow> control_error + ticket" where
  "rotation_ticket v q = make_ticket (rs_control v) (rq_key q)
     [(''expected_revision'', JInt (rq_expected q)), (''candidate_fingerprint'', JStr (rs_fingerprint v (rq_candidate q)))]"

section \<open>Trying the candidate\<close>

definition validation_code :: "key_status \<Rightarrow> string" where
  "validation_code s = (if s = KeyUnknown then ''ADMIN_AI_VALIDATION_OUTCOME_UNKNOWN'' else ''ADMIN_AI_KEY_REJECTED'')"

text \<open>
  The locals of the handler after the calls: the previous value, whether a write was attempted, the
  version written, what was sent to the vault, and the code of a failure.
\<close>

record probe =
  pb_previous :: string
  pb_attempted :: bool
  pb_version :: "string option"
  pb_sent :: "string list"
  pb_failure :: "string option"

definition read_previous :: "control_row \<Rightarrow> rotation_tick \<Rightarrow> string option" where
  "read_previous prior k = (case ct_key_version prior of
     None \<Rightarrow> Some []
   | Some ver \<Rightarrow> map_option sv_value (secret_read ver (rt_previous k)))"

definition write_candidate :: "rotation_request \<Rightarrow> rotation_tick \<Rightarrow> string \<Rightarrow> probe" where
  "write_candidate q k prev =
     (case secret_write (rq_candidate q) (rt_write k) of (written, sent) \<Rightarrow>
        let out = (\<lambda>ver code. \<lparr>pb_previous = prev, pb_attempted = True, pb_version = ver, pb_sent = sent, pb_failure = code\<rparr>)
        in case written of
             None \<Rightarrow> out None (Some ''ADMIN_AI_SECRET_UNAVAILABLE'')
           | Some s \<Rightarrow> (case secret_read (sv_version s) (rt_readback k) of
               None \<Rightarrow> out (Some (sv_version s)) (Some ''ADMIN_AI_SECRET_UNAVAILABLE'')
             | Some r \<Rightarrow>
                 if sv_version r \<noteq> sv_version s \<or> sv_value r \<noteq> rq_candidate q
                 then out (Some (sv_version s)) (Some ''ADMIN_AI_SECRET_UNAVAILABLE'')
                 else if validate_key (sv_value r) (rt_second k) \<noteq> KeyVerified
                 then out (Some (sv_version s)) (Some (validation_code (validate_key (sv_value r) (rt_second k))))
                 else out (Some (sv_version s)) None))"

definition probe_candidate :: "rotation_request \<Rightarrow> rotation_tick \<Rightarrow> control_row \<Rightarrow> probe" where
  "probe_candidate q k prior =
     (let stop = (\<lambda>prev code. \<lparr>pb_previous = prev, pb_attempted = False, pb_version = None, pb_sent = [], pb_failure = Some code\<rparr>)
      in case read_previous prior k of
           None \<Rightarrow> stop [] ''ADMIN_AI_SECRET_UNAVAILABLE''
         | Some prev \<Rightarrow>
             if validate_key (rq_candidate q) (rt_first k) \<noteq> KeyVerified
             then stop prev (validation_code (validate_key (rq_candidate q) (rt_first k)))
             else write_candidate q k prev)"

text \<open>Compensation: the previous value becomes the newest version again.\<close>

definition compensate :: "string \<Rightarrow> rotation_tick \<Rightarrow> bool \<times> string list" where
  "compensate prev k =
     (if prev = [] then (False, [])
      else case secret_write prev (rt_restore k) of (restored, sent) \<Rightarrow> (restored \<noteq> None, sent))"

text \<open>The code of a failure found by the probe, after its compensation, and all that was sent.\<close>

definition probe_failed :: "rotation_tick \<Rightarrow> probe \<Rightarrow> string \<Rightarrow> string \<times> string list" where
  "probe_failed k p code =
     (if pb_attempted p
      then (case compensate (pb_previous p) k of (ok, sent) \<Rightarrow>
              (if ok then code
               else if pb_previous p \<noteq> [] then ''ADMIN_AI_SECRET_UNAVAILABLE'' else ''ADMIN_AI_RECONCILIATION_REQUIRED'',
               pb_sent p @ sent))
      else (code, pb_sent p))"

section \<open>The transaction\<close>

definition rotation_replay :: "control_row \<Rightarrow> projection \<Rightarrow> control_error + control_row" where
  "rotation_replay prior p =
     (if jget p ''result'' = JStr ''failed''
      then Inl (case jget p ''error_code'' of JStr c \<Rightarrow> AIKeyRotationFailed c | _ \<Rightarrow> AIStateConflict)
      else case (if jget p ''result'' = JStr ''succeeded'' then replay_control_projection prior p else None) of
        None \<Rightarrow> Inl AIStateConflict
      | Some r \<Rightarrow> Inr r)"

definition rotation_audit :: "rotation_service \<Rightarrow> rotation_request \<Rightarrow> rotation_tick \<Rightarrow> string option \<Rightarrow> int \<Rightarrow> int \<Rightarrow> audit_event" where
  "rotation_audit v q k code prior resulting =
     \<lparr>ax_id = rt_audit_id k, ax_workspace = ks_workspace (rs_control v), ax_operator = oa_id (rq_principal q),
      ax_action = ''key.rotate'', ax_result = (if code = None then ''succeeded'' else ''failed''), ax_error = code,
      ax_prior = prior, ax_resulting = resulting, ax_operator_on = None, ax_demo_on = None,
      ax_request = rq_request q, ax_at = rt_now k\<rparr>"

text \<open>Up to the calls: the lock, the receipts, the revision. \<open>Inl\<close> a replayed row, \<open>Inr\<close> the row to rotate.\<close>

definition rotation_guard :: "rotation_service \<Rightarrow> rotation_request \<Rightarrow> rotation_tick \<Rightarrow> ticket \<Rightarrow> control_db
    \<Rightarrow> control_error + (control_row + control_row)" where
  "rotation_guard v q k t d =
     ebind (lock_control (ks_workspace (rs_control v)) (rt_busy k) d) (\<lambda>prior.
     ebind (consult (ks_workspace (rs_control v)) ''admin_ai_key_rotation'' t d) (\<lambda>found.
       case found of
         Some p \<Rightarrow> ebind (rotation_replay prior p) (\<lambda>r. Inr (Inl r))
       | None \<Rightarrow> ebind (ensure (ct_revision prior = rq_expected q) AIStateConflict) (\<lambda>_. Inr (Inr prior))))"

text \<open>After the calls: a failure is written down, a success is bound.\<close>

definition note_failure :: "rotation_service \<Rightarrow> rotation_request \<Rightarrow> rotation_tick \<Rightarrow> ticket \<Rightarrow> control_row \<Rightarrow> string \<Rightarrow> control_db
    \<Rightarrow> control_error + (unit \<times> control_db)" where
  "note_failure v q k t prior code d =
     ebind (append_audit (rotation_audit v q k (Some code) (ct_revision prior) (ct_revision prior)) d) (\<lambda>d1.
     ebind (remember (rs_control v) ''admin_ai_key_rotation'' t (rt_receipt_id k) (failure_status code)
              (control_projection prior ''failed'' (Some code)) (rt_now k) d1) (\<lambda>d2. Inr ((), d2)))"

definition bind_candidate :: "rotation_service \<Rightarrow> rotation_request \<Rightarrow> rotation_tick \<Rightarrow> ticket \<Rightarrow> control_row \<Rightarrow> string \<Rightarrow> control_db
    \<Rightarrow> control_error + (control_row \<times> control_db)" where
  "bind_candidate v q k t prior version d =
     ebind (activate_key (ks_workspace (rs_control v)) (ct_revision prior) (rs_key_name v) version
              (rs_fingerprint v (rq_candidate q)) (oa_id (rq_principal q)) (rt_now k) d) (\<lambda>(changed, d1).
       case changed of
         None \<Rightarrow> Inl AIStateConflict
       | Some r \<Rightarrow>
           ebind (append_audit (rotation_audit v q k None (ct_revision prior) (ct_revision r)) d1) (\<lambda>d2.
           ebind (remember (rs_control v) ''admin_ai_key_rotation'' t (rt_receipt_id k) 200
                    (control_projection r ''succeeded'' None) (rt_now k) d2) (\<lambda>d3. Inr (r, d3))))"

section \<open>Reading the row again\<close>

datatype reconciliation = Activated control_row | RolledBack | UnknownBinding

definition reconcile_binding :: "rotation_service \<Rightarrow> control_row \<Rightarrow> string \<Rightarrow> string \<Rightarrow> control_row \<Rightarrow> reconciliation" where
  "reconcile_binding v prior version fingerprint r =
     (if ct_revision r = ct_revision prior + 1 \<and> ct_key_name r = Some (rs_key_name v)
         \<and> ct_key_version r = Some version \<and> ct_key_reference r = Some (rs_key_name v @ ''/'' @ version)
         \<and> ct_fingerprint r = Some fingerprint \<and> ct_validation r = ''verified'' \<and> ct_verified_at r \<noteq> None
         \<and> ct_operator_on r = ct_operator_on prior \<and> ct_demo_on r = ct_demo_on prior then Activated r
      else if ct_revision r = ct_revision prior \<and> ct_key_name r = ct_key_name prior
         \<and> ct_key_version r = ct_key_version prior \<and> ct_key_reference r = ct_key_reference prior
         \<and> ct_fingerprint r = ct_fingerprint prior \<and> ct_validation r = ct_validation prior
         \<and> ct_operator_on r = ct_operator_on prior \<and> ct_demo_on r = ct_demo_on prior then RolledBack
      else UnknownBinding)"

text \<open>
  The connection for it is a new one: \<open>later\<close> is what other requests did before it was opened.
\<close>

definition reread :: "rotation_service \<Rightarrow> rotation_tick \<Rightarrow> control_row \<Rightarrow> string \<Rightarrow> string \<Rightarrow> control_db
    \<Rightarrow> reconciliation \<times> control_db" where
  "reread v k prior version fingerprint d =
     (case run_uow (rt_reread k) (\<lambda>d. Inr (get_control (rs_control v) (rt_now k) d) :: control_error + _) d of
        (Returned r, d') \<Rightarrow> (reconcile_binding v prior version fingerprint r, d')
      | (_, d') \<Rightarrow> (UnknownBinding, d'))"

section \<open>The handler\<close>

definition unavailable :: control_error where
  "unavailable = AIKeyRotationFailed ''ADMIN_AI_SECRET_UNAVAILABLE''"

text \<open>A failure after the write that rolled the transaction back.\<close>

definition rolled_back :: "rotation_tick \<Rightarrow> probe \<Rightarrow> control_error \<times> string list" where
  "rolled_back k p =
     (case compensate (pb_previous p) k of (ok, sent) \<Rightarrow>
        (if pb_previous p \<noteq> [] \<or> ok then unavailable else AIKeyRotationFailed ''ADMIN_AI_RECONCILIATION_REQUIRED'',
         pb_sent p @ sent))"

type_synonym rotation_outcome = "(control_error + control_row) \<times> string list \<times> control_db"

definition end_failed :: "rotation_service \<Rightarrow> rotation_request \<Rightarrow> rotation_tick \<Rightarrow> ticket \<Rightarrow> control_row \<Rightarrow> probe \<Rightarrow> string
    \<Rightarrow> control_db \<Rightarrow> rotation_outcome" where
  "end_failed v q k t prior p code d =
     (case probe_failed k p code of (final, sent) \<Rightarrow>
        case run_uow (rt_fault k) (note_failure v q k t prior final) d of (_, d') \<Rightarrow>
          (Inl (AIKeyRotationFailed final), sent, d'))"

definition end_verified :: "rotation_service \<Rightarrow> rotation_request \<Rightarrow> rotation_tick \<Rightarrow> (control_db \<Rightarrow> control_db) \<Rightarrow> ticket
    \<Rightarrow> control_row \<Rightarrow> probe \<Rightarrow> control_db \<Rightarrow> rotation_outcome" where
  "end_verified v q k later t prior p d =
     (let version = the (pb_version p)
      in case run_uow (rt_fault k) (bind_candidate v q k t prior version) d of
           (Returned r, d') \<Rightarrow> (Inr r, pb_sent p, d')
         | (Raised AIStateConflict, d') \<Rightarrow> (Inl AIStateConflict, pb_sent p @ snd (compensate (pb_previous p) k), d')
         | (Raised _, d') \<Rightarrow> (case rolled_back k p of (e, sent) \<Rightarrow> (Inl e, sent, d'))
         | (ConnectionLost, d') \<Rightarrow>
             (case reread v k prior version (rs_fingerprint v (rq_candidate q)) (later d') of
                (Activated r, d'') \<Rightarrow> (Inr r, pb_sent p, d'')
              | (RolledBack, d'') \<Rightarrow> (case rolled_back k p of (e, sent) \<Rightarrow> (Inl e, sent, d''))
              | (UnknownBinding, d'') \<Rightarrow> (Inl unavailable, pb_sent p, d'')))"

text \<open>Which exceptions of the guard pass through, and which become the general failure.\<close>

definition guard_error :: "control_error \<Rightarrow> control_error" where
  "guard_error e = (case e of AIControlBusy \<Rightarrow> e | AIStateConflict \<Rightarrow> e | AIKeyRotationFailed _ \<Rightarrow> e | _ \<Rightarrow> unavailable)"

definition rotate_locked :: "rotation_service \<Rightarrow> rotation_request \<Rightarrow> rotation_tick \<Rightarrow> (control_db \<Rightarrow> control_db) \<Rightarrow> ticket
    \<Rightarrow> control_db \<Rightarrow> rotation_outcome" where
  "rotate_locked v q k later t d =
     (case rotation_guard v q k t d of
        Inl e \<Rightarrow> (Inl (guard_error e), [], d)
      | Inr (Inl r) \<Rightarrow> (if rt_fault k = NoFault then Inr r else Inl unavailable, [], d)
      | Inr (Inr prior) \<Rightarrow>
          (let p = probe_candidate q k prior
           in case pb_failure p of
                Some code \<Rightarrow> end_failed v q k t prior p code d
              | None \<Rightarrow> end_verified v q k later t prior p d))"

definition rotate_key :: "rotation_service \<Rightarrow> rotation_request \<Rightarrow> rotation_tick \<Rightarrow> (control_db \<Rightarrow> control_db) \<Rightarrow> control_world
    \<Rightarrow> (control_error + control_row) \<times> string list \<times> control_world" where
  "rotate_key v q k later w =
     (case service_reauthenticate (rs_control v) (rq_principal q) (rq_password q) (rq_source q) (rt_auth_down k) (rt_now k) (kw_auth w) of
        (Inl e, st) \<Rightarrow> (Inl e, [], w\<lparr>kw_auth := st\<rparr>)
      | (Inr _, st) \<Rightarrow> (case rotation_ticket v q of
          Inl e \<Rightarrow> (Inl e, [], w\<lparr>kw_auth := st\<rparr>)
        | Inr t \<Rightarrow> (case ensure_control_state (rs_control v) (rt_now k) (rt_ensure k) (kw_db w) of
            (Inl _, d) \<Rightarrow> (Inl unavailable, [], \<lparr>kw_auth = st, kw_db = d\<rparr>)
          | (Inr _, d) \<Rightarrow> (case rotate_locked v q k later t d of
              (res, sent, d') \<Rightarrow> (res, sent, \<lparr>kw_auth = st, kw_db = d'\<rparr>)))))"

end
