(* ===== verification/AIControlState.thy ===== *)
theory AIControlState
  imports KeyRotation
begin

text \<open>
  The invariant of the control tables over every history of requests: rows that pass their checks
  with a definite truth value, an audit log that replays to the state, receipts that can be read
  back; and that each transaction keeps it.
\<close>

section \<open>The invariant\<close>

definition unbound :: "control_row \<Rightarrow> bool" where
  "unbound r \<longleftrightarrow> ct_key_name r = None \<and> ct_key_version r = None \<and> ct_key_reference r = None \<and> ct_fingerprint r = None
     \<and> ct_verified_at r = None \<and> ct_validation r = ''unconfigured''"

definition control_row_ok :: "control_row \<Rightarrow> bool" where
  "control_row_ok r \<longleftrightarrow> (if unbound r then \<not> ct_operator_on r \<and> \<not> ct_demo_on r
       else has_verified_binding r \<and> (\<forall>t. ct_verified_at r = Some t \<longrightarrow> is_datetime t))
     \<and> checks_pass r"

definition rows_ok :: "control_db \<Rightarrow> bool" where
  "rows_ok d \<longleftrightarrow> distinct (map ct_workspace (kd_controls d)) \<and> (\<forall>r \<in> set (kd_controls d). control_row_ok r)"

text \<open>The log of a workspace: its successful events; they count up from zero and give the channels.\<close>

definition log_of :: "string \<Rightarrow> control_db \<Rightarrow> audit_event list" where
  "log_of ws d = filter (\<lambda>e. ax_workspace e = ws \<and> ax_result e = ''succeeded'') (kd_audit d)"

definition logged_channels :: "audit_event list \<Rightarrow> bool \<times> bool" where
  "logged_channels es = foldl (\<lambda>c e. if ax_action e = ''channels.update''
     then (the (ax_operator_on e), the (ax_demo_on e)) else c) (False, False) es"

definition revisions_of :: "audit_event list \<Rightarrow> (int \<times> int) list" where
  "revisions_of es = map (\<lambda>e. (ax_prior e, ax_resulting e)) es"

definition count_up :: "nat \<Rightarrow> (int \<times> int) list" where
  "count_up n = map (\<lambda>i. (int i, int i + 1)) [0..<n]"

definition row_logged :: "control_row \<Rightarrow> audit_event list \<Rightarrow> bool" where
  "row_logged r es \<longleftrightarrow> ct_revision r = int (length es) \<and> revisions_of es = count_up (length es)
     \<and> logged_channels es = (ct_operator_on r, ct_demo_on r)"

definition logs_ok :: "control_db \<Rightarrow> bool" where
  "logs_ok d \<longleftrightarrow> (\<forall>ws. case control_of ws d of
     None \<Rightarrow> log_of ws d = [] | Some r \<Rightarrow> row_logged r (log_of ws d))"

text \<open>
  A receipt of an administrator's request holds the projection of a row of its workspace, and if that
  row had a key, the workspace has one still.
\<close>

definition admin_receipt :: "receipt \<Rightarrow> bool" where
  "admin_receipt x \<longleftrightarrow> ir_scope_type x = ''workspace'' \<and> ir_operation x \<in> {''admin_ai_channels'', ''admin_ai_key_rotation''}"

definition channel_codes :: "string list" where
  "channel_codes = [''ADMIN_AI_SECRET_UNAVAILABLE'', ''ADMIN_AI_KEY_REJECTED'', ''ADMIN_AI_VALIDATION_OUTCOME_UNKNOWN'']"

definition receipt_result :: "string \<Rightarrow> string \<Rightarrow> string option \<Rightarrow> bool" where
  "receipt_result oper result code \<longleftrightarrow> (result = ''succeeded'' \<and> code = None)
     \<or> (result = ''failed'' \<and> (\<exists>c. code = Some c \<and> (oper = ''admin_ai_channels'' \<longrightarrow> c \<in> set channel_codes)))"

definition kept_in :: "control_db \<Rightarrow> string \<Rightarrow> bool \<Rightarrow> bool" where
  "kept_in d ws b \<longleftrightarrow> (\<exists>r. control_of ws d = Some r \<and> (b \<longrightarrow> has_verified_binding r))"

definition receipt_ok :: "control_db \<Rightarrow> receipt \<Rightarrow> bool" where
  "receipt_ok d x \<longleftrightarrow> ir_outcome x = ''succeeded'' \<and>
     (\<exists>s result code. ir_projection x = Some (control_projection s result code) \<and> control_row_ok s
        \<and> receipt_result (ir_operation x) result code
        \<and> kept_in d (ir_scope_id x) (has_verified_binding s))"

definition receipts_ok :: "control_db \<Rightarrow> bool" where
  "receipts_ok d \<longleftrightarrow> (\<forall>x \<in> set (kd_receipts d). admin_receipt x \<longrightarrow> receipt_ok d x)"

definition control_ok :: "control_db \<Rightarrow> bool" where
  "control_ok d \<longleftrightarrow> rows_ok d \<and> logs_ok d \<and> receipts_ok d"

definition empty_control :: control_db where
  "empty_control = \<lparr>kd_controls = [], kd_audit = [], kd_receipts = []\<rparr>"

lemma control_ok_empty: "control_ok empty_control"
  by (simp add: control_ok_def rows_ok_def logs_ok_def receipts_ok_def empty_control_def control_of_def log_of_def select_one_def)

section \<open>Rows\<close>

lemma control_of_SomeD: "control_of ws d = Some r \<Longrightarrow> r \<in> set (kd_controls d) \<and> ct_workspace r = ws"
  by (auto simp: control_of_def dest: select_one_SomeD)

lemma rows_okD: "rows_ok d \<Longrightarrow> control_of ws d = Some r \<Longrightarrow> control_row_ok r \<and> ct_workspace r = ws"
  by (auto simp: rows_ok_def dest: control_of_SomeD)

lemma control_row_ok_enabled: "control_row_ok r \<Longrightarrow> ct_operator_on r \<or> ct_demo_on r \<Longrightarrow> has_verified_binding r"
  by (auto simp: control_row_ok_def split: if_splits)

lemma unbound_not_verified: "unbound r \<Longrightarrow> \<not> has_verified_binding r \<and> \<not> is_configured r"
  by (simp add: unbound_def has_verified_binding_def is_configured_def)

lemma verified_configured: "has_verified_binding r \<Longrightarrow> is_configured r"
  by (auto simp: has_verified_binding_def is_configured_def is_fingerprint_def split: option.splits)

lemma control_row_ok_configured: "control_row_ok r \<Longrightarrow> is_configured r \<longleftrightarrow> has_verified_binding r"
  using unbound_not_verified verified_configured by (auto simp: control_row_ok_def split: if_splits)

lemma control_row_ok_fresh: "control_row_ok (fresh_control ws now)"
  by (simp add: control_row_ok_def unbound_def fresh_control_def checks_pass_def sql_key_binding_def sql_enabled_def sql_any_def sql_all_def)

text \<open>The binding fields alone decide whether a row is bound.\<close>

definition same_binding :: "control_row \<Rightarrow> control_row \<Rightarrow> bool" where
  "same_binding r s \<longleftrightarrow> ct_key_name s = ct_key_name r \<and> ct_key_version s = ct_key_version r
     \<and> ct_key_reference s = ct_key_reference r \<and> ct_fingerprint s = ct_fingerprint r
     \<and> ct_verified_at s = ct_verified_at r \<and> ct_validation s = ct_validation r"

lemma same_bindingD: "same_binding r s \<Longrightarrow> unbound s = unbound r \<and> has_verified_binding s = has_verified_binding r
    \<and> ct_verified_at s = ct_verified_at r"
  by (auto simp: same_binding_def unbound_def has_verified_binding_def split: option.splits)

lemma select_exact:
  assumes "distinct (map ct_workspace rs)" "select_one (\<lambda>r. ct_workspace r = ws) rs = Some r"
  shows "select_one (\<lambda>r. ct_workspace r = ws \<and> ct_revision r = k) rs = (if ct_revision r = k then Some r else None)"
proof -
  have r: "r \<in> set rs" "ct_workspace r = ws" using select_one_SomeD [OF assms(2)] by auto
  have only: "s = r" if "s \<in> set rs" "ct_workspace s = ws" for s
    using that r assms(1) by (metis distinct_map inj_on_contraD)
  show ?thesis
  proof (cases "ct_revision r = k")
    case True
    then have "select_one (\<lambda>r. ct_workspace r = ws \<and> ct_revision r = k) rs = Some r"
      using assms(1) r by (intro select_one_unique [where k = ct_workspace]) auto
    then show ?thesis using True by simp
  next
    case False
    then show ?thesis using only by (auto simp: select_one_None_iff)
  qed
qed

text \<open>
  One row of a workspace replaced by another: what every change of the control state comes to.
\<close>

definition replaces :: "string \<Rightarrow> control_row \<Rightarrow> control_db \<Rightarrow> control_db \<Rightarrow> bool" where
  "replaces ws r d d' \<longleftrightarrow> kd_audit d' = kd_audit d \<and> kd_receipts d' = kd_receipts d
     \<and> control_of ws d' = Some r \<and> (\<forall>u. u \<noteq> ws \<longrightarrow> control_of u d' = control_of u d)
     \<and> (rows_ok d \<longrightarrow> control_row_ok r \<longrightarrow> rows_ok d')"

lemma change_control_cases:
  assumes "change_control ws k f d = Inr (x, d')" "rows_ok d" "control_of ws d = Some prior"
    and f: "\<And>r. ct_workspace (f r) = ct_workspace r"
  shows "(ct_revision prior \<noteq> k \<and> x = None \<and> d' = d)
    \<or> (ct_revision prior = k \<and> x = Some (f prior) \<and> checks_pass (f prior) \<and> replaces ws (f prior) d d')"
proof -
  let ?p = "\<lambda>r. ct_workspace r = ws \<and> ct_revision r = k" and ?rs = "kd_controls d"
  have dist: "distinct (map ct_workspace ?rs)" using assms(2) by (simp add: rows_ok_def)
  have sel: "select_one ?p ?rs = (if ct_revision prior = k then Some prior else None)"
    by (rule select_exact [OF dist]) (use assms(3) in \<open>simp add: control_of_def\<close>)
  note prior = control_of_SomeD [OF assms(3)]
  show ?thesis
  proof (cases "ct_revision prior = k")
    case False
    then show ?thesis using assms(1) sel by (simp add: change_control_def)
  next
    case True
    let ?us = "update_where ?p f ?rs"
    have d': "d' = d\<lparr>kd_controls := ?us\<rparr>" and x: "x = Some (f prior)" and pass: "checks_pass (f prior)"
      using assms(1) sel True by (auto simp: change_control_def split: if_splits)
    have keys: "map ct_workspace ?us = map ct_workspace ?rs" by (rule update_where_keys) (rule f)
    have one: "control_of u d' = map_option (\<lambda>r. if ?p r then f r else r) (control_of u d)" for u
      unfolding control_of_def d' update_where_def by (simp add: select_one_map f)
    have here: "control_of ws d' = Some (f prior)" using one [of ws] assms(3) prior True by simp
    have other: "control_of u d' = control_of u d" if "u \<noteq> ws" for u
      using one [of u] that by (cases "control_of u d") (auto dest: control_of_SomeD)
    have "s = prior" if "s \<in> set ?rs" "?p s" for s
      using that prior dist by (metis distinct_map inj_on_contraD)
    then have "rows_ok d \<longrightarrow> control_row_ok (f prior) \<longrightarrow> rows_ok d'"
      using dist keys by (auto simp: rows_ok_def d' update_where_mem)
    then show ?thesis using True x pass here other by (simp add: replaces_def d')
  qed
qed

section \<open>Keeping the invariant\<close>

lemma same_rows: "kd_controls d' = kd_controls d \<Longrightarrow> rows_ok d' = rows_ok d \<and> control_of ws d' = control_of ws d
    \<and> kept_in d' ws = kept_in d ws"
  by (simp add: rows_ok_def control_of_def kept_in_def fun_eq_iff)

lemma logs_same: "(\<And>ws. control_of ws d' = control_of ws d) \<Longrightarrow> (\<And>ws. log_of ws d' = log_of ws d) \<Longrightarrow> logs_ok d' = logs_ok d"
  by (simp add: logs_ok_def cong: option.case_cong)

text \<open>A new audit event that is not a success leaves the logs as they are.\<close>

lemma failed_event_ok:
  assumes "append_audit e d = Inr d'" "control_ok d" "ax_result e \<noteq> ''succeeded''"
  shows "control_ok d' \<and> kd_controls d' = kd_controls d \<and> kd_receipts d' = kd_receipts d"
proof -
  have d': "d' = d\<lparr>kd_audit := kd_audit d @ [e]\<rparr>" using assms(1) by (auto simp: append_audit_def split: if_splits)
  have rows: "kd_controls d' = kd_controls d" and recs: "kd_receipts d' = kd_receipts d" by (simp_all add: d')
  have logs: "log_of ws d' = log_of ws d" for ws using assms(3) by (simp add: log_of_def d')
  have "receipt_ok d' x = receipt_ok d x" for x using same_rows [OF rows] by (simp add: receipt_ok_def)
  moreover have "logs_ok d' = logs_ok d" by (rule logs_same) (use same_rows [OF rows] logs in auto)
  ultimately show ?thesis using assms(2) same_rows [OF rows] rows recs
    by (simp add: control_ok_def receipts_ok_def)
qed

lemma remember_ok:
  assumes "remember v oper t rid st (control_projection s result code) now d = Inr d'" "control_ok d"
    and "control_row_ok s" "receipt_result oper result code" "kept_in d (ks_workspace v) (has_verified_binding s)"
  shows "control_ok d' \<and> kd_controls d' = kd_controls d \<and> kd_audit d' = kd_audit d"
proof (cases t)
  case None
  then show ?thesis using assms(1,2) by (simp add: remember_def)
next
  case (Some h)
  let ?x = "\<lparr>ir_id = rid, ir_scope_type = ''workspace'', ir_scope_id = ks_workspace v, ir_operation = oper, ir_key_hash = fst h,
     ir_request_hash = snd h, ir_status = Some st, ir_body_hash = Some (request_hash (ks_sha v) (control_projection s result code)),
     ir_projection = Some (control_projection s result code), ir_outcome = ''succeeded'', ir_created_at = now,
     ir_expires_at = now + admin_idempotency_ttl\<rparr>"
  have d': "d' = d\<lparr>kd_receipts := kd_receipts d @ [?x]\<rparr>"
    using assms(1) Some by (cases h) (auto simp: remember_def record_succeeded_def split: if_splits)
  have rows: "kd_controls d' = kd_controls d" and aud: "kd_audit d' = kd_audit d"
    and recs: "kd_receipts d' = kd_receipts d @ [?x]" by (simp_all add: d')
  have "receipt_ok d ?x" using assms(3-5) unfolding receipt_ok_def by auto
  moreover have "receipt_ok d' x = receipt_ok d x" for x using same_rows [OF rows] by (simp add: receipt_ok_def)
  moreover have "logs_ok d' = logs_ok d"
    by (rule logs_same) (use same_rows [OF rows] aud in \<open>auto simp: log_of_def\<close>)
  ultimately show ?thesis using assms(2) same_rows [OF rows] rows aud recs
    by (auto simp: control_ok_def receipts_ok_def)
qed

lemma logged_channels_snoc: "logged_channels (es @ [e]) = (if ax_action e = ''channels.update''
    then (the (ax_operator_on e), the (ax_demo_on e)) else logged_channels es)"
  by (simp add: logged_channels_def)

lemma row_logged_snoc:
  assumes "row_logged prior es" "ct_revision r = ct_revision prior + 1" "ax_prior e = ct_revision prior" "ax_resulting e = ct_revision r"
    and "ax_action e = ''channels.update'' \<longrightarrow> (the (ax_operator_on e), the (ax_demo_on e)) = (ct_operator_on r, ct_demo_on r)"
    and "ax_action e \<noteq> ''channels.update'' \<longrightarrow> ct_operator_on r = ct_operator_on prior \<and> ct_demo_on r = ct_demo_on prior"
  shows "row_logged r (es @ [e])"
  using assms by (auto simp: row_logged_def logged_channels_snoc revisions_of_def count_up_def)

text \<open>A change of the row together with its event.\<close>

lemma change_ok:
  assumes "replaces ws r d d1" "append_audit e d1 = Inr d2" "control_ok d" "control_of ws d = Some prior" "control_row_ok r"
    and "has_verified_binding prior \<longrightarrow> has_verified_binding r"
    and e: "ax_workspace e = ws" "ax_result e = ''succeeded''" "ax_prior e = ct_revision prior" "ax_resulting e = ct_revision r"
    and "ct_revision r = ct_revision prior + 1"
    and "ax_action e = ''channels.update'' \<longrightarrow> (the (ax_operator_on e), the (ax_demo_on e)) = (ct_operator_on r, ct_demo_on r)"
    and "ax_action e \<noteq> ''channels.update'' \<longrightarrow> ct_operator_on r = ct_operator_on prior \<and> ct_demo_on r = ct_demo_on prior"
  shows "control_ok d2 \<and> control_of ws d2 = Some r \<and> kd_receipts d2 = kd_receipts d \<and> kd_controls d2 = kd_controls d1
    \<and> kd_audit d2 = kd_audit d @ [e]"
proof -
  have d2: "d2 = d1\<lparr>kd_audit := kd_audit d1 @ [e]\<rparr>" using assms(2) by (auto simp: append_audit_def split: if_splits)
  have rep: "kd_audit d1 = kd_audit d" "kd_receipts d1 = kd_receipts d" "control_of ws d1 = Some r"
    "\<And>u. u \<noteq> ws \<Longrightarrow> control_of u d1 = control_of u d" "rows_ok d1"
    using assms(1,3,5) by (auto simp: replaces_def control_ok_def)
  have of2: "control_of u d2 = control_of u d1" for u by (simp add: control_of_def d2)
  have log_here: "log_of ws d2 = log_of ws d @ [e]" using e rep(1) by (simp add: log_of_def d2)
  have log_other: "log_of u d2 = log_of u d" if "u \<noteq> ws" for u using that e rep(1) by (simp add: log_of_def d2)
  have logs: "\<And>u. case control_of u d of None \<Rightarrow> log_of u d = [] | Some r \<Rightarrow> row_logged r (log_of u d)"
    using assms(3) by (simp add: control_ok_def logs_ok_def)
  have "row_logged r (log_of ws d @ [e])"
    by (rule row_logged_snoc [where prior = prior]) (use assms(4) logs [of ws] e assms(11-13) in auto)
  then have "logs_ok d2" using logs log_here log_other of2 rep(3,4) unfolding logs_ok_def
    by (metis option.simps(5))
  moreover have "rows_ok d2" using rep(5) by (simp add: rows_ok_def d2)
  moreover have "kept_in d u b \<longrightarrow> kept_in d2 u b" for u b
    using assms(4,6) of2 rep(3,4) by (cases "u = ws") (auto simp: kept_in_def)
  then have "receipts_ok d2" using assms(3) rep(2)
    by (auto simp: control_ok_def receipts_ok_def receipt_ok_def d2) blast
  moreover have "kd_receipts d2 = kd_receipts d" "kd_controls d2 = kd_controls d1" "kd_audit d2 = kd_audit d @ [e]"
    using rep by (simp_all add: d2)
  ultimately show ?thesis using rep of2 by (simp add: control_ok_def)
qed

section \<open>The transactions\<close>

lemma get_or_create_ok:
  assumes "control_ok d" "get_or_create ws now d = (r, d')"
  shows "control_ok d' \<and> control_of ws d' = Some r \<and> kd_audit d' = kd_audit d \<and> kd_receipts d' = kd_receipts d
    \<and> (\<forall>u s. control_of u d = Some s \<longrightarrow> control_of u d' = Some s)
    \<and> (\<forall>u. u \<noteq> ws \<longrightarrow> control_of u d' = control_of u d)"
proof (cases "control_of ws d")
  case (Some s)
  then show ?thesis using assms by (simp add: get_or_create_def)
next
  case None
  let ?r = "fresh_control ws now"
  have r: "r = ?r" and d': "d' = d\<lparr>kd_controls := kd_controls d @ [?r]\<rparr>"
    using assms(2) None by (auto simp: get_or_create_def)
  have ws: "ct_workspace ?r = ws" by (simp add: fresh_control_def)
  have none: "\<forall>s \<in> set (kd_controls d). ct_workspace s \<noteq> ws"
    using None by (simp add: control_of_def select_one_None_iff)
  have of': "control_of u d' = (case control_of u d of None \<Rightarrow> if u = ws then Some ?r else None | Some s \<Rightarrow> Some s)" for u
    by (simp add: control_of_def d' select_one_append select_one_single ws split: option.splits)
  have old: "control_of u d = Some s \<Longrightarrow> control_of u d' = Some s" for u s by (simp add: of')
  have other: "u \<noteq> ws \<Longrightarrow> control_of u d' = control_of u d" for u by (simp add: of' split: option.splits)
  have rows: "rows_ok d'" using assms(1) none ws control_row_ok_fresh [of ws now]
    by (auto simp: control_ok_def rows_ok_def d')
  have logd: "log_of u d' = log_of u d" for u by (simp add: log_of_def d')
  have logs: "case control_of u d of None \<Rightarrow> log_of u d = [] | Some r \<Rightarrow> row_logged r (log_of u d)" for u
    using assms(1) by (simp add: control_ok_def logs_ok_def)
  have "row_logged ?r []" by (simp add: row_logged_def fresh_control_def revisions_of_def count_up_def logged_channels_def)
  then have "case control_of u d' of None \<Rightarrow> log_of u d' = [] | Some r \<Rightarrow> row_logged r (log_of u d')" for u
    using logs [of u] of' [of u] None by (cases "control_of u d") (auto simp: logd)
  then have "logs_ok d'" by (simp add: logs_ok_def)
  moreover have "kept_in d u b \<Longrightarrow> kept_in d' u b" for u b using old by (auto simp: kept_in_def)
  then have "receipts_ok d'" using assms(1) by (auto simp: control_ok_def receipts_ok_def receipt_ok_def d') blast
  ultimately show ?thesis using rows of' None old other r
    by (simp add: control_ok_def) (simp add: d')
qed

lemma activated_ok:
  assumes "checks_pass r" "ct_key_name r = Some n" "ct_key_version r = Some v" "ct_key_reference r = Some (n @ ''/'' @ v)"
    "ct_fingerprint r = Some fp" "ct_verified_at r = Some t" "ct_validation r = ''verified''" "is_datetime t"
  shows "control_row_ok r \<and> has_verified_binding r"
proof -
  have "n \<noteq> [] \<and> v \<noteq> [] \<and> is_fingerprint fp"
    using assms(1) by (auto simp: checks_pass_def sql_key_binding_def sql_all_def sql_any_def assms(2-7) sql_reference_def Suc_le_eq
      split: if_splits)
  then have "has_verified_binding r" using assms by (simp add: has_verified_binding_def)
  then show ?thesis using assms unbound_not_verified by (auto simp: control_row_ok_def)
qed

lemma channels_row_ok:
  assumes "checks_pass r" "same_binding prior r" "control_row_ok prior" "ct_operator_on r \<or> ct_demo_on r \<longrightarrow> has_verified_binding prior"
  shows "control_row_ok r"
  using assms same_bindingD [OF assms(2)] unbound_not_verified by (auto simp: control_row_ok_def split: if_splits)

lemma lock_controlD: "lock_control ws busy d = Inr r \<Longrightarrow> control_of ws d = Some r \<and> \<not> busy"
  by (auto simp: lock_control_def split: option.splits if_splits)

text \<open>How a channels transaction ends when it ends without an exception.\<close>

lemma qualify_cases: "qualify_exact_binding r vault provider = Inl e \<Longrightarrow> e = AIControlUnavailable
    \<or> (\<exists>c. e = AIControlAvailabilityFailed c \<and> c \<in> set channel_codes)"
  by (auto simp: qualify_exact_binding_def channel_codes_def split: if_splits option.splits key_status.splits)

lemma channel_decision_failed:
  assumes "channel_decision v q k prior d = Inr (Inl e, d')"
  shows "d' = d \<and> (e = AIControlUnavailable \<or> (\<exists>c. e = AIControlAvailabilityFailed c \<and> c \<in> set channel_codes))"
  using assms
  by (auto simp: channel_decision_def Let_def dest: qualify_cases split: if_splits sum.splits control_error.splits option.splits prod.splits)

lemma channel_decision_changed:
  assumes "channel_decision v q k prior d = Inr (Inr r, d')" "control_ok d" "control_of (ks_workspace v) d = Some prior"
  shows "replaces (ks_workspace v) r d d' \<and> same_binding prior r \<and> control_row_ok r \<and> ct_revision r = ct_revision prior + 1
    \<and> ct_operator_on r = kr_operator_on q \<and> ct_demo_on r = kr_demo_on q
    \<and> (kr_operator_on q \<or> kr_demo_on q \<longrightarrow> has_verified_binding prior)
    \<and> ((kr_operator_on q \<and> \<not> ct_operator_on prior) \<or> (kr_demo_on q \<and> \<not> ct_demo_on prior)
        \<longrightarrow> qualify_exact_binding prior (kt_vault k) (kt_provider k) = Inr ())"
proof -
  let ?f = "\<lambda>r. r\<lparr>ct_operator_on := kr_operator_on q, ct_demo_on := kr_demo_on q, ct_revision := ct_revision r + 1,
         ct_updated_by := Some (oa_id (kr_principal q)), ct_updated_at := kt_now k\<rparr>"
  have gate: "kr_operator_on q \<or> kr_demo_on q \<longrightarrow> has_verified_binding prior"
    and qual: "(kr_operator_on q \<and> \<not> ct_operator_on prior) \<or> (kr_demo_on q \<and> \<not> ct_demo_on prior)
        \<longrightarrow> qualify_exact_binding prior (kt_vault k) (kt_provider k) = Inr ()"
    using assms(1) by (auto simp: channel_decision_def Let_def split: if_splits sum.splits)
  have "update_channels (ks_workspace v) (ct_revision prior) (kr_operator_on q) (kr_demo_on q) (oa_id (kr_principal q)) (kt_now k) d
      = Inr (Some r, d')"
    using assms(1) by (auto simp: channel_decision_def Let_def split: if_splits sum.splits control_error.splits option.splits prod.splits)
  then have "change_control (ks_workspace v) (ct_revision prior) ?f d = Inr (Some r, d')"
    by (auto simp: update_channels_def res_simps split: if_splits)
  then have "r = ?f prior" "checks_pass (?f prior)" "replaces (ks_workspace v) (?f prior) d d'"
    using change_control_cases [where f = ?f, of "ks_workspace v" "ct_revision prior" d "Some r" d' prior] assms(2,3)
    by (auto simp: control_ok_def)
  moreover have "control_row_ok prior" using assms(2,3) rows_okD by (auto simp: control_ok_def)
  moreover have "same_binding prior (?f prior)" by (simp add: same_binding_def)
  ultimately show ?thesis using gate qual channels_row_ok [of "?f prior" prior] by simp
qed

lemma channels_body_cases:
  assumes "channels_body v q k t d = Inr (res, d')" "control_ok d"
  obtains prior p r where "control_of (ks_workspace v) d = Some prior" "consult (ks_workspace v) ''admin_ai_channels'' t d = Inr (Some p)"
      "channel_replay prior p = Inr r" "res = Inr r" "d' = d"
  | prior r d1 d2 where "control_of (ks_workspace v) d = Some prior" "consult (ks_workspace v) ''admin_ai_channels'' t d = Inr None"
      "ct_revision prior = kr_expected q" "res = Inr r" "channel_decision v q k prior d = Inr (Inr r, d1)"
      "append_audit (channels_audit v q k prior r) d1 = Inr d2"
      "remember v ''admin_ai_channels'' t (kt_receipt_id k) 200 (control_projection r ''succeeded'' None) (kt_now k) d2 = Inr d'"
  | prior e where "control_of (ks_workspace v) d = Some prior" "consult (ks_workspace v) ''admin_ai_channels'' t d = Inr None"
      "ct_revision prior = kr_expected q" "res = Inl e" "channel_decision v q k prior d = Inr (Inl e, d)"
      "remember v ''admin_ai_channels'' t (kt_receipt_id k) (failure_status (deferred_code e))
        (control_projection prior ''failed'' (Some (deferred_code e))) (kt_now k) d = Inr d'"
proof -
  obtain prior found where lock: "control_of (ks_workspace v) d = Some prior"
    and con: "consult (ks_workspace v) ''admin_ai_channels'' t d = Inr found"
    and rest: "(case found of Some p \<Rightarrow> ebind (channel_replay prior p) (\<lambda>r. Inr (Inr r, d))
       | None \<Rightarrow>
         ebind (ensure (ct_revision prior = kr_expected q) AIStateConflict) (\<lambda>_.
         ebind (channel_decision v q k prior d) (\<lambda>(res, d1).
           case res of
             Inr r \<Rightarrow>
               ebind (append_audit (channels_audit v q k prior r) d1) (\<lambda>d2.
               ebind (remember v ''admin_ai_channels'' t (kt_receipt_id k) 200 (control_projection r ''succeeded'' None)
                        (kt_now k) d2) (\<lambda>d3. Inr (Inr r, d3)))
           | Inl e \<Rightarrow>
               ebind (remember v ''admin_ai_channels'' t (kt_receipt_id k) (failure_status (deferred_code e))
                        (control_projection prior ''failed'' (Some (deferred_code e))) (kt_now k) d1) (\<lambda>d2.
               Inr (Inl e, d2))))) = Inr (res, d')"
    using assms(1) by (auto simp: channels_body_def ebind_eq_Inr dest!: lock_controlD)
  show thesis
  proof (cases found)
    case (Some p)
    then show thesis using that(1) [OF lock] con rest by (auto simp: ebind_eq_Inr)
  next
    case None
    then obtain x d1 where dec: "channel_decision v q k prior d = Inr (x, d1)" and rev: "ct_revision prior = kr_expected q"
      using rest by (auto simp: ebind_eq_Inr)
    show thesis
    proof (cases x)
      case (Inl e)
      then have "d1 = d" using dec channel_decision_failed by blast
      then show thesis using that(3) [OF lock] con rest None dec rev Inl by (auto simp: ebind_eq_Inr)
    next
      case (Inr r)
      then show thesis using that(2) [OF lock] con rest None dec rev by (auto simp: ebind_eq_Inr)
    qed
  qed
qed

lemma channels_body_ok:
  assumes "channels_body v q k t d = Inr (res, d')" "control_ok d"
  shows "control_ok d'"
  using assms
proof (cases rule: channels_body_cases)
  case 1
  then show ?thesis using assms(2) by simp
next
  case (2 prior r d1 d2)
  note ch = channel_decision_changed [OF 2(5) assms(2) 2(1)]
  have "control_ok d2 \<and> control_of (ks_workspace v) d2 = Some r"
    using change_ok [of "ks_workspace v" r d d1 "channels_audit v q k prior r" d2 prior] ch 2(1,6) assms(2)
      same_bindingD [of prior r] by (simp add: channels_audit_def)
  then show ?thesis using remember_ok [OF 2(7)] ch by (auto simp: receipt_result_def kept_in_def)
next
  case (3 prior e)
  have "control_row_ok prior" using assms(2) 3(1) rows_okD by (auto simp: control_ok_def)
  moreover have "deferred_code e \<in> set channel_codes"
    using channel_decision_failed [OF 3(5)] by (auto simp: deferred_code_def channel_codes_def)
  ultimately show ?thesis using remember_ok [OF 3(6) assms(2)] 3(1) by (auto simp: receipt_result_def kept_in_def)
qed

end
