(* ===== verification/AIControlHistories.thy ===== *)
theory AIControlHistories
  imports AIControlState
begin

text \<open>
  Histories of the control tables: reads, changes of the channels and rotations of the key in any
  order, each transaction with its own inputs and fate. Every history keeps the invariant, the audit
  log and the receipts only grow, and a request that has its receipt is answered from it for good.
\<close>

section \<open>Rotations keep the invariant\<close>

lemma note_failure_ok:
  assumes "note_failure v q k t prior code d = Inr (u, d')" "control_ok d" "control_of (ks_workspace (rs_control v)) d = Some prior"
  shows "control_ok d' \<and> kd_controls d' = kd_controls d"
proof -
  obtain d1 where a: "append_audit (rotation_audit v q k (Some code) (ct_revision prior) (ct_revision prior)) d = Inr d1"
    and r: "remember (rs_control v) ''admin_ai_key_rotation'' t (rt_receipt_id k) (failure_status code)
              (control_projection prior ''failed'' (Some code)) (rt_now k) d1 = Inr d'"
    using assms(1) by (auto simp: note_failure_def ebind_eq_Inr)
  have 1: "control_ok d1 \<and> kd_controls d1 = kd_controls d \<and> kd_receipts d1 = kd_receipts d"
    by (rule failed_event_ok [OF a assms(2)]) (simp add: rotation_audit_def)
  then have "control_of (ks_workspace (rs_control v)) d1 = Some prior" using assms(3) by (simp add: control_of_def)
  moreover have "control_row_ok prior" using assms(2,3) rows_okD by (auto simp: control_ok_def)
  ultimately show ?thesis using remember_ok [OF r] 1 by (auto simp: receipt_result_def kept_in_def)
qed

lemma bind_candidate_ok:
  assumes "bind_candidate v q k t prior version d = Inr (r, d')" "control_ok d"
    "control_of (ks_workspace (rs_control v)) d = Some prior" "is_datetime (rt_now k)"
  shows "control_ok d' \<and> control_of (ks_workspace (rs_control v)) d' = Some r \<and> has_verified_binding r
    \<and> (\<forall>u. u \<noteq> ks_workspace (rs_control v) \<longrightarrow> control_of u d' = control_of u d)
    \<and> r = prior\<lparr>ct_key_name := Some (rs_key_name v), ct_key_version := Some version,
       ct_key_reference := Some (rs_key_name v @ ''/'' @ version), ct_fingerprint := Some (rs_fingerprint v (rq_candidate q)),
       ct_verified_at := Some (rt_now k), ct_validation := ''verified'', ct_revision := ct_revision prior + 1,
       ct_updated_by := Some (oa_id (rq_principal q)), ct_updated_at := rt_now k\<rparr>"
proof -
  let ?ws = "ks_workspace (rs_control v)"
  let ?f = "\<lambda>r. r\<lparr>ct_key_name := Some (rs_key_name v), ct_key_version := Some version,
       ct_key_reference := Some (rs_key_name v @ ''/'' @ version), ct_fingerprint := Some (rs_fingerprint v (rq_candidate q)),
       ct_verified_at := Some (rt_now k), ct_validation := ''verified'', ct_revision := ct_revision r + 1,
       ct_updated_by := Some (oa_id (rq_principal q)), ct_updated_at := rt_now k\<rparr>"
  let ?r = "?f prior"
  obtain d1 d2 where act: "change_control ?ws (ct_revision prior) ?f d = Inr (Some r, d1)"
    and aud: "append_audit (rotation_audit v q k None (ct_revision prior) (ct_revision r)) d1 = Inr d2"
    and rem: "remember (rs_control v) ''admin_ai_key_rotation'' t (rt_receipt_id k) 200
        (control_projection r ''succeeded'' None) (rt_now k) d2 = Inr d'"
    using assms(1) by (auto simp: bind_candidate_def activate_key_def ebind_eq_Inr split: option.splits)
  have r: "r = ?r" "checks_pass ?r" "replaces ?ws ?r d d1"
    using change_control_cases [OF act _ assms(3)] assms(2) by (auto simp: control_ok_def)
  have ok: "control_row_ok ?r \<and> has_verified_binding ?r" by (rule activated_ok [OF r(2)]) (use assms(4) in auto)
  have d2: "control_ok d2 \<and> control_of ?ws d2 = Some ?r \<and> kd_controls d2 = kd_controls d1"
    using change_ok [OF r(3) aud [unfolded r(1)] assms(2,3)] ok by (simp add: rotation_audit_def)
  then have d': "control_ok d' \<and> kd_controls d' = kd_controls d2 \<and> control_of ?ws d2 = Some ?r"
    using remember_ok [OF rem [unfolded r(1)]] ok by (auto simp: receipt_result_def kept_in_def)
  moreover have "control_of u d' = control_of u d" if "u \<noteq> ?ws" for u
    using r(3) d2 d' that by (simp add: replaces_def control_of_def)
  ultimately show ?thesis using r(1) ok by (simp add: control_of_def)
qed

lemma rotation_guardD:
  assumes "rotation_guard v q k t d = Inr x"
  obtains prior where "control_of (ks_workspace (rs_control v)) d = Some prior" "\<not> rt_busy k"
    "x = Inr prior \<and> ct_revision prior = rq_expected q
       \<and> consult (ks_workspace (rs_control v)) ''admin_ai_key_rotation'' t d = Inr None
     \<or> (\<exists>p r. x = Inl r \<and> consult (ks_workspace (rs_control v)) ''admin_ai_key_rotation'' t d = Inr (Some p)
         \<and> rotation_replay prior p = Inr r)"
  using assms by (auto simp: rotation_guard_def ebind_eq_Inr split: option.splits dest!: lock_controlD)

text \<open>What rereading does to the tables is what a read of the control row does.\<close>

lemma reread_ok: "control_ok d \<Longrightarrow> control_ok (snd (reread v k prior version fp d))"
  using get_or_create_ok [of d]
  by (auto simp: reread_def run_uow_def get_control_def split: fault.splits prod.splits)

lemma rotate_locked_ok:
  assumes "control_ok d" "is_datetime (rt_now k)" "rotate_locked v q k id t d = (res, sent, d')"
  shows "control_ok d'"
proof (cases "rotation_guard v q k t d")
  case (Inl e)
  then show ?thesis using assms(1,3) by (simp add: rotate_locked_def)
next
  case (Inr x)
  then obtain prior where prior: "control_of (ks_workspace (rs_control v)) d = Some prior"
    and x: "x = Inr prior \<or> (\<exists>r. x = Inl r)" by (rule rotation_guardD) blast
  show ?thesis
  proof (cases x)
    case (Inl r)
    then show ?thesis using assms(1,3) Inr by (simp add: rotate_locked_def)
  next
    case (Inr y)
    then have g: "rotation_guard v q k t d = Inr (Inr prior)" using \<open>rotation_guard v q k t d = Inr x\<close> x by auto
    let ?p = "probe_candidate q k prior"
    show ?thesis
    proof (cases "pb_failure ?p")
      case (Some code)
      then obtain final where "d' = snd (run_uow (rt_fault k) (note_failure v q k t prior final) d)"
        using assms(3) g Some by (cases "probe_failed k ?p code") (auto simp: rotate_locked_def end_failed_def split: prod.splits, metis snd_conv)
      then show ?thesis using run_uow_state [of "rt_fault k" "note_failure v q k t prior final" d]
          note_failure_ok [OF _ assms(1) prior] assms(1) by metis
    next
      case None
      let ?body = "bind_candidate v q k t prior (the (pb_version ?p))"
      obtain out d1 where run: "run_uow (rt_fault k) ?body d = (out, d1)" by fastforce
      have ok1: "control_ok d1" using run_uow_state [of "rt_fault k" ?body d] run
          bind_candidate_ok [OF _ assms(1) prior assms(2)] assms(1) by (metis prod.collapse snd_conv)
      have "d' = d1 \<or> (\<exists>version fp. d' = snd (reread v k prior version fp d1))"
        using assms(3) g None run
        by (auto simp: rotate_locked_def end_verified_def Let_def split: prod.splits outcome.splits control_error.splits reconciliation.splits)
          (metis snd_conv)+
      then show ?thesis using ok1 reread_ok by blast
    qed
  qed
qed

section \<open>Histories\<close>

datatype control_event =
    Look control_service time fault
  | Channels control_service channel_request channel_tick ticket
  | Rotate rotation_service rotation_request rotation_tick ticket

primrec event_time :: "control_event \<Rightarrow> time" where
  "event_time (Look v now flt) = now"
| "event_time (Channels v q k t) = kt_now k"
| "event_time (Rotate v q k t) = rt_now k"

primrec control_step :: "control_event \<Rightarrow> control_db \<Rightarrow> control_db" where
  "control_step (Look v now flt) d = snd (run_uow flt (\<lambda>d. Inr (get_control v now d) :: control_error + _) d)"
| "control_step (Channels v q k t) d = snd (run_uow (kt_fault k) (channels_body v q k t) d)"
| "control_step (Rotate v q k t) d = snd (snd (rotate_locked v q k id t d))"

text \<open>The clock gives datetimes of Python, from year 1 to 9999; other numbers are no events.\<close>

definition timed_step :: "control_event \<Rightarrow> control_db \<Rightarrow> control_db" where
  "timed_step e d = (if is_datetime (event_time e) then control_step e d else d)"

lemma control_step_ok:
  assumes "control_ok d" "is_datetime (event_time e)"
  shows "control_ok (control_step e d)"
proof (cases e)
  case (Look v now flt)
  then show ?thesis using assms(1) get_or_create_ok [OF assms(1)]
    by (auto simp: run_uow_def get_control_def split: fault.splits prod.splits)
next
  case (Channels v q k t)
  then show ?thesis using run_uow_state [of "kt_fault k" "channels_body v q k t" d] channels_body_ok [OF _ assms(1)] assms(1)
    by (metis control_step.simps(2))
next
  case (Rotate v q k t)
  then show ?thesis using rotate_locked_ok [OF assms(1), of k v q t] assms(2)
    by (metis control_step.simps(3) event_time.simps(3) prod.collapse)
qed

lemma timed_step_ok: "control_ok d \<Longrightarrow> control_ok (timed_step e d)"
  by (simp add: timed_step_def control_step_ok)

section \<open>What only adds_to\<close>

definition adds_to :: "control_db \<Rightarrow> control_db \<Rightarrow> bool" where
  "adds_to d d' \<longleftrightarrow> (\<exists>xs. kd_receipts d' = kd_receipts d @ xs) \<and> (\<exists>ys. kd_audit d' = kd_audit d @ ys)"

lemma adds_to_refl [simp]: "adds_to d d"
  by (simp add: adds_to_def)

lemma adds_to_trans: "adds_to d e \<Longrightarrow> adds_to e f \<Longrightarrow> adds_to d f"
  by (auto simp: adds_to_def)

lemma append_audit_grows: "append_audit e d = Inr d' \<Longrightarrow> adds_to d d'"
  by (auto simp: append_audit_def adds_to_def split: if_splits)

lemma remember_grows: "remember v oper t rid st p now d = Inr d' \<Longrightarrow> adds_to d d'"
  by (auto simp: remember_def record_succeeded_def adds_to_def split: if_splits option.splits prod.splits)

lemma change_grows: "change_control ws k f d = Inr (x, d') \<Longrightarrow> adds_to d d'"
  by (auto simp: change_control_def adds_to_def split: if_splits option.splits)

lemma get_grows: "get_or_create ws now d = (r, d') \<Longrightarrow> adds_to d d'"
  by (auto simp: get_or_create_def adds_to_def split: option.splits)

lemma channels_body_grows:
  assumes "channels_body v q k t d = Inr (res, d')" "control_ok d"
  shows "adds_to d d'"
  using assms
proof (cases rule: channels_body_cases)
  case 1
  then show ?thesis by simp
next
  case (2 prior r d1 d2)
  have "adds_to d d1" using channel_decision_changed [OF 2(5) assms(2) 2(1)] by (auto simp: replaces_def adds_to_def)
  then show ?thesis by (rule adds_to_trans [OF _ adds_to_trans [OF append_audit_grows [OF 2(6)] remember_grows [OF 2(7)]]])
next
  case 3
  show ?thesis by (rule remember_grows [OF 3(6)])
qed

lemma rotate_locked_grows: "adds_to d (snd (snd (rotate_locked v q k id t d)))"
proof -
  have noted: "note_failure v q k t prior code d = Inr (u, d') \<Longrightarrow> adds_to d d'" for prior code u d'
    by (auto simp: note_failure_def ebind_eq_Inr dest!: append_audit_grows remember_grows) (erule adds_to_trans, assumption)
  have bind: "adds_to d d'" if bound: "bind_candidate v q k t prior version d = Inr (r, d')" for prior version r d'
  proof -
    obtain x d1 d2 e where "activate_key (ks_workspace (rs_control v)) (ct_revision prior) (rs_key_name v) version
        (rs_fingerprint v (rq_candidate q)) (oa_id (rq_principal q)) (rt_now k) d = Inr (x, d1)"
      and 2: "append_audit e d1 = Inr d2"
      and 3: "remember (rs_control v) ''admin_ai_key_rotation'' t (rt_receipt_id k) 200 (control_projection r ''succeeded'' None) (rt_now k) d2 = Inr d'"
      using bound by (auto simp: bind_candidate_def ebind_eq_Inr split: option.splits)
    then have "adds_to d d1" unfolding activate_key_def by (blast dest: change_grows)
    then show ?thesis by (rule adds_to_trans [OF _ adds_to_trans [OF append_audit_grows [OF 2] remember_grows [OF 3]]])
  qed
  have run: "run_uow flt body d = (out, d') \<Longrightarrow> (\<And>a d'. body d = Inr (a, d') \<Longrightarrow> adds_to d d') \<Longrightarrow> adds_to d d'"
    for flt and body :: "control_db \<Rightarrow> control_error + ('z \<times> control_db)" and out d'
    by (auto simp: run_uow_def split: sum.splits fault.splits)
  have again: "adds_to d' (snd (reread v k prior version fp d'))" for prior version fp d'
    by (auto simp: reread_def run_uow_def get_control_def split: fault.splits prod.splits intro: get_grows)
  have failed: "adds_to d (snd (snd (end_failed v q k t prior p code d)))" for prior p code
    by (auto simp: end_failed_def split: prod.splits intro: run noted)
  have verified: "adds_to d (snd (snd (end_verified v q k id t prior p d)))" for prior p
  proof -
    obtain out d1 where r: "run_uow (rt_fault k) (bind_candidate v q k t prior (the (pb_version p))) d = (out, d1)" by fastforce
    then have g: "adds_to d d1" by (rule run) (rule bind)
    moreover have "adds_to d (snd (reread v k prior (the (pb_version p)) (rs_fingerprint v (rq_candidate q)) d1))"
      using g again adds_to_trans by blast
    ultimately show ?thesis using r
      by (auto simp: end_verified_def Let_def split: prod.splits outcome.splits control_error.splits reconciliation.splits)
  qed
  show ?thesis using failed verified by (auto simp: rotate_locked_def Let_def split: sum.splits option.splits)
qed

lemma timed_step_grows: "control_ok d \<Longrightarrow> adds_to d (timed_step e d)"
proof (cases e)
  case (Look v now flt)
  then show ?thesis
    by (auto simp: timed_step_def run_uow_def get_control_def split: fault.splits prod.splits intro: get_grows)
next
  case (Channels v q k t)
  assume "control_ok d"
  then show ?thesis using Channels run_uow_state [of "kt_fault k" "channels_body v q k t" d] channels_body_grows
    by (metis control_step.simps(2) adds_to_refl timed_step_def)
next
  case (Rotate v q k t)
  then show ?thesis using rotate_locked_grows by (simp add: timed_step_def)
qed

text \<open>No row disappears, no revision goes back, and a key once bound stays bound or is replaced.\<close>

definition keeps :: "control_db \<Rightarrow> control_db \<Rightarrow> bool" where
  "keeps d d' \<longleftrightarrow> (\<forall>ws s. control_of ws d = Some s \<longrightarrow> (\<exists>s'. control_of ws d' = Some s'
     \<and> ct_revision s \<le> ct_revision s' \<and> (has_verified_binding s \<longrightarrow> has_verified_binding s')))"

lemma keeps_refl [simp]: "keeps d d"
  by (simp add: keeps_def)

lemma keeps_trans: "keeps d e \<Longrightarrow> keeps e f \<Longrightarrow> keeps d f"
  unfolding keeps_def by (meson order_trans)

lemma keeps_same: "kd_controls d' = kd_controls d \<Longrightarrow> keeps d d'"
  by (simp add: keeps_def control_of_def)

lemma get_keeps: "control_ok d \<Longrightarrow> get_or_create ws now d = (r, d') \<Longrightarrow> keeps d d'"
  using get_or_create_ok [of d ws now r d'] by (auto simp: keeps_def)

lemma channels_body_keeps:
  assumes "channels_body v q k t d = Inr (res, d')" "control_ok d"
  shows "keeps d d'"
  using assms
proof (cases rule: channels_body_cases)
  case 1
  then show ?thesis by simp
next
  case (2 prior r d1 d2)
  note ch = channel_decision_changed [OF 2(5) assms(2) 2(1)]
  have "kd_controls d2 = kd_controls d1" using 2(6) by (auto simp: append_audit_def split: if_splits)
  moreover have "kd_controls d' = kd_controls d2"
    using 2(7) by (auto simp: remember_def record_succeeded_def split: if_splits option.splits prod.splits)
  ultimately have "control_of u d' = control_of u d1" for u by (simp add: control_of_def)
  moreover have "control_of u d1 = (if u = ks_workspace v then Some r else control_of u d)" for u
    using ch by (auto simp: replaces_def)
  ultimately show ?thesis using ch 2(1) same_bindingD [of prior r] by (auto simp: keeps_def)
next
  case 3
  have "kd_controls d' = kd_controls d"
    using 3(6) by (auto simp: remember_def record_succeeded_def split: if_splits option.splits prod.splits)
  then show ?thesis by (rule keeps_same)
qed

lemma reread_keeps: "control_ok d \<Longrightarrow> keeps d (snd (reread v k prior version fp d))"
  by (auto simp: reread_def run_uow_def get_control_def split: fault.splits prod.splits intro: get_keeps)

lemma rotate_locked_keeps:
  assumes "control_ok d" "is_datetime (rt_now k)"
  shows "keeps d (snd (snd (rotate_locked v q k id t d)))"
proof (cases "\<exists>prior. rotation_guard v q k t d = Inr (Inr prior)")
  case False
  then show ?thesis by (auto simp: rotate_locked_def split: sum.splits)
next
  case True
  then obtain prior where g: "rotation_guard v q k t d = Inr (Inr prior)" by blast
  then have prior: "control_of (ks_workspace (rs_control v)) d = Some prior" by (rule rotation_guardD) auto
  have noted: "keeps d d'" if "run_uow flt (note_failure v q k t prior code) d = (out, d')" for flt code out d'
    using that note_failure_ok [OF _ assms(1) prior] by (auto simp: run_uow_def split: sum.splits fault.splits intro: keeps_same)
  have failed: "keeps d (snd (snd (end_failed v q k t prior p code d)))" for p code
    by (auto simp: end_failed_def split: prod.splits intro: noted)
  have verified: "keeps d (snd (snd (end_verified v q k id t prior p d)))" for p
  proof -
    let ?body = "bind_candidate v q k t prior (the (pb_version p))"
    obtain out d1 where r: "run_uow (rt_fault k) ?body d = (out, d1)" by fastforce
    have "d1 = d \<or> (\<exists>s. ?body d = Inr (s, d1))" using run_uow_state [of "rt_fault k" ?body d] r by simp
    then have "control_ok d1 \<and> keeps d d1"
    proof
      assume "\<exists>s. ?body d = Inr (s, d1)"
      then obtain s where "?body d = Inr (s, d1)" by blast
      note b = bind_candidate_ok [OF this assms(1) prior assms(2)]
      have "control_of u d1 = (if u = ks_workspace (rs_control v) then Some s else control_of u d)" for u using b by auto
      then show ?thesis using b prior by (auto simp: keeps_def)
    qed (use assms(1) in simp)
    moreover from this have "keeps d (snd (reread v k prior (the (pb_version p)) (rs_fingerprint v (rq_candidate q)) d1))"
      using reread_keeps keeps_trans by blast
    ultimately show ?thesis using r
      by (auto simp: end_verified_def Let_def split: prod.splits outcome.splits control_error.splits reconciliation.splits)
  qed
  show ?thesis using g failed verified by (auto simp: rotate_locked_def Let_def split: option.splits)
qed

lemma timed_step_keeps:
  assumes "control_ok d"
  shows "keeps d (timed_step e d)"
proof (cases e)
  case (Look v now flt)
  then show ?thesis using get_keeps [OF assms]
    by (auto simp: timed_step_def run_uow_def get_control_def split: fault.splits prod.splits)
next
  case (Channels v q k t)
  then show ?thesis using run_uow_state [of "kt_fault k" "channels_body v q k t" d] channels_body_keeps [OF _ assms]
    by (metis control_step.simps(2) keeps_refl timed_step_def)
next
  case (Rotate v q k t)
  then show ?thesis using rotate_locked_keeps [OF assms] by (simp add: timed_step_def)
qed

interpretation control: ordered_machine timed_step control_ok "\<lambda>d d'. adds_to d d' \<and> keeps d d'"
  by unfold_locales (auto intro: timed_step_ok timed_step_grows timed_step_keeps, (blast dest: adds_to_trans keeps_trans)+)

lemmas control_reachable = control.run_inv [OF control_ok_empty]

end
