(* ===== verification/AdminAI.thy ===== *)
theory AdminAI
  imports AIControlHistories ChatProcess
begin

text \<open>
  What the administrator's control guarantees: rows whose checks hold, a log that replays to the
  state, receipts that answer a repeated request for good, rotations that bind only what was written
  and read back, and the gate the channels are for the questions of the assistant.
\<close>

section \<open>Rows and receipts\<close>

lemma sql_definite:
  assumes "control_row_ok r"
  shows "sql_key_binding r = Some True \<and> sql_enabled r = Some True"
proof (cases "unbound r")
  case True
  then have "\<not> ct_operator_on r \<and> \<not> ct_demo_on r" using assms by (simp add: control_row_ok_def)
  then show ?thesis using True
    by (simp add: unbound_def sql_key_binding_def sql_enabled_def sql_any_def sql_all_def)
next
  case False
  then have v: "has_verified_binding r" "checks_pass r" using assms by (simp_all add: control_row_ok_def)
  then obtain n w fp t where r: "ct_key_name r = Some n" "ct_key_version r = Some w" "ct_fingerprint r = Some fp"
    "ct_key_reference r = Some (n @ ''/'' @ w)" "ct_verified_at r = Some t" "ct_validation r = ''verified''" "is_fingerprint fp"
    by (auto simp: has_verified_binding_def split: option.splits)
  then show ?thesis using v(2)
    by (auto simp: checks_pass_def sql_key_binding_def sql_enabled_def sql_any_def sql_all_def sql_reference_def split: if_splits)
qed

lemma jget_control_projection:
  "jget (control_projection s res code) ''result'' = JStr res"
  "jget (control_projection s res code) ''error_code'' = json_opt_string code"
  "jget (control_projection s res code) ''revision'' = JInt (ct_revision s)"
  "jget (control_projection s res code) ''operator_enabled'' = JBool (ct_operator_on s)"
  "jget (control_projection s res code) ''demo_enabled'' = JBool (ct_demo_on s)"
  "jget (control_projection s res code) ''credential_configured'' = JBool (is_configured s)"
  "jget (control_projection s res code) ''key_fingerprint'' = (if is_configured s then json_opt_string (ct_fingerprint s) else JNull)"
  "jget (control_projection s res code) ''verified_at''
     = (if is_configured s then json_opt_string (map_option time_isoformat (ct_verified_at s)) else JNull)"
  by (simp_all add: control_projection_def jget_def)

lemma replay_unbound:
  assumes "control_row_ok s" "\<not> has_verified_binding s"
  obtains r where "replay_control_projection cur (control_projection s res code) = Some r" "unbound r"
    "ct_revision r = ct_revision s" "ct_operator_on r = ct_operator_on s" "ct_demo_on r = ct_demo_on s" "cur = s \<longrightarrow> r = s"
proof -
  have "\<not> is_configured s" "unbound s" using assms control_row_ok_configured by (auto simp: control_row_ok_def split: if_splits)
  then show thesis using that by (simp add: replay_control_projection_def jget_control_projection unbound_def)
qed

lemma replay_bound:
  assumes "control_row_ok s" "has_verified_binding s" "has_verified_binding cur"
  obtains r where "replay_control_projection cur (control_projection s res code) = Some r" "has_verified_binding r"
    "ct_revision r = ct_revision s" "ct_operator_on r = ct_operator_on s" "ct_demo_on r = ct_demo_on s"
    "ct_fingerprint r = ct_fingerprint s" "ct_verified_at r = ct_verified_at s" "cur = s \<longrightarrow> r = s"
proof -
  obtain fp t where s: "ct_fingerprint s = Some fp" "ct_verified_at s = Some t" "is_fingerprint fp" "ct_validation s = ''verified''"
    using assms(2) by (auto simp: has_verified_binding_def split: option.splits)
  obtain n w where cur: "ct_key_name cur = Some n" "ct_key_version cur = Some w" "n \<noteq> []" "w \<noteq> []"
    "ct_key_reference cur = Some (n @ ''/'' @ w)"
    using assms(3) by (auto simp: has_verified_binding_def split: option.splits)
  have "is_datetime t" using assms(1,2) s(2) unbound_not_verified by (auto simp: control_row_ok_def split: if_splits)
  then have t: "time_fromisoformat (time_isoformat t) = Some t" by (rule parse_time_isoformat)
  have len: "length fp = 64" using s(3) by (simp add: is_fingerprint_def)
  let ?r = "cur\<lparr>ct_revision := ct_revision s, ct_operator_on := ct_operator_on s, ct_demo_on := ct_demo_on s,
      ct_fingerprint := Some fp, ct_verified_at := Some t, ct_validation := ''verified''\<rparr>"
  have "replay_control_projection cur (control_projection s res code) = Some ?r"
    using verified_configured [OF assms(2)] s cur t len
    by (simp add: replay_control_projection_def jget_control_projection json_opt_string_def)
  moreover have "has_verified_binding ?r" using cur s by (simp add: has_verified_binding_def)
  moreover have "cur = s \<longrightarrow> ?r = s" using s by (auto simp del: control_row.update_convs intro!: control_row.equality)
  ultimately show thesis using that s by simp
qed

lemma project_bound: "has_verified_binding r \<Longrightarrow> has_verified_binding s \<Longrightarrow> ct_revision r = ct_revision s
    \<Longrightarrow> ct_operator_on r = ct_operator_on s \<Longrightarrow> ct_demo_on r = ct_demo_on s \<Longrightarrow> ct_fingerprint r = ct_fingerprint s
    \<Longrightarrow> ct_verified_at r = ct_verified_at s \<Longrightarrow> project_ai_control r = project_ai_control s
      \<and> control_projection r res code = control_projection s res code"
  by (simp add: project_ai_control_def control_projection_def verified_configured)

lemma project_unbound: "unbound r \<Longrightarrow> \<not> has_verified_binding s \<Longrightarrow> \<not> is_configured s \<Longrightarrow> ct_revision r = ct_revision s
    \<Longrightarrow> ct_operator_on r = ct_operator_on s \<Longrightarrow> ct_demo_on r = ct_demo_on s \<Longrightarrow> project_ai_control r = project_ai_control s
      \<and> control_projection r res code = control_projection s res code"
  using unbound_not_verified by (simp add: project_ai_control_def control_projection_def)

lemma replay_row:
  assumes "control_row_ok s" "has_verified_binding s \<longrightarrow> has_verified_binding cur"
  shows "\<exists>r. replay_control_projection cur (control_projection s res code) = Some r \<and> project_ai_control r = project_ai_control s
    \<and> control_projection r res code = control_projection s res code \<and> (cur = s \<longrightarrow> r = s)"
proof (cases "has_verified_binding s")
  case True
  then have "has_verified_binding cur" using assms(2) by simp
  then obtain r where "replay_control_projection cur (control_projection s res code) = Some r" "has_verified_binding r"
    "ct_revision r = ct_revision s" "ct_operator_on r = ct_operator_on s" "ct_demo_on r = ct_demo_on s"
    "ct_fingerprint r = ct_fingerprint s" "ct_verified_at r = ct_verified_at s" "cur = s \<longrightarrow> r = s"
    by (rule replay_bound [OF assms(1) True])
  then show ?thesis using project_bound [of r s] True by simp
next
  case False
  then obtain r where "replay_control_projection cur (control_projection s res code) = Some r" "unbound r"
    "ct_revision r = ct_revision s" "ct_operator_on r = ct_operator_on s" "ct_demo_on r = ct_demo_on s" "cur = s \<longrightarrow> r = s"
    by (rule replay_unbound [OF assms(1)])
  then show ?thesis using project_unbound [of r s] False control_row_ok_configured [OF assms(1)] by simp
qed

section \<open>Repeated requests\<close>

text \<open>The answer a receipt holds, read off its projection alone.\<close>

definition recorded_reply :: "projection \<Rightarrow> string + ai_projection" where
  "recorded_reply p =
     (if jget p ''result'' = JStr ''failed''
      then Inl (case jget p ''error_code'' of JStr c \<Rightarrow> c | _ \<Rightarrow> ''ADMIN_AI_STATE_CONFLICT'')
      else Inr \<lparr>vr_revision = (case jget p ''revision'' of JInt k \<Rightarrow> k | _ \<Rightarrow> 0),
        vr_operator_on = (jget p ''operator_enabled'' = JBool True), vr_demo_on = (jget p ''demo_enabled'' = JBool True),
        vr_configured = (jget p ''credential_configured'' = JBool True),
        vr_fingerprint = (case jget p ''key_fingerprint'' of JStr f \<Rightarrow> Some (take 8 f) | _ \<Rightarrow> None),
        vr_verified_at = (case jget p ''verified_at'' of JStr x \<Rightarrow> time_fromisoformat x | _ \<Rightarrow> None)\<rparr>)"

lemma recorded_success: "control_row_ok s \<Longrightarrow> recorded_reply (control_projection s ''succeeded'' None) = Inr (project_ai_control s)"
proof -
  assume ok: "control_row_ok s"
  show ?thesis
  proof (cases "has_verified_binding s")
    case True
    then obtain fp t where s: "ct_fingerprint s = Some fp" "ct_verified_at s = Some t"
      by (auto simp: has_verified_binding_def split: option.splits)
    moreover have "is_datetime t" using ok True s(2) unbound_not_verified by (auto simp: control_row_ok_def split: if_splits)
    ultimately show ?thesis using True verified_configured [OF True]
      by (simp add: recorded_reply_def jget_control_projection project_ai_control_def json_opt_string_def parse_time_isoformat)
  next
    case False
    then show ?thesis using control_row_ok_configured [OF ok]
      by (simp add: recorded_reply_def jget_control_projection project_ai_control_def)
  qed
qed

lemma recorded_failure: "recorded_reply (control_projection s ''failed'' (Some c)) = Inl c"
  by (simp add: recorded_reply_def jget_control_projection json_opt_string_def)

lemma channel_replay_reply:
  assumes "control_row_ok s" "receipt_result ''admin_ai_channels'' res code" "has_verified_binding s \<longrightarrow> has_verified_binding cur"
  shows "channels_reply (channel_replay cur (control_projection s res code)) = recorded_reply (control_projection s res code)
    \<and> (channel_replay cur (control_projection s res code) = Inl e \<longrightarrow> e = AIControlUnavailable \<or> (\<exists>c. e = AIControlAvailabilityFailed c))"
proof -
  from assms(2) consider "res = ''succeeded''" "code = None"
    | c where "res = ''failed''" "code = Some c" "c \<in> set channel_codes" by (auto simp: receipt_result_def)
  then show ?thesis
  proof cases
    case 1
    then show ?thesis using replay_row [OF assms(1,3), of res code] recorded_success [OF assms(1)]
      by (auto simp: channel_replay_def jget_control_projection channels_reply_def)
  next
    case 2
    then show ?thesis
      by (auto simp: channel_replay_def jget_control_projection json_opt_string_def channels_reply_def recorded_failure
          channel_codes_def reply_code_def known_codes_def)
  qed
qed

text \<open>A request with a key that nothing disturbs, and what its receipt says.\<close>

definition lasting :: "control_error \<Rightarrow> bool" where
  "lasting e \<longleftrightarrow> (case e of AIControlUnavailable \<Rightarrow> True | AIControlAvailabilityFailed _ \<Rightarrow> True | _ \<Rightarrow> False)"

definition channels_answer :: "(control_error, control_error + control_row) outcome \<Rightarrow> (control_error, string + ai_projection) outcome" where
  "channels_answer out = (case out of
     Returned res \<Rightarrow> Returned (channels_reply res)
   | Raised e \<Rightarrow> if lasting e then Returned (Inl (reply_code e)) else Raised e
   | ConnectionLost \<Rightarrow> ConnectionLost)"

type_synonym keyed_request = "control_service \<times> channel_request \<times> digest \<times> digest"

fun channels_request :: "keyed_request \<Rightarrow> channel_tick \<Rightarrow> control_db \<Rightarrow> (control_error, string + ai_projection) outcome \<times> control_db" where
  "channels_request (v, q, kh, rh) k d =
     (case run_uow NoFault (channels_body v q (k\<lparr>kt_busy := False\<rparr>) (Some (kh, rh))) d of (out, d') \<Rightarrow> (channels_answer out, d'))"

fun channels_recorded :: "keyed_request \<Rightarrow> control_db \<Rightarrow> (string + ai_projection) option" where
  "channels_recorded (v, q, kh, rh) d = (case consult (ks_workspace v) ''admin_ai_channels'' (Some (kh, rh)) d of
     Inr (Some p) \<Rightarrow> Some (recorded_reply p) | _ \<Rightarrow> None)"

lemma consult_SomeD:
  assumes "consult ws oper t d = Inr (Some p)"
  obtains kh rh x where "t = Some (kh, rh)" "find_receipt ''workspace'' ws oper kh d = Some x" "ir_request_hash x = rh"
    "ir_outcome x = ''succeeded''" "ir_projection x = Some p"
  using assms by (auto simp: consult_def check_receipt_def replay_projection_def split: option.splits prod.splits if_splits)

lemma find_receiptD: "find_receipt st sid oper kh d = Some x \<Longrightarrow> x \<in> set (kd_receipts d) \<and> ir_scope_type x = st
    \<and> ir_scope_id x = sid \<and> ir_operation x = oper \<and> ir_key_hash x = kh"
  by (auto simp: find_receipt_def dest: select_one_SomeD)

lemma find_receipt_grows: "adds_to d d' \<Longrightarrow> find_receipt st sid oper kh d = Some x \<Longrightarrow> find_receipt st sid oper kh d' = Some x"
  by (auto simp: adds_to_def find_receipt_def select_one_append)

text \<open>A projection that is found comes from a row of the workspace, which still is there to replay it on.\<close>

lemma consult_receipt:
  assumes "control_ok d" "consult ws ''admin_ai_channels'' t d = Inr (Some p)"
  obtains cur s res code where "control_of ws d = Some cur" "p = control_projection s res code" "control_row_ok s"
    "receipt_result ''admin_ai_channels'' res code" "has_verified_binding s \<longrightarrow> has_verified_binding cur"
proof -
  from assms(2) obtain kh x where f: "find_receipt ''workspace'' ws ''admin_ai_channels'' kh d = Some x" and p: "ir_projection x = Some p"
    by (rule consult_SomeD) blast
  then have x: "x \<in> set (kd_receipts d)" "admin_receipt x" "ir_scope_id x = ws" "ir_operation x = ''admin_ai_channels''"
    using find_receiptD by (auto simp: admin_receipt_def)
  then have "receipt_ok d x" using assms(1) by (simp add: control_ok_def receipts_ok_def)
  then show thesis using that p x by (auto simp: receipt_ok_def kept_in_def)
qed

lemma replay_answers:
  assumes "control_ok d" "consult (ks_workspace v) ''admin_ai_channels'' (Some (kh, rh)) d = Inr (Some p)"
  shows "channels_request (v, q, kh, rh) k d = (Returned (recorded_reply p), d)"
proof -
  obtain cur s res code where c: "control_of (ks_workspace v) d = Some cur" "p = control_projection s res code" "control_row_ok s"
    "receipt_result ''admin_ai_channels'' res code" "has_verified_binding s \<longrightarrow> has_verified_binding cur"
    using consult_receipt [OF assms] by blast
  note reply = channel_replay_reply [OF c(3-5)]
  have body: "channels_body v q (k\<lparr>kt_busy := False\<rparr>) (Some (kh, rh)) d = ebind (channel_replay cur p) (\<lambda>r. Inr (Inr r, d))"
    using c(1) assms(2) by (simp add: channels_body_def lock_control_def)
  show ?thesis
  proof (cases "channel_replay cur p")
    case (Inl e)
    then have "lasting e" "Inl (reply_code e) = recorded_reply p"
      using reply [of e] c(2) by (auto simp: lasting_def channels_reply_def)
    then show ?thesis using body Inl by (simp add: run_uow_def channels_answer_def)
  next
    case (Inr r)
    then have "channels_reply (Inr r) = recorded_reply p" using reply c(2) by simp
    then show ?thesis using body Inr by (simp add: run_uow_def channels_answer_def)
  qed
qed

lemma remember_found:
  assumes "remember v oper (Some (kh, rh)) rid st p now d = Inr d'"
  shows "consult (ks_workspace v) oper (Some (kh, rh)) d' = Inr (Some p)"
proof -
  have "find_receipt ''workspace'' (ks_workspace v) oper kh d = None"
    and d': "d' = d\<lparr>kd_receipts := kd_receipts d @ [\<lparr>ir_id = rid, ir_scope_type = ''workspace'', ir_scope_id = ks_workspace v,
           ir_operation = oper, ir_key_hash = kh, ir_request_hash = rh, ir_status = Some st,
           ir_body_hash = Some (request_hash (ks_sha v) p), ir_projection = Some p, ir_outcome = ''succeeded'',
           ir_created_at = now, ir_expires_at = now + admin_idempotency_ttl\<rparr>]\<rparr>"
    using assms by (auto simp: remember_def record_succeeded_def split: if_splits)
  then show ?thesis
    by (simp add: consult_def check_receipt_def replay_projection_def find_receipt_def d' select_one_append select_one_single)
qed

lemma remember_effect:
  "remember v oper t rid st p now d = Inr d' \<Longrightarrow> kd_controls d' = kd_controls d \<and> kd_audit d' = kd_audit d
    \<and> (kd_receipts d' = kd_receipts d \<or> (\<exists>x. kd_receipts d' = kd_receipts d @ [x] \<and> ir_projection x = Some p))"
  by (auto simp: remember_def record_succeeded_def split: option.splits prod.splits if_splits)

lemma channel_decision_error:
  assumes "channel_decision v q k prior d = Inl e"
  shows "e = ControlIntegrity \<or> e = AIStateConflict"
proof -
  have "update_channels ws n op demo o' now d = Inl e' \<Longrightarrow> e' = AIControlKeyBindingError \<or> e' = ControlIntegrity" for ws n op demo o' now e'
    by (auto simp: update_channels_def change_control_def ebind_def split: if_splits option.splits sum.splits)
  then show ?thesis using assms
    by (fastforce simp: channel_decision_def Let_def split: if_splits sum.splits control_error.splits option.splits prod.splits)
qed

lemma channels_body_error:
  assumes "channels_body v q k t d = Inl e" "lasting e"
  shows "\<exists>p. consult (ks_workspace v) ''admin_ai_channels'' t d = Inr (Some p)"
proof (rule ccontr)
  assume none: "\<nexists>p. consult (ks_workspace v) ''admin_ai_channels'' t d = Inr (Some p)"
  have "lock_control ws busy d = Inl x \<Longrightarrow> \<not> lasting x" for ws busy x
    by (auto simp: lock_control_def lasting_def split: option.splits if_splits)
  moreover have "consult ws oper t d = Inl x \<Longrightarrow> \<not> lasting x" for ws oper x
    by (auto simp: consult_def lasting_def split: option.splits prod.splits disposition.splits)
  moreover have "append_audit a d1 = Inl x \<Longrightarrow> \<not> lasting x" for a d1 x
    by (auto simp: append_audit_def lasting_def split: if_splits)
  moreover have "remember v oper t rid st p now d1 = Inl x \<Longrightarrow> \<not> lasting x" for oper rid st p now d1 x
    by (auto simp: remember_def record_succeeded_def lasting_def split: if_splits option.splits prod.splits)
  moreover have "channel_decision v q k prior d1 = Inl x \<Longrightarrow> \<not> lasting x" for prior d1 x
    using channel_decision_error by (fastforce simp: lasting_def)
  moreover have "\<not> lasting AIStateConflict" by (simp add: lasting_def)
  ultimately show False using assms none
    by (auto simp: channels_body_def ebind_def ensure_def split: sum.splits option.splits prod.splits if_splits)
qed

lemma deferred_reply: "channel_decision v q k prior d = Inr (Inl e, d') \<Longrightarrow> reply_code e = deferred_code e"
  by (drule channel_decision_failed) (auto simp: reply_code_def deferred_code_def known_codes_def channel_codes_def)

lemma channels_recorded_once:
  assumes "control_ok d" "channels_body v q k (Some (kh, rh)) d = Inr (res, d')"
  shows "\<exists>p. consult (ks_workspace v) ''admin_ai_channels'' (Some (kh, rh)) d' = Inr (Some p) \<and> channels_reply res = recorded_reply p"
  using assms(2,1)
proof (cases rule: channels_body_cases)
  case (1 prior p r)
  then obtain cur s res' code where c: "control_of (ks_workspace v) d = Some cur" "p = control_projection s res' code" "control_row_ok s"
    "receipt_result ''admin_ai_channels'' res' code" "has_verified_binding s \<longrightarrow> has_verified_binding cur"
    using consult_receipt [OF assms(1)] by metis
  then show ?thesis using channel_replay_reply [OF c(3-5)] 1 by auto
next
  case (2 prior r d1 d2)
  then have "control_row_ok r" using channel_decision_changed [OF _ assms(1)] by blast
  then show ?thesis using remember_found [OF 2(7)] 2(4) recorded_success by (auto simp: channels_reply_def)
next
  case (3 prior e)
  then show ?thesis using remember_found [OF 3(6)] deferred_reply [OF 3(5)] recorded_failure by (auto simp: channels_reply_def)
qed

interpretation channel_keys: replaying timed_step control_ok "\<lambda>d d'. adds_to d d' \<and> keeps d d'" channels_request channels_recorded
proof unfold_locales
  fix s and q :: keyed_request and k
  assume ok: "control_ok s"
  obtain v r kh rh where q: "q = (v, r, kh, rh)" by (cases q)
  let ?body = "channels_body v r (k\<lparr>kt_busy := False\<rparr>) (Some (kh, rh))"
  show "control_ok (snd (channels_request q k s))"
    using ok channels_body_ok [of v r "k\<lparr>kt_busy := False\<rparr>" "Some (kh, rh)" s]
    by (auto simp: q run_uow_def split: sum.splits)
  fix a t
  assume ret: "channels_request q k s = (Returned a, t)"
  show "channels_recorded q t = Some a"
  proof (cases "?body s")
    case (Inl e)
    then have "lasting e" "a = Inl (reply_code e)" "t = s"
      using ret by (auto simp: q run_uow_def channels_answer_def split: if_splits)
    moreover obtain p where p: "consult (ks_workspace v) ''admin_ai_channels'' (Some (kh, rh)) s = Inr (Some p)"
      using channels_body_error [OF Inl] calculation(1) by blast
    ultimately show ?thesis using replay_answers [OF ok p, of r k] ret p by (simp add: q)
  next
    case (Inr x)
    then obtain res where body: "?body s = Inr (res, t)" and a: "a = channels_reply res"
      using ret by (cases x) (auto simp: q run_uow_def channels_answer_def)
    then show ?thesis using channels_recorded_once [OF ok body] by (auto simp: q)
  qed
next
  fix s t and q :: keyed_request and a
  assume st: "adds_to s t \<and> keeps s t" and ans: "channels_recorded q s = Some a"
  obtain v r kh rh where q: "q = (v, r, kh, rh)" by (cases q)
  from ans obtain p where p: "consult (ks_workspace v) ''admin_ai_channels'' (Some (kh, rh)) s = Inr (Some p)" "a = recorded_reply p"
    by (auto simp: q split: sum.splits option.splits)
  from p(1) obtain x where "find_receipt ''workspace'' (ks_workspace v) ''admin_ai_channels'' kh s = Some x" "ir_request_hash x = rh"
    "ir_outcome x = ''succeeded''" "ir_projection x = Some p" by (rule consult_SomeD) auto
  then have "consult (ks_workspace v) ''admin_ai_channels'' (Some (kh, rh)) t = Inr (Some p)"
    using find_receipt_grows [OF conjunct1 [OF st]] by (simp add: consult_def check_receipt_def replay_projection_def)
  then show "channels_recorded q t = Some a" using p(2) by (simp add: q)
next
  fix s and q :: keyed_request and a k
  assume ok: "control_ok s" and ans: "channels_recorded q s = Some a"
  obtain v r kh rh where q: "q = (v, r, kh, rh)" by (cases q)
  from ans obtain p where p: "consult (ks_workspace v) ''admin_ai_channels'' (Some (kh, rh)) s = Inr (Some p)" "a = recorded_reply p"
    by (auto simp: q split: sum.splits option.splits)
  then show "channels_request q k s = (Returned a, s)" using replay_answers [OF ok p(1)] by (simp add: q)
qed

lemma consult_later:
  assumes "control_ok d" "consult ws oper (Some (kh, rh)) d = Inr (Some p)" "rh' \<noteq> rh"
  shows "consult ws oper (Some (kh, rh')) (fold timed_step es d) = Inl AIStateConflict"
proof -
  have "adds_to d (fold timed_step es d)" using control.run_below [OF assms(1)] by blast
  moreover from assms(2) obtain x where "find_receipt ''workspace'' ws oper kh d = Some x" "ir_request_hash x = rh"
    by (rule consult_SomeD) auto
  ultimately have "find_receipt ''workspace'' ws oper kh (fold timed_step es d) = Some x" "ir_request_hash x = rh"
    by (simp_all add: find_receipt_grows)
  then show ?thesis using assms(3) by (simp add: consult_def check_receipt_def)
qed

lemma channels_row:
  assumes "channels_body v q k t d = Inr (res, d')" "control_ok d"
  shows "\<exists>cur. control_of (ks_workspace v) (fold timed_step es d') = Some cur"
proof -
  have "\<exists>prior. control_of (ks_workspace v) d = Some prior"
    using assms(1) by (auto simp: channels_body_def ebind_eq_Inr dest!: lock_controlD)
  moreover have "keeps d d'" by (rule channels_body_keeps [OF assms])
  moreover have "keeps d' (fold timed_step es d')" using control.run_below [OF channels_body_ok [OF assms]] by blast
  ultimately show ?thesis unfolding keeps_def by blast
qed

section \<open>What a rotation sends to the vault\<close>

lemma validated_text: "validate_key x ans = KeyVerified \<Longrightarrow> strip x \<noteq> []"
  by (auto simp: validate_key_def split: if_splits)

lemma secret_readD: "secret_read ver ans = Some s \<Longrightarrow> ans = VaultGave (Some (sv_value s)) (Some ver) \<and> sv_version s = ver \<and> strip (sv_value s) \<noteq> []"
  by (auto simp: secret_read_def split: if_splits vault_answer.splits option.splits)

lemma secret_writeD: "secret_write x ans = (Some s, sent) \<Longrightarrow> sv_value s = x \<and> sent = [x] \<and> (\<exists>y. ans = VaultGave y (Some (sv_version s)))"
  by (auto simp: secret_write_def split: if_splits vault_answer.splits option.splits)

lemma probe_verified:
  assumes "pb_failure (probe_candidate q k prior) = None"
  obtains prev ver x where "read_previous prior k = Some prev"
    "probe_candidate q k prior = \<lparr>pb_previous = prev, pb_attempted = True, pb_version = Some ver, pb_sent = [rq_candidate q], pb_failure = None\<rparr>"
    "rt_write k = VaultGave x (Some ver)" "rt_readback k = VaultGave (Some (rq_candidate q)) (Some ver)"
    "validate_key (rq_candidate q) (rt_first k) = KeyVerified" "validate_key (rq_candidate q) (rt_second k) = KeyVerified"
proof -
  obtain prev where prev: "read_previous prior k = Some prev" and one: "validate_key (rq_candidate q) (rt_first k) = KeyVerified"
    and p: "probe_candidate q k prior = write_candidate q k prev"
    using assms by (auto simp: probe_candidate_def Let_def split: option.splits if_splits)
  obtain s r sent where w: "secret_write (rq_candidate q) (rt_write k) = (Some s, sent)"
    and r: "secret_read (sv_version s) (rt_readback k) = Some r" "sv_value r = rq_candidate q"
    and two: "validate_key (sv_value r) (rt_second k) = KeyVerified"
    and shape: "write_candidate q k prev = \<lparr>pb_previous = prev, pb_attempted = True, pb_version = Some (sv_version s), pb_sent = sent, pb_failure = None\<rparr>"
    using assms p by (auto simp: write_candidate_def Let_def split: option.splits if_splits prod.splits)
  show thesis using that [OF prev _ _ _ one] p shape secret_writeD [OF w] secret_readD [OF r(1)] r(2) two by auto
qed

lemma probe_failure_sent:
  assumes "pb_failure (probe_candidate q k prior) = Some code"
  shows "(\<not> pb_attempted (probe_candidate q k prior) \<and> pb_sent (probe_candidate q k prior) = [])
    \<or> (pb_attempted (probe_candidate q k prior) \<and> pb_sent (probe_candidate q k prior) = [rq_candidate q]
        \<and> read_previous prior k = Some (pb_previous (probe_candidate q k prior)))"
proof (cases "validate_key (rq_candidate q) (rt_first k) = KeyVerified \<and> read_previous prior k \<noteq> None")
  case False
  then show ?thesis by (auto simp: probe_candidate_def Let_def split: option.splits)
next
  case True
  then have "snd (secret_write (rq_candidate q) (rt_write k)) = [rq_candidate q]"
    using validated_text by (auto simp: secret_write_def)
  then show ?thesis using True
    by (auto simp: probe_candidate_def write_candidate_def Let_def split: option.splits prod.splits)
qed

lemma read_previous_text: "read_previous prior k = Some prev \<Longrightarrow> prev = [] \<or> strip prev \<noteq> []"
  by (auto simp: read_previous_def split: option.splits dest: secret_readD)

text \<open>A candidate that was sent is followed by the previous value, if there is one.\<close>

definition restoring :: "rotation_request \<Rightarrow> string \<Rightarrow> string list" where
  "restoring q prev = rq_candidate q # (if prev = [] then [] else [prev])"

lemma compensated: "prev = [] \<or> strip prev \<noteq> [] \<Longrightarrow> rq_candidate q # snd (compensate prev k) = restoring q prev"
  by (auto simp: compensate_def restoring_def secret_write_def split: prod.splits)

lemma end_failed_result:
  assumes "end_failed v q k t prior (probe_candidate q k prior) code d = (res, sent, d')" "pb_failure (probe_candidate q k prior) = Some code"
    and "control_ok d" "control_of (ks_workspace (rs_control v)) d = Some prior"
  shows "(\<exists>c. res = Inl (AIKeyRotationFailed c)) \<and> kd_controls d' = kd_controls d
    \<and> (sent = [] \<or> (\<exists>prev. read_previous prior k = Some prev \<and> sent = restoring q prev))"
proof -
  let ?p = "probe_candidate q k prior"
  obtain final out where f: "probe_failed k ?p code = (final, sent)" and r: "res = Inl (AIKeyRotationFailed final)"
    and run: "run_uow (rt_fault k) (note_failure v q k t prior final) d = (out, d')"
    using assms(1) by (auto simp: end_failed_def split: prod.splits)
  have "kd_controls d' = kd_controls d"
    using run note_failure_ok [OF _ assms(3,4)] by (auto simp: run_uow_def split: sum.splits fault.splits)
  moreover have "sent = [] \<or> (\<exists>prev. read_previous prior k = Some prev \<and> sent = restoring q prev)"
    using probe_failure_sent [OF assms(2)]
  proof
    assume "\<not> pb_attempted ?p \<and> pb_sent ?p = []"
    then show ?thesis using f by (simp add: probe_failed_def)
  next
    assume a: "pb_attempted ?p \<and> pb_sent ?p = [rq_candidate q] \<and> read_previous prior k = Some (pb_previous ?p)"
    then have "sent = rq_candidate q # snd (compensate (pb_previous ?p) k)"
      using f by (auto simp: probe_failed_def split: prod.splits)
    then show ?thesis using a compensated read_previous_text by metis
  qed
  ultimately show ?thesis using r by simp
qed

text \<open>The fate of the commit plays no part before the commit.\<close>

lemma fault_free:
  "rotation_guard v q (k\<lparr>rt_fault := f\<rparr>) t d = rotation_guard v q k t d
   \<and> probe_candidate q (k\<lparr>rt_fault := f\<rparr>) prior = probe_candidate q k prior
   \<and> bind_candidate v q (k\<lparr>rt_fault := f\<rparr>) t prior ver d = bind_candidate v q k t prior ver d
   \<and> reread v (k\<lparr>rt_fault := f\<rparr>) prior ver fp d = reread v k prior ver fp d
   \<and> rolled_back (k\<lparr>rt_fault := f\<rparr>) p = rolled_back k p"
  by (cases k, hypsubst, unfold rotation_guard_def probe_candidate_def write_candidate_def read_previous_def bind_candidate_def
      rotation_audit_def reread_def rolled_back_def compensate_def rotation_tick.update_convs rotation_tick.select_convs,
      intro conjI refl)

lemma reread_row: "rt_reread k = NoFault \<Longrightarrow> control_of (ks_workspace (rs_control v)) d = Some r
    \<Longrightarrow> reread v k prior ver fp d = (reconcile_binding v prior ver fp r, d)"
  by (simp add: reread_def run_uow_def get_control_def get_or_create_def)

lemma reread_activated: "reread v k prior ver fp d = (Activated r, d') \<Longrightarrow> ct_revision r = ct_revision prior + 1
    \<and> ct_key_version r = Some ver \<and> ct_key_reference r = Some (rs_key_name v @ ''/'' @ ver) \<and> ct_fingerprint r = Some fp
    \<and> ct_operator_on r = ct_operator_on prior \<and> ct_demo_on r = ct_demo_on prior"
  by (auto simp: reread_def reconcile_binding_def split: prod.splits outcome.splits if_splits)

lemma rolled_back_sent:
  assumes "pb_sent p = [rq_candidate q]" "read_previous prior k = Some (pb_previous p)"
  shows "snd (rolled_back k p) = restoring q (pb_previous p)"
  using assms compensated [OF read_previous_text [OF assms(2)], of q k]
  by (cases "compensate (pb_previous p) k") (simp add: rolled_back_def)

text \<open>How a rotation whose candidate was verified ends.\<close>

lemma end_verified_cases:
  assumes "end_verified v q k later t prior p d = (res, sent, d')"
    and p: "p = \<lparr>pb_previous = prev, pb_attempted = True, pb_version = Some ver, pb_sent = [rq_candidate q], pb_failure = None\<rparr>"
    and prev: "read_previous prior k = Some prev"
    and ok: "control_ok d" "control_of (ks_workspace (rs_control v)) d = Some prior" "is_datetime (rt_now k)"
  shows "case res of
      Inr r \<Rightarrow> sent = [rq_candidate q] \<and> ct_revision r = ct_revision prior + 1 \<and> ct_key_version r = Some ver
        \<and> ct_key_reference r = Some (rs_key_name v @ ''/'' @ ver) \<and> ct_fingerprint r = Some (rs_fingerprint v (rq_candidate q))
        \<and> ct_operator_on r = ct_operator_on prior \<and> ct_demo_on r = ct_demo_on prior
    | Inl e \<Rightarrow> rt_fault k = NoFault \<longrightarrow> d' = d \<and> sent = restoring q prev"
proof -
  let ?body = "bind_candidate v q k t prior ver"
  have sent_back: "rq_candidate q # snd (compensate prev k) = restoring q prev" by (rule compensated [OF read_previous_text [OF prev]])
  have undone: "snd (rolled_back k p) = restoring q prev" using rolled_back_sent [of p q prior k] p prev by simp
  obtain out d1 where run: "run_uow (rt_fault k) ?body d = (out, d1)" by fastforce
  show ?thesis
  proof (cases out)
    case (Returned r)
    then have body: "?body d = Inr (r, d1)" using run by (simp add: run_uow_returned)
    have "res = Inr r \<and> sent = [rq_candidate q]" using assms(1) run Returned by (simp add: end_verified_def p)
    then show ?thesis using bind_candidate_ok [OF body ok] by simp
  next
    case (Raised x)
    have "d1 = d" using run Raised by (auto simp: run_uow_def split: sum.splits fault.splits)
    then have "(\<exists>e. res = Inl e) \<and> d' = d \<and> (sent = rq_candidate q # snd (compensate prev k) \<or> sent = snd (rolled_back k p))"
      using assms(1) run Raised by (cases x; cases "rolled_back k p") (auto simp: end_verified_def p)
    then show ?thesis using undone sent_back by auto
  next
    case ConnectionLost
    then have "rt_fault k \<noteq> NoFault" using run by (auto simp: run_uow_def split: sum.splits)
    moreover obtain rec d2 where r: "reread v k prior ver (rs_fingerprint v (rq_candidate q)) (later d1) = (rec, d2)" by fastforce
    have "(\<exists>e. res = Inl e) \<or> (\<exists>r. rec = Activated r \<and> res = Inr r \<and> sent = [rq_candidate q])"
      using assms(1) run ConnectionLost r by (cases rec) (auto simp: end_verified_def p split: prod.splits)
    ultimately show ?thesis using reread_activated r by auto
  qed
qed

section \<open>The gate for questions\<close>

text \<open>What a submission of the assistant learns when it asks the control for a key.\<close>

definition selection_of :: "control_service \<Rightarrow> actor_kind \<Rightarrow> time \<Rightarrow> fault \<Rightarrow> control_db \<Rightarrow> selection" where
  "selection_of v who now flt d =
     (case fst (select_binding v who now flt d) of
        Returned (Inr b) \<Rightarrow> Selected \<lparr>cb_version = kb_version b, cb_id = kb_id b, cb_revision = kb_revision b\<rparr>
      | Returned (Inl AIChannelDisabled) \<Rightarrow> ChannelOff
      | Returned (Inl AIControlUnavailable) \<Rightarrow> ControlDown ''AI_CHAT_UNAVAILABLE''
      | _ \<Rightarrow> SelectionFailed)"

definition channel_open :: "actor_kind \<Rightarrow> control_row \<Rightarrow> bool" where
  "channel_open who r = (case who of OperatorActor \<Rightarrow> ct_operator_on r | DemoActor \<Rightarrow> ct_demo_on r)"

lemma selection_of_row:
  assumes "control_ok d"
  shows "selection_of v who now flt d =
    (if flt \<noteq> NoFault then SelectionFailed
     else case control_of (ks_workspace v) d of
       None \<Rightarrow> ChannelOff
     | Some r \<Rightarrow> if channel_open who r
         then (case binding_of v who r of Inr b \<Rightarrow> Selected \<lparr>cb_version = kb_version b, cb_id = kb_id b, cb_revision = kb_revision b\<rparr>
               | Inl _ \<Rightarrow> ChannelOff)
         else ChannelOff)"
proof (cases "flt = NoFault")
  case False
  then show ?thesis by (cases flt) (simp_all add: selection_of_def select_binding_def run_uow_def get_control_def split: prod.splits)
next
  case True
  show ?thesis
  proof (cases "control_of (ks_workspace v) d")
    case None
    have "binding_of v who (fresh_control (ks_workspace v) now) = Inl AIChannelDisabled"
      by (simp add: binding_of_def fresh_control_def split: actor_kind.splits)
    then show ?thesis using True None
      by (simp add: selection_of_def select_binding_def run_uow_def get_control_def get_or_create_def)
  next
    case (Some r)
    have "control_row_ok r" using assms Some rows_okD by (auto simp: control_ok_def)
    then have "channel_open who r \<Longrightarrow> has_verified_binding r"
      using control_row_ok_enabled by (auto simp: channel_open_def split: actor_kind.splits)
    then show ?thesis using True Some
      by (auto simp: selection_of_def select_binding_def run_uow_def get_control_def get_or_create_def binding_of_def channel_open_def
          split: actor_kind.splits)
  qed
qed

end
