(* ===== verification/AdminGuarantees.thy ===== *)
theory AdminGuarantees
  imports AdminAI
begin

text \<open>
  The properties of the administrator's control over the assistant, each with a witness on concrete
  requests where it has hypotheses.
\<close>

section \<open>Samples\<close>

definition sample_control :: control_service where
  "sample_control = \<lparr>ks_workspace = ''demo'', ks_auth = sample_auth, ks_pepper = Some (\<lambda>x. ''h'' @ x), ks_sha = (\<lambda>x. ''s'' @ x)\<rparr>"

definition sample_rotation :: rotation_service where
  "sample_rotation = \<lparr>rs_control = sample_control, rs_key_name = ''openai'', rs_pepper = (\<lambda>x. ''h'' @ x),
     rs_fingerprint = (\<lambda>x. replicate 64 (CHR ''a''))\<rparr>"

definition sample_rotation_request :: rotation_request where
  "sample_rotation_request = \<lparr>rq_principal = sample_account, rq_password = ''secret'', rq_source = ''here'', rq_candidate = ''k1'',
     rq_expected = 0, rq_request = ''req-1'', rq_key = None\<rparr>"

definition sample_rotation_tick :: rotation_tick where
  "sample_rotation_tick = \<lparr>rt_now = 0, rt_auth_down = False, rt_ensure = NoFault, rt_busy = False, rt_previous = VaultFailed,
     rt_first = ProviderResponds (Some ''completed''), rt_write = VaultGave None (Some ''v1''),
     rt_readback = VaultGave (Some ''k1'') (Some ''v1''), rt_second = ProviderResponds (Some ''completed''),
     rt_restore = VaultFailed, rt_audit_id = ''a1'', rt_receipt_id = ''r1'', rt_fault = NoFault, rt_reread = NoFault\<rparr>"

definition sample_channels :: channel_request where
  "sample_channels = \<lparr>kr_principal = sample_account, kr_password = ''secret'', kr_source = ''here'', kr_expected = 0,
     kr_operator_on = True, kr_demo_on = False, kr_request = ''req-2'', kr_key = None\<rparr>"

definition sample_channel_tick :: channel_tick where
  "sample_channel_tick = \<lparr>kt_now = 0, kt_auth_down = False, kt_ensure = NoFault, kt_busy = False,
     kt_vault = VaultGave (Some ''k1'') (Some ''v1''), kt_provider = ProviderResponds (Some ''completed''),
     kt_audit_id = ''a2'', kt_receipt_id = ''r2'', kt_fault = NoFault\<rparr>"

definition sample_created :: control_db where
  "sample_created = fold timed_step [Look sample_control 0 NoFault] empty_control"

lemma datetime_zero: "is_datetime 0"
  by (simp add: is_datetime_def date_of_def unix_ordinal_def max_ordinal_def day_length_def minutes_def)

lemma sample_created_row: "sample_created = \<lparr>kd_controls = [fresh_control ''demo'' 0], kd_audit = [], kd_receipts = []\<rparr>"
  by (simp add: sample_created_def timed_step_def datetime_zero run_uow_def get_control_def get_or_create_def control_of_def
      empty_control_def select_one_def sample_control_def)

section \<open>Properties\<close>

text \<open>C39: the rows of the control state are well typed in every history: one row per workspace, revisions
  that are not negative, and both check constraints of the table true, never unknown, so that the
  cases where SQL would let a row with missing fields pass do not arise.\<close>

theorem control_rows_checked:
  "distinct (map ct_workspace (kd_controls (fold timed_step es empty_control)))
   \<and> list_all (\<lambda>r. 0 \<le> ct_revision r \<and> sql_key_binding r = Some True \<and> sql_enabled r = Some True)
       (kd_controls (fold timed_step es empty_control))"
proof -
  have "rows_ok (fold timed_step es empty_control)" using control_reachable by (simp add: control_ok_def)
  moreover have "0 \<le> ct_revision r \<and> sql_key_binding r = Some True \<and> sql_enabled r = Some True" if "control_row_ok r" for r
    using sql_definite [OF that] that unfolding control_row_ok_def checks_pass_def by blast
  ultimately show ?thesis unfolding rows_ok_def list_all_iff by blast
qed

text \<open>C19: the audit log explains the control state: in every history, the revision of a workspace is the
  number of its successful events, these step from each revision to the next, and the channels are
  those of the last change that was logged; an open channel has a verified key.\<close>

theorem control_log_is_state:
  "list_all (\<lambda>r. let log = log_of (ct_workspace r) (fold timed_step es empty_control) in
       ct_revision r = int (length log) \<and> revisions_of log = count_up (length log)
       \<and> logged_channels log = (ct_operator_on r, ct_demo_on r)
       \<and> (if ct_operator_on r \<or> ct_demo_on r then has_verified_binding r else True))
     (kd_controls (fold timed_step es empty_control))"
proof -
  let ?d = "fold timed_step es empty_control"
  have ok: "control_ok ?d" by (rule control_reachable)
  have "row_logged r (log_of (ct_workspace r) ?d) \<and> control_row_ok r" if "r \<in> set (kd_controls ?d)" for r
  proof -
    have "control_of (ct_workspace r) ?d = Some r" unfolding control_of_def
      by (rule select_one_unique [where k = ct_workspace]) (use that ok in \<open>auto simp: control_ok_def rows_ok_def\<close>)
    then show ?thesis using ok that by (auto simp: control_ok_def logs_ok_def rows_ok_def split: option.splits)
  qed
  then show ?thesis using control_row_ok_enabled by (fastforce simp: list_all_iff Let_def row_logged_def)
qed

text \<open>C22: a change of the channels happens at most once per idempotency key: once its transaction has
  committed, whether or not the caller learned of it, the same request is answered with the same
  reply for good and changes nothing, whatever happened in between; another request under the same
  key is refused.\<close>

theorem channels_exactly_once:
  assumes "d = fold timed_step hs empty_control"
    and "channels_body v q k (Some (kh, rh)) d = Inr (res, d')"
  shows "channels_request (v, q, kh, rh) k' (fold timed_step es d') = (Returned (channels_reply res), fold timed_step es d')
    \<and> (rh' \<noteq> rh \<longrightarrow> channels_request (v, q', kh, rh') k' (fold timed_step es d') = (Raised AIStateConflict, fold timed_step es d'))"
proof -
  let ?t = "fold timed_step es d'"
  have ok: "control_ok d" unfolding assms(1) by (rule control_reachable)
  have "\<not> kt_busy k" using assms(2) by (auto simp: channels_body_def ebind_eq_Inr dest: lock_controlD)
  then have "k\<lparr>kt_busy := False\<rparr> = k" by (cases k) simp
  then have first: "channels_request (v, q, kh, rh) k d = (Returned (channels_reply res), d')"
    using assms(2) by (simp add: run_uow_def channels_answer_def)
  obtain p where "consult (ks_workspace v) ''admin_ai_channels'' (Some (kh, rh)) d' = Inr (Some p)"
    using channels_recorded_once [OF ok assms(2)] by blast
  then have "consult (ks_workspace v) ''admin_ai_channels'' (Some (kh, rh')) ?t = Inl AIStateConflict" if "rh' \<noteq> rh"
    using that consult_later [where d = d' and es = es] channels_body_ok [OF assms(2) ok] by blast
  moreover obtain cur where "control_of (ks_workspace v) ?t = Some cur"
    using channels_row [where es = es, OF assms(2) ok] by blast
  ultimately have "rh' \<noteq> rh \<longrightarrow> channels_request (v, q', kh, rh') k' ?t = (Raised AIStateConflict, ?t)"
    by (simp add: channels_body_def lock_control_def run_uow_def channels_answer_def lasting_def)
  then show ?thesis using channel_keys.exactly_once [OF ok first] by blast
qed

definition sample_refused :: control_db where
  "sample_refused = (case channels_body sample_control sample_channels sample_channel_tick (Some (''kh'', ''rh'')) sample_created of
     Inr (_, d) \<Rightarrow> d | Inl _ \<Rightarrow> sample_created)"

lemma sample_refusal: "channels_body sample_control sample_channels sample_channel_tick (Some (''kh'', ''rh'')) sample_created
    = Inr (Inl AIControlUnavailable, sample_refused)"
  by (simp add: sample_refused_def sample_created_row channels_body_def lock_control_def control_of_def select_one_def
      sample_control_def sample_channels_def sample_channel_tick_def fresh_control_def consult_def check_receipt_def find_receipt_def
      channel_decision_def Let_def has_verified_binding_def remember_def record_succeeded_def)

theorem channels_exactly_once_witness:
  "channels_request (sample_control, sample_channels, ''kh'', ''rh'') sample_channel_tick
     (fold timed_step [Rotate sample_rotation sample_rotation_request sample_rotation_tick None] sample_refused)
   = (Returned (Inl ''ADMIN_AI_SECRET_UNAVAILABLE''),
      fold timed_step [Rotate sample_rotation sample_rotation_request sample_rotation_tick None] sample_refused)"
  using channels_exactly_once [OF sample_created_def sample_refusal]
  by (simp add: channels_reply_def reply_code_def known_codes_def del: channels_request.simps fold.simps)

text \<open>C24: a receipt can be read back: in every history, the projection of a control row rebuilds the row it
  was written from, and after any later history, on the row of that time, it still rebuilds a row with
  the same projection; rows do not disappear.\<close>

theorem receipt_round_trip:
  "list_all (\<lambda>s. replay_control_projection s (control_projection s res code) = Some s
     \<and> (case control_of (ct_workspace s) (fold timed_step es' (fold timed_step es empty_control)) of
          None \<Rightarrow> False
        | Some cur \<Rightarrow> (case replay_control_projection cur (control_projection s res code) of
            None \<Rightarrow> False
          | Some r \<Rightarrow> control_projection r res code = control_projection s res code)))
     (kd_controls (fold timed_step es empty_control))"
proof -
  let ?d = "fold timed_step es empty_control"
  have ok: "control_ok ?d" by (rule control_reachable)
  have later: "keeps ?d (fold timed_step es' ?d)" using control.run_below [OF ok] by blast
  show ?thesis unfolding list_all_iff
  proof
    fix s assume s: "s \<in> set (kd_controls ?d)"
    have row: "control_row_ok s" using s ok by (simp add: control_ok_def rows_ok_def)
    have "control_of (ct_workspace s) ?d = Some s" unfolding control_of_def
      by (rule select_one_unique [where k = ct_workspace]) (use s ok in \<open>auto simp: control_ok_def rows_ok_def\<close>)
    then obtain cur where cur: "control_of (ct_workspace s) (fold timed_step es' ?d) = Some cur"
      "has_verified_binding s \<longrightarrow> has_verified_binding cur" using later unfolding keeps_def by blast
    show "replay_control_projection s (control_projection s res code) = Some s
      \<and> (case control_of (ct_workspace s) (fold timed_step es' ?d) of None \<Rightarrow> False
         | Some cur \<Rightarrow> (case replay_control_projection cur (control_projection s res code) of None \<Rightarrow> False
           | Some r \<Rightarrow> control_projection r res code = control_projection s res code))"
      using replay_row [OF row, of s res code] replay_row [OF row cur(2), of res code] cur(1) by auto
  qed
qed

text \<open>C25: a change of the channels that fails, other than by a lost connection, changes no setting: the control
  rows and the audit log stay (a missing row may have been created), and the receipts stay or gain
  exactly one, which holds the error the caller gets.\<close>

theorem failed_change_changes_nothing:
  assumes "kw_db w = fold timed_step es empty_control"
    and "set_channels v q k w = (Inl e, w')" and "e \<noteq> ControlConnectionLost"
  shows "kd_audit (kw_db w') = kd_audit (kw_db w)
    \<and> (kd_controls (kw_db w') = kd_controls (kw_db w)
       \<or> kd_controls (kw_db w') = kd_controls (snd (get_control v (kt_now k) (kw_db w))))
    \<and> (kd_receipts (kw_db w') = kd_receipts (kw_db w)
       \<or> (\<exists>x p. kd_receipts (kw_db w') = kd_receipts (kw_db w) @ [x] \<and> ir_projection x = Some p
            \<and> recorded_reply p = Inl (reply_code e)))"
proof -
  let ?d = "kw_db w"
  have ok: "control_ok ?d" unfolding assms(1) by (rule control_reachable)
  obtain r base where g: "get_control v (kt_now k) ?d = (r, base)" by fastforce
  then have made: "control_ok base" and same: "kd_audit base = kd_audit ?d" "kd_receipts base = kd_receipts ?d"
    using get_or_create_ok [OF ok, of "ks_workspace v" "kt_now k" r base] by (simp_all add: get_control_def)
  consider "kw_db w' = ?d" | "kw_db w' = base"
    | t where "channels_body v q k t base = Inr (Inl e, kw_db w')"
    using assms(2,3)
    by (auto simp: set_channels_def ensure_control_state_def settled_control_def run_uow_def g
        split: prod.splits sum.splits fault.splits)
  then show ?thesis
  proof cases
    case 3
    from 3 made show ?thesis
    proof (cases rule: channels_body_cases)
      case (3 prior e')
      then have e: "e' = e" by simp
      have rec: "recorded_reply (control_projection prior ''failed'' (Some (deferred_code e))) = Inl (reply_code e)"
        using recorded_failure deferred_reply [OF 3(5)] e by simp
      have "kd_audit (kw_db w') = kd_audit base \<and> kd_controls (kw_db w') = kd_controls base
        \<and> (kd_receipts (kw_db w') = kd_receipts base \<or> (\<exists>x. kd_receipts (kw_db w') = kd_receipts base @ [x]
            \<and> ir_projection x = Some (control_projection prior ''failed'' (Some (deferred_code e)))))"
        using remember_effect [OF 3(6)] e by blast
      then show ?thesis using same rec g by (metis snd_conv)
    qed simp_all
  qed (use same g in simp_all)
qed

definition sample_admin_world :: control_world where
  "sample_admin_world = \<lparr>kw_auth = sample_state, kw_db = empty_control\<rparr>"

lemma sample_set_fails: "fst (set_channels sample_control sample_channels sample_channel_tick sample_admin_world) = Inl AIControlUnavailable"
  by (simp add: set_channels_def service_reauthenticate_def reauthenticate_def ensure_attempt_allowed_def authenticate_def
      sample_admin_world_def sample_state_def sample_control_def sample_channels_def sample_channel_tick_def sample_account_def sample_auth_def
      recent_attempts_def attempts_of_def max_failed_attempts_def empty_db_def select_one_def channel_ticket_def make_ticket_def
      ensure_control_state_def get_control_def get_or_create_def control_of_def empty_control_def run_uow_def settled_control_def
      channels_body_def lock_control_def consult_def fresh_control_def channel_decision_def has_verified_binding_def remember_def Let_def)

theorem failed_change_changes_nothing_witness:
  "kd_audit (kw_db (snd (set_channels sample_control sample_channels sample_channel_tick sample_admin_world))) = []"
proof -
  have "set_channels sample_control sample_channels sample_channel_tick sample_admin_world
      = (Inl AIControlUnavailable, snd (set_channels sample_control sample_channels sample_channel_tick sample_admin_world))"
    by (rule prod_eqI) (simp_all add: sample_set_fails)
  moreover have "kw_db sample_admin_world = fold timed_step [] empty_control" by (simp add: sample_admin_world_def)
  ultimately have "kd_audit (kw_db (snd (set_channels sample_control sample_channels sample_channel_tick sample_admin_world)))
      = kd_audit (kw_db sample_admin_world)"
    using failed_change_changes_nothing by blast
  then show ?thesis by (simp add: sample_admin_world_def empty_control_def)
qed

text \<open>C20: a rotation binds only what it wrote and read back: if it succeeds, the row names the version the
  vault gave for the candidate, the value read back under that version was the candidate, both tries of
  it were accepted, and only the key and the revision have changed; if it fails and the connection
  held, the control rows are as before, and either nothing was sent to the vault or the candidate was
  followed by the previous value, so that the newest version is the one in use.\<close>

theorem rotation_binds_what_it_read_back:
  assumes "d = fold timed_step es empty_control" and "is_datetime (rt_now k)"
    and "rotation_guard v q k t d = Inr (Inr prior)"
    and "rotate_locked v q k later t d = (res, sent, d')"
  shows "case res of
      Inr r \<Rightarrow> (\<exists>ver x. rt_write k = VaultGave x (Some ver) \<and> rt_readback k = VaultGave (Some (rq_candidate q)) (Some ver)
          \<and> ct_key_version r = Some ver \<and> ct_key_reference r = Some (rs_key_name v @ ''/'' @ ver))
        \<and> validate_key (rq_candidate q) (rt_first k) = KeyVerified \<and> validate_key (rq_candidate q) (rt_second k) = KeyVerified
        \<and> ct_fingerprint r = Some (rs_fingerprint v (rq_candidate q)) \<and> ct_revision r = ct_revision prior + 1
        \<and> ct_operator_on r = ct_operator_on prior \<and> ct_demo_on r = ct_demo_on prior \<and> sent = [rq_candidate q]
    | Inl e \<Rightarrow> rt_fault k = NoFault \<longrightarrow> kd_controls d' = kd_controls d
        \<and> (sent = [] \<or> (\<exists>prev. read_previous prior k = Some prev \<and> sent = restoring q prev))"
proof -
  have ok: "control_ok d" unfolding assms(1) by (rule control_reachable)
  have prior: "control_of (ks_workspace (rs_control v)) d = Some prior" using assms(3) by (rule rotation_guardD) auto
  let ?p = "probe_candidate q k prior"
  show ?thesis
  proof (cases "pb_failure ?p")
    case (Some code)
    then have "end_failed v q k t prior ?p code d = (res, sent, d')" using assms(3,4) by (simp add: rotate_locked_def)
    from end_failed_result [OF this Some ok prior] show ?thesis by auto
  next
    case None
    then have run: "end_verified v q k later t prior ?p d = (res, sent, d')" using assms(3,4) by (simp add: rotate_locked_def)
    obtain prev ver x where p: "read_previous prior k = Some prev"
      "?p = \<lparr>pb_previous = prev, pb_attempted = True, pb_version = Some ver, pb_sent = [rq_candidate q], pb_failure = None\<rparr>"
      "rt_write k = VaultGave x (Some ver)" "rt_readback k = VaultGave (Some (rq_candidate q)) (Some ver)"
      "validate_key (rq_candidate q) (rt_first k) = KeyVerified" "validate_key (rq_candidate q) (rt_second k) = KeyVerified"
      using probe_verified [OF None] by blast
    show ?thesis using end_verified_cases [OF run p(2,1) ok prior assms(2)] p by (auto split: sum.splits)
  qed
qed

lemma sample_guard: "rotation_guard sample_rotation sample_rotation_request sample_rotation_tick None sample_created
    = Inr (Inr (fresh_control ''demo'' 0))"
  by (simp add: rotation_guard_def sample_created_row lock_control_def control_of_def select_one_def sample_rotation_def sample_control_def
      sample_rotation_tick_def sample_rotation_request_def consult_def fresh_control_def)

definition sample_bound :: control_row where
  "sample_bound = (fresh_control ''demo'' 0)\<lparr>ct_key_name := Some ''openai'', ct_key_version := Some ''v1'',
     ct_key_reference := Some ''openai/v1'', ct_fingerprint := Some (replicate 64 (CHR ''a'')), ct_verified_at := Some 0,
     ct_validation := ''verified'', ct_revision := 1, ct_updated_by := Some ''op'', ct_updated_at := 0\<rparr>"

lemma sample_fingerprint: "is_fingerprint (replicate 64 (CHR ''a''))"
  by (simp add: is_fingerprint_def is_hex_digit_def is_digit_def Let_def list_all_iff)

lemma sample_bind: "\<exists>d. bind_candidate sample_rotation sample_rotation_request sample_rotation_tick None (fresh_control ''demo'' 0) ''v1'' sample_created
    = Inr (sample_bound, d)"
  using sample_fingerprint
  by (simp add: bind_candidate_def activate_key_def change_control_def sample_created_row select_one_def sample_rotation_def sample_control_def
      sample_rotation_tick_def sample_rotation_request_def sample_account_def fresh_control_def checks_pass_def sql_key_binding_def
      sql_enabled_def sql_any_def sql_all_def sql_reference_def append_audit_def remember_def sample_bound_def)

lemma sample_probe: "probe_candidate sample_rotation_request sample_rotation_tick (fresh_control ''demo'' 0)
    = \<lparr>pb_previous = [], pb_attempted = True, pb_version = Some ''v1'', pb_sent = [''k1''], pb_failure = None\<rparr>"
  by (simp add: probe_candidate_def write_candidate_def read_previous_def sample_rotation_request_def sample_rotation_tick_def
      fresh_control_def validate_key_def secret_write_def secret_read_def strip_def is_space_def Let_def)

theorem rotation_binds_what_it_read_back_witness:
  "\<exists>d. rotate_locked sample_rotation sample_rotation_request sample_rotation_tick id None sample_created = (Inr sample_bound, [''k1''], d)
     \<and> ct_revision sample_bound = ct_revision (fresh_control ''demo'' 0) + 1"
proof -
  obtain d where b: "bind_candidate sample_rotation sample_rotation_request sample_rotation_tick None (fresh_control ''demo'' 0) ''v1'' sample_created
      = Inr (sample_bound, d)" using sample_bind by blast
  have run: "rotate_locked sample_rotation sample_rotation_request sample_rotation_tick id None sample_created = (Inr sample_bound, [''k1''], d)"
    using b by (simp add: rotate_locked_def sample_guard sample_probe end_verified_def run_uow_def) (simp add: sample_rotation_tick_def)
  have "is_datetime (rt_now sample_rotation_tick)" by (simp add: sample_rotation_tick_def datetime_zero)
  from rotation_binds_what_it_read_back [OF sample_created_def this sample_guard run]
  have "ct_revision sample_bound = ct_revision (fresh_control ''demo'' 0) + 1" by simp
  then show ?thesis using run by blast
qed



text \<open>C21: the channels are the gate of the assistant: in every history of the control, a submission that asks
  for a key gets one only when the channel of its actor is open, and then the version, the revision
  and the binding of the row at that time; with a closed channel it is answered that the channel is
  off (or by its own replay), and an open channel never fails for want of a verified key.\<close>

theorem channel_gates_questions:
  "case after_selection env a (selection_of v who now flt (fold timed_step es empty_control)) of
     Admitting c n \<Rightarrow> flt = NoFault
       \<and> (case control_of (ks_workspace v) (fold timed_step es empty_control) of
            None \<Rightarrow> False
          | Some r \<Rightarrow> channel_open who r \<and> ct_key_version r = Some (cb_version c) \<and> ct_revision r = cb_revision c
              \<and> cb_id c = ks_sha v (''bizpulse-exact-credential-binding-v1'' @ CHR 0x00 # ks_workspace v @ CHR 0x00
                  # the (ct_key_reference r) @ CHR 0x00 # the (ct_fingerprint r)))
   | Replaying after \<Rightarrow> after = ThenFail (Err (if flt = NoFault then ChannelDisabled else ChatUnavailable ''AI_CHAT_UNAVAILABLE''))
       \<and> (if flt = NoFault
            then (case control_of (ks_workspace v) (fold timed_step es empty_control) of None \<Rightarrow> True | Some r \<Rightarrow> \<not> channel_open who r)
            else True)
   | Done out \<Rightarrow> out = Failing (Err (ChatInvalid ''request_id_invalid''))
   | _ \<Rightarrow> False"
proof -
  let ?d = "fold timed_step es empty_control"
  note sel = selection_of_row [OF control_reachable, of v who now flt es]
  have verified: "has_verified_binding r \<and> ct_key_version r \<noteq> None"
    if "control_of (ks_workspace v) ?d = Some r" "channel_open who r" for r
  proof -
    have "control_row_ok r" using that(1) control_reachable [of es] rows_okD by (auto simp: control_ok_def)
    then have "has_verified_binding r" using that(2) control_row_ok_enabled by (auto simp: channel_open_def split: actor_kind.splits)
    then show ?thesis by (auto simp: has_verified_binding_def split: option.splits)
  qed
  show ?thesis
  proof (cases "flt = NoFault")
    case False
    then show ?thesis using sel by (simp add: after_selection_def credential_of_def)
  next
    case True
    show ?thesis
    proof (cases "control_of (ks_workspace v) ?d")
      case None
      then show ?thesis using sel True by (simp add: after_selection_def credential_of_def)
    next
      case (Some r)
      show ?thesis
      proof (cases "channel_open who r")
        case False
        then show ?thesis using sel True Some by (simp add: after_selection_def credential_of_def)
      next
        case open': True
        then have "binding_of v who r = Inr \<lparr>kb_version = the (ct_key_version r),
             kb_id = ks_sha v (''bizpulse-exact-credential-binding-v1'' @ CHR 0x00 # ks_workspace v @ CHR 0x00 # the (ct_key_reference r)
               @ CHR 0x00 # the (ct_fingerprint r)), kb_revision = ct_revision r\<rparr>"
          using verified [OF Some] by (simp add: binding_of_def channel_open_def)
        then show ?thesis using sel True Some open' verified [OF Some] by (auto simp: after_selection_def credential_of_def)
      qed
    qed
  qed
qed

end
