(* ===== verification/Spec2Isabelle.thy ===== *)
theory Spec2Isabelle
  imports Fifo SalesAds InventoryRisk Replenishment OperatingProfit ProfitBridge NewProduct Operators Sandbox ActionEvidence AssistantSamples
    AdminGuarantees
begin

text \<open>
  BizPulse: a verification library for the operating core of the program under
  \<open>src/bizpulse/src\<close>.

  The program. BizPulse is a web application over one PostgreSQL database. It imports the sales,
  advertising, stock and cost data of a shop, computes analyses from them, turns findings into
  action cards that an operator decides on, lets anonymous viewers try decisions in a sandbox of
  their own, and answers questions through an assistant that plans with a model provider, runs
  fixed queries and binds every number of an answer to a fact. Three kinds of code make up its core:
  pure calculators (\<open>analysis/\<close>, \<open>profit/\<close>, \<open>forecast/\<close>), services whose operations are
  transactions over the rows of \<open>db/schema.py\<close> (\<open>services/\<close> on top of \<open>repositories/\<close>), and
  contracts that validate what crosses a boundary (\<open>actions/contracts.py\<close>, \<open>ai/contracts.py\<close>,
  \<open>synthetic/boundary.py\<close>). The library models these three kinds; the theorems are about the
  definitions that translate them.

  Ground.
  \<^item> \<open>Prelude\<close>: results as sums with bind and fold, Python dictionaries as association lists, text,
    the exceptions of the calculators, and the interfaces \<open>guarded_machine\<close> (steps keep an
    invariant) and \<open>ordered_machine\<close> (states only grow).
  \<^item> \<open>PyDecimal\<close>, \<open>PyDate\<close>, \<open>PyTime\<close>, \<open>PyValue\<close>, \<open>PyJson\<close>, \<open>PyRegex\<close>: what the program uses of
    Python's \<open>decimal\<close> (28 digits, explicit rounding modes, interface \<open>rounding_mode\<close>), \<open>datetime\<close>,
    untyped cells, JSON and \<open>re\<close>. \<open>PyTime\<close> proves that ISO texts of dates and times are read back.
  \<^item> \<open>Evidence\<close>: metrics and evidence records of \<open>analysis/evidence.py\<close>.

  Calculators. Each is one function from rows to a result or an exception, its loops as recursion.
  \<^item> \<open>Fifo\<close> (\<open>fifo_cost_aging_calculator.py\<close>): lots are conserved, allocations are backed by receipts,
    the oldest eligible lot goes first.
  \<^item> \<open>SalesAds\<close>, \<open>StockHistory\<close> with \<open>InventoryRisk\<close>, \<open>Replenishment\<close>, \<open>OperatingProfit\<close>: totals are
    partitioned by SKU and by day, risk reads the newest snapshot, an order covers its target,
    the layers of profit subtract exactly what they name.
  \<^item> \<open>ProfitBridge\<close> (\<open>profit/bridge.py\<close>): effects add up to the change, the mix satisfies the margin
    identity. \<open>Analogs\<close> and \<open>NewProduct\<close> (\<open>forecast/\<close>): the five best analogs, scenarios in order.

  Rows and transactions.
  \<^item> \<open>Schema\<close>: the rows as records, the database as one record of tables, the statements the
    repositories use (\<open>select_one\<close>, \<open>update_where\<close>, \<open>delete_where\<close>), and the unit of work
    \<open>run_uow\<close> of \<open>db/unit_of_work.py\<close>: a transaction is a function from a state to an error or a
    result with the next state; an error rolls back; the connection may be lost before or after the
    commit took effect, and the caller cannot tell. The interface \<open>replaying\<close> is the contract of an
    operation with an idempotency key.

  Sessions and accounts.
  \<^item> \<open>Sessions\<close> (\<open>demo_session_service.py\<close>, \<open>repositories/sessions.py\<close>): admission of viewers under a
    rate, expiry, the end of a session; an ended session never comes back.
  \<^item> \<open>Operators\<close> (\<open>operator_auth_service.py\<close>, rotation of the password, bootstrap): the budget of failed
    logins, closed sessions stay closed.

  Action cards.
  \<^item> \<open>Lifecycle\<close> (\<open>actions/state_machine.py\<close>, \<open>actions/contracts.py\<close>, \<open>repositories/actions.py\<close>),
    \<open>Actions\<close> (\<open>services/action_service.py\<close>), \<open>CardHistory\<close> and \<open>ActionCards\<close>: a card is the replay of
    the log of its decisions, a decision with a key happens once, a stale or rival decision is
    refused, a viewer sees the cards as of the snapshot of its session.
  \<^item> \<open>Sandbox\<close>: simulations and resets touch only the overlays of their session.
  \<^item> \<open>ActionAuthority\<close> and \<open>ActionEvidence\<close>: the facts a draft is checked against are those of the stored
    runs, and the numbers on a card are linked to them.

  The assistant.
  \<^item> \<open>Boundary\<close>, \<open>ChatContracts\<close>, \<open>AnswerMerge\<close>: the screening of text and records, the contracts of
    plans, results and answers, and the binding of the numbers of an answer to facts.
  \<^item> \<open>ChatStore\<close> (\<open>repositories/ai_chat.py\<close> with its triggers), \<open>Chat\<close> (questions, prompts, plans, the
    provider adapter), \<open>Calendar\<close> (days and months of the budget), \<open>ChatProcess\<close> (\<open>submit\<close> as a
    process: one step is one transaction, one read or one call), \<open>ChatDraft\<close> (drafts from answers).
  \<^item> \<open>ChatInvariants\<close>, \<open>ChatWorld\<close>, \<open>ChatHistories\<close>: the invariant of the rows and of the running
    submissions over every interleaving; \<open>Assistant\<close> states what follows (budgets, active turns,
    the life of a turn, answers on evidence, the end of every submission) and
    \<open>AssistantSamples\<close> holds concrete runs for it.

  The control of the assistant.
  \<^item> \<open>AIControl\<close> (\<open>repositories/admin_ai.py\<close>, \<open>repositories/idempotency.py\<close>,
    \<open>services/ai_control_service.py\<close>, \<open>services/admin_mutation_idempotency.py\<close>): the two channels, the
    bound key, the audit log and the receipts; \<open>KeyRotation\<close> (\<open>openai_key_rotation_service.py\<close>).
  \<^item> \<open>AIControlState\<close>, \<open>AIControlHistories\<close>: the invariant of these tables and that every history keeps it;
    \<open>AdminAI\<close> and \<open>AdminGuarantees\<close>: the log replays to the state, receipts answer for good and can be
    read back, failures change nothing, a rotation binds what it read back, and the channels are the
    gate of the questions that \<open>ChatProcess\<close> submits.

  How parts meet. Calculators share \<open>PyValue\<close> and \<open>Evidence\<close> only. \<open>ActionAuthority\<close> reads the rows the
  analysis and forecast services store. \<open>Sandbox\<close> and \<open>Actions\<close> share the rules of \<open>Lifecycle\<close>. The
  assistant runs on the sessions of \<open>Sessions\<close> (deleting a session deletes its turns), creates drafts
  through \<open>Actions\<close> with the authority of \<open>ActionAuthority\<close>, and asks \<open>AIControl\<close> for its key. The
  properties that span parts are in \<open>ActionCards\<close>, \<open>ActionEvidence\<close>, \<open>Assistant\<close> and \<open>AdminGuarantees\<close>.

  What is a parameter. Random identifiers and tokens, \<open>uuid5\<close>, SHA-256 and keyed hashes, the verifier
  of passwords, the clock, the fate of a connection, the answers of the model provider, of the query
  executor and of the key vault, and the texts of the prompts are arguments or fields of the
  environment. Nothing is assumed of them beyond what a theorem names.

  Reading of the state. Text is ASCII; JSON numbers are integers, since the program writes decimals as
  text; a decimal is its numeric value; a time is a number of microseconds since 1970 in UTC. A
  transaction is one step because the code takes the lock of the row it works on first, and within it
  the clock stands still. Foreign keys and limits on the length of columns are checked only where a
  service relies on them. Records that are scaffolding of the model (points of a process, ticks, worlds,
  events) have no counterpart in the code and no entry in the map.

  Bounds. No definition uses fuel. Loops of the code are structural recursion or come with a measure. The
  submissions of the assistant end because every own step lowers a rank of at most 23
  (\<open>Assistant.rank\<close>); histories are finite lists of events of any length.

  Not modelled, and why.
  \<^item> \<open>ai/query_executor.py\<close>, \<open>ai/monthly_sales_report.py\<close>: SQL aggregation over the canonical dataset; the
    assistant takes its result as an input, and its guarantees hold for any result.
  \<^item> \<open>services/import_service.py\<close> and the preparation of datasets, adapters and storage: files, worker
    threads and blob storage; the modelled parts see only the dataset version that comes out.
  \<^item> \<open>services/analysis_service.py\<close>, \<open>forecast_service.py\<close>, \<open>profit_bridge_service.py\<close>: SQL around the
    calculators, serialisation and snapshot hashes.
  \<^item> Library, preferences, summaries, exports, the public release, synthetic data, configuration: views,
    spreadsheets, data preparation and wiring without state the modelled parts depend on.
  \<^item> The HTTP layer (\<open>api/\<close>), except the codes and the projection of the administrator's routes; the
    migrations, except the tables and triggers of the modelled parts; the release scripts.
  \<^item> Within modelled parts: telemetry and the list of saved answers of the assistant, the cache of keys in
    \<open>secrets/azure_openai.py\<close>, and the hash of a result's snapshot.
\<close>

end
